(* ===== verification/Go_Prelude.thy ===== *)
theory Go_Prelude
  imports Complex_Main "HOL-Library.AList" "HOL-Library.Word"
begin

text \<open>
  The vocabulary every component shares: the parts of Go's standard library the source uses
  (time, durations, strings, slices), association lists for the maps the code ranges over, and
  the collections of facts that carry the component proofs.

  Conventions. A \<open>time.Time\<close> is the number of nanoseconds since Go's zero time, so that
  \<open>IsZero\<close> is equality with 0; a \<open>time.Duration\<close> is a number of nanoseconds.
  A \<open>float64\<close> is a real number: rounding, infinities and NaN are not modelled, except where
  the source tests for NaN itself. A Go string is a list of bytes. A Go map that is only looked
  up is a partial function; a map whose size or iteration matters is an association list with
  distinct keys, the list order being one of the orders in which Go may iterate.
\<close>

named_theorems go_simps \<open>unfolding of the standard library's small functions\<close>
named_theorems range_intros \<open>bounds of scores, contributions and weights\<close>
named_theorems frame_simps \<open>fields that an operation leaves alone\<close>

section \<open>Time\<close>

type_synonym time = int
type_synonym duration = int

abbreviation (input) zero_time :: time where
  "zero_time \<equiv> 0"

definition IsZero :: "time \<Rightarrow> bool" where
  [go_simps]: "IsZero t \<longleftrightarrow> t = zero_time"

definition Before :: "time \<Rightarrow> time \<Rightarrow> bool" where
  [go_simps]: "Before a b \<longleftrightarrow> a < b"

definition After :: "time \<Rightarrow> time \<Rightarrow> bool" where
  [go_simps]: "After a b \<longleftrightarrow> a > b"

text \<open>\<open>Time.Sub\<close> saturates at the bounds of a 64-bit duration.\<close>

definition max_duration :: duration where
  "max_duration = 2 ^ 63 - 1"

definition min_duration :: duration where
  "min_duration = - (2 ^ 63)"

definition Sub :: "time \<Rightarrow> time \<Rightarrow> duration" where
  "Sub a b = max min_duration (min max_duration (a - b))"

definition Add :: "time \<Rightarrow> duration \<Rightarrow> time" where
  [go_simps]: "Add t d = t + d"

definition millisecond :: duration where
  [go_simps]: "millisecond = 1000000"

definition second :: duration where
  [go_simps]: "second = 1000000000"

definition minute :: duration where
  [go_simps]: "minute = 60000000000"

definition hour :: duration where
  [go_simps]: "hour = 3600000000000"

text \<open>\<open>Duration.Seconds\<close>\<close>

definition Seconds :: "duration \<Rightarrow> real" where
  "Seconds d = real_of_int d / 1000000000"

text \<open>\<open>int(d.Seconds())\<close> for a non-negative duration, as the sinks use it.\<close>

definition whole_seconds :: "duration \<Rightarrow> int" where
  [go_simps]: "whole_seconds d = d div second"

lemma Sub_self [simp]: "Sub t t = 0"
  by (simp add: Sub_def max_duration_def min_duration_def)

lemma Sub_nonneg_iff [simp]: "0 \<le> Sub a b \<longleftrightarrow> b \<le> a"
  by (auto simp: Sub_def max_duration_def min_duration_def)

lemma Sub_neg_iff [simp]: "Sub a b < 0 \<longleftrightarrow> a < b"
  by (auto simp: Sub_def max_duration_def min_duration_def)

lemma Sub_pos_iff [simp]: "0 < Sub a b \<longleftrightarrow> b < a"
  by (auto simp: Sub_def max_duration_def min_duration_def)

lemma Sub_mono: "a \<le> a' \<Longrightarrow> Sub a b \<le> Sub a' b"
  by (auto simp: Sub_def max_duration_def min_duration_def)

lemma Sub_antimono: "b \<le> b' \<Longrightarrow> Sub a b' \<le> Sub a b"
  by (auto simp: Sub_def max_duration_def min_duration_def)

lemma Sub_in_range: "\<bar>a - b\<bar> < 2 ^ 63 \<Longrightarrow> Sub a b = a - b"
  by (simp add: Sub_def max_duration_def min_duration_def)

lemma Seconds_nonneg [simp]: "0 \<le> Seconds d \<longleftrightarrow> 0 \<le> d"
  by (simp add: Seconds_def zero_le_divide_iff)

lemma Seconds_pos [simp]: "0 < Seconds d \<longleftrightarrow> 0 < d"
  by (simp add: Seconds_def zero_less_divide_iff)

lemma Seconds_zero [simp]: "Seconds 0 = 0"
  by (simp add: Seconds_def)

lemma Seconds_mono: "d \<le> d' \<Longrightarrow> Seconds d \<le> Seconds d'"
  by (simp add: Seconds_def divide_right_mono)

section \<open>Errors\<close>

text \<open>
  A Go \<open>error\<close> is a value: a leaf with its message, or a message wrapped around another
  error (\<open>fmt.Errorf\<close> with \<open>%w\<close>). The formatted arguments of a message are left out.
\<close>

datatype error = Fault string | Wrap string error

definition is_err :: "error + 'a \<Rightarrow> bool" where
  "is_err r \<longleftrightarrow> (case r of Inl _ \<Rightarrow> True | Inr _ \<Rightarrow> False)"

lemma is_err_simps [simp]: "is_err (Inl e)" "\<not> is_err (Inr x)"
  by (simp_all add: is_err_def)

section \<open>Strings\<close>

definition HasPrefix :: "string \<Rightarrow> string \<Rightarrow> bool" where
  [go_simps]: "HasPrefix s p \<longleftrightarrow> take (length p) s = p"

definition HasSuffix :: "string \<Rightarrow> string \<Rightarrow> bool" where
  [go_simps]: "HasSuffix s p \<longleftrightarrow> length p \<le> length s \<and> drop (length s - length p) s = p"

definition TrimPrefix :: "string \<Rightarrow> string \<Rightarrow> string" where
  [go_simps]: "TrimPrefix s p = (if HasPrefix s p then drop (length p) s else s)"

definition TrimSuffix :: "string \<Rightarrow> string \<Rightarrow> string" where
  [go_simps]: "TrimSuffix s p = (if HasSuffix s p then take (length s - length p) s else s)"

text \<open>\<open>strings.Split\<close> and \<open>strings.Join\<close>, the separator of \<open>Split\<close> being one byte.\<close>

fun Split :: "string \<Rightarrow> char \<Rightarrow> string list" where
  "Split [] c = [[]]"
| "Split (x # xs) c =
     (if x = c then [] # Split xs c
      else (case Split xs c of [] \<Rightarrow> [[x]] | w # ws \<Rightarrow> (x # w) # ws))"

fun Join :: "string list \<Rightarrow> string \<Rightarrow> string" where
  "Join [] sep = []"
| "Join [w] sep = w"
| "Join (w # ws) sep = w @ sep @ Join ws sep"

text \<open>\<open>strings.ToLower\<close> on ASCII.\<close>

definition lower_char :: "char \<Rightarrow> char" where
  "lower_char c = (if 65 \<le> (of_char c :: nat) \<and> (of_char c :: nat) \<le> 90
                   then char_of ((of_char c :: nat) + 32) else c)"

definition ToLower :: "string \<Rightarrow> string" where
  "ToLower s = map lower_char s"

text \<open>\<open>strings.TrimSpace\<close> on ASCII white space.\<close>

definition is_space :: "char \<Rightarrow> bool" where
  "is_space c \<longleftrightarrow> (of_char c :: nat) \<in> {9, 10, 11, 12, 13, 32}"

definition TrimSpace :: "string \<Rightarrow> string" where
  "TrimSpace s = rev (dropWhile is_space (rev (dropWhile is_space s)))"

text \<open>\<open>strconv.Itoa\<close> of a non-negative number.\<close>

function itoa :: "nat \<Rightarrow> string" where
  "itoa n = (if n < 10 then [''0123456789'' ! n] else itoa (n div 10) @ [''0123456789'' ! (n mod 10)])"
  by pat_completeness auto

termination by (relation "measure id") auto

declare itoa.simps [simp del]

lemma HasPrefix_append [simp]: "HasPrefix (p @ s) p"
  by (simp add: HasPrefix_def)

lemma HasPrefix_iff: "HasPrefix s p \<longleftrightarrow> (\<exists>r. s = p @ r)"
  by (auto simp: HasPrefix_def) (metis append_take_drop_id)

lemma HasSuffix_iff: "HasSuffix s p \<longleftrightarrow> (\<exists>r. s = r @ p)"
proof
  assume "HasSuffix s p"
  then have "s = take (length s - length p) s @ p"
    by (metis HasSuffix_def append_take_drop_id)
  then show "\<exists>r. s = r @ p" ..
next
  assume "\<exists>r. s = r @ p"
  then show "HasSuffix s p" by (auto simp: HasSuffix_def)
qed

lemma TrimSuffix_append [simp]: "TrimSuffix (r @ p) p = r"
  by (simp add: TrimSuffix_def HasSuffix_def)

lemma TrimPrefix_append [simp]: "TrimPrefix (p @ r) p = r"
  by (simp add: TrimPrefix_def)

lemma Split_nonempty [simp]: "Split s c \<noteq> []"
  by (induction s) (auto split: list.splits)

lemma Join_Split: "Join (Split s c) [c] = s"
proof (induction s)
  case Nil
  then show ?case by simp
next
  case (Cons x xs)
  then obtain w ws where w: "Split xs c = w # ws"
    by (metis Split_nonempty neq_Nil_conv)
  with Cons show ?case by (cases ws) auto
qed

lemma Split_no_sep: "w \<in> set (Split s c) \<Longrightarrow> c \<notin> set w"
proof (induction s arbitrary: w)
  case Nil
  then show ?case by simp
next
  case (Cons x xs)
  then show ?case by (cases "Split xs c") (auto split: if_splits)
qed

lemma Split_append: "c \<notin> set w \<Longrightarrow> Split (w @ c # s) c = w # Split s c"
  by (induction w) auto

lemma Split_single: "c \<notin> set w \<Longrightarrow> Split w c = [w]"
  by (induction w) auto

lemma Split_Join:
  "ws \<noteq> [] \<Longrightarrow> \<forall>w \<in> set ws. c \<notin> set w \<Longrightarrow> Split (Join ws [c]) c = ws"
proof (induction ws "[c]" rule: Join.induct)
  case (2 w)
  then show ?case by (simp add: Split_single)
next
  case (3 w v vs)
  then show ?case by (simp add: Split_append)
qed simp

section \<open>Slices used as sets\<close>

text \<open>\<open>append\<close> guarded by a membership test, the code's idiom for a set kept as a slice.\<close>

definition add_new :: "'a list \<Rightarrow> 'a \<Rightarrow> 'a list" where
  "add_new xs x = (if x \<in> set xs then xs else xs @ [x])"

lemma set_add_new [simp]: "set (add_new xs x) = insert x (set xs)"
  by (auto simp: add_new_def)

lemma distinct_add_new [simp]: "distinct (add_new xs x) \<longleftrightarrow> distinct xs"
  by (auto simp: add_new_def)

lemma add_new_mem [simp]: "x \<in> set xs \<Longrightarrow> add_new xs x = xs"
  by (simp add: add_new_def)

lemma length_add_new_le: "length xs \<le> length (add_new xs x)"
  by (simp add: add_new_def)

lemma add_new_eq_Nil [simp]: "add_new xs x \<noteq> []"
  by (auto simp: add_new_def)

section \<open>Maps with iteration\<close>

abbreviation keys :: "('k \<times> 'v) list \<Rightarrow> 'k list" where
  "keys m \<equiv> map fst m"

definition wf_map :: "('k \<times> 'v) list \<Rightarrow> bool" where
  "wf_map m \<longleftrightarrow> distinct (keys m)"

lemma wf_map_Nil [simp]: "wf_map []"
  by (simp add: wf_map_def)

lemma wf_map_update [simp]: "wf_map m \<Longrightarrow> wf_map (AList.update k v m)"
  by (simp add: wf_map_def distinct_update)

lemma wf_map_delete [simp]: "wf_map m \<Longrightarrow> wf_map (AList.delete k m)"
  by (simp add: wf_map_def distinct_delete)

lemma wf_map_filter [simp]: "wf_map m \<Longrightarrow> wf_map (filter P m)"
  by (simp add: wf_map_def distinct_map_filter)

lemma set_update_subset: "set (AList.update k v m) \<subseteq> insert (k, v) (set m)"
  by (induction m) auto

lemma wf_map_count: "wf_map m \<Longrightarrow> length (filter P m) = card {p \<in> set m. P p}"
  by (metis distinct_card distinct_filter distinct_map set_filter wf_map_def)

lemma card_subset_insert: "finite B \<Longrightarrow> A \<subseteq> insert x B \<Longrightarrow> card A \<le> Suc (card B)"
  by (metis card_insert_le_m1 card_mono card_insert_if finite_insert le_SucI order_refl order_trans)

lemma length_update:
  "length (AList.update k v m) = (if k \<in> set (keys m) then length m else Suc (length m))"
  by (induction m) auto

lemma length_delete_mem:
  "wf_map m \<Longrightarrow> k \<in> set (keys m) \<Longrightarrow> Suc (length (AList.delete k m)) = length m"
proof (induction m)
  case Nil
  then show ?case by simp
next
  case (Cons p m)
  obtain a b where p: "p = (a, b)" by (cases p)
  show ?case
  proof (cases "a = k")
    case True
    with Cons.prems p have "k \<notin> set (keys m)" by (simp add: wf_map_def)
    then have "AList.delete k m = m" by (simp add: delete_id)
    with True p show ?thesis by simp
  next
    case False
    with Cons p show ?thesis by (simp add: wf_map_def)
  qed
qed

lemma map_of_filter_wf:
  "wf_map m \<Longrightarrow> map_of (filter (\<lambda>(k, v). P k v) m) k =
     (case map_of m k of Some v \<Rightarrow> if P k v then Some v else None | None \<Rightarrow> None)"
proof (induction m)
  case Nil
  then show ?case by simp
next
  case (Cons p m)
  obtain a b where p: "p = (a, b)" by (cases p)
  show ?case
  proof (cases "k = a")
    case True
    with Cons.prems p have "k \<notin> set (keys m)" by (simp add: wf_map_def)
    then have "map_of m k = None" by (simp add: map_of_eq_None_iff)
    with Cons p True show ?thesis by (auto simp: wf_map_def)
  next
    case False
    with Cons p show ?thesis by (auto simp: wf_map_def)
  qed
qed

end
