(* ===== verification/Governor.thy ===== *)
theory Governor
  imports Go_Prelude
begin

text \<open>
  The overload governor, \<open>internal/resources/governor.go\<close>: a ring of ten 100 ms buckets that
  is advanced lazily, and a shed decision with hysteresis. The ring implements an abstract meter
  that remembers every charge: the rate it reports is the number of charges in the last ten
  ticks.
\<close>

section \<open>The ring\<close>

definition govBuckets :: int where
  "govBuckets = 10"

definition bucketDur :: duration where
  "bucketDur = 100 * millisecond"

definition sheddExitFraction :: real where
  "sheddExitFraction = 8 / 10"

record Governor =
  maxPerSec :: real
  counts :: "int list"
  lastTick :: int
  shedding :: bool

definition NewGovernor :: "real \<Rightarrow> Governor" where
  "NewGovernor m = \<lparr>maxPerSec = m, counts = replicate (nat govBuckets) 0, lastTick = -1, shedding = False\<rparr>"

text \<open>
  Go's integer division truncates; \<open>UnixNano\<close> counts from 1970. A clock before 1970 would
  index the ring negatively, which panics; the properties assume a later clock.
\<close>

definition UnixNano :: "time \<Rightarrow> int" where
  "UnixNano t = t - 62135596800 * second"

definition tick :: "time \<Rightarrow> int" where
  "tick now = (if 0 \<le> UnixNano now then UnixNano now div bucketDur
               else - ((- UnixNano now) div bucketDur))"

definition slot :: "int \<Rightarrow> nat" where
  "slot t = nat (t mod govBuckets)"

definition advanceLocked :: "Governor \<Rightarrow> int \<Rightarrow> Governor" where
  "advanceLocked g t =
     (if lastTick g < 0 then g\<lparr>lastTick := t\<rparr>
      else let elapsed = t - lastTick g in
        if elapsed \<le> 0 then g
        else if elapsed \<ge> govBuckets
        then g\<lparr>counts := map (\<lambda>_. 0) (counts g), lastTick := t\<rparr>
        else g\<lparr>counts := fold (\<lambda>i cs. cs[slot (lastTick g + i) := 0]) [1..elapsed] (counts g),
               lastTick := t\<rparr>)"

definition rateLocked :: "Governor \<Rightarrow> real" where
  "rateLocked g = real_of_int (sum_list (counts g))"

definition Charge :: "Governor \<Rightarrow> time \<Rightarrow> Governor" where
  "Charge g now =
     (if maxPerSec g \<le> 0 then g
      else let t = tick now; g = advanceLocked g t
           in g\<lparr>counts := (counts g)[slot t := counts g ! slot t + 1]\<rparr>)"

definition Shed :: "Governor \<Rightarrow> time \<Rightarrow> bool \<times> Governor" where
  "Shed g now =
     (if maxPerSec g \<le> 0 then (False, g)
      else let g = advanceLocked g (tick now);
               rate = rateLocked g;
               g = (if shedding g
                    then (if rate \<le> maxPerSec g * sheddExitFraction then g\<lparr>shedding := False\<rparr> else g)
                    else if rate \<ge> maxPerSec g then g\<lparr>shedding := True\<rparr> else g)
           in (shedding g, g))"

definition Rate :: "Governor \<Rightarrow> time \<Rightarrow> real \<times> Governor" where
  "Rate g now = (let g = advanceLocked g (tick now) in (rateLocked g, g))"

section \<open>The abstract meter\<close>

text \<open>The meter keeps the ticks of all charges and the shed flag.\<close>

record meter =
  charges :: "int list"
  m_shedding :: bool

definition meter_rate :: "int list \<Rightarrow> int \<Rightarrow> real" where
  "meter_rate H t = real (length (filter (\<lambda>h. t - govBuckets < h) H))"

datatype gov_op = OpCharge | OpShed | OpRate
datatype gov_out = OutNone | OutShed bool | OutRate real

definition meter_step :: "real \<Rightarrow> meter \<Rightarrow> gov_op \<Rightarrow> int \<Rightarrow> gov_out \<times> meter" where
  "meter_step m s q t =
     (case q of
        OpCharge \<Rightarrow> (OutNone, if m \<le> 0 then s else s\<lparr>charges := t # charges s\<rparr>)
      | OpShed \<Rightarrow>
          if m \<le> 0 then (OutShed False, s)
          else let b = (if m_shedding s then m * sheddExitFraction < meter_rate (charges s) t
                        else m \<le> meter_rate (charges s) t)
               in (OutShed b, s\<lparr>m_shedding := b\<rparr>)
      | OpRate \<Rightarrow> (OutRate (meter_rate (charges s) t), s))"

definition gov_step :: "Governor \<Rightarrow> gov_op \<Rightarrow> time \<Rightarrow> gov_out \<times> Governor" where
  "gov_step g q now =
     (case q of
        OpCharge \<Rightarrow> (OutNone, Charge g now)
      | OpShed \<Rightarrow> (let (b, g') = Shed g now in (OutShed b, g'))
      | OpRate \<Rightarrow> (let (r, g') = Rate g now in (OutRate r, g')))"

fun gov_run :: "Governor \<Rightarrow> (gov_op \<times> time) list \<Rightarrow> gov_out list" where
  "gov_run g [] = []"
| "gov_run g ((q, now) # qs) = (let (out, g') = gov_step g q now in out # gov_run g' qs)"

fun meter_run :: "real \<Rightarrow> meter \<Rightarrow> (gov_op \<times> time) list \<Rightarrow> gov_out list" where
  "meter_run m s [] = []"
| "meter_run m s ((q, now) # qs) =
     (let (out, s') = meter_step m s q (tick now) in out # meter_run m s' qs)"

section \<open>The ring implements the meter\<close>

text \<open>Bucket \<open>i\<close> counts the charges of the window whose tick falls in slot \<open>i\<close>.\<close>

definition in_slot :: "int list \<Rightarrow> int \<Rightarrow> nat \<Rightarrow> int" where
  "in_slot H t i = int (length (filter (\<lambda>h. slot h = i \<and> t - govBuckets < h) H))"

definition ring_ok :: "Governor \<Rightarrow> int list \<Rightarrow> bool" where
  "ring_ok g H \<longleftrightarrow>
     length (counts g) = 10 \<and> (\<forall>h \<in> set H. 0 \<le> h \<and> h \<le> lastTick g) \<and>
     (lastTick g < 0 \<longrightarrow> H = []) \<and> (\<forall>i < 10. counts g ! i = in_slot H (lastTick g) i)"

lemma slot_less [simp]: "slot t < 10"
  by (simp add: slot_def govBuckets_def nat_less_iff)

lemma slot_eq_iff: "slot a = slot b \<longleftrightarrow> a mod 10 = b mod 10"
  by (simp add: slot_def govBuckets_def eq_nat_nat_iff)

lemma slot_eq_near: "slot a = slot b \<Longrightarrow> \<bar>a - b\<bar> < 10 \<Longrightarrow> a = b"
  unfolding slot_eq_iff by presburger

lemma slot_add_10 [simp]: "slot (a + 10) = slot a"
  by (simp add: slot_eq_iff)

lemma clear_length [simp]: "length (fold (\<lambda>i cs. cs[slot (l + i) := 0]) xs cs) = length cs"
  by (induction xs arbitrary: cs) auto

lemma clear_nth:
  "i < length cs \<Longrightarrow> fold (\<lambda>i cs. cs[slot (l + i) := (0::int)]) xs cs ! i
     = (if \<exists>j \<in> set xs. slot (l + j) = i then 0 else cs ! i)"
  by (induction xs arbitrary: cs) (auto simp: nth_list_update)

lemma in_slot_empty:
  assumes "\<forall>h \<in> set H. h \<le> l" and "l < t" and "t - l < 10" and "slot (l + j) = i" and "1 \<le> j" and "l + j \<le> t"
  shows "in_slot H t i = 0"
proof -
  have "slot h \<noteq> i" if h: "h \<in> set H" "t - 10 < h" for h
  proof
    assume "slot h = i"
    with assms(4) have "slot h = slot (l + j)" by simp
    moreover have "\<bar>h - (l + j)\<bar> < 10" using assms h by auto
    ultimately have "h = l + j" by (rule slot_eq_near)
    with assms(1,5) h show False by auto
  qed
  then have "filter (\<lambda>h. slot h = i \<and> t - govBuckets < h) H = []"
    by (auto simp: filter_empty_conv govBuckets_def)
  then show ?thesis by (simp add: in_slot_def)
qed

lemma in_slot_same:
  assumes "\<forall>h \<in> set H. h \<le> l" and "l \<le> t" and "\<forall>j. 1 \<le> j \<longrightarrow> l + j \<le> t \<longrightarrow> slot (l + j) \<noteq> i"
  shows "in_slot H t i = in_slot H l i"
proof -
  have "slot h = i \<and> t - 10 < h \<longleftrightarrow> slot h = i \<and> l - 10 < h" if h: "h \<in> set H" for h
  proof -
    have False if a: "slot h = i" "l - 10 < h" "h \<le> t - 10"
    proof -
      have "1 \<le> h + 10 - l" "l + (h + 10 - l) \<le> t" using a by auto
      with assms(3) have "slot (l + (h + 10 - l)) \<noteq> i" by blast
      moreover have "l + (h + 10 - l) = h + 10" by simp
      ultimately show False using a(1) slot_add_10 [of h] by metis
    qed
    with assms(2) show ?thesis by force
  qed
  then have "filter (\<lambda>h. slot h = i \<and> t - govBuckets < h) H = filter (\<lambda>h. slot h = i \<and> l - govBuckets < h) H"
    by (intro filter_cong) (simp_all add: govBuckets_def)
  then show ?thesis by (simp add: in_slot_def)
qed

lemma in_slot_old: "\<forall>h \<in> set H. h \<le> t - 10 \<Longrightarrow> in_slot H t i = 0"
  by (auto simp: in_slot_def govBuckets_def filter_empty_conv)

lemma advance_fields [simp]:
  "maxPerSec (advanceLocked g t) = maxPerSec g" "shedding (advanceLocked g t) = shedding g"
  by (simp_all add: advanceLocked_def Let_def)

lemma advance_ring:
  assumes "ring_ok g H" and "0 \<le> t" and "lastTick g \<le> t"
  shows "ring_ok (advanceLocked g t) H" and "lastTick (advanceLocked g t) = t"
proof -
  let ?l = "lastTick g"
  show l: "lastTick (advanceLocked g t) = t"
    using assms(3) by (auto simp: advanceLocked_def Let_def)
  have b: "\<forall>h \<in> set H. 0 \<le> h \<and> h \<le> t" using assms by (auto simp: ring_ok_def)
  have len: "length (counts (advanceLocked g t)) = 10"
    using assms(1) by (simp add: advanceLocked_def Let_def ring_ok_def)
  have "counts (advanceLocked g t) ! i = in_slot H t i" if i: "i < 10" for i
  proof -
    consider "?l < 0" | "0 \<le> ?l" "t = ?l" | "0 \<le> ?l" "10 \<le> t - ?l" | "0 \<le> ?l" "?l < t" "t - ?l < 10"
      using assms(3) by fastforce
    then show ?thesis
    proof cases
      case 1
      with assms(1) i show ?thesis by (simp add: advanceLocked_def ring_ok_def in_slot_def)
    next
      case 2
      with assms(1) i show ?thesis by (simp add: advanceLocked_def ring_ok_def)
    next
      case 3
      then have "in_slot H t i = 0"
        using assms(1) by (intro in_slot_old) (auto simp: ring_ok_def)
      with 3 assms(1) i show ?thesis
        by (simp add: advanceLocked_def ring_ok_def Let_def govBuckets_def)
    next
      case 4
      have c: "counts (advanceLocked g t) ! i
          = (if \<exists>j \<in> {1..t - ?l}. slot (?l + j) = i then 0 else counts g ! i)"
        using 4 assms(1) i by (simp add: advanceLocked_def Let_def govBuckets_def ring_ok_def clear_nth)
      show ?thesis
      proof (cases "\<exists>j \<in> {1..t - ?l}. slot (?l + j) = i")
        case True
        then obtain j where j: "1 \<le> j" "?l + j \<le> t" "slot (?l + j) = i" by auto
        have "\<forall>h \<in> set H. h \<le> ?l" using assms(1) by (simp add: ring_ok_def)
        from in_slot_empty [OF this 4(2,3) j(3,1,2)] True c show ?thesis by simp
      next
        case False
        have "in_slot H t i = in_slot H ?l i"
          using assms(1) 4 False by (intro in_slot_same) (auto simp: ring_ok_def)
        with False c assms(1) i show ?thesis by (simp add: ring_ok_def)
      qed
    qed
  qed
  with l len b assms(1,2) show "ring_ok (advanceLocked g t) H" by (simp add: ring_ok_def)
qed

lemma sum_slots:
  "(\<Sum>i<10. int (length (filter (\<lambda>h. slot h = i \<and> P h) H))) = int (length (filter P H))"
proof (induction H)
  case (Cons h H)
  have "int (length (filter (\<lambda>h. slot h = i \<and> P h) (h # H)))
      = (if i = slot h then (if P h then 1 else 0) else 0) + int (length (filter (\<lambda>h. slot h = i \<and> P h) H))" for i
    by auto
  then show ?case using Cons by (simp add: sum.distrib)
qed simp

lemma ring_rate:
  assumes "ring_ok g H"
  shows "rateLocked g = meter_rate H (lastTick g)"
proof -
  have "sum_list (counts g) = (\<Sum>i<10. counts g ! i)"
    using assms by (simp add: sum_list_sum_nth ring_ok_def atLeast0LessThan)
  also have "\<dots> = (\<Sum>i<10. in_slot H (lastTick g) i)"
    using assms by (intro sum.cong) (auto simp: ring_ok_def)
  also have "\<dots> = int (length (filter (\<lambda>h. lastTick g - govBuckets < h) H))"
    unfolding in_slot_def by (rule sum_slots)
  finally show ?thesis by (simp add: rateLocked_def meter_rate_def)
qed

lemma ring_charge:
  assumes "ring_ok g H" and "0 \<le> lastTick g"
  shows "ring_ok (g\<lparr>counts := (counts g)[slot (lastTick g) := counts g ! slot (lastTick g) + 1]\<rparr>)
           (lastTick g # H)"
  using assms by (auto simp: ring_ok_def nth_list_update in_slot_def govBuckets_def)

lemma gov_step_meter:
  assumes "ring_ok g (charges s)" and "shedding g = m_shedding s"
    and "0 \<le> tick now" and "lastTick g \<le> tick now"
    and "gov_step g q now = (out, g')" and "meter_step (maxPerSec g) s q (tick now) = (out', s')"
  shows "out = out' \<and> ring_ok g' (charges s') \<and> shedding g' = m_shedding s' \<and> maxPerSec g' = maxPerSec g
    \<and> lastTick g' \<le> tick now"
proof -
  note adv = advance_ring [OF assms(1,3,4)]
  note rate = ring_rate [OF adv(1), unfolded adv(2)]
  show ?thesis
  proof (cases q)
    case OpCharge
    have "ring_ok ((advanceLocked g (tick now))\<lparr>counts := (counts (advanceLocked g (tick now)))
        [slot (tick now) := counts (advanceLocked g (tick now)) ! slot (tick now) + 1]\<rparr>) (tick now # charges s)"
      using ring_charge [OF adv(1)] assms(3) by (simp add: adv(2))
    with OpCharge assms adv(2) show ?thesis
      by (cases "maxPerSec g \<le> 0") (auto simp: gov_step_def meter_step_def Charge_def Let_def)
  next
    case OpShed
    let ?a = "advanceLocked g (tick now)"
    have sh: "ring_ok (h\<lparr>shedding := b\<rparr>) H \<longleftrightarrow> ring_ok h H" for h b H by (simp add: ring_ok_def)
    show ?thesis
    proof (cases "maxPerSec g \<le> 0")
      case True
      with OpShed assms show ?thesis by (auto simp: gov_step_def meter_step_def Shed_def)
    next
      case False
      let ?b = "if shedding g then maxPerSec g * sheddExitFraction < rateLocked ?a
                else maxPerSec g \<le> rateLocked ?a"
      have "Shed g now = (?b, ?a\<lparr>shedding := ?b\<rparr>)"
        using False by (cases "shedding g") (simp_all add: Shed_def Let_def not_le)
      then have "out = OutShed ?b" "g' = ?a\<lparr>shedding := ?b\<rparr>"
        using OpShed assms(5) by (simp_all add: gov_step_def)
      moreover have "out' = OutShed ?b" "s' = s\<lparr>m_shedding := ?b\<rparr>"
        using OpShed assms(2,6) False by (auto simp: meter_step_def rate Let_def)
      ultimately show ?thesis using adv by (simp add: sh)
    qed
  next
    case OpRate
    with assms adv rate show ?thesis
      by (auto simp: gov_step_def meter_step_def Rate_def Let_def)
  qed
qed

lemma gov_run_meter:
  assumes "ring_ok g (charges s)" and "shedding g = m_shedding s" and "sorted (map (tick \<circ> snd) qs)"
    and "\<forall>(q, now) \<in> set qs. 0 \<le> tick now \<and> lastTick g \<le> tick now"
  shows "gov_run g qs = meter_run (maxPerSec g) s qs"
  using assms
proof (induction qs arbitrary: g s)
  case (Cons q qs)
  obtain p now where q: "q = (p, now)" by (cases q)
  obtain out g' where g': "gov_step g p now = (out, g')" by fastforce
  obtain out' s' where s': "meter_step (maxPerSec g) s p (tick now) = (out', s')" by fastforce
  have now: "0 \<le> tick now" "lastTick g \<le> tick now" using Cons.prems(4) q by auto
  note step = gov_step_meter [OF Cons.prems(1,2) now g' s']
  have "gov_run g' qs = meter_run (maxPerSec g') s' qs"
    using step Cons.prems(3,4) q by (intro Cons.IH) fastforce+
  with step g' s' q show ?case by simp
qed simp

section \<open>Properties\<close>

text \<open>
  C17. The ring of buckets implements the meter: for every sequence of \<open>Charge\<close>, \<open>Shed\<close> and
  \<open>Rate\<close> calls on a clock that does not run backwards, every answer is the one of a meter that
  remembers all charges, counts those of the last ten ticks, starts to shed at the budget and
  stops only at 0.8 of it.
\<close>

theorem governor_refines_meter:
  assumes "sorted (map (tick \<circ> snd) qs)" and "\<forall>(q, now) \<in> set qs. 0 \<le> tick now"
  shows "gov_run (NewGovernor m) qs = meter_run m \<lparr>charges = [], m_shedding = False\<rparr> qs"
proof -
  have "ring_ok (NewGovernor m) []"
    by (simp add: ring_ok_def NewGovernor_def govBuckets_def in_slot_def)
  from gov_run_meter [of "NewGovernor m" "\<lparr>charges = [], m_shedding = False\<rparr>" qs] this assms
  show ?thesis by (fastforce simp: NewGovernor_def)
qed

definition epoch :: time where
  "epoch = 62135596800 * second"

theorem governor_refines_meter_witness:
  "gov_run (NewGovernor 2) [(OpCharge, epoch), (OpCharge, epoch), (OpShed, epoch), (OpShed, epoch + second)]
     = [OutNone, OutNone, OutShed True, OutShed False]"
  using governor_refines_meter [of "[(OpCharge, epoch), (OpCharge, epoch), (OpShed, epoch),
      (OpShed, epoch + second)]" 2]
  by (simp add: tick_def UnixNano_def epoch_def second_def bucketDur_def millisecond_def meter_step_def
      meter_rate_def govBuckets_def sheddExitFraction_def)

text \<open>
  The governor never sheds when it is switched off, and switched on it sheds only while the
  number of charges in the window is above 0.8 of the budget.
\<close>

theorem Shed_only_over_budget:
  assumes "fst (Shed g now)"
  shows "0 < maxPerSec g \<and> maxPerSec g * sheddExitFraction < fst (Rate g now)"
  using assms
  by (auto simp: Shed_def Rate_def Let_def sheddExitFraction_def split: if_splits)

theorem Shed_only_over_budget_witness:
  "let g = (NewGovernor 2)\<lparr>counts := [2, 1, 0, 0, 0, 0, 0, 0, 0, 0], lastTick := 1\<rparr>
   in 2 * sheddExitFraction < fst (Rate g (epoch + bucketDur))"
  using Shed_only_over_budget [of "(NewGovernor 2)\<lparr>counts := [2, 1, 0, 0, 0, 0, 0, 0, 0, 0], lastTick := 1\<rparr>"
      "epoch + bucketDur"]
  by (simp add: Shed_def Let_def advanceLocked_def rateLocked_def tick_def UnixNano_def epoch_def second_def
      bucketDur_def millisecond_def NewGovernor_def sheddExitFraction_def)

end
