(* ===== verification/Proto.thy ===== *)
theory Proto
  imports Go_Prelude
begin

text \<open>
  The wire contract, \<open>pkg/proto/messages.go\<close>: the messages nodes exchange, with the
  source's field names. Raw byte strings are \<open>string\<close>s. The JSON encoding itself is Go's
  \<open>encoding/json\<close> and is not modelled: a message is the decoded value.
\<close>

type_synonym bytes = string

definition SchemaVersion :: int where
  "SchemaVersion = 2"

text \<open>A \<open>PeerCert\<close> binds a peer ID to a Person identity.\<close>

record PeerCert =
  PeerID :: string
  PersonKey :: bytes
  ValidUntil :: time
  Sig :: bytes

text \<open>One attack report, or (\<open>Kind = ''vote''\<close>) one dispute.\<close>

record Event =
  IP :: string
  Reason :: string
  Timestamp :: time
  ReporterID :: string
  Signature :: bytes
  SubnetID :: string
  OriginTrace :: "string list"
  Vouch :: "PeerCert option"
  Kind :: string

record AnchorEntry =
  KeyID :: string
  entry_Label :: string
  entry_Weight :: real
  entry_ValidUntil :: time
  entry_Source :: string

record WhitelistEntry =
  IPOrRange :: string
  Scope :: string
  wl_Source :: string

record RepQuery =
  query_IP :: string

text \<open>
  The evidence aggregate a subnet shares. \<open>EvidenceWeight\<close> is the one float whose NaN the
  code handles, so it is \<open>None\<close> for NaN.
\<close>

record EvidenceAggregate =
  ev_IP :: string
  Scenarios :: "string list"
  WindowFirst :: time
  WindowLast :: time
  DiversityBuckets :: "string \<rightharpoonup> int"
  StrangersPresent :: bool
  EvidenceWeight :: "real option"

text \<open>A lookup in \<open>DiversityBuckets\<close>: a missing key reads as 0.\<close>

definition bucket :: "EvidenceAggregate \<Rightarrow> string \<Rightarrow> int" where
  "bucket ev k = (case DiversityBuckets ev k of Some n \<Rightarrow> n | None \<Rightarrow> 0)"

text \<open>The composite literal \<open>proto.Event{}\<close> and \<open>proto.EvidenceAggregate{}\<close>.\<close>

definition zero_Event :: Event where
  "zero_Event = \<lparr>IP = '''', Reason = '''', Timestamp = zero_time, ReporterID = '''',
     Signature = [], SubnetID = '''', OriginTrace = [], Vouch = None, Kind = ''''\<rparr>"

definition zero_Evidence :: EvidenceAggregate where
  "zero_Evidence = \<lparr>ev_IP = '''', Scenarios = [], WindowFirst = zero_time, WindowLast = zero_time,
     DiversityBuckets = Map.empty, StrangersPresent = False, EvidenceWeight = Some 0\<rparr>"

definition is_vote :: "Event \<Rightarrow> bool" where
  "is_vote e \<longleftrightarrow> Kind e = ''vote''"

end
