(* ===== verification/Time_Format.thy ===== *)
theory Time_Format
  imports Go_Prelude
begin

text \<open>
  The texts of \<open>time.Time\<close> in UTC the program signs and stores: \<open>time.RFC3339\<close> and
  \<open>time.RFC3339Nano\<close>, for the years after 0000.
\<close>

definition dec_char :: "nat \<Rightarrow> char" where
  "dec_char d = ''0123456789'' ! d"

text \<open>The last \<open>w\<close> decimal digits of a number.\<close>

fun padded :: "nat \<Rightarrow> nat \<Rightarrow> string" where
  "padded 0 n = []"
| "padded (Suc w) n = padded w (n div 10) @ [dec_char (n mod 10)]"

text \<open>Year, month and day of a day number, day 0 being the first of January of the year 1.\<close>

definition civil :: "int \<Rightarrow> int \<times> int \<times> int" where
  "civil day =
     (let z = day + 306;
          era = z div 146097;
          doe = z mod 146097;
          yoe = (doe - doe div 1460 + doe div 36524 - doe div 146096) div 365;
          doy = doe - (365 * yoe + yoe div 4 - yoe div 100);
          mp = (5 * doy + 2) div 153;
          d = doy - (153 * mp + 2) div 5 + 1;
          m = (if mp < 10 then mp + 3 else mp - 9);
          y = yoe + era * 400 + (if m \<le> 2 then 1 else 0)
      in (y, m, d))"

definition date_time :: "time \<Rightarrow> string" where
  "date_time t =
     (let s = t div second; (y, m, d) = civil (s div 86400); r = nat (s mod 86400)
      in padded 4 (nat y) @ ''-'' @ padded 2 (nat m) @ ''-'' @ padded 2 (nat d) @ ''T'' @
         padded 2 (r div 3600) @ '':'' @ padded 2 (r div 60 mod 60) @ '':'' @ padded 2 (r mod 60))"

definition RFC3339 :: "time \<Rightarrow> string" where
  "RFC3339 t = date_time t @ ''Z''"

text \<open>The fraction without its trailing zeros.\<close>

definition fraction :: "time \<Rightarrow> string" where
  "fraction t =
     (let ds = rev (dropWhile (\<lambda>c. c = CHR ''0'') (rev (padded 9 (nat (t mod second)))))
      in if ds = '''' then '''' else ''.'' @ ds)"

definition RFC3339Nano :: "time \<Rightarrow> string" where
  "RFC3339Nano t = date_time t @ fraction t @ ''Z''"

lemma dec_char_set: "dec_char (n mod 10) \<in> set ''0123456789''"
proof -
  have "n mod 10 < length ''0123456789''" by simp
  then show ?thesis unfolding dec_char_def by (rule nth_mem)
qed

lemma padded_not: "c \<notin> set ''0123456789'' \<Longrightarrow> c \<notin> set (padded w n)"
proof (induction w arbitrary: n)
  case (Suc w)
  from Suc.prems have "c \<noteq> dec_char (n mod 10)" using dec_char_set [of n] by metis
  with Suc show ?case by simp
qed simp

lemma length_padded [simp]: "length (padded w n) = w"
  by (induction w arbitrary: n) simp_all

lemma bar_not_digit: "CHR ''|'' \<notin> set (padded w n)"
  by (rule padded_not) simp

lemma date_time_no_bar: "CHR ''|'' \<notin> set (date_time t)"
  by (simp add: date_time_def Let_def case_prod_beta bar_not_digit)

lemma fraction_no_bar: "CHR ''|'' \<notin> set (fraction t)"
proof -
  have "CHR ''|'' \<notin> set (dropWhile (\<lambda>c. c = CHR ''0'') (rev (padded 9 n)))" for n
    using bar_not_digit [of 9 n] set_dropWhileD [of "CHR ''|''" "\<lambda>c. c = CHR ''0''" "rev (padded 9 n)"]
    by auto
  then show ?thesis by (simp add: fraction_def Let_def)
qed

lemma time_texts_no_bar [simp]: "CHR ''|'' \<notin> set (RFC3339 t)" "CHR ''|'' \<notin> set (RFC3339Nano t)"
  by (simp_all add: RFC3339_def RFC3339Nano_def date_time_no_bar fraction_no_bar)

text \<open>The Unix epoch is printed as the code's tests expect it.\<close>

lemma epoch_day: "civil 719162 = (1970, 1, 1)"
  by code_simp

lemma epoch_text: "RFC3339 62135596800000000000 = ''1970-01-01T00:00:00Z''"
proof -
  have p2: "padded 2 n = [dec_char (n div 10 mod 10), dec_char (n mod 10)]" for n
    by (simp add: numeral_2_eq_2)
  have p4: "padded 4 n = padded 2 (n div 100) @ padded 2 n" for n
  proof -
    have four: "(4::nat) = Suc (Suc 2)" by simp
    show ?thesis unfolding four padded.simps(2) append_assoc by (simp add: p2 div_mult2_eq [symmetric])
  qed
  show ?thesis
    by (simp add: RFC3339_def date_time_def second_def epoch_day p2 p4 dec_char_def)
qed

end
