(* ===== verification/Caches.thy ===== *)
theory Caches
  imports Proto Time_Format
begin

text \<open>
  The bounded caches: the deduplication cache of a bridge (\<open>internal/node/dedup.go\<close>), and the
  contract it shares with the query cache of \<open>internal/repquery/querier.go\<close>. Both make room by
  the same two steps, dropping expired entries and then the single oldest one.
\<close>

section \<open>The eviction contract\<close>

text \<open>
  What a client of an evicting cache relies on: an eviction only removes entries, keeps every
  entry that is neither expired nor a candidate for the oldest, and makes room.
\<close>

locale evicting_cache =
  fixes evict :: "time \<Rightarrow> (string \<times> 'v) list \<Rightarrow> (string \<times> 'v) list"
    and stamp :: "'v \<Rightarrow> time"
    and ttl :: "'v \<Rightarrow> duration"
    and bound :: nat
  assumes evict_wf: "wf_map m \<Longrightarrow> wf_map (evict now m)"
    and evict_sub: "set (evict now m) \<subseteq> set m"
    and evict_keep: "(k, v) \<in> set m \<Longrightarrow> Sub now (stamp v) < ttl v \<Longrightarrow> wf_map m
        \<Longrightarrow> (k, v) \<in> set (evict now m)
          \<or> (\<forall>p \<in> set m. Sub now (stamp (snd p)) < ttl (snd p) \<longrightarrow> stamp v \<le> stamp (snd p))
            \<and> bound \<le> length (filter (\<lambda>p. Sub now (stamp (snd p)) < ttl (snd p)) m)"
    and evict_room: "wf_map m \<Longrightarrow> '''' \<notin> set (keys m) \<Longrightarrow> 0 < bound \<Longrightarrow> length m \<le> bound
        \<Longrightarrow> length (evict now m) < bound"
begin

definition insert_entry :: "time \<Rightarrow> (string \<times> 'v) list \<Rightarrow> string \<Rightarrow> 'v \<Rightarrow> (string \<times> 'v) list" where
  "insert_entry now m k v = AList.update k v (if bound \<le> length m then evict now m else m)"

text \<open>The well-formed caches: a map of at most \<open>bound\<close> entries without the empty key.\<close>

definition cache_ok :: "(string \<times> 'v) list \<Rightarrow> bool" where
  "cache_ok m \<longleftrightarrow> wf_map m \<and> '''' \<notin> set (keys m) \<and> length m \<le> bound"

lemma evict_keys: "'''' \<notin> set (keys m) \<Longrightarrow> '''' \<notin> set (keys (evict now m))"
  using evict_sub [of now m] by auto

lemma insert_entry_ok:
  assumes "cache_ok m" and "k \<noteq> ''''" and "0 < bound"
  shows "cache_ok (insert_entry now m k v)"
proof -
  let ?m = "if bound \<le> length m then evict now m else m"
  have m: "wf_map ?m" "'''' \<notin> set (keys ?m)" "length ?m < bound"
    using assms evict_wf evict_keys evict_room by (auto simp: cache_ok_def)
  then have "length (AList.update k v ?m) \<le> bound" by (simp add: length_update)
  with m assms(2) show ?thesis
    by (auto simp: cache_ok_def insert_entry_def dom_update)
qed

lemma insert_entry_lookup: "map_of (insert_entry now m k v) k = Some v"
  by (simp add: insert_entry_def update_conv)

text \<open>
  A live entry survives an insertion under another key as long as fewer than \<open>bound - 1\<close>
  entries are as young as it is.
\<close>

lemma insert_entry_survives:
  assumes "cache_ok m" and "map_of m k = Some v" and "k' \<noteq> k" and "Sub now (stamp v) < ttl v"
    and "length (filter (\<lambda>p. stamp v \<le> stamp (snd p)) m) < bound"
  shows "map_of (insert_entry now m k' v') k = Some v"
proof -
  let ?m = "if bound \<le> length m then evict now m else m"
  let ?live = "\<lambda>p. Sub now (stamp (snd p)) < ttl (snd p)"
  have wf: "wf_map m" using assms(1) by (simp add: cache_ok_def)
  have kv: "(k, v) \<in> set m" using assms(2) by (rule map_of_SomeD)
  have "(k, v) \<in> set ?m"
  proof (rule ccontr)
    assume a: "(k, v) \<notin> set ?m"
    with kv have "(k, v) \<notin> set (evict now m)" by (simp split: if_splits)
    with evict_keep [OF kv assms(4) wf] have old: "\<forall>p \<in> set m. ?live p \<longrightarrow> stamp v \<le> stamp (snd p)"
      and many: "bound \<le> length (filter ?live m)" by auto
    have "filter ?live m = filter ?live (filter (\<lambda>p. stamp v \<le> stamp (snd p)) m)"
      unfolding filter_filter by (rule filter_cong) (use old in auto)
    then have "length (filter ?live m) = length (filter ?live (filter (\<lambda>p. stamp v \<le> stamp (snd p)) m))"
      by (rule arg_cong)
    also have "\<dots> \<le> length (filter (\<lambda>p. stamp v \<le> stamp (snd p)) m)"
      by (rule length_filter_le)
    finally have "length (filter ?live m) \<le> length (filter (\<lambda>p. stamp v \<le> stamp (snd p)) m)" .
    with many assms(5) show False by simp
  qed
  moreover have "wf_map ?m" using wf evict_wf by simp
  ultimately have "map_of ?m k = Some v" by (simp add: wf_map_def)
  with assms(3) show ?thesis by (simp add: insert_entry_def update_conv)
qed

lemma insert_entry_count:
  assumes "wf_map m"
  shows "length (filter P (insert_entry now m k v)) \<le> Suc (length (filter P m))"
proof -
  let ?m = "if bound \<le> length m then evict now m else m"
  have wf: "wf_map (insert_entry now m k v)" using assms evict_wf by (simp add: insert_entry_def)
  have "set (insert_entry now m k v) \<subseteq> insert (k, v) (set m)"
  proof -
    have "set (AList.update k v ?m) \<subseteq> insert (k, v) (set ?m)"
      by (rule set_update_subset)
    moreover have "set ?m \<subseteq> set m" using evict_sub by simp
    ultimately show ?thesis unfolding insert_entry_def by blast
  qed
  then have "{p \<in> set (insert_entry now m k v). P p} \<subseteq> insert (k, v) {p \<in> set m. P p}" by blast
  then have "card {p \<in> set (insert_entry now m k v). P p} \<le> Suc (card {p \<in> set m. P p})"
    by (rule card_subset_insert [rotated]) simp
  then show ?thesis using wf_map_count [OF wf] wf_map_count [OF assms] by simp
qed

end

section \<open>The oldest entry of a map\<close>

text \<open>The loop both caches use: the key of the first entry with the least time stamp.\<close>

fun oldest_loop :: "('v \<Rightarrow> time) \<Rightarrow> (string \<times> 'v) list \<Rightarrow> time \<times> string \<times> bool \<Rightarrow> time \<times> string \<times> bool" where
  "oldest_loop stamp [] acc = acc"
| "oldest_loop stamp ((k, v) # m) (oldest, oldestKey, first) =
     oldest_loop stamp m (if first \<or> Before (stamp v) oldest then (stamp v, k, False)
                          else (oldest, oldestKey, first))"

lemma oldest_loop_least:
  "oldest_loop stamp m (old, ok, False) = (t, k, b) \<Longrightarrow>
     \<not> b \<and> t \<le> old \<and> (\<forall>p \<in> set m. t \<le> stamp (snd p)) \<and>
     (k = ok \<and> t = old \<or> (\<exists>v. (k, v) \<in> set m \<and> t = stamp v))"
proof (induction m arbitrary: old ok)
  case (Cons p m)
  obtain a w where p: "p = (a, w)" by (cases p)
  show ?case
  proof (cases "stamp w < old")
    case True
    with Cons.prems p have "oldest_loop stamp m (stamp w, a, False) = (t, k, b)"
      by (simp add: Before_def)
    from Cons.IH [OF this] True p show ?thesis by auto
  next
    case False
    with Cons.prems p have "oldest_loop stamp m (old, ok, False) = (t, k, b)"
      by (simp add: Before_def)
    from Cons.IH [OF this] False p show ?thesis by auto
  qed
qed simp

lemma oldest_loop_found:
  assumes "m \<noteq> []" and "oldest_loop stamp m (t0, '''', True) = (t, k, b)"
  shows "\<exists>v. (k, v) \<in> set m \<and> stamp v = t \<and> (\<forall>p \<in> set m. stamp v \<le> stamp (snd p))"
proof -
  obtain a w m' where m: "m = (a, w) # m'" using assms(1) by (cases m) auto
  then have "oldest_loop stamp m' (stamp w, a, False) = (t, k, b)" using assms(2) by simp
  from oldest_loop_least [OF this] m show ?thesis by auto
qed

text \<open>
  Dropping the expired entries and, when that leaves no room, the oldest one. An oldest entry
  under the empty key is not dropped.
\<close>

definition evict_map :: "('v \<Rightarrow> time) \<Rightarrow> ('v \<Rightarrow> duration) \<Rightarrow> nat \<Rightarrow> time \<Rightarrow> (string \<times> 'v) list
    \<Rightarrow> (string \<times> 'v) list" where
  "evict_map stamp ttl bound now m =
     (let m = filter (\<lambda>p. \<not> Sub now (stamp (snd p)) \<ge> ttl (snd p)) m
      in if length m < bound then m
         else case oldest_loop stamp m (zero_time, '''', True) of
           (oldest, oldestKey, first) \<Rightarrow> if oldestKey \<noteq> '''' then AList.delete oldestKey m else m)"

lemma evict_map_sub: "set (evict_map stamp ttl bound now m) \<subseteq> set m"
proof -
  have "set (AList.delete k m') \<subseteq> set m'" for k and m' :: "(string \<times> 'a) list"
    by (simp add: AList.delete_eq)
  then show ?thesis
    by (fastforce simp: evict_map_def Let_def split: prod.splits if_splits)
qed

lemma evict_map_wf: "wf_map m \<Longrightarrow> wf_map (evict_map stamp ttl bound now m)"
  by (simp add: evict_map_def Let_def split: prod.split)

lemma evict_map_room:
  assumes "wf_map m" and "'''' \<notin> set (keys m)" and "0 < bound" and "length m \<le> bound"
  shows "length (evict_map stamp ttl bound now m) < bound"
proof (cases "length (filter (\<lambda>p. \<not> Sub now (stamp (snd p)) \<ge> ttl (snd p)) m) < bound")
  case True
  then show ?thesis by (simp add: evict_map_def Let_def)
next
  case False
  let ?m = "filter (\<lambda>p. \<not> Sub now (stamp (snd p)) \<ge> ttl (snd p)) m"
  have len: "length ?m \<le> bound" using assms(4) length_filter_le order_trans by blast
  have ne: "?m \<noteq> []" using False assms(3) by (metis list.size(3))
  obtain t k b where o: "oldest_loop stamp ?m (zero_time, '''', True) = (t, k, b)"
    by (metis prod_cases3)
  from oldest_loop_found [OF ne o] obtain v where k: "(k, v) \<in> set ?m" by blast
  then have key: "k \<in> set (keys ?m)" "k \<noteq> ''''" using assms(2) by force+
  have "Suc (length (AList.delete k ?m)) = length ?m"
    using assms(1) key(1) by (intro length_delete_mem) simp_all
  with False o key(2) len show ?thesis by (simp add: evict_map_def Let_def)
qed

lemma evict_map_keep:
  assumes "(k, v) \<in> set m" and "Sub now (stamp v) < ttl v" and "wf_map m"
  shows "(k, v) \<in> set (evict_map stamp ttl bound now m)
    \<or> (\<forall>p \<in> set m. Sub now (stamp (snd p)) < ttl (snd p) \<longrightarrow> stamp v \<le> stamp (snd p))
      \<and> bound \<le> length (filter (\<lambda>p. Sub now (stamp (snd p)) < ttl (snd p)) m)"
proof -
  let ?m = "filter (\<lambda>p. \<not> Sub now (stamp (snd p)) \<ge> ttl (snd p)) m"
  have live: "?m = filter (\<lambda>p. Sub now (stamp (snd p)) < ttl (snd p)) m" by (simp add: not_le)
  have kv: "(k, v) \<in> set ?m" using assms by simp
  obtain t j b where o: "oldest_loop stamp ?m (zero_time, '''', True) = (t, j, b)"
    by (metis prod_cases3)
  show ?thesis
  proof (cases "length ?m < bound \<or> j \<noteq> k \<or> j = ''''")
    case True
    then have "(k, v) \<in> set (evict_map stamp ttl bound now m)"
      using kv o by (auto simp: evict_map_def Let_def AList.delete_eq)
    then show ?thesis ..
  next
    case False
    have "?m \<noteq> []" using kv by (metis empty_iff list.set(1))
    from oldest_loop_found [OF this o] False obtain w where w: "(k, w) \<in> set ?m"
      and old: "\<forall>p \<in> set ?m. stamp w \<le> stamp (snd p)" by auto
    have "w = v" using w assms(1,3) by (auto simp: wf_map_def dest: eq_key_imp_eq_value)
    with old False live show ?thesis by (auto simp: not_less)
  qed
qed

section \<open>The deduplication cache\<close>

definition dedupKey :: "string \<Rightarrow> string \<Rightarrow> string \<Rightarrow> time \<Rightarrow> string" where
  "dedupKey reporterID ip reason ts =
     reporterID @ ''|'' @ ip @ ''|'' @ reason @ ''|'' @ RFC3339Nano ts"

lemma dedupKey_nonempty [simp]: "dedupKey r i s t \<noteq> ''''"
  by (simp add: dedupKey_def)

record dedupCache =
  dd_max :: nat
  dd_ttl :: duration
  dd_seen :: "(string \<times> time) list"

definition newDedupCache :: "nat \<Rightarrow> duration \<Rightarrow> dedupCache" where
  "newDedupCache mx ttl = \<lparr>dd_max = mx, dd_ttl = ttl, dd_seen = []\<rparr>"

definition evictOldestLocked :: "dedupCache \<Rightarrow> time \<Rightarrow> dedupCache" where
  "evictOldestLocked d now =
     (let d = d\<lparr>dd_seen := filter (\<lambda>(k, ts). \<not> Sub now ts \<ge> dd_ttl d) (dd_seen d)\<rparr>
      in if length (dd_seen d) < dd_max d then d
         else case oldest_loop (\<lambda>ts. ts) (dd_seen d) (zero_time, '''', True) of
           (oldest, oldestKey, first) \<Rightarrow>
             if oldestKey \<noteq> '''' then d\<lparr>dd_seen := AList.delete oldestKey (dd_seen d)\<rparr> else d)"

definition Seen :: "dedupCache \<Rightarrow> string \<Rightarrow> time \<Rightarrow> bool \<times> dedupCache" where
  "Seen d key now =
     (if (case map_of (dd_seen d) key of Some ts \<Rightarrow> Sub now ts < dd_ttl d | None \<Rightarrow> False) then (True, d)
      else let d = (if length (dd_seen d) \<ge> dd_max d then evictOldestLocked d now else d)
           in (False, d\<lparr>dd_seen := AList.update key now (dd_seen d)\<rparr>))"

definition dedup_len :: "dedupCache \<Rightarrow> nat" where
  "dedup_len d = length (dd_seen d)"

lemma evictOldest_map:
  "evictOldestLocked d now =
     d\<lparr>dd_seen := evict_map (\<lambda>ts. ts) (\<lambda>_. dd_ttl d) (dd_max d) now (dd_seen d)\<rparr>"
proof -
  have f: "filter (\<lambda>(k, ts). \<not> Sub now ts \<ge> dd_ttl d) m = filter (\<lambda>p. \<not> Sub now (snd p) \<ge> dd_ttl d) m" for m
    by (rule filter_cong) auto
  show ?thesis
    unfolding evictOldestLocked_def evict_map_def Let_def f by (simp add: case_prod_beta)
qed

interpretation dedup: evicting_cache "evict_map (\<lambda>ts. ts) (\<lambda>_. ttl) bound" "\<lambda>ts. ts" "\<lambda>_. ttl" bound
  for ttl :: duration and bound :: nat
proof unfold_locales
  fix k :: string and v :: time and m :: "(string \<times> time) list" and now
  assume "(k, v) \<in> set m" "Sub now v < ttl" "wf_map m"
  then show "(k, v) \<in> set (evict_map (\<lambda>ts. ts) (\<lambda>_. ttl) bound now m) \<or>
      (\<forall>p \<in> set m. Sub now (snd p) < ttl \<longrightarrow> v \<le> snd p) \<and>
      bound \<le> length (filter (\<lambda>p. Sub now (snd p) < ttl) m)"
    by (rule evict_map_keep [where stamp = "\<lambda>ts. ts" and ttl = "\<lambda>_. ttl"])
qed (simp_all add: evict_map_wf evict_map_sub evict_map_room)

lemma Seen_insert:
  "Seen d key now =
     (if (case map_of (dd_seen d) key of Some ts \<Rightarrow> Sub now ts < dd_ttl d | None \<Rightarrow> False) then (True, d)
      else (False, d\<lparr>dd_seen := dedup.insert_entry (dd_ttl d) (dd_max d) now (dd_seen d) key now\<rparr>))"
  by (simp add: Seen_def Let_def dedup.insert_entry_def evictOldest_map)

lemma Seen_fields [simp]:
  "dd_max (snd (Seen d k t)) = dd_max d" "dd_ttl (snd (Seen d k t)) = dd_ttl d"
  by (simp_all add: Seen_insert)

definition dedup_ok :: "dedupCache \<Rightarrow> bool" where
  "dedup_ok d \<longleftrightarrow> wf_map (dd_seen d) \<and> '''' \<notin> set (keys (dd_seen d)) \<and> length (dd_seen d) \<le> dd_max d"

lemma dedup_ok_cache: "dedup_ok d \<longleftrightarrow> dedup.cache_ok (dd_max d) (dd_seen d)"
  by (simp add: dedup_ok_def dedup.cache_ok_def)

lemma Seen_ok: "dedup_ok d \<Longrightarrow> k \<noteq> '''' \<Longrightarrow> 0 < dd_max d \<Longrightarrow> dedup_ok (snd (Seen d k t))"
  by (simp add: Seen_insert dedup_ok_cache dedup.insert_entry_ok)

text \<open>A sequence of events offered to the cache.\<close>

fun seen_run :: "dedupCache \<Rightarrow> (string \<times> time) list \<Rightarrow> bool list \<times> dedupCache" where
  "seen_run d [] = ([], d)"
| "seen_run d ((k, t) # es) =
     (let (b, d') = Seen d k t; (bs, d'') = seen_run d' es in (b # bs, d''))"

lemma seen_run_ok:
  "dedup_ok d \<Longrightarrow> 0 < dd_max d \<Longrightarrow> \<forall>(k, t) \<in> set es. k \<noteq> '''' \<Longrightarrow> dedup_ok (snd (seen_run d es))"
proof (induction es arbitrary: d)
  case (Cons e es)
  obtain k t where e: "e = (k, t)" by (cases e)
  have "dedup_ok (snd (seen_run (snd (Seen d k t)) es))"
    using Cons.prems e by (intro Cons.IH Seen_ok) simp_all
  then show ?case by (simp add: e Let_def case_prod_beta)
qed simp

text \<open>
  The entry of a key survives any run of other events shorter than the bound, as long as its
  time to live has not passed.
\<close>

lemma seen_run_keeps:
  assumes "dedup_ok d" and "map_of (dd_seen d) k = Some t" and "\<forall>(k', t') \<in> set es. k' \<noteq> '''' \<and> Sub t' t < dd_ttl d"
    and "length (filter (\<lambda>p. t \<le> snd p) (dd_seen d)) + length es \<le> dd_max d" and "0 < dd_max d"
  shows "map_of (dd_seen (snd (seen_run d es))) k = Some t"
  using assms
proof (induction es arbitrary: d)
  case (Cons e es)
  obtain k' t' where e: "e = (k', t')" by (cases e)
  let ?d = "snd (Seen d k' t')"
  have t': "k' \<noteq> ''''" "Sub t' t < dd_ttl d" using Cons.prems(3) e by auto
  have ok: "dedup_ok ?d" using Cons.prems(1,5) t'(1) by (intro Seen_ok)
  have "map_of (dd_seen ?d) k = Some t \<and>
    length (filter (\<lambda>p. t \<le> snd p) (dd_seen ?d)) \<le> Suc (length (filter (\<lambda>p. t \<le> snd p) (dd_seen d)))"
  proof (cases "case map_of (dd_seen d) k' of Some ts \<Rightarrow> Sub t' ts < dd_ttl d | None \<Rightarrow> False")
    case True
    with Cons.prems(2) show ?thesis by (simp add: Seen_insert)
  next
    case False
    then have "k' \<noteq> k" using Cons.prems(2) t'(2) by auto
    then have "map_of (dedup.insert_entry (dd_ttl d) (dd_max d) t' (dd_seen d) k' t') k = Some t"
      using Cons.prems t'(2) by (intro dedup.insert_entry_survives) (simp_all add: dedup_ok_cache)
    with False Cons.prems(1) show ?thesis
      by (simp add: Seen_insert dedup.insert_entry_count dedup_ok_def)
  qed
  with ok Cons.prems e have "map_of (dd_seen (snd (seen_run ?d es))) k = Some t"
    by (intro Cons.IH) auto
  then show ?case by (simp add: e Let_def case_prod_beta)
qed simp

section \<open>Properties\<close>

text \<open>
  The deduplication cache never holds more than \<open>max\<close> keys, whatever sequence of events it
  is offered, in whatever order the map iterates and however the clock moves.
\<close>

theorem dedup_bounded:
  assumes "0 < mx" and "\<forall>(k, t) \<in> set es. k \<noteq> ''''"
  shows "dedup_len (snd (seen_run (newDedupCache mx ttl) es)) \<le> mx"
proof -
  have "dd_max (snd (seen_run d es)) = dd_max d" for d
    by (induction es arbitrary: d) (auto simp: Let_def case_prod_beta)
  moreover have "dedup_ok (newDedupCache mx ttl)" by (simp add: dedup_ok_def newDedupCache_def)
  ultimately show ?thesis
    using seen_run_ok [of "newDedupCache mx ttl" es] assms
    by (simp add: dedup_ok_def dedup_len_def newDedupCache_def)
qed

theorem dedup_bounded_witness:
  "dedup_len (snd (seen_run (newDedupCache 2 10) [(''a'', 1), (''b'', 2), (''c'', 3), (''a'', 4)])) \<le> 2"
  by (rule dedup_bounded) simp_all

text \<open>
  C18. First-seen wins: once \<open>Seen\<close> has answered that a key is new, it answers that the key is
  known for every later call within the time to live, as long as fewer than \<open>max\<close> other events
  came in between. (A re-emitted copy of an event is therefore processed once.)
\<close>

theorem dedup_first_seen_wins:
  assumes "dedup_ok d" and "0 < dd_max d" and "k \<noteq> ''''" and "\<forall>p \<in> set (dd_seen d). snd p < t"
    and "Seen d k t = (False, d')"
    and "\<forall>(k', t') \<in> set es. k' \<noteq> '''' \<and> Sub t' t < dd_ttl d" and "length es < dd_max d"
    and "Sub t'' t < dd_ttl d"
  shows "fst (Seen (snd (seen_run d' es)) k t'')"
proof -
  have d': "d' = d\<lparr>dd_seen := dedup.insert_entry (dd_ttl d) (dd_max d) t (dd_seen d) k t\<rparr>"
    using assms(5) by (auto simp: Seen_insert split: if_splits)
  have "filter (\<lambda>p. t \<le> snd p) (dd_seen d) = []"
    using assms(4) by (auto simp: filter_empty_conv)
  moreover have "length (filter (\<lambda>p. t \<le> snd p) (dd_seen d'))
      \<le> Suc (length (filter (\<lambda>p. t \<le> snd p) (dd_seen d)))"
    unfolding d' using assms(1) by (simp add: dedup.insert_entry_count dedup_ok_def)
  ultimately have young: "length (filter (\<lambda>p. t \<le> snd p) (dd_seen d')) \<le> 1" by simp
  have ok: "dedup_ok d'" using Seen_ok [OF assms(1,3,2), of t] assms(5) by simp
  have dd: "dd_max d' = dd_max d" "dd_ttl d' = dd_ttl d" "map_of (dd_seen d') k = Some t"
    using d' by (simp_all add: dedup.insert_entry_lookup)
  have "map_of (dd_seen (snd (seen_run d' es))) k = Some t"
    using ok dd young assms(2,6,7) by (intro seen_run_keeps) auto
  moreover have "dd_ttl (snd (seen_run c es)) = dd_ttl c" for c
    by (induction es arbitrary: c) (auto simp: Let_def case_prod_beta)
  ultimately show ?thesis using assms(8) dd by (simp add: Seen_def)
qed

theorem dedup_first_seen_wins_witness:
  "fst (Seen (snd (seen_run (snd (Seen (newDedupCache 2 100) ''a'' 1)) [(''b'', 2)])) ''a'' 3)"
  by (rule dedup_first_seen_wins [of "newDedupCache 2 100" "''a''" 1])
    (simp_all add: dedup_ok_def newDedupCache_def Seen_def Sub_def max_duration_def min_duration_def)

end
