(* ===== verification/Store.thy ===== *)
theory Store
  imports Proto
begin

text \<open>
  The reputation store, \<open>internal/store/store.go\<close> and \<open>bloom.go\<close>. BadgerDB and the bloom
  filter are third-party code: they are a parameter \<open>L\<close> of the operations, the record
  \<open>backend\<close> of the calls the store makes, and the locale \<open>badger_backend\<close> states what
  their documentation promises. The locale \<open>score_store\<close> is the contract the reputation
  engine relies on; the store's own \<open>GetScore\<close> and \<open>PutScore\<close> satisfy it.
\<close>

record ScoreRecord =
  Score :: real
  Corroboration :: int
  FirstSeen :: time
  LastSeen :: time
  Reasons :: "string list"
  ReporterIDs :: "string list"
  Groups :: "string list"
  StrangerSeen :: bool
  StrangerContrib :: real
  SubnetsSeen :: "string list"
  DisputeSubnetsSeen :: "string list"
  DisputeContrib :: real

text \<open>The composite literal \<open>ScoreRecord{}\<close>\<close>

definition zero_rec :: ScoreRecord where
  "zero_rec = \<lparr>Score = 0, Corroboration = 0, FirstSeen = zero_time, LastSeen = zero_time,
     Reasons = [], ReporterIDs = [], Groups = [], StrangerSeen = False, StrangerContrib = 0,
     SubnetsSeen = [], DisputeSubnetsSeen = [], DisputeContrib = 0\<rparr>"

lemma zero_rec_simps [simp]:
  "Score zero_rec = 0" "Corroboration zero_rec = 0" "FirstSeen zero_rec = 0"
  "LastSeen zero_rec = 0" "Reasons zero_rec = []" "ReporterIDs zero_rec = []"
  "Groups zero_rec = []" "\<not> StrangerSeen zero_rec" "StrangerContrib zero_rec = 0"
  "SubnetsSeen zero_rec = []" "DisputeSubnetsSeen zero_rec = []" "DisputeContrib zero_rec = 0"
  by (simp_all add: zero_rec_def)

section \<open>The libraries behind the store\<close>

text \<open>
  The calls the store makes on BadgerDB and on the bloom filter. A read, a write and an item of
  a scan may each fail; the JSON decoding of a stored value is part of the read.
\<close>

record ('db, 'bf) backend =
  db_open :: "string \<Rightarrow> error + 'db"
  db_get :: "'db \<Rightarrow> time \<Rightarrow> string \<Rightarrow> error + ScoreRecord option"
  db_set :: "'db \<Rightarrow> time \<Rightarrow> string \<Rightarrow> ScoreRecord \<Rightarrow> duration \<Rightarrow> error + 'db"
  db_delete :: "'db \<Rightarrow> time \<Rightarrow> string \<Rightarrow> error + 'db"
  db_items :: "'db \<Rightarrow> time \<Rightarrow> (string \<times> (error + ScoreRecord)) list"
  bf_new :: 'bf
  bf_add :: "'bf \<Rightarrow> string \<Rightarrow> 'bf"
  bf_test :: "'bf \<Rightarrow> string \<Rightarrow> bool"

record ('db, 'bf) BadgerStore =
  db :: 'db
  bloom :: 'bf

section \<open>Operations\<close>

text \<open>\<open>repBloom.Add\<close> and \<open>repBloom.MightContain\<close>\<close>

definition bloom_Add :: "('db, 'bf) backend \<Rightarrow> ('db, 'bf) BadgerStore \<Rightarrow> string \<Rightarrow> ('db, 'bf) BadgerStore" where
  "bloom_Add L s ip = s\<lparr>bloom := bf_add L (bloom s) ip\<rparr>"

definition MightContain :: "('db, 'bf) backend \<Rightarrow> ('db, 'bf) BadgerStore \<Rightarrow> string \<Rightarrow> bool" where
  "MightContain L s ip = bf_test L (bloom s) ip"

definition GetScore ::
  "('db, 'bf) backend \<Rightarrow> ('db, 'bf) BadgerStore \<Rightarrow> time \<Rightarrow> string \<Rightarrow> error + ScoreRecord" where
  "GetScore L s now ip =
     (if \<not> MightContain L s ip then Inr zero_rec
      else (case db_get L (db s) now ip of
              Inl e \<Rightarrow> Inl (Wrap ''store: get'' e)
            | Inr None \<Rightarrow> Inr zero_rec
            | Inr (Some rec) \<Rightarrow> Inr rec))"

definition PutScore ::
  "('db, 'bf) backend \<Rightarrow> ('db, 'bf) BadgerStore \<Rightarrow> time \<Rightarrow> string \<Rightarrow> ScoreRecord \<Rightarrow> duration
     \<Rightarrow> error + ('db, 'bf) BadgerStore" where
  "PutScore L s now ip rec ttl =
     (case db_set L (db s) now ip rec ttl of
        Inl e \<Rightarrow> Inl e
      | Inr d \<Rightarrow> Inr (bloom_Add L (s\<lparr>db := d\<rparr>) ip))"

definition DeleteScore ::
  "('db, 'bf) backend \<Rightarrow> ('db, 'bf) BadgerStore \<Rightarrow> time \<Rightarrow> string \<Rightarrow> error + ('db, 'bf) BadgerStore" where
  "DeleteScore L s now ip =
     (case db_delete L (db s) now ip of Inl e \<Rightarrow> Inl e | Inr d \<Rightarrow> Inr (s\<lparr>db := d\<rparr>))"

text \<open>
  \<open>ScanScores\<close> runs a callback over the items of one read transaction, a snapshot of the
  store, and stops at the first error, its own or the callback's. The callback's effects are
  threaded through \<open>st\<close>.
\<close>

fun scan_items ::
  "(string \<Rightarrow> ScoreRecord \<Rightarrow> 'st \<Rightarrow> error option \<times> 'st)
     \<Rightarrow> (string \<times> (error + ScoreRecord)) list \<Rightarrow> 'st \<Rightarrow> error option \<times> 'st" where
  "scan_items fn [] st = (None, st)"
| "scan_items fn ((ip, Inl e) # items) st = (Some e, st)"
| "scan_items fn ((ip, Inr rec) # items) st =
     (case fn ip rec st of
        (Some e, st') \<Rightarrow> (Some e, st')
      | (None, st') \<Rightarrow> scan_items fn items st')"

definition ScanScores ::
  "('db, 'bf) backend \<Rightarrow> ('db, 'bf) BadgerStore \<Rightarrow> time
     \<Rightarrow> (string \<Rightarrow> ScoreRecord \<Rightarrow> 'st \<Rightarrow> error option \<times> 'st) \<Rightarrow> 'st \<Rightarrow> error option \<times> 'st" where
  "ScanScores L s now fn st = scan_items fn (db_items L (db s) now) st"

text \<open>\<open>Open\<close> warms the bloom filter from the stored entries and ignores a failing scan.\<close>

definition Open ::
  "('db, 'bf) backend \<Rightarrow> time \<Rightarrow> string \<Rightarrow> error + ('db, 'bf) BadgerStore" where
  "Open L now dir =
     (case db_open L dir of
        Inl e \<Rightarrow> Inl (Wrap ''store: open badger'' e)
      | Inr d \<Rightarrow>
          let s = \<lparr>db = d, bloom = bf_new L\<rparr>
          in Inr (snd (ScanScores L s now (\<lambda>ip _ st. (None, bloom_Add L st ip)) s)))"

section \<open>Contracts\<close>

text \<open>What an expiring map holds at an instant.\<close>

definition live :: "(string \<rightharpoonup> 'r \<times> time) \<Rightarrow> time \<Rightarrow> string \<rightharpoonup> 'r" where
  "live v now k = (case v k of Some (r, e) \<Rightarrow> if now < e then Some r else None | None \<Rightarrow> None)"

lemma live_update_same: "live (v(k \<mapsto> (r, e))) now k = (if now < e then Some r else None)"
  by (simp add: live_def)

lemma live_update_other: "k' \<noteq> k \<Longrightarrow> live (v(k \<mapsto> (r, e))) now k' = live v now k'"
  by (simp add: live_def)

text \<open>The contract of a score store, as its clients see it.\<close>

locale score_store =
  fixes get :: "'s \<Rightarrow> time \<Rightarrow> string \<Rightarrow> error + ScoreRecord"
    and put :: "'s \<Rightarrow> time \<Rightarrow> string \<Rightarrow> ScoreRecord \<Rightarrow> duration \<Rightarrow> error + 's"
    and stored :: "'s \<Rightarrow> string \<rightharpoonup> ScoreRecord \<times> time"
    and ok :: "'s \<Rightarrow> bool"
  assumes get_stored:
      "ok s \<Longrightarrow> get s now k = Inr r \<Longrightarrow>
         r = (case live (stored s) now k of Some r' \<Rightarrow> r' | None \<Rightarrow> zero_rec)"
    and put_stored: "ok s \<Longrightarrow> put s now k r ttl = Inr s' \<Longrightarrow> stored s' = (stored s)(k \<mapsto> (r, now + ttl))"
    and put_ok: "ok s \<Longrightarrow> put s now k r ttl = Inr s' \<Longrightarrow> ok s'"
begin

text \<open>A property of every record ever written, expired or not.\<close>

definition all_stored :: "(ScoreRecord \<Rightarrow> bool) \<Rightarrow> 's \<Rightarrow> bool" where
  "all_stored P s \<longleftrightarrow> ok s \<and> (\<forall>k r e. stored s k = Some (r, e) \<longrightarrow> P r)"

lemma all_stored_get:
  assumes "all_stored P s" and "P zero_rec" and "get s now k = Inr r"
  shows "P r"
proof -
  from assms have "r = (case live (stored s) now k of Some r' \<Rightarrow> r' | None \<Rightarrow> zero_rec)"
    using get_stored by (simp add: all_stored_def)
  with assms(1,2) show ?thesis
    by (auto simp: all_stored_def live_def split: option.splits if_splits)
qed

lemma all_stored_put:
  assumes "all_stored P s" and "P r" and "put s now k r ttl = Inr s'"
  shows "all_stored P s'"
  using assms put_stored [of s now k r ttl s'] put_ok [of s now k r ttl s']
  by (auto simp: all_stored_def split: if_splits)

lemma get_after_put:
  assumes "ok s" and "put s now k r ttl = Inr s'" and "now' < now + ttl" and "get s' now' k = Inr r'"
  shows "r' = r"
  using assms get_stored [of s' now' k r'] put_stored [of s now k r ttl s'] put_ok [of s now k r ttl s']
  by (simp add: live_update_same)

lemma get_after_put_other:
  assumes "ok s" and "put s now k r ttl = Inr s'" and "k' \<noteq> k"
    and "get s' now' k' = Inr r'" and "get s now' k' = Inr r''"
  shows "r' = r''"
  using assms get_stored [of s' now' k' r'] get_stored [of s now' k' r'']
    put_stored [of s now k r ttl s'] put_ok [of s now k r ttl s']
  by (simp add: live_update_other)

lemma get_expired:
  assumes "ok s" and "put s now k r ttl = Inr s'" and "now + ttl \<le> now'" and "get s' now' k = Inr r'"
  shows "r' = zero_rec"
  using assms get_stored [of s' now' k r'] put_stored [of s now k r ttl s'] put_ok [of s now k r ttl s']
  by (simp add: live_update_same)

end

text \<open>
  What the documentation of BadgerDB and of the bloom filter promises: a read that succeeds
  returns the unexpired entry, a write that succeeds replaces the entry of its key until
  \<open>now + ttl\<close>, an iteration lists the unexpired entries, one per key, and a bloom filter has
  no false negatives. \<open>view\<close> is the content of a database.
\<close>

locale badger_backend =
  fixes L :: "('db, 'bf) backend"
    and view :: "'db \<Rightarrow> string \<rightharpoonup> ScoreRecord \<times> time"
  assumes backend_get: "db_get L d now k = Inr r \<Longrightarrow> r = live (view d) now k"
    and backend_set: "db_set L d now k rec ttl = Inr d' \<Longrightarrow> view d' = (view d)(k \<mapsto> (rec, now + ttl))"
    and backend_delete: "db_delete L d now k = Inr d' \<Longrightarrow> view d' = (view d)(k := None)"
    and backend_items: "(k, Inr rec) \<in> set (db_items L d now) \<Longrightarrow> live (view d) now k = Some rec"
    and backend_items_all: "live (view d) now k \<noteq> None \<Longrightarrow> k \<in> fst ` set (db_items L d now)"
    and backend_items_distinct: "distinct (keys (db_items L d now))"
    and bf_test_add: "bf_test L (bf_add L b k) k"
    and bf_test_keep: "bf_test L b k \<Longrightarrow> bf_test L (bf_add L b k') k"
begin

text \<open>The bloom filter knows every key the database holds: it never answers ``absent'' wrongly.\<close>

definition bloom_covers :: "('db, 'bf) BadgerStore \<Rightarrow> bool" where
  "bloom_covers s \<longleftrightarrow> (\<forall>k. view (db s) k \<noteq> None \<longrightarrow> bf_test L (bloom s) k)"

lemma GetScore_correct:
  assumes "bloom_covers s" and "GetScore L s now k = Inr r"
  shows "r = (case live (view (db s)) now k of Some r' \<Rightarrow> r' | None \<Rightarrow> zero_rec)"
proof (cases "bf_test L (bloom s) k")
  case True
  with assms(2) obtain x where x: "db_get L (db s) now k = Inr x"
    and r: "r = (case x of Some r' \<Rightarrow> r' | None \<Rightarrow> zero_rec)"
    by (auto simp: GetScore_def MightContain_def split: sum.splits option.splits)
  from x have "x = live (view (db s)) now k" by (rule backend_get)
  with r show ?thesis by simp
next
  case False
  with assms(1) have "view (db s) k = None" by (metis bloom_covers_def)
  with assms(2) False show ?thesis
    by (simp add: GetScore_def MightContain_def live_def)
qed

lemma PutScore_view:
  "PutScore L s now k r ttl = Inr s' \<Longrightarrow> view (db s') = (view (db s))(k \<mapsto> (r, now + ttl))"
  by (auto simp: PutScore_def bloom_Add_def dest: backend_set split: sum.splits)

lemma PutScore_bloom:
  assumes "bloom_covers s" and "PutScore L s now k r ttl = Inr s'"
  shows "bloom_covers s'"
proof -
  from assms(2) have b: "bloom s' = bf_add L (bloom s) k"
    by (auto simp: PutScore_def bloom_Add_def split: sum.splits)
  with assms(1) PutScore_view [OF assms(2)] show ?thesis
    by (auto simp: bloom_covers_def bf_test_add bf_test_keep)
qed

lemma DeleteScore_view:
  "DeleteScore L s now k = Inr s' \<Longrightarrow> view (db s') = (view (db s))(k := None) \<and> bloom s' = bloom s"
  by (auto simp: DeleteScore_def dest: backend_delete split: sum.splits)

end

sublocale badger_backend \<subseteq> score_store "GetScore L" "PutScore L" "\<lambda>s. view (db s)" bloom_covers
  by unfold_locales (simp_all add: GetScore_correct PutScore_view PutScore_bloom)

section \<open>An in-memory instance\<close>

text \<open>
  An expiring association list and an exact membership test satisfy the documented behaviour:
  the contract can hold. The witnesses run on this instance.
\<close>

type_synonym mem_db = "(string \<times> ScoreRecord \<times> time) list"

definition mem_items :: "mem_db \<Rightarrow> time \<Rightarrow> (string \<times> (error + ScoreRecord)) list" where
  "mem_items d now =
     map (\<lambda>p. (fst p, Inr (fst (snd p)))) (filter (\<lambda>p. now < snd (snd p)) (AList.clearjunk d))"

definition mem_backend :: "(mem_db, string list) backend" where
  "mem_backend = \<lparr>
     db_open = (\<lambda>_. Inr []),
     db_get = (\<lambda>d now k. Inr (live (map_of d) now k)),
     db_set = (\<lambda>d now k r ttl. Inr (AList.update k (r, now + ttl) d)),
     db_delete = (\<lambda>d now k. Inr (AList.delete k d)),
     db_items = mem_items,
     bf_new = [],
     bf_add = (\<lambda>b k. k # b),
     bf_test = (\<lambda>b k. k \<in> set b)\<rparr>"

lemma mem_items_mem:
  "(k, Inr r) \<in> set (mem_items d now) \<longleftrightarrow> live (map_of d) now k = Some r"
proof -
  have "(k, Inr r) \<in> set (mem_items d now) \<longleftrightarrow> (\<exists>e. (k, r, e) \<in> set (AList.clearjunk d) \<and> now < e)"
    by (force simp: mem_items_def image_iff)
  also have "\<dots> \<longleftrightarrow> (\<exists>e. map_of (AList.clearjunk d) k = Some (r, e) \<and> now < e)"
    by (simp add: distinct_clearjunk)
  also have "\<dots> \<longleftrightarrow> live (map_of d) now k = Some r"
    by (auto simp: live_def map_of_clearjunk split: option.splits)
  finally show ?thesis .
qed

lemma mem_items_distinct: "distinct (keys (mem_items d now))"
proof -
  have "keys (mem_items d now) = map fst (filter (\<lambda>p. now < snd (snd p)) (AList.clearjunk d))"
    by (simp add: mem_items_def)
  then show ?thesis by (simp add: distinct_map_filter distinct_clearjunk)
qed

interpretation mem: badger_backend mem_backend map_of
proof unfold_locales
  fix d :: mem_db and now k
  assume "live (map_of d) now k \<noteq> None"
  then obtain r where "live (map_of d) now k = Some r" by blast
  then have "(k, Inr r) \<in> set (mem_items d now)" by (simp add: mem_items_mem)
  then show "k \<in> fst ` set (db_items mem_backend d now)"
    by (force simp: mem_backend_def)
qed (auto simp: mem_backend_def mem_items_mem mem_items_distinct update_conv delete_conv)

lemma mem_GetScore: "\<exists>r. GetScore mem_backend s now ip = Inr r"
  by (simp add: GetScore_def mem_backend_def split: option.splits)

definition mem_empty :: "(mem_db, string list) BadgerStore" where
  "mem_empty = \<lparr>db = [], bloom = []\<rparr>"

lemma mem_empty_ok [simp]: "mem.bloom_covers mem_empty"
  by (simp add: mem_empty_def mem.bloom_covers_def)

lemma mem_empty_all [simp]: "mem.all_stored P mem_empty"
  by (simp add: mem.all_stored_def) (simp add: mem_empty_def)

end
