(* ===== verification/Reputation.thy ===== *)
theory Reputation
  imports Store
begin

text \<open>
  The scoring engine, \<open>internal/reputation\<close>: exponential decay (\<open>decay.go\<close>), the weight
  table, accumulation with the stranger cap and subnet-diversity damping, disputes, and the
  engine's operations on the store (\<open>engine.go\<close>).
\<close>

section \<open>Decay\<close>

definition DecayScore :: "real \<Rightarrow> time \<Rightarrow> time \<Rightarrow> duration \<Rightarrow> real" where
  "DecayScore score lastSeen now halfLife =
     (if score = 0 \<or> halfLife \<le> 0 then score
      else let elapsed = Sub now lastSeen;
               elapsed = (if elapsed < 0 then 0 else elapsed)
           in score * exp (- ln 2 * Seconds elapsed / Seconds halfLife))"

text \<open>The factor by which a score shrinks.\<close>

definition decay_factor :: "time \<Rightarrow> time \<Rightarrow> duration \<Rightarrow> real" where
  "decay_factor lastSeen now halfLife =
     (if halfLife \<le> 0 then 1
      else exp (- ln 2 * Seconds (max 0 (Sub now lastSeen)) / Seconds halfLife))"

lemma DecayScore_factor: "DecayScore s l n h = s * decay_factor l n h"
  by (simp add: DecayScore_def decay_factor_def Let_def max_def)

lemma decay_factor_pos [simp]: "0 < decay_factor l n h"
  by (simp add: decay_factor_def)

lemma decay_factor_le_1 [simp]: "decay_factor l n h \<le> 1"
  by (simp add: decay_factor_def divide_nonpos_pos mult_nonneg_nonneg)

lemma decay_factor_mono: "n \<le> n' \<Longrightarrow> decay_factor l n' h \<le> decay_factor l n h"
  by (auto simp: decay_factor_def intro!: divide_right_mono mult_left_mono Seconds_mono max.mono Sub_mono)

lemma decay_factor_past [simp]: "n \<le> l \<Longrightarrow> decay_factor l n h = 1"
proof -
  assume "n \<le> l"
  then have "Sub n l \<le> 0"
    by (metis Sub_mono Sub_self)
  then show ?thesis by (simp add: decay_factor_def)
qed

lemma DecayScore_nonneg [range_intros]: "0 \<le> s \<Longrightarrow> 0 \<le> DecayScore s l n h"
  by (simp add: DecayScore_factor less_imp_le)

lemma DecayScore_le [range_intros]: "0 \<le> s \<Longrightarrow> DecayScore s l n h \<le> s"
  by (simp add: DecayScore_factor mult_left_le less_imp_le)

lemma DecayScore_zero [simp]: "DecayScore 0 l n h = 0"
  by (simp add: DecayScore_def)

lemma DecayScore_now [simp]: "DecayScore s l l h = s"
  by (simp add: DecayScore_factor)

lemma decay_factor_compose:
  assumes "l \<le> m" "m \<le> n" "n - l < 2 ^ 63"
  shows "decay_factor l m h * decay_factor m n h = decay_factor l n h"
proof (cases "h \<le> 0")
  case True
  then show ?thesis by (simp add: decay_factor_def)
next
  case False
  have s: "Sub m l = m - l" "Sub n m = n - m" "Sub n l = n - l"
    using assms by (simp_all add: Sub_in_range)
  have d: "decay_factor l m h = exp (- ln 2 * Seconds (m - l) / Seconds h)"
    "decay_factor m n h = exp (- ln 2 * Seconds (n - m) / Seconds h)"
    "decay_factor l n h = exp (- ln 2 * Seconds (n - l) / Seconds h)"
    using False assms s by (simp_all add: decay_factor_def)
  have "Seconds (n - l) = Seconds (m - l) + Seconds (n - m)"
    by (simp add: Seconds_def add_divide_distrib [symmetric])
  then have "- ln 2 * Seconds (n - l) / Seconds h
      = - ln 2 * Seconds (m - l) / Seconds h + - ln 2 * Seconds (n - m) / Seconds h"
    by (simp add: add_divide_distrib diff_divide_distrib distrib_left)
  with d show ?thesis by (simp only: exp_add)
qed

lemma decay_factor_half:
  assumes "0 < h" "h < 2 ^ 63"
  shows "decay_factor l (l + h) h = 1 / 2"
proof -
  have "Sub (l + h) l = h" using assms by (simp add: Sub_in_range)
  moreover have "exp (- ln 2) = (1 / 2 :: real)"
    by (simp add: exp_minus inverse_eq_divide)
  moreover have "Seconds h \<noteq> 0"
    using assms(1) by (metis Seconds_pos less_irrefl)
  ultimately show ?thesis using assms
    by (simp add: decay_factor_def)
qed

section \<open>Weights\<close>

definition reportWeight :: "string \<rightharpoonup> real" where
  "reportWeight = map_of [
     (''ssh-auth-success'', 40),
     (''ssh-auth-bruteforce'', 10),
     (''ssh-post-auth-command'', 10),
     (''ssh-probe'', 2),
     (''ssh-unknown'', 2),
     (''smtp-auth-bruteforce'', 10),
     (''smtp-auth-success'', 40),
     (''smtp-probe'', 2),
     (''smtp-spamtrap'', 50),
     (''imap-auth-bruteforce'', 10),
     (''imap-auth-success'', 30),
     (''imap-probe'', 2),
     (''pop3-auth-bruteforce'', 10)]"

definition weightFor :: "string \<Rightarrow> real" where
  "weightFor reason = (case reportWeight reason of Some w \<Rightarrow> w | None \<Rightarrow> 2)"

lemma weightFor_bounds: "2 \<le> weightFor r \<and> weightFor r \<le> 50"
  by (simp add: weightFor_def reportWeight_def)

lemma weightFor_pos [simp]: "0 < weightFor r"
  using weightFor_bounds [of r] by linarith

lemma weightFor_nonneg [simp, range_intros]: "0 \<le> weightFor r"
  by (simp add: less_imp_le)

section \<open>Accumulation\<close>

record Observation =
  obs_Reason :: string
  obs_ReporterID :: string
  obs_Group :: string
  obs_Trust :: real
  obs_Anchored :: bool
  obs_Subnet :: string

definition containsString :: "string list \<Rightarrow> string \<Rightarrow> bool" where
  [simp]: "containsString ss s \<longleftrightarrow> s \<in> set ss"

text \<open>The lazy decay both \<open>Accumulate\<close> and \<open>ApplyDispute\<close> start with.\<close>

definition decayed :: "ScoreRecord \<Rightarrow> time \<Rightarrow> duration \<Rightarrow> real" where
  "decayed rec now halfLife =
     (if \<not> IsZero (LastSeen rec) then DecayScore (Score rec) (LastSeen rec) now halfLife else Score rec)"

definition Accumulate ::
  "ScoreRecord \<Rightarrow> Observation \<Rightarrow> time \<Rightarrow> duration \<Rightarrow> real \<Rightarrow> real \<Rightarrow> ScoreRecord" where
  "Accumulate rec obs now halfLife strangerCap diversityRepeat =
    (let rec = rec\<lparr>Score := decayed rec now halfLife\<rparr>;
         firstFromSubnet = (obs_Subnet obs \<noteq> '''' \<and> \<not> containsString (SubnetsSeen rec) (obs_Subnet obs));
         divFactor = (if obs_Subnet obs \<noteq> '''' \<and> \<not> firstFromSubnet then diversityRepeat else 1);
         contrib = obs_Trust obs * weightFor (obs_Reason obs) * (1 - Score rec / 100) * divFactor;
         remaining = (if strangerCap - StrangerContrib rec < 0 then 0 else strangerCap - StrangerContrib rec);
         contrib = (if \<not> obs_Anchored obs \<and> contrib > remaining then remaining else contrib);
         rec = (if \<not> obs_Anchored obs
                then rec\<lparr>StrangerContrib := StrangerContrib rec + contrib, StrangerSeen := True\<rparr> else rec);
         rec = rec\<lparr>Score := (if Score rec + contrib > 100 then 100 else Score rec + contrib)\<rparr>;
         rec = (if obs_Anchored obs \<and> obs_Group obs \<noteq> '''' \<and> \<not> containsString (Groups rec) (obs_Group obs)
                then rec\<lparr>Groups := Groups rec @ [obs_Group obs]\<rparr> else rec);
         rec = rec\<lparr>Corroboration := int (length (Groups rec))\<rparr>;
         rec = (if \<not> containsString (ReporterIDs rec) (obs_ReporterID obs)
                then rec\<lparr>ReporterIDs := ReporterIDs rec @ [obs_ReporterID obs]\<rparr> else rec);
         rec = (if firstFromSubnet then rec\<lparr>SubnetsSeen := SubnetsSeen rec @ [obs_Subnet obs]\<rparr> else rec);
         rec = rec\<lparr>LastSeen := now\<rparr>;
         rec = (if IsZero (FirstSeen rec) then rec\<lparr>FirstSeen := now\<rparr> else rec)
     in (if \<not> containsString (Reasons rec) (obs_Reason obs)
         then rec\<lparr>Reasons := Reasons rec @ [obs_Reason obs]\<rparr> else rec))"

section \<open>Disputes\<close>

definition ApplyDispute ::
  "ScoreRecord \<Rightarrow> Observation \<Rightarrow> time \<Rightarrow> duration \<Rightarrow> real \<Rightarrow> real \<Rightarrow> real \<Rightarrow> ScoreRecord" where
  "ApplyDispute rec obs now halfLife disputeWeight strangerCap diversityRepeat =
    (let rec = rec\<lparr>Score := decayed rec now halfLife\<rparr>;
         firstAnchoredSubnet = (obs_Anchored obs \<and> obs_Subnet obs \<noteq> ''''
             \<and> \<not> containsString (DisputeSubnetsSeen rec) (obs_Subnet obs));
         divFactor = (if obs_Anchored obs \<and> obs_Subnet obs \<noteq> '''' \<and> \<not> firstAnchoredSubnet
                      then diversityRepeat else 1);
         reduction = obs_Trust obs * disputeWeight * (Score rec / 100) * divFactor;
         remaining = (if strangerCap - DisputeContrib rec < 0 then 0 else strangerCap - DisputeContrib rec);
         reduction = (if \<not> obs_Anchored obs \<and> reduction > remaining then remaining else reduction);
         rec = (if \<not> obs_Anchored obs then rec\<lparr>DisputeContrib := DisputeContrib rec + reduction\<rparr> else rec);
         rec = rec\<lparr>Score := (if Score rec - reduction < 0 then 0 else Score rec - reduction)\<rparr>;
         rec = (if firstAnchoredSubnet
                then rec\<lparr>DisputeSubnetsSeen := DisputeSubnetsSeen rec @ [obs_Subnet obs]\<rparr> else rec)
     in rec\<lparr>LastSeen := now\<rparr>)"

section \<open>What one step changes\<close>

text \<open>The contribution of a report, before and after the stranger cap.\<close>

definition acc_raw :: "ScoreRecord \<Rightarrow> Observation \<Rightarrow> time \<Rightarrow> duration \<Rightarrow> real \<Rightarrow> real" where
  "acc_raw rec obs now h dr =
     obs_Trust obs * weightFor (obs_Reason obs) * (1 - decayed rec now h / 100) *
     (if obs_Subnet obs \<noteq> '''' \<and> obs_Subnet obs \<in> set (SubnetsSeen rec) then dr else 1)"

definition acc_contrib :: "ScoreRecord \<Rightarrow> Observation \<Rightarrow> time \<Rightarrow> duration \<Rightarrow> real \<Rightarrow> real \<Rightarrow> real" where
  "acc_contrib rec obs now h cap dr =
     (if obs_Anchored obs then acc_raw rec obs now h dr
      else min (acc_raw rec obs now h dr) (max 0 (cap - StrangerContrib rec)))"

text \<open>The reduction of a dispute.\<close>

definition disp_raw :: "ScoreRecord \<Rightarrow> Observation \<Rightarrow> time \<Rightarrow> duration \<Rightarrow> real \<Rightarrow> real \<Rightarrow> real" where
  "disp_raw rec obs now h dw dr =
     obs_Trust obs * dw * (decayed rec now h / 100) *
     (if obs_Anchored obs \<and> obs_Subnet obs \<noteq> '''' \<and> obs_Subnet obs \<in> set (DisputeSubnetsSeen rec)
      then dr else 1)"

definition disp_reduction ::
  "ScoreRecord \<Rightarrow> Observation \<Rightarrow> time \<Rightarrow> duration \<Rightarrow> real \<Rightarrow> real \<Rightarrow> real \<Rightarrow> real" where
  "disp_reduction rec obs now h dw cap dr =
     (if obs_Anchored obs then disp_raw rec obs now h dw dr
      else min (disp_raw rec obs now h dw dr) (max 0 (cap - DisputeContrib rec)))"

text \<open>Conditional updates of one field, as one update.\<close>

lemma if_update:
  "(if c then r\<lparr>Groups := gs\<rparr> else r) = r\<lparr>Groups := if c then gs else Groups r\<rparr>"
  "(if c then r\<lparr>ReporterIDs := gs\<rparr> else r) = r\<lparr>ReporterIDs := if c then gs else ReporterIDs r\<rparr>"
  "(if c then r\<lparr>SubnetsSeen := gs\<rparr> else r) = r\<lparr>SubnetsSeen := if c then gs else SubnetsSeen r\<rparr>"
  "(if c then r\<lparr>DisputeSubnetsSeen := gs\<rparr> else r)
     = r\<lparr>DisputeSubnetsSeen := if c then gs else DisputeSubnetsSeen r\<rparr>"
  "(if c then r\<lparr>Reasons := gs\<rparr> else r) = r\<lparr>Reasons := if c then gs else Reasons r\<rparr>"
  "(if c then r\<lparr>FirstSeen := t\<rparr> else r) = r\<lparr>FirstSeen := if c then t else FirstSeen r\<rparr>"
  "(if c then r\<lparr>DisputeContrib := x\<rparr> else r) = r\<lparr>DisputeContrib := if c then x else DisputeContrib r\<rparr>"
  "(if c then r\<lparr>StrangerContrib := x, StrangerSeen := b\<rparr> else r)
     = r\<lparr>StrangerContrib := if c then x else StrangerContrib r,
         StrangerSeen := if c then b else StrangerSeen r\<rparr>"
  by simp_all

lemma if_add_new:
  "(if x \<notin> set xs then xs @ [x] else xs) = add_new xs x"
  "(if a \<and> x \<notin> set xs then xs @ [x] else xs) = (if a then add_new xs x else xs)"
  "(if a \<and> b \<and> x \<notin> set xs then xs @ [x] else xs) = (if a \<and> b then add_new xs x else xs)"
  by (simp_all add: add_new_def)

lemma capped_contrib:
  "(if \<not> a \<and> c > r then r else c) = (if a then c else min c (r::real))"
  by (simp add: min_def)

lemma damped:
  "(if s \<noteq> '''' \<and> \<not> (s \<noteq> '''' \<and> s \<notin> set xs) then dr else 1) = (if s \<noteq> '''' \<and> s \<in> set xs then dr else (1::real))"
  "(if a \<and> s \<noteq> '''' \<and> \<not> (a \<and> s \<noteq> '''' \<and> s \<notin> set xs) then dr else 1)
     = (if a \<and> s \<noteq> '''' \<and> s \<in> set xs then dr else (1::real))"
  by auto

lemma capped_score:
  "(if 100 < x then 100 else x) = min 100 (x::real)"
  "(if x < 0 then 0 else x) = max 0 (x::real)"
  by (simp_all add: min_def max_def)

lemmas step_closed = Let_def if_update if_add_new capped_contrib damped capped_score
  acc_contrib_def acc_raw_def disp_reduction_def disp_raw_def containsString_def IsZero_def

lemma Accumulate_closed:
  "Accumulate rec obs now h cap dr =
     rec\<lparr>Score := min 100 (decayed rec now h + acc_contrib rec obs now h cap dr),
         StrangerContrib := (if \<not> obs_Anchored obs then StrangerContrib rec + acc_contrib rec obs now h cap dr
                             else StrangerContrib rec),
         StrangerSeen := (if \<not> obs_Anchored obs then True else StrangerSeen rec),
         Groups := (if obs_Anchored obs \<and> obs_Group obs \<noteq> ''''
                    then add_new (Groups rec) (obs_Group obs) else Groups rec),
         Corroboration := int (length (if obs_Anchored obs \<and> obs_Group obs \<noteq> ''''
                                       then add_new (Groups rec) (obs_Group obs) else Groups rec)),
         ReporterIDs := add_new (ReporterIDs rec) (obs_ReporterID obs),
         SubnetsSeen := (if obs_Subnet obs \<noteq> '''' then add_new (SubnetsSeen rec) (obs_Subnet obs)
                         else SubnetsSeen rec),
         LastSeen := now,
         FirstSeen := (if FirstSeen rec = 0 then now else FirstSeen rec),
         Reasons := add_new (Reasons rec) (obs_Reason obs)\<rparr>"
  by (cases rec) (simp only: Accumulate_def step_closed ScoreRecord.simps)

lemma ApplyDispute_closed:
  "ApplyDispute rec obs now h dw cap dr =
     rec\<lparr>DisputeContrib := (if \<not> obs_Anchored obs
                             then DisputeContrib rec + disp_reduction rec obs now h dw cap dr
                             else DisputeContrib rec),
         Score := max 0 (decayed rec now h - disp_reduction rec obs now h dw cap dr),
         DisputeSubnetsSeen := (if obs_Anchored obs \<and> obs_Subnet obs \<noteq> ''''
                                then add_new (DisputeSubnetsSeen rec) (obs_Subnet obs)
                                else DisputeSubnetsSeen rec),
         LastSeen := now\<rparr>"
  by (cases rec) (simp only: ApplyDispute_def step_closed ScoreRecord.simps)

lemma Accumulate_fields:
  "Score (Accumulate rec obs now h cap dr) = min 100 (decayed rec now h + acc_contrib rec obs now h cap dr)"
  "Groups (Accumulate rec obs now h cap dr) =
     (if obs_Anchored obs \<and> obs_Group obs \<noteq> '''' then add_new (Groups rec) (obs_Group obs) else Groups rec)"
  "Corroboration (Accumulate rec obs now h cap dr) = int (length (Groups (Accumulate rec obs now h cap dr)))"
  "ReporterIDs (Accumulate rec obs now h cap dr) = add_new (ReporterIDs rec) (obs_ReporterID obs)"
  "Reasons (Accumulate rec obs now h cap dr) = add_new (Reasons rec) (obs_Reason obs)"
  "SubnetsSeen (Accumulate rec obs now h cap dr) =
     (if obs_Subnet obs \<noteq> '''' then add_new (SubnetsSeen rec) (obs_Subnet obs) else SubnetsSeen rec)"
  "StrangerContrib (Accumulate rec obs now h cap dr) =
     (if obs_Anchored obs then StrangerContrib rec else StrangerContrib rec + acc_contrib rec obs now h cap dr)"
  "StrangerSeen (Accumulate rec obs now h cap dr) \<longleftrightarrow> StrangerSeen rec \<or> \<not> obs_Anchored obs"
  "LastSeen (Accumulate rec obs now h cap dr) = now"
  "FirstSeen (Accumulate rec obs now h cap dr) = (if FirstSeen rec = 0 then now else FirstSeen rec)"
  "DisputeSubnetsSeen (Accumulate rec obs now h cap dr) = DisputeSubnetsSeen rec"
  "DisputeContrib (Accumulate rec obs now h cap dr) = DisputeContrib rec"
  by (simp_all add: Accumulate_closed)

lemma ApplyDispute_fields:
  "Score (ApplyDispute rec obs now h dw cap dr) =
     max 0 (decayed rec now h - disp_reduction rec obs now h dw cap dr)"
  "DisputeSubnetsSeen (ApplyDispute rec obs now h dw cap dr) =
     (if obs_Anchored obs \<and> obs_Subnet obs \<noteq> '''' then add_new (DisputeSubnetsSeen rec) (obs_Subnet obs)
      else DisputeSubnetsSeen rec)"
  "DisputeContrib (ApplyDispute rec obs now h dw cap dr) =
     (if obs_Anchored obs then DisputeContrib rec
      else DisputeContrib rec + disp_reduction rec obs now h dw cap dr)"
  "LastSeen (ApplyDispute rec obs now h dw cap dr) = now"
  "Groups (ApplyDispute rec obs now h dw cap dr) = Groups rec"
  "Corroboration (ApplyDispute rec obs now h dw cap dr) = Corroboration rec"
  "FirstSeen (ApplyDispute rec obs now h dw cap dr) = FirstSeen rec"
  "Reasons (ApplyDispute rec obs now h dw cap dr) = Reasons rec"
  "ReporterIDs (ApplyDispute rec obs now h dw cap dr) = ReporterIDs rec"
  "SubnetsSeen (ApplyDispute rec obs now h dw cap dr) = SubnetsSeen rec"
  "StrangerSeen (ApplyDispute rec obs now h dw cap dr) = StrangerSeen rec"
  "StrangerContrib (ApplyDispute rec obs now h dw cap dr) = StrangerContrib rec"
  by (simp_all add: ApplyDispute_closed)

lemma decayed_nonneg [range_intros]: "0 \<le> Score rec \<Longrightarrow> 0 \<le> decayed rec now h"
  by (simp add: decayed_def DecayScore_nonneg)

lemma decayed_le [range_intros]: "0 \<le> Score rec \<Longrightarrow> decayed rec now h \<le> Score rec"
  by (simp add: decayed_def DecayScore_le)

lemma decayed_zero_rec [simp]: "decayed zero_rec now h = 0"
  by (simp add: decayed_def)

lemma acc_raw_nonneg [range_intros]:
  assumes "0 \<le> Score rec" "Score rec \<le> 100" "0 \<le> obs_Trust obs" "0 \<le> dr"
  shows "0 \<le> acc_raw rec obs now h dr"
proof -
  have "decayed rec now h \<le> 100"
    using decayed_le [OF assms(1)] assms(2) by (rule order_trans)
  with assms show ?thesis by (simp add: acc_raw_def)
qed

lemma acc_contrib_bounds:
  assumes "0 \<le> Score rec" "Score rec \<le> 100" "0 \<le> obs_Trust obs" "0 \<le> dr"
  shows "0 \<le> acc_contrib rec obs now h cap dr"
    and "\<not> obs_Anchored obs \<Longrightarrow> StrangerContrib rec \<le> cap
           \<Longrightarrow> acc_contrib rec obs now h cap dr \<le> cap - StrangerContrib rec"
  using acc_raw_nonneg [OF assms] by (auto simp: acc_contrib_def)

lemma disp_raw_nonneg [range_intros]:
  assumes "0 \<le> Score rec" "0 \<le> obs_Trust obs" "0 \<le> dw" "0 \<le> dr"
  shows "0 \<le> disp_raw rec obs now h dw dr"
  using assms by (simp add: disp_raw_def decayed_nonneg)

lemma disp_reduction_bounds:
  assumes "0 \<le> Score rec" "0 \<le> obs_Trust obs" "0 \<le> dw" "0 \<le> dr"
  shows "0 \<le> disp_reduction rec obs now h dw cap dr"
    and "\<not> obs_Anchored obs \<Longrightarrow> DisputeContrib rec \<le> cap
           \<Longrightarrow> disp_reduction rec obs now h dw cap dr \<le> cap - DisputeContrib rec"
  using disp_raw_nonneg [OF assms] by (auto simp: disp_reduction_def)

section \<open>The record invariant\<close>

text \<open>
  What every record in the store satisfies: a score on the scale, the stranger and dispute
  budgets within the cap, a corroboration that is the number of distinct anchored groups, and
  slices that are sets.
\<close>

definition rec_ok :: "real \<Rightarrow> ScoreRecord \<Rightarrow> bool" where
  "rec_ok cap rec \<longleftrightarrow>
     0 \<le> Score rec \<and> Score rec \<le> 100 \<and>
     0 \<le> StrangerContrib rec \<and> StrangerContrib rec \<le> cap \<and>
     0 \<le> DisputeContrib rec \<and> DisputeContrib rec \<le> cap \<and>
     (\<not> StrangerSeen rec \<longrightarrow> StrangerContrib rec = 0) \<and>
     Corroboration rec = int (length (Groups rec)) \<and>
     distinct (Groups rec) \<and> distinct (ReporterIDs rec) \<and> distinct (Reasons rec) \<and>
     distinct (SubnetsSeen rec) \<and> distinct (DisputeSubnetsSeen rec) \<and>
     '''' \<notin> set (Groups rec) \<and> '''' \<notin> set (SubnetsSeen rec) \<and> '''' \<notin> set (DisputeSubnetsSeen rec)"

lemma rec_okD:
  assumes "rec_ok cap rec"
  shows "0 \<le> Score rec" "Score rec \<le> 100" "StrangerContrib rec \<le> cap" "DisputeContrib rec \<le> cap"
    "0 \<le> StrangerContrib rec" "0 \<le> DisputeContrib rec" "Corroboration rec = int (length (Groups rec))"
  using assms by (simp_all add: rec_ok_def)

lemma rec_ok_zero [simp]: "0 \<le> cap \<Longrightarrow> rec_ok cap zero_rec"
  by (simp add: rec_ok_def)

lemma Accumulate_rec_ok:
  assumes "rec_ok cap rec" "0 \<le> obs_Trust obs" "0 \<le> dr"
  shows "rec_ok cap (Accumulate rec obs now h cap dr)"
proof -
  note ok = rec_okD [OF assms(1)]
  note c = acc_contrib_bounds [OF ok(1,2) assms(2,3)]
  show ?thesis
    using assms(1) ok c(1) [of now h cap] c(2) [of cap now h] decayed_nonneg [OF ok(1), of now h]
    unfolding rec_ok_def Accumulate_fields
    by (cases "obs_Anchored obs") auto
qed

lemma ApplyDispute_rec_ok:
  assumes "rec_ok cap rec" "0 \<le> obs_Trust obs" "0 \<le> dw" "0 \<le> dr"
  shows "rec_ok cap (ApplyDispute rec obs now h dw cap dr)"
proof -
  note ok = rec_okD [OF assms(1)]
  note c = disp_reduction_bounds [OF ok(1) assms(2-4)]
  have d: "decayed rec now h \<le> 100"
    using decayed_le [OF ok(1)] ok(2) by (rule order_trans)
  show ?thesis
    using assms(1) ok c(1) [of now h cap] c(2) [of cap now h] d decayed_nonneg [OF ok(1), of now h]
    unfolding rec_ok_def ApplyDispute_fields
    by (cases "obs_Anchored obs") auto
qed

lemma rec_ok_Score_update:
  "rec_ok cap rec \<Longrightarrow> 0 \<le> x \<Longrightarrow> x \<le> 100 \<Longrightarrow> rec_ok cap (rec\<lparr>Score := x\<rparr>)"
  by (simp add: rec_ok_def)

section \<open>Sequences of reports and disputes\<close>

text \<open>Reports folded into one record, as \<open>Record\<close> does over the life of an address.\<close>

definition accumulate_all ::
  "duration \<Rightarrow> real \<Rightarrow> real \<Rightarrow> (Observation \<times> time) list \<Rightarrow> ScoreRecord \<Rightarrow> ScoreRecord" where
  "accumulate_all h cap dr os rec = fold (\<lambda>(obs, t) r. Accumulate r obs t h cap dr) os rec"

lemma accumulate_all_simps [simp]:
  "accumulate_all h cap dr [] rec = rec"
  "accumulate_all h cap dr ((obs, t) # os) rec = accumulate_all h cap dr os (Accumulate rec obs t h cap dr)"
  by (simp_all add: accumulate_all_def)

text \<open>What a record made of stranger reports only satisfies.\<close>

definition stranger_rec :: "real \<Rightarrow> ScoreRecord \<Rightarrow> bool" where
  "stranger_rec cap rec \<longleftrightarrow>
     rec_ok cap rec \<and> Score rec \<le> StrangerContrib rec \<and> Groups rec = []"

lemma stranger_rec_zero [simp]: "0 \<le> cap \<Longrightarrow> stranger_rec cap zero_rec"
  by (simp add: stranger_rec_def)

lemma stranger_rec_Accumulate:
  assumes "stranger_rec cap rec" "\<not> obs_Anchored obs" "0 \<le> obs_Trust obs" "0 \<le> dr"
  shows "stranger_rec cap (Accumulate rec obs now h cap dr)"
proof -
  from assms have ok: "rec_ok cap rec" by (simp add: stranger_rec_def)
  have "decayed rec now h \<le> Score rec" using rec_okD(1) [OF ok] by (rule decayed_le)
  with assms Accumulate_rec_ok [OF ok assms(3,4)] show ?thesis
    by (auto simp: stranger_rec_def Accumulate_fields)
qed

lemma stranger_rec_all:
  "stranger_rec cap rec \<Longrightarrow> \<forall>(obs, t) \<in> set os. \<not> obs_Anchored obs \<and> 0 \<le> obs_Trust obs \<Longrightarrow> 0 \<le> dr
     \<Longrightarrow> stranger_rec cap (accumulate_all h cap dr os rec)"
proof (induction os arbitrary: rec)
  case (Cons q os)
  then show ?case by (cases q) (simp add: stranger_rec_Accumulate)
qed simp

text \<open>Disputes folded into one record.\<close>

definition dispute_all ::
  "duration \<Rightarrow> real \<Rightarrow> real \<Rightarrow> real \<Rightarrow> (Observation \<times> time) list \<Rightarrow> ScoreRecord \<Rightarrow> ScoreRecord" where
  "dispute_all h dw cap dr os rec = fold (\<lambda>(obs, t) r. ApplyDispute r obs t h dw cap dr) os rec"

lemma dispute_all_simps [simp]:
  "dispute_all h dw cap dr [] rec = rec"
  "dispute_all h dw cap dr ((obs, t) # os) rec = dispute_all h dw cap dr os (ApplyDispute rec obs t h dw cap dr)"
  by (simp_all add: dispute_all_def)

lemma dispute_all_rec_ok:
  "rec_ok cap rec \<Longrightarrow> \<forall>(obs, t) \<in> set os. 0 \<le> obs_Trust obs \<Longrightarrow> 0 \<le> dw \<Longrightarrow> 0 \<le> dr
     \<Longrightarrow> rec_ok cap (dispute_all h dw cap dr os rec)"
proof (induction os arbitrary: rec)
  case (Cons q os)
  then show ?case by (cases q) (simp add: ApplyDispute_rec_ok)
qed simp

lemma dispute_all_strangers_subnets:
  "\<forall>(obs, t) \<in> set os. \<not> obs_Anchored obs
     \<Longrightarrow> DisputeSubnetsSeen (dispute_all h dw cap dr os rec) = DisputeSubnetsSeen rec"
proof (induction os arbitrary: rec)
  case (Cons q os)
  then show ?case by (cases q) (simp add: ApplyDispute_fields)
qed simp

text \<open>
  One stranger dispute trades score for budget: beyond decay, the score loses at most what the
  budget gains.
\<close>

lemma stranger_dispute_trade:
  assumes "LastSeen rec \<noteq> 0" "\<not> obs_Anchored obs"
  shows "Score rec * decay_factor (LastSeen rec) t h + DisputeContrib rec
     \<le> Score (ApplyDispute rec obs t h dw cap dr) + DisputeContrib (ApplyDispute rec obs t h dw cap dr)"
  using assms by (simp add: ApplyDispute_fields decayed_def IsZero_def DecayScore_factor)

lemma stranger_disputes_trade:
  assumes "rec_ok cap rec" "\<forall>(obs, t) \<in> set os. \<not> obs_Anchored obs \<and> 0 \<le> obs_Trust obs"
    "0 \<le> dw" "0 \<le> dr" "sorted (LastSeen rec # map snd os)" "0 < LastSeen rec"
    "last (LastSeen rec # map snd os) - LastSeen rec < 2 ^ 63"
  shows "Score rec * decay_factor (LastSeen rec) (last (LastSeen rec # map snd os)) h + DisputeContrib rec
     \<le> Score (dispute_all h dw cap dr os rec) + DisputeContrib (dispute_all h dw cap dr os rec)"
  using assms
proof (induction os arbitrary: rec)
  case Nil
  then show ?case by simp
next
  case (Cons q os)
  obtain obs t where q: "q = (obs, t)" by (cases q)
  let ?r = "ApplyDispute rec obs t h dw cap dr"
  let ?l = "LastSeen rec"
  define n where n: "n = last (t # map snd os)"
  let ?f = "decay_factor t n h"
  have obs: "\<not> obs_Anchored obs" "0 \<le> obs_Trust obs" using Cons.prems(2) q by auto
  have ls: "LastSeen ?r = t" by (simp add: ApplyDispute_fields)
  have "n \<in> set (t # map snd os)" unfolding n by (rule last_in_set) simp
  with Cons.prems(5) q have ord: "?l \<le> t" "t \<le> n" by auto
  have ok: "rec_ok cap ?r" using Cons.prems obs by (simp add: ApplyDispute_rec_ok)
  have step: "Score rec * decay_factor ?l t h + DisputeContrib rec \<le> Score ?r + DisputeContrib ?r"
    using Cons.prems(6) obs by (intro stranger_dispute_trade) auto
  have ih: "Score ?r * ?f + DisputeContrib ?r
      \<le> Score (dispute_all h dw cap dr os ?r) + DisputeContrib (dispute_all h dw cap dr os ?r)"
    using Cons.IH [of ?r] Cons.prems ok q ls ord n by (auto split: if_splits)
  have d: "DisputeContrib rec \<le> DisputeContrib ?r"
    using obs disp_reduction_bounds(1) [OF rec_okD(1) [OF Cons.prems(1)] obs(2) Cons.prems(3,4)]
    by (simp add: ApplyDispute_fields)
  have comp: "decay_factor ?l t h * ?f = decay_factor ?l n h"
    using ord Cons.prems(7) q n by (intro decay_factor_compose) (auto split: if_splits)
  have "(Score rec * decay_factor ?l t h + DisputeContrib rec - DisputeContrib ?r) * ?f \<le> Score ?r * ?f"
    using step by (intro mult_right_mono) (simp_all add: less_imp_le)
  then have "Score rec * decay_factor ?l n h - (DisputeContrib ?r - DisputeContrib rec) * ?f \<le> Score ?r * ?f"
    by (simp add: algebra_simps comp [symmetric])
  moreover have "(DisputeContrib ?r - DisputeContrib rec) * ?f \<le> DisputeContrib ?r - DisputeContrib rec"
    using d by (simp add: mult_left_le)
  ultimately have "Score rec * decay_factor ?l n h + DisputeContrib rec \<le> Score ?r * ?f + DisputeContrib ?r"
    by linarith
  with ih q n show ?case by simp
qed

section \<open>The engine on the store\<close>

record Engine =
  eng_halfLife :: duration
  eng_strangerCap :: real
  eng_diversityRepeat :: real
  eng_disputeWeight :: real

text \<open>
  Each operation reads the record, folds one step into it and writes it back for three
  half-lives. An error leaves the store as it was.
\<close>

definition Record ::
  "('db, 'bf) backend \<Rightarrow> Engine \<Rightarrow> ('db, 'bf) BadgerStore \<Rightarrow> time \<Rightarrow> string \<Rightarrow> string \<Rightarrow> string \<Rightarrow> real
     \<Rightarrow> string \<Rightarrow> string \<Rightarrow> bool \<Rightarrow> error + real \<times> ('db, 'bf) BadgerStore" where
  "Record L e s now ip reason reporterID trust grp subnet anchored =
     (case GetScore L s now ip of
        Inl err \<Rightarrow> Inl (Wrap ''reputation: get'' err)
      | Inr rec \<Rightarrow>
          let rec = Accumulate rec
                \<lparr>obs_Reason = reason, obs_ReporterID = reporterID, obs_Group = grp, obs_Trust = trust,
                 obs_Anchored = anchored, obs_Subnet = subnet\<rparr>
                now (eng_halfLife e) (eng_strangerCap e) (eng_diversityRepeat e);
              ttl = 3 * eng_halfLife e
          in (case PutScore L s now ip rec ttl of
                Inl err \<Rightarrow> Inl (Wrap ''reputation: put'' err)
              | Inr s' \<Rightarrow> Inr (Score rec, s')))"

definition RecordDispute ::
  "('db, 'bf) backend \<Rightarrow> Engine \<Rightarrow> ('db, 'bf) BadgerStore \<Rightarrow> time \<Rightarrow> string \<Rightarrow> string \<Rightarrow> real
     \<Rightarrow> string \<Rightarrow> bool \<Rightarrow> error + (real \<times> nat) \<times> ('db, 'bf) BadgerStore" where
  "RecordDispute L e s now ip reporterID trust subnet anchored =
     (case GetScore L s now ip of
        Inl err \<Rightarrow> Inl (Wrap ''reputation: get'' err)
      | Inr rec \<Rightarrow>
          let rec = ApplyDispute rec
                \<lparr>obs_Reason = '''', obs_ReporterID = reporterID, obs_Group = '''', obs_Trust = trust,
                 obs_Anchored = anchored, obs_Subnet = subnet\<rparr>
                now (eng_halfLife e) (eng_disputeWeight e) (eng_strangerCap e) (eng_diversityRepeat e);
              ttl = 3 * eng_halfLife e
          in (case PutScore L s now ip rec ttl of
                Inl err \<Rightarrow> Inl (Wrap ''reputation: put'' err)
              | Inr s' \<Rightarrow> Inr ((Score rec, length (DisputeSubnetsSeen rec)), s')))"

definition Decay ::
  "('db, 'bf) backend \<Rightarrow> Engine \<Rightarrow> ('db, 'bf) BadgerStore \<Rightarrow> time \<Rightarrow> string
     \<Rightarrow> error + real \<times> ('db, 'bf) BadgerStore" where
  "Decay L e s now ip =
     (case GetScore L s now ip of
        Inl err \<Rightarrow> Inl (Wrap ''reputation: get'' err)
      | Inr rec \<Rightarrow>
          if IsZero (LastSeen rec) then Inr (0, s)
          else
            let rec = rec\<lparr>Score := DecayScore (Score rec) (LastSeen rec) now (eng_halfLife e)\<rparr>;
                ttl = 3 * eng_halfLife e
            in (case PutScore L s now ip rec ttl of
                  Inl err \<Rightarrow> Inl (Wrap ''reputation: put'' err)
                | Inr s' \<Rightarrow> Inr (Score rec, s')))"

definition GetRecord ::
  "('db, 'bf) backend \<Rightarrow> ('db, 'bf) BadgerStore \<Rightarrow> time \<Rightarrow> string \<Rightarrow> error + ScoreRecord" where
  "GetRecord L s now ip = GetScore L s now ip"

text \<open>An engine whose parameters are in the range the configuration promises.\<close>

definition engine_ok :: "Engine \<Rightarrow> bool" where
  "engine_ok e \<longleftrightarrow> 0 \<le> eng_strangerCap e \<and> 0 \<le> eng_diversityRepeat e \<and> 0 \<le> eng_disputeWeight e"

context badger_backend
begin

lemma Record_effect:
  assumes "Record L e s now ip reason rid trust grp subnet anchored = Inr (x, s')"
  obtains rec rec' where "GetScore L s now ip = Inr rec"
    and "rec' = Accumulate rec \<lparr>obs_Reason = reason, obs_ReporterID = rid, obs_Group = grp,
           obs_Trust = trust, obs_Anchored = anchored, obs_Subnet = subnet\<rparr>
           now (eng_halfLife e) (eng_strangerCap e) (eng_diversityRepeat e)"
    and "PutScore L s now ip rec' (3 * eng_halfLife e) = Inr s'" and "x = Score rec'"
  using assms by (auto simp: Record_def Let_def split: sum.splits)

lemma RecordDispute_effect:
  assumes "RecordDispute L e s now ip rid trust subnet anchored = Inr ((x, n), s')"
  obtains rec rec' where "GetScore L s now ip = Inr rec"
    and "rec' = ApplyDispute rec \<lparr>obs_Reason = '''', obs_ReporterID = rid, obs_Group = '''',
           obs_Trust = trust, obs_Anchored = anchored, obs_Subnet = subnet\<rparr>
           now (eng_halfLife e) (eng_disputeWeight e) (eng_strangerCap e) (eng_diversityRepeat e)"
    and "PutScore L s now ip rec' (3 * eng_halfLife e) = Inr s'"
    and "x = Score rec'" and "n = length (DisputeSubnetsSeen rec')"
  using assms by (auto simp: RecordDispute_def Let_def split: sum.splits)

lemma Decay_effect:
  assumes "Decay L e s now ip = Inr (x, s')" and "GetScore L s now ip = Inr rec" and "LastSeen rec \<noteq> 0"
  shows "PutScore L s now ip (rec\<lparr>Score := DecayScore (Score rec) (LastSeen rec) now (eng_halfLife e)\<rparr>)
           (3 * eng_halfLife e) = Inr s'"
    and "x = DecayScore (Score rec) (LastSeen rec) now (eng_halfLife e)"
  using assms by (auto simp: Decay_def Let_def IsZero_def split: sum.splits)

text \<open>Every engine operation keeps every stored record well formed.\<close>

lemma Record_all_ok:
  assumes "all_stored (rec_ok (eng_strangerCap e)) s" "engine_ok e" "0 \<le> trust"
    and "Record L e s now ip reason rid trust grp subnet anchored = Inr (x, s')"
  shows "all_stored (rec_ok (eng_strangerCap e)) s' \<and> 0 \<le> x \<and> x \<le> 100"
proof (rule Record_effect [OF assms(4)])
  fix rec rec'
  assume get: "GetScore L s now ip = Inr rec"
    and rec': "rec' = Accumulate rec \<lparr>obs_Reason = reason, obs_ReporterID = rid, obs_Group = grp,
           obs_Trust = trust, obs_Anchored = anchored, obs_Subnet = subnet\<rparr>
           now (eng_halfLife e) (eng_strangerCap e) (eng_diversityRepeat e)"
    and put: "PutScore L s now ip rec' (3 * eng_halfLife e) = Inr s'" and x: "x = Score rec'"
  from assms(2) have e: "0 \<le> eng_strangerCap e" "0 \<le> eng_diversityRepeat e"
    by (simp_all add: engine_ok_def)
  have "rec_ok (eng_strangerCap e) rec"
    by (rule all_stored_get [OF assms(1) _ get]) (simp add: e)
  then have ok: "rec_ok (eng_strangerCap e) rec'"
    unfolding rec' using assms(3) e by (intro Accumulate_rec_ok) simp_all
  show ?thesis
    using all_stored_put [OF assms(1) ok put] rec_okD [OF ok] x by simp
qed

lemma RecordDispute_all_ok:
  assumes "all_stored (rec_ok (eng_strangerCap e)) s" "engine_ok e" "0 \<le> trust"
    and "RecordDispute L e s now ip rid trust subnet anchored = Inr ((x, n), s')"
  shows "all_stored (rec_ok (eng_strangerCap e)) s' \<and> 0 \<le> x \<and> x \<le> 100"
proof (rule RecordDispute_effect [OF assms(4)])
  fix rec rec'
  assume get: "GetScore L s now ip = Inr rec"
    and rec': "rec' = ApplyDispute rec \<lparr>obs_Reason = '''', obs_ReporterID = rid, obs_Group = '''',
           obs_Trust = trust, obs_Anchored = anchored, obs_Subnet = subnet\<rparr>
           now (eng_halfLife e) (eng_disputeWeight e) (eng_strangerCap e) (eng_diversityRepeat e)"
    and put: "PutScore L s now ip rec' (3 * eng_halfLife e) = Inr s'" and x: "x = Score rec'"
  from assms(2) have e: "0 \<le> eng_strangerCap e" "0 \<le> eng_diversityRepeat e" "0 \<le> eng_disputeWeight e"
    by (simp_all add: engine_ok_def)
  have "rec_ok (eng_strangerCap e) rec"
    by (rule all_stored_get [OF assms(1) _ get]) (simp add: e)
  then have ok: "rec_ok (eng_strangerCap e) rec'"
    unfolding rec' using assms(3) e by (intro ApplyDispute_rec_ok) simp_all
  show ?thesis
    using all_stored_put [OF assms(1) ok put] rec_okD [OF ok] x by simp
qed

lemma Decay_all_ok:
  assumes "all_stored (rec_ok (eng_strangerCap e)) s" "engine_ok e"
    and "Decay L e s now ip = Inr (x, s')"
  shows "all_stored (rec_ok (eng_strangerCap e)) s' \<and> 0 \<le> x \<and> x \<le> 100"
proof -
  from assms(3) obtain rec where get: "GetScore L s now ip = Inr rec"
    by (auto simp: Decay_def split: sum.splits)
  have ok: "rec_ok (eng_strangerCap e) rec"
    by (rule all_stored_get [OF assms(1) _ get]) (use assms(2) in \<open>simp add: engine_ok_def\<close>)
  show ?thesis
  proof (cases "LastSeen rec = 0")
    case True
    with assms(1,3) get show ?thesis by (simp add: Decay_def IsZero_def)
  next
    case False
    note eff = Decay_effect [OF assms(3) get False]
    note le = DecayScore_le [OF rec_okD(1) [OF ok]] and nn = DecayScore_nonneg [OF rec_okD(1) [OF ok]]
    have "x \<le> 100" using eff(2) le rec_okD(2) [OF ok] order_trans by blast
    moreover have "0 \<le> x" using eff(2) nn by simp
    ultimately show ?thesis
      using all_stored_put [OF assms(1) rec_ok_Score_update [OF ok] eff(1)] eff(2) by simp
  qed
qed

text \<open>A read within three half-lives returns what the report wrote.\<close>

lemma Record_then_get:
  assumes "bloom_covers s" "GetScore L s now ip = Inr rec"
    and "Record L e s now ip reason rid trust grp subnet anchored = Inr (x, s')"
    and "now' < now + 3 * eng_halfLife e" "GetRecord L s' now' ip = Inr r"
  shows "r = Accumulate rec \<lparr>obs_Reason = reason, obs_ReporterID = rid, obs_Group = grp,
           obs_Trust = trust, obs_Anchored = anchored, obs_Subnet = subnet\<rparr>
           now (eng_halfLife e) (eng_strangerCap e) (eng_diversityRepeat e) \<and> Score r = x"
  using assms by (elim Record_effect) (auto simp: GetRecord_def dest: get_after_put)

text \<open>
  Two passes of \<open>Decay\<close>: \<open>LastSeen\<close> does not move, so the second pass multiplies the
  already decayed score by the factor for the whole time since \<open>LastSeen\<close>.
\<close>

lemma Decay_twice_compounds:
  assumes "bloom_covers s" "GetScore L s t1 ip = Inr rec" "LastSeen rec \<noteq> 0"
    and "Decay L e s t1 ip = Inr (x1, s1)" "t2 < t1 + 3 * eng_halfLife e"
    and "Decay L e s1 t2 ip = Inr (x2, s2)"
  shows "x2 = Score rec * decay_factor (LastSeen rec) t1 (eng_halfLife e)
              * decay_factor (LastSeen rec) t2 (eng_halfLife e)"
proof -
  note eff1 = Decay_effect [OF assms(4,2,3)]
  from assms(6) obtain rec1 where get1: "GetScore L s1 t2 ip = Inr rec1"
    by (auto simp: Decay_def split: sum.splits)
  have rec1: "rec1 = rec\<lparr>Score := DecayScore (Score rec) (LastSeen rec) t1 (eng_halfLife e)\<rparr>"
    using get_after_put [OF assms(1) eff1(1) assms(5) get1] .
  then have "LastSeen rec1 \<noteq> 0" using assms(3) by simp
  from Decay_effect(2) [OF assms(6) get1 this] show ?thesis
    by (simp add: rec1 DecayScore_factor)
qed

end

section \<open>Runs of the engine\<close>

text \<open>
  One step of the engine: a report with a non-negative trust weight, a dispute, or a decay. An
  operation that fails is no step, since it leaves the store unchanged.
\<close>

inductive engine_step ::
  "('db, 'bf) backend \<Rightarrow> Engine \<Rightarrow> ('db, 'bf) BadgerStore \<Rightarrow> ('db, 'bf) BadgerStore \<Rightarrow> bool"
  for L :: "('db, 'bf) backend" and e :: Engine where
  step_record: "0 \<le> trust \<Longrightarrow> Record L e s now ip reason rid trust grp subnet anchored = Inr (x, s')
     \<Longrightarrow> engine_step L e s s'"
| step_dispute: "0 \<le> trust \<Longrightarrow> RecordDispute L e s now ip rid trust subnet anchored = Inr (y, s')
     \<Longrightarrow> engine_step L e s s'"
| step_decay: "Decay L e s now ip = Inr (x, s') \<Longrightarrow> engine_step L e s s'"

inductive engine_run ::
  "('db, 'bf) backend \<Rightarrow> Engine \<Rightarrow> ('db, 'bf) BadgerStore \<Rightarrow> ('db, 'bf) BadgerStore \<Rightarrow> bool"
  for L :: "('db, 'bf) backend" and e :: Engine where
  run_start: "engine_run L e s s"
| run_step: "engine_run L e s s' \<Longrightarrow> engine_step L e s' s'' \<Longrightarrow> engine_run L e s s''"

text \<open>The store's bloom filter knows every stored key, and every stored record satisfies \<open>P\<close>.\<close>

definition store_inv ::
  "('db, 'bf) backend \<Rightarrow> ('db \<Rightarrow> string \<rightharpoonup> ScoreRecord \<times> time) \<Rightarrow> (ScoreRecord \<Rightarrow> bool)
     \<Rightarrow> ('db, 'bf) BadgerStore \<Rightarrow> bool" where
  "store_inv L view P s \<longleftrightarrow>
     (\<forall>k. view (db s) k \<noteq> None \<longrightarrow> bf_test L (bloom s) k) \<and>
     (\<forall>k r t. view (db s) k = Some (r, t) \<longrightarrow> P r)"

lemma store_inv_empty [simp]: "store_inv mem_backend map_of P mem_empty"
  by (simp add: store_inv_def mem_empty_def)

context badger_backend
begin

lemma store_inv_iff: "store_inv L view P s \<longleftrightarrow> all_stored P s"
  by (auto simp: store_inv_def all_stored_def bloom_covers_def)

lemma engine_step_ok:
  "engine_step L e s s' \<Longrightarrow> engine_ok e \<Longrightarrow> all_stored (rec_ok (eng_strangerCap e)) s
     \<Longrightarrow> all_stored (rec_ok (eng_strangerCap e)) s'"
proof (induction rule: engine_step.induct)
  case (step_record trust s now ip reason rid grp subnet anchored x s')
  then show ?case using Record_all_ok by blast
next
  case (step_dispute trust s now ip rid subnet anchored y s')
  then show ?case using RecordDispute_all_ok by (cases y) blast
next
  case (step_decay s now ip x s')
  then show ?case using Decay_all_ok by blast
qed

lemma engine_run_ok:
  "engine_run L e s s' \<Longrightarrow> engine_ok e \<Longrightarrow> store_inv L view (rec_ok (eng_strangerCap e)) s
     \<Longrightarrow> store_inv L view (rec_ok (eng_strangerCap e)) s'"
  by (induction rule: engine_run.induct) (simp_all add: store_inv_iff engine_step_ok)

lemma store_inv_get:
  "store_inv L view P s \<Longrightarrow> P zero_rec \<Longrightarrow> GetScore L s now ip = Inr r \<Longrightarrow> P r"
  unfolding store_inv_iff by (rule all_stored_get)

end

lemma mem_PutScore: "\<exists>s'. PutScore mem_backend s now ip rec ttl = Inr s'"
  by (simp add: PutScore_def mem_backend_def)

lemma mem_Record: "\<exists>x s'. Record mem_backend e s now ip reason rid trust grp subnet anchored = Inr (x, s')"
proof -
  obtain r where r: "GetScore mem_backend s now ip = Inr r" using mem_GetScore by blast
  have put: "\<And>rec ttl. \<exists>s'. PutScore mem_backend s now ip rec ttl = Inr s'" by (rule mem_PutScore)
  show ?thesis
    using put [of "Accumulate r \<lparr>obs_Reason = reason, obs_ReporterID = rid, obs_Group = grp,
        obs_Trust = trust, obs_Anchored = anchored, obs_Subnet = subnet\<rparr> now (eng_halfLife e)
        (eng_strangerCap e) (eng_diversityRepeat e)" "3 * eng_halfLife e"]
    by (auto simp: Record_def Let_def r)
qed

lemma mem_Decay: "\<exists>x s'. Decay mem_backend e s now ip = Inr (x, s')"
proof -
  obtain r where r: "GetScore mem_backend s now ip = Inr r" using mem_GetScore by blast
  show ?thesis
    using mem_PutScore [of s now ip "r\<lparr>Score := DecayScore (Score r) (LastSeen r) now (eng_halfLife e)\<rparr>"
        "3 * eng_halfLife e"]
    by (auto simp: Decay_def Let_def r)
qed

section \<open>Properties\<close>

text \<open>The engine's parameters for the witnesses: a half-life of 168 hours, a cap of 20.\<close>

definition example_engine :: Engine where
  "example_engine = \<lparr>eng_halfLife = 168 * hour, eng_strangerCap = 20, eng_diversityRepeat = 1 / 2,
     eng_disputeWeight = 10\<rparr>"

lemma example_engine_ok [simp]:
  "engine_ok example_engine" "eng_strangerCap example_engine = 20"
  "eng_halfLife example_engine = 168 * hour"
  by (simp_all add: engine_ok_def example_engine_def)

text \<open>
  C13. Over a store whose library keeps its documented promises, every run of reports, disputes
  and decays, from any store of well-formed records, ends in a store in which every score read is
  between 0 and 100, the stranger and dispute budgets are within the stranger cap, and the
  corroboration is the number of distinct anchored groups.
\<close>

theorem engine_run_records_ok:
  assumes "badger_backend L view" and "engine_ok e"
    and "store_inv L view (rec_ok (eng_strangerCap e)) s" and "engine_run L e s s'"
    and "GetRecord L s' now ip = Inr r"
  shows "rec_ok (eng_strangerCap e) r"
  using badger_backend.store_inv_get [OF assms(1) badger_backend.engine_run_ok [OF assms(1,4,2,3)], of now ip r]
    assms(2,5) by (simp add: GetRecord_def engine_ok_def)

theorem engine_run_records_ok_witness:
  "\<exists>x s' r. Record mem_backend example_engine mem_empty 5 ''192.0.2.1'' ''ssh-probe'' ''p'' 1 ''alice'' ''n'' True
       = Inr (x, s') \<and> GetRecord mem_backend s' 6 ''192.0.2.1'' = Inr r \<and> rec_ok 20 r"
proof -
  obtain x s' where s': "Record mem_backend example_engine mem_empty 5 ''192.0.2.1'' ''ssh-probe'' ''p'' 1
      ''alice'' ''n'' True = Inr (x, s')" using mem_Record by blast
  then have run: "engine_run mem_backend example_engine mem_empty s'"
    by (intro run_step [OF run_start] step_record) simp_all
  obtain r where r: "GetRecord mem_backend s' 6 ''192.0.2.1'' = Inr r"
    unfolding GetRecord_def using mem_GetScore by blast
  have "rec_ok (eng_strangerCap example_engine) r"
    by (rule engine_run_records_ok [OF mem.badger_backend_axioms _ _ run r]) simp_all
  with s' r show ?thesis by simp
qed

text \<open>
  C14. Strangers alone can never raise a score above the stranger cap: whatever sequence of
  un-anchored reports is folded into a fresh record, from however many reporters, subnets and
  reasons and at whatever times, the score stays at most the cap and the corroboration stays 0.
\<close>

theorem stranger_flood_capped:
  assumes "0 \<le> cap" and "0 \<le> dr"
    and "\<forall>(obs, t) \<in> set os. \<not> obs_Anchored obs \<and> 0 \<le> obs_Trust obs"
  shows "Score (accumulate_all h cap dr os zero_rec) \<le> cap
       \<and> Corroboration (accumulate_all h cap dr os zero_rec) = 0"
  using stranger_rec_all [OF stranger_rec_zero [OF assms(1)] assms(3,2), of h]
  by (auto simp: stranger_rec_def rec_ok_def)

theorem stranger_flood_capped_witness:
  "let o1 = \<lparr>obs_Reason = ''smtp-spamtrap'', obs_ReporterID = ''a'', obs_Group = '''', obs_Trust = 1 / 10,
       obs_Anchored = False, obs_Subnet = ''n1''\<rparr>; o2 = o1\<lparr>obs_ReporterID := ''b'', obs_Subnet := ''n2''\<rparr>
   in Score (accumulate_all hour 5 1 [(o1, 1), (o2, 2), (o1, 3)] zero_rec) \<le> 5"
  unfolding Let_def by (rule stranger_flood_capped [THEN conjunct1]) simp_all

text \<open>
  C15. Stranger disputes are bounded the same way. Over any sequence of un-anchored disputes in
  time order, the set of disputing subnets does not grow (so strangers never gain the diversity
  that unblocks an address), and apart from the decay over the elapsed time the score loses at
  most what is left of the dispute budget.
\<close>

theorem stranger_disputes_bounded:
  assumes "rec_ok cap rec" and "0 < LastSeen rec" and "0 \<le> dw" and "0 \<le> dr"
    and "\<forall>(obs, t) \<in> set os. \<not> obs_Anchored obs \<and> 0 \<le> obs_Trust obs"
    and "sorted (LastSeen rec # map snd os)"
    and "last (LastSeen rec # map snd os) - LastSeen rec < 2 ^ 63"
  shows "DisputeSubnetsSeen (dispute_all h dw cap dr os rec) = DisputeSubnetsSeen rec
       \<and> DecayScore (Score rec) (LastSeen rec) (last (LastSeen rec # map snd os)) h
            - (cap - DisputeContrib rec) \<le> Score (dispute_all h dw cap dr os rec)"
proof
  show "DisputeSubnetsSeen (dispute_all h dw cap dr os rec) = DisputeSubnetsSeen rec"
    using assms(5) by (intro dispute_all_strangers_subnets) auto
  have "rec_ok cap (dispute_all h dw cap dr os rec)"
    using assms(1,3,4,5) by (intro dispute_all_rec_ok) auto
  then have "DisputeContrib (dispute_all h dw cap dr os rec) \<le> cap" by (rule rec_okD)
  with stranger_disputes_trade [OF assms(1,5,3,4,6,2,7), of h]
  show "DecayScore (Score rec) (LastSeen rec) (last (LastSeen rec # map snd os)) h
      - (cap - DisputeContrib rec) \<le> Score (dispute_all h dw cap dr os rec)"
    by (simp only: DecayScore_factor)
qed

theorem stranger_disputes_bounded_witness:
  "let o1 = \<lparr>obs_Reason = '''', obs_ReporterID = ''a'', obs_Group = '''', obs_Trust = 1, obs_Anchored = False,
       obs_Subnet = ''n1''\<rparr>; rec = zero_rec\<lparr>Score := 80, LastSeen := 10\<rparr>
   in 60 \<le> Score (dispute_all hour 50 20 1 [(o1, 10), (o1, 10)] rec)"
  using stranger_disputes_bounded [of 20 "zero_rec\<lparr>Score := 80, LastSeen := 10\<rparr>" 50 1
      "[(\<lparr>obs_Reason = '''', obs_ReporterID = ''a'', obs_Group = '''', obs_Trust = 1, obs_Anchored = False,
          obs_Subnet = ''n1''\<rparr>, 10), (\<lparr>obs_Reason = '''', obs_ReporterID = ''a'', obs_Group = '''', obs_Trust = 1,
          obs_Anchored = False, obs_Subnet = ''n1''\<rparr>, 10)]" hour]
  by (simp add: rec_ok_def)

text \<open>
  Decay is a half-life law: it is exact on the half-life, it never raises a score, and the
  decay over two consecutive intervals is the decay over their union.
\<close>

lemma DecayScore_half_life:
  assumes "0 < h" and "h < 2 ^ 63" and "l \<le> m" and "m \<le> n" and "n - l < 2 ^ 63" and "0 \<le> s"
  shows "DecayScore s l (Add l h) h = s / 2
       \<and> DecayScore (DecayScore s l m h) m n h = DecayScore s l n h
       \<and> DecayScore s l n h \<le> s"
  using decay_factor_half [OF assms(1,2), of l] decay_factor_compose [OF assms(3-5), of h]
    DecayScore_le [OF assms(6), of l n h]
  by (simp add: DecayScore_factor Add_def mult.assoc)

text \<open>
  C16. \<open>Engine.Decay\<close> stores the decayed score but keeps \<open>LastSeen\<close>, so a second pass decays
  the same interval again: the result is strictly below the score the half-life law gives.
\<close>

theorem Decay_compounds:
  assumes "badger_backend L view" and "store_inv L view P s"
    and "GetScore L s t1 ip = Inr rec" and "0 < LastSeen rec" and "LastSeen rec < t1" and "t1 \<le> t2"
    and "0 < Score rec" and "0 < eng_halfLife e" and "t2 < t1 + 3 * eng_halfLife e"
    and "Decay L e s t1 ip = Inr (x1, s1)" and "Decay L e s1 t2 ip = Inr (x2, s2)"
  shows "x2 = DecayScore (DecayScore (Score rec) (LastSeen rec) t1 (eng_halfLife e))
                (LastSeen rec) t2 (eng_halfLife e)
       \<and> x2 < DecayScore (Score rec) (LastSeen rec) t2 (eng_halfLife e)"
proof -
  let ?f = "\<lambda>t. decay_factor (LastSeen rec) t (eng_halfLife e)"
  have cov: "badger_backend.bloom_covers L view s"
    using assms(2) unfolding badger_backend.bloom_covers_def [OF assms(1)] store_inv_def by simp
  have x2: "x2 = Score rec * ?f t1 * ?f t2"
    using badger_backend.Decay_twice_compounds [OF assms(1) cov assms(3) _ assms(10,9,11)] assms(4) by simp
  have "0 < Seconds (max 0 (Sub t1 (LastSeen rec)))"
    using assms(5) by (simp add: less_max_iff_disj)
  then have "?f t1 < 1"
    using assms(8) by (simp add: decay_factor_def zero_less_divide_iff)
  with assms(7) have "Score rec * ?f t1 < Score rec" by simp
  then have "Score rec * ?f t1 * ?f t2 < Score rec * ?f t2"
    by (intro mult_strict_right_mono) simp_all
  with x2 show ?thesis by (simp add: DecayScore_factor)
qed

definition aged_store :: "(mem_db, string list) BadgerStore" where
  "aged_store = \<lparr>db = [(''192.0.2.1'', zero_rec\<lparr>Score := 80, LastSeen := 1\<rparr>, 2 * hour)],
     bloom = [''192.0.2.1'']\<rparr>"

theorem Decay_compounds_witness:
  "\<exists>x1 s1 x2 s2. Decay mem_backend example_engine aged_store hour ''192.0.2.1'' = Inr (x1, s1)
     \<and> Decay mem_backend example_engine s1 (2 * hour) ''192.0.2.1'' = Inr (x2, s2)
     \<and> x2 < DecayScore 80 1 (2 * hour) (168 * hour)"
proof -
  let ?rec = "zero_rec\<lparr>Score := 80, LastSeen := 1\<rparr>"
  have inv: "store_inv mem_backend map_of (\<lambda>_. True) aged_store"
    by (simp add: store_inv_def aged_store_def mem_backend_def)
  have get: "GetScore mem_backend aged_store hour ''192.0.2.1'' = Inr ?rec"
    by (simp add: GetScore_def MightContain_def mem_backend_def aged_store_def live_def hour_def)
  obtain x1 s1 where d1: "Decay mem_backend example_engine aged_store hour ''192.0.2.1'' = Inr (x1, s1)"
    using mem_Decay by blast
  obtain x2 s2 where d2: "Decay mem_backend example_engine s1 (2 * hour) ''192.0.2.1'' = Inr (x2, s2)"
    using mem_Decay by blast
  have "x2 < DecayScore (Score ?rec) (LastSeen ?rec) (2 * hour) (eng_halfLife example_engine)"
    by (rule Decay_compounds [OF mem.badger_backend_axioms inv get _ _ _ _ _ _ d1 d2, THEN conjunct2])
      (simp_all add: hour_def)
  with d1 d2 show ?thesis by auto
qed

end
