(* ===== verification/Rules.thy ===== *)
theory Rules
  imports Reputation
begin

text \<open>
  The decision rules, \<open>internal/rules\<close>: the sliding burst windows (\<open>burst.go\<close>), and the rule
  set with its hot reload, validation, lint and evaluation (\<open>rule.go\<close>). YAML decoding and the
  file system are parameters: a reload receives what the calls returned.
\<close>

section \<open>Patterns\<close>

text \<open>
  Reason patterns, the shared contract of the rules and of the API filters: a pattern that ends
  in a star matches by prefix, any other by equality.
\<close>

locale wildcard_matcher =
  fixes match :: "string \<Rightarrow> string \<Rightarrow> bool"
  assumes match_star: "match (p @ ''*'') s \<longleftrightarrow> HasPrefix s p"
    and match_exact: "\<not> HasSuffix p ''*'' \<Longrightarrow> match p s \<longleftrightarrow> p = s"
begin

lemma match_all: "match ''*'' s"
  using match_star [of "[]" s] by (simp add: HasPrefix_def)

lemma match_self: "match s s"
proof (cases "HasSuffix s ''*''")
  case True
  then obtain p where p: "s = p @ ''*''" by (auto simp: HasSuffix_iff)
  have "match (p @ ''*'') s" unfolding match_star by (simp add: p)
  then show ?thesis by (simp only: p)
qed (simp add: match_exact)

lemma match_iff: "match p s \<longleftrightarrow> (p = s \<and> \<not> HasSuffix p ''*'') \<or> (\<exists>q r. p = q @ ''*'' \<and> s = q @ r)"
proof (cases "HasSuffix p ''*''")
  case True
  then obtain q where p: "p = q @ ''*''" by (auto simp: HasSuffix_iff)
  show ?thesis unfolding p match_star by (auto simp: HasPrefix_iff HasSuffix_iff)
next
  case False
  then show ?thesis by (auto simp: match_exact HasSuffix_iff)
qed

lemma match_longer: "match (p @ ''*'') s \<Longrightarrow> match (p @ ''*'') (s @ r)"
  by (auto simp: match_star HasPrefix_iff)

end

definition matchReason :: "string \<Rightarrow> string \<Rightarrow> bool" where
  "matchReason pattern reason =
     (if HasSuffix pattern ''*'' then HasPrefix reason (TrimSuffix pattern ''*'') else pattern = reason)"

interpretation rule_pattern: wildcard_matcher matchReason
proof unfold_locales
  fix p s :: string
  have "HasSuffix (p @ ''*'') ''*''" by (auto simp: HasSuffix_iff)
  then show "matchReason (p @ ''*'') s \<longleftrightarrow> HasPrefix s p" by (simp add: matchReason_def)
qed (simp add: matchReason_def)

section \<open>Burst windows\<close>

type_synonym burstKey = "string \<times> string"

record BurstStore =
  entries :: "burstKey \<rightharpoonup> time list"

definition NewBurstStore :: BurstStore where
  "NewBurstStore = \<lparr>entries = Map.empty\<rparr>"

text \<open>A missing key reads as the nil slice.\<close>

definition burst_times :: "BurstStore \<Rightarrow> burstKey \<Rightarrow> time list" where
  "burst_times b k = (case entries b k of Some ts \<Rightarrow> ts | None \<Rightarrow> [])"

definition burst_Record :: "BurstStore \<Rightarrow> string \<Rightarrow> string \<Rightarrow> time \<Rightarrow> BurstStore" where
  "burst_Record b ip reason now =
     b\<lparr>entries := (entries b)((ip, reason) \<mapsto> burst_times b (ip, reason) @ [now])\<rparr>"

definition Count :: "BurstStore \<Rightarrow> string \<Rightarrow> string \<Rightarrow> duration \<Rightarrow> time \<Rightarrow> nat \<times> BurstStore" where
  "Count b ip reason window now =
     (let k = (ip, reason);
          cutoff = Add now (- window);
          live = dropWhile (\<lambda>t. Before t cutoff) (burst_times b k)
      in if length live = 0 then (0, b\<lparr>entries := (entries b)(k := None)\<rparr>)
         else (length live, b\<lparr>entries := (entries b)(k \<mapsto> live)\<rparr>))"

text \<open>The events of a key inside the window, and their number.\<close>

definition window_times :: "BurstStore \<Rightarrow> burstKey \<Rightarrow> duration \<Rightarrow> time \<Rightarrow> time list" where
  "window_times b k w now = dropWhile (\<lambda>t. t < now - w) (burst_times b k)"

lemma Count_result [simp]: "fst (Count b ip reason w now) = length (window_times b (ip, reason) w now)"
  by (simp add: Count_def Let_def window_times_def Before_def Add_def)

lemma Count_times:
  "burst_times (snd (Count b ip reason w now)) k
     = (if k = (ip, reason) then window_times b k w now else burst_times b k)"
proof -
  define live where "live = window_times b (ip, reason) w now"
  have c: "snd (Count b ip reason w now) = (if live = [] then b\<lparr>entries := (entries b)((ip, reason) := None)\<rparr>
      else b\<lparr>entries := (entries b)((ip, reason) \<mapsto> live)\<rparr>)"
    by (simp add: live_def Count_def Let_def window_times_def Before_def Add_def del: dropWhile_eq_Nil_conv)
  show ?thesis
    by (cases "k = (ip, reason)"; cases "live = []") (simp_all add: c burst_times_def live_def [symmetric])
qed

lemma burst_Record_times:
  "burst_times (burst_Record b ip reason now) k
     = (if k = (ip, reason) then burst_times b k @ [now] else burst_times b k)"
  by (simp add: burst_Record_def burst_times_def)

lemma dropWhile_sorted_filter:
  "sorted ts \<Longrightarrow> dropWhile (\<lambda>t. t < c) ts = filter (\<lambda>t. c \<le> t) (ts :: int list)"
  by (induction ts) (auto simp: not_less intro!: filter_True [symmetric])

text \<open>On a clock that does not run backwards, the count is the number of events in the window.\<close>

lemma window_times_sorted:
  "sorted (burst_times b k) \<Longrightarrow> window_times b k w now = filter (\<lambda>t. now - w \<le> t) (burst_times b k)"
  by (simp add: window_times_def dropWhile_sorted_filter)

lemma dropWhile_twice:
  "c \<le> c' \<Longrightarrow> dropWhile (\<lambda>t. t < c') (dropWhile (\<lambda>t. t < c) ts) = dropWhile (\<lambda>t. t < c') (ts :: int list)"
  by (induction ts) auto

section \<open>Rules\<close>

text \<open>\<open>ActionUnknown\<close> is any other string of the rule file.\<close>

datatype Action = ActionBlock | ActionWatch | ActionIgnore | ActionNone | ActionUnknown string

record Rule =
  rule_Name :: string
  rule_Reason :: string
  MinScore :: real
  MinCorroboration :: int
  AnchoredOnly :: bool
  MinBurst :: int
  BurstWindow :: duration
  rule_Action :: Action

type_synonym fileStat = "time \<times> int"

record RuleSet =
  rules :: "Rule list"
  rs_path :: string
  lastStat :: fileStat
  fallback :: real
  rs_strangerCap :: real
  loaded :: bool

text \<open>
  \<open>validateRules\<close> drops a burst rule without a window and a rule with an unknown action; the
  log lines are left out.
\<close>

fun validateRules :: "Rule list \<Rightarrow> Rule list" where
  "validateRules [] = []"
| "validateRules (r # rs) =
     (if MinBurst r > 0 \<and> BurstWindow r = 0 then validateRules rs
      else case rule_Action r of
          ActionBlock \<Rightarrow> r # validateRules rs
        | ActionWatch \<Rightarrow> r # validateRules rs
        | ActionIgnore \<Rightarrow> r # validateRules rs
        | _ \<Rightarrow> validateRules rs)"

text \<open>\<open>lintBlockRules\<close>: the names of the rules it warns about.\<close>

fun lintBlockRules :: "Rule list \<Rightarrow> real \<Rightarrow> string list" where
  "lintBlockRules [] strangerCap = []"
| "lintBlockRules (r # rs) strangerCap =
     (if rule_Action r \<noteq> ActionBlock then lintBlockRules rs strangerCap
      else let safe = (MinCorroboration r \<ge> 1 \<or> AnchoredOnly r \<or> MinBurst r \<ge> 1 \<or> MinScore r > strangerCap)
           in if \<not> safe then rule_Name r # lintBlockRules rs strangerCap else lintBlockRules rs strangerCap)"

section \<open>Loading\<close>

text \<open>
  What the file system and the YAML decoder answer during one call: the two \<open>os.Stat\<close> results
  (before and after the read), and the read, which may fail (outer) or not decode (inner).
\<close>

record rule_file =
  rf_stat :: "fileStat option"
  rf_read :: "error + (error + Rule list)"
  rf_restat :: "fileStat option"

definition reload :: "rule_file \<Rightarrow> RuleSet \<Rightarrow> RuleSet" where
  "reload f rs =
     (if rs_path rs = '''' then rs
      else case rf_read f of
          Inl _ \<Rightarrow> rs
        | Inr (Inl _) \<Rightarrow> rs
        | Inr (Inr new) \<Rightarrow>
            let rs = rs\<lparr>rules := validateRules new, loaded := True\<rparr>
            in (case rf_restat f of Some st \<Rightarrow> rs\<lparr>lastStat := st\<rparr> | None \<Rightarrow> rs))"

definition maybeReload :: "rule_file \<Rightarrow> RuleSet \<Rightarrow> RuleSet" where
  "maybeReload f rs =
     (if rs_path rs = '''' then rs
      else case rf_stat f of
          None \<Rightarrow> rs
        | Some cur \<Rightarrow> if cur = lastStat rs then rs else reload f rs)"

definition Load :: "rule_file \<Rightarrow> string \<Rightarrow> real \<Rightarrow> real \<Rightarrow> RuleSet" where
  "Load f path fallbackThreshold strangerScoreCap =
     reload f \<lparr>rules = [], rs_path = path, lastStat = (zero_time, 0), fallback = fallbackThreshold,
       rs_strangerCap = strangerScoreCap, loaded = False\<rparr>"

section \<open>Evaluation\<close>

text \<open>The conditions that need no burst count.\<close>

definition static_match :: "Rule \<Rightarrow> Event \<Rightarrow> ScoreRecord \<Rightarrow> bool" where
  "static_match r e rec \<longleftrightarrow>
     \<not> (rule_Reason r \<noteq> '''' \<and> \<not> matchReason (rule_Reason r) (Reason e)) \<and>
     \<not> (MinScore r > 0 \<and> Score rec < MinScore r) \<and>
     \<not> (MinCorroboration r > 0 \<and> Corroboration rec < MinCorroboration r) \<and>
     \<not> (AnchoredOnly r \<and> StrangerSeen rec)"

text \<open>The loop over the rules with its memo of burst counts, keyed by reason and window.\<close>

fun eval_loop ::
  "Rule list \<Rightarrow> Event \<Rightarrow> ScoreRecord \<Rightarrow> time \<Rightarrow> (string \<times> duration \<rightharpoonup> nat) \<Rightarrow> BurstStore
     \<Rightarrow> (Action \<times> string) \<times> BurstStore" where
  "eval_loop [] e rec now cache b = ((ActionNone, ''''), b)"
| "eval_loop (r # rs) e rec now cache b =
     (if \<not> static_match r e rec then eval_loop rs e rec now cache b
      else if MinBurst r > 0 then
        (let w = BurstWindow r;
             ck = (Reason e, w);
             (cnt, cache, b) = (case cache ck of
                 Some c \<Rightarrow> (c, cache, b)
               | None \<Rightarrow> (let (c, b') = Count b (IP e) (Reason e) w now in (c, cache(ck \<mapsto> c), b')))
         in if int cnt < MinBurst r then eval_loop rs e rec now cache b
            else ((rule_Action r, rule_Name r), b))
      else ((rule_Action r, rule_Name r), b))"

definition Evaluate ::
  "rule_file \<Rightarrow> RuleSet \<Rightarrow> Event \<Rightarrow> ScoreRecord \<Rightarrow> BurstStore \<Rightarrow> time
     \<Rightarrow> (Action \<times> string) \<times> RuleSet \<times> BurstStore" where
  "Evaluate f rs e rec b now =
     (let rs = maybeReload f rs
      in if length (rules rs) = 0
         then ((if Score rec \<ge> fallback rs then ActionBlock else ActionNone, ''''), rs, b)
         else let (out, b') = eval_loop (rules rs) e rec now Map.empty b in (out, rs, b'))"

section \<open>The specification: the first matching rule\<close>

definition rule_matches :: "Rule \<Rightarrow> Event \<Rightarrow> ScoreRecord \<Rightarrow> BurstStore \<Rightarrow> time \<Rightarrow> bool" where
  "rule_matches r e rec b now \<longleftrightarrow>
     static_match r e rec \<and>
     (MinBurst r > 0 \<longrightarrow> MinBurst r \<le> int (length (window_times b (IP e, Reason e) (BurstWindow r) now)))"

definition first_match :: "Rule list \<Rightarrow> Event \<Rightarrow> ScoreRecord \<Rightarrow> BurstStore \<Rightarrow> time \<Rightarrow> Action \<times> string" where
  "first_match rs e rec b now =
     (case find (\<lambda>r. rule_matches r e rec b now) rs of
        Some r \<Rightarrow> (rule_Action r, rule_Name r) | None \<Rightarrow> (ActionNone, ''''))"

text \<open>The windows of the burst rules, in file order.\<close>

definition burst_windows :: "Rule list \<Rightarrow> duration list" where
  "burst_windows rs = map BurstWindow (filter (\<lambda>r. MinBurst r > 0) rs)"

text \<open>
  The state of the loop: the counts in the memo are the true ones, and the entries of the
  event's key have been cut by no window smaller than one still to come.
\<close>

definition eval_inv ::
  "BurstStore \<Rightarrow> Event \<Rightarrow> time \<Rightarrow> (string \<times> duration \<rightharpoonup> nat) \<Rightarrow> BurstStore \<Rightarrow> Rule list \<Rightarrow> bool" where
  "eval_inv b0 e now cache b rs \<longleftrightarrow>
     (\<forall>w c. cache (Reason e, w) = Some c \<longrightarrow> c = length (window_times b0 (IP e, Reason e) w now)) \<and>
     (\<forall>w \<in> set (burst_windows rs). window_times b (IP e, Reason e) w now
         = window_times b0 (IP e, Reason e) w now)"

lemma burst_windows_Cons [simp]:
  "burst_windows (r # rs) = (if MinBurst r > 0 then BurstWindow r # burst_windows rs else burst_windows rs)"
  by (simp add: burst_windows_def)

lemma eval_inv_tail: "eval_inv b0 e now cache b (r # rs) \<Longrightarrow> eval_inv b0 e now cache b rs"
  by (auto simp: eval_inv_def split: if_splits)

lemma eval_inv_count:
  assumes "eval_inv b0 e now cache b (r # rs)" and "MinBurst r > 0"
    and "sorted_wrt (\<ge>) (burst_windows (r # rs)) \<or> burst_times b0 (IP e, Reason e) = []"
    and "Count b (IP e) (Reason e) (BurstWindow r) now = (c, b')"
  shows "c = length (window_times b0 (IP e, Reason e) (BurstWindow r) now)"
    and "eval_inv b0 e now (cache((Reason e, BurstWindow r) \<mapsto> c)) b' rs"
proof -
  let ?k = "(IP e, Reason e)"
  have c: "c = length (window_times b ?k (BurstWindow r) now)"
    using Count_result [of b "IP e" "Reason e" "BurstWindow r" now] assms(4) by simp
  with assms(1,2) show c0: "c = length (window_times b0 ?k (BurstWindow r) now)"
    by (simp add: eval_inv_def)
  have b': "burst_times b' ?k = window_times b ?k (BurstWindow r) now"
    using Count_times [of b "IP e" "Reason e" "BurstWindow r" now ?k] assms(4) by simp
  have "window_times b' ?k w now = window_times b0 ?k w now" if w: "w \<in> set (burst_windows rs)" for w
    using assms(3)
  proof
    assume "sorted_wrt (\<ge>) (burst_windows (r # rs))"
    then have le: "now - BurstWindow r \<le> now - w" using assms(2) w by simp
    have "window_times b' ?k w now = window_times b ?k w now"
      unfolding window_times_def [of b'] b' unfolding window_times_def by (rule dropWhile_twice [OF le])
    with assms(1,2) w show ?thesis by (simp add: eval_inv_def)
  next
    assume e: "burst_times b0 ?k = []"
    with assms(1,2) b' have "burst_times b' ?k = []" by (simp add: eval_inv_def window_times_def)
    with e show ?thesis by (simp add: window_times_def)
  qed
  with c0 assms(1) show "eval_inv b0 e now (cache((Reason e, BurstWindow r) \<mapsto> c)) b' rs"
    by (auto simp: eval_inv_def)
qed

lemma eval_loop_first_match:
  "eval_inv b0 e now cache b rs
     \<Longrightarrow> sorted_wrt (\<ge>) (burst_windows rs) \<or> burst_times b0 (IP e, Reason e) = []
     \<Longrightarrow> fst (eval_loop rs e rec now cache b) = first_match rs e rec b0 now"
proof (induction rs arbitrary: cache b)
  case Nil
  then show ?case by (simp add: first_match_def)
next
  case (Cons r rs)
  note tail = eval_inv_tail [OF Cons.prems(1)]
  have sorted: "sorted_wrt (\<ge>) (burst_windows rs) \<or> burst_times b0 (IP e, Reason e) = []"
    using Cons.prems(2) by (auto split: if_splits)
  have fm: "first_match (r # rs) e rec b0 now = (if rule_matches r e rec b0 now
      then (rule_Action r, rule_Name r) else first_match rs e rec b0 now)"
    by (simp add: first_match_def)
  show ?case
  proof (cases "static_match r e rec \<and> MinBurst r > 0")
    case False
    with Cons.IH [OF tail sorted] fm show ?thesis by (auto simp: rule_matches_def)
  next
    case True
    show ?thesis
    proof (cases "cache (Reason e, BurstWindow r)")
      case (Some c)
      with Cons.prems(1) have "c = length (window_times b0 (IP e, Reason e) (BurstWindow r) now)"
        by (auto simp: eval_inv_def)
      with Some True Cons.IH [OF tail sorted] fm show ?thesis
        by (auto simp: rule_matches_def not_less Let_def)
    next
      case None
      obtain c b' where cb: "Count b (IP e) (Reason e) (BurstWindow r) now = (c, b')" by fastforce
      note inv = eval_inv_count [OF Cons.prems(1) _ Cons.prems(2) cb]
      have ih: "fst (eval_loop rs e rec now (cache((Reason e, BurstWindow r) \<mapsto> c)) b')
          = first_match rs e rec b0 now"
        using True by (intro Cons.IH [OF inv(2) sorted]) simp
      from None True cb ih inv(1) fm show ?thesis
        by (auto simp: rule_matches_def not_less Let_def)
    qed
  qed
qed

lemma eval_inv_start: "eval_inv b e now Map.empty b rs"
  by (simp add: eval_inv_def)

lemma first_match_result:
  "first_match rs e rec b now = (a, n) \<Longrightarrow> a \<noteq> ActionNone \<Longrightarrow>
     \<exists>r \<in> set rs. rule_matches r e rec b now \<and> a = rule_Action r"
  by (auto simp: first_match_def find_Some_iff split: option.splits)

text \<open>The result of the loop, whatever the windows: a rule whose static conditions hold.\<close>

lemma eval_loop_result:
  "eval_loop rs e rec now cache b = ((a, n), b') \<Longrightarrow> a \<noteq> ActionNone \<Longrightarrow>
     \<exists>r \<in> set rs. static_match r e rec \<and> a = rule_Action r"
proof (induction rs arbitrary: cache b)
  case (Cons r rs)
  from Cons.prems show ?case
    by (auto simp: Let_def split: if_splits option.splits prod.splits dest!: Cons.IH)
qed simp

lemma validateRules_sound:
  "r \<in> set (validateRules rs) \<Longrightarrow>
     r \<in> set rs \<and> rule_Action r \<in> {ActionBlock, ActionWatch, ActionIgnore} \<and> (MinBurst r > 0 \<longrightarrow> BurstWindow r \<noteq> 0)"
  by (induction rs) (auto split: if_splits Action.splits)

lemma lint_empty:
  "lintBlockRules rs cap = [] \<Longrightarrow> r \<in> set rs \<Longrightarrow> rule_Action r = ActionBlock
     \<Longrightarrow> MinCorroboration r \<ge> 1 \<or> AnchoredOnly r \<or> MinBurst r \<ge> 1 \<or> MinScore r > cap"
  by (induction rs) (auto simp: Let_def split: if_splits)

text \<open>A reload installs validated rules or keeps the last good ones.\<close>

definition rules_valid :: "RuleSet \<Rightarrow> bool" where
  "rules_valid rs \<longleftrightarrow> (\<forall>r \<in> set (rules rs). rule_Action r \<in> {ActionBlock, ActionWatch, ActionIgnore}
      \<and> (MinBurst r > 0 \<longrightarrow> BurstWindow r \<noteq> 0))"

lemma reload_valid: "rules_valid rs \<Longrightarrow> rules_valid (reload f rs)"
  by (auto simp: reload_def rules_valid_def Let_def dest!: validateRules_sound
      split: sum.split option.split)

lemma maybeReload_valid: "rules_valid rs \<Longrightarrow> rules_valid (maybeReload f rs)"
  by (simp add: maybeReload_def reload_valid split: option.split)

lemma reload_fields [simp]:
  "fallback (reload f rs) = fallback rs" "rs_strangerCap (reload f rs) = rs_strangerCap rs"
  by (simp_all add: reload_def Let_def split: sum.split option.split)

lemma maybeReload_fields [simp]:
  "fallback (maybeReload f rs) = fallback rs" "rs_strangerCap (maybeReload f rs) = rs_strangerCap rs"
  by (simp_all add: maybeReload_def split: option.split)

section \<open>Properties\<close>

text \<open>
  C19. Evaluating a rule set, with its reload and its memo of burst counts, is choosing the first
  rule all of whose conditions hold, provided the windows of the burst rules do not grow down the
  list.
\<close>

theorem Evaluate_first_match:
  assumes "rules (maybeReload f rs) \<noteq> []" and "sorted_wrt (\<ge>) (burst_windows (rules (maybeReload f rs)))"
  shows "fst (Evaluate f rs e rec b now) = first_match (rules (maybeReload f rs)) e rec b now"
  using assms(1) eval_loop_first_match [OF eval_inv_start] assms(2)
  by (simp add: Evaluate_def Let_def case_prod_beta)

definition example_rule :: Rule where
  "example_rule = \<lparr>rule_Name = ''burst'', rule_Reason = ''ssh-*'', MinScore = 0, MinCorroboration = 0,
     AnchoredOnly = False, MinBurst = 2, BurstWindow = 10, rule_Action = ActionBlock\<rparr>"

definition no_file :: rule_file where
  "no_file = \<lparr>rf_stat = None, rf_read = Inl (Fault ''no such file''), rf_restat = None\<rparr>"

definition example_rules :: "Rule list \<Rightarrow> RuleSet" where
  "example_rules rs = \<lparr>rules = rs, rs_path = '''', lastStat = (0, 0), fallback = 80, rs_strangerCap = 20,
     loaded = True\<rparr>"

definition ssh_event :: Event where
  "ssh_event = zero_Event\<lparr>IP := ''192.0.2.1'', Reason := ''ssh-probe''\<rparr>"

definition ssh_burst :: "time list \<Rightarrow> BurstStore" where
  "ssh_burst ts = \<lparr>entries = [(''192.0.2.1'', ''ssh-probe'') \<mapsto> ts]\<rparr>"

lemmas example_simps = example_rule_def no_file_def example_rules_def ssh_event_def ssh_burst_def
  maybeReload_def first_match_def rule_matches_def static_match_def matchReason_def HasSuffix_def
  HasPrefix_def TrimSuffix_def window_times_def burst_times_def zero_Event_def

theorem Evaluate_first_match_witness:
  "fst (Evaluate no_file (example_rules [example_rule]) ssh_event zero_rec (ssh_burst [1, 95, 96]) 100)
     = (ActionBlock, ''burst'')"
  by (subst Evaluate_first_match) (simp_all add: example_simps burst_windows_def)

text \<open>
  Without that condition the memo is wrong: \<open>Count\<close> evicts with the window it was asked for,
  so a rule with a short window destroys the events a later rule with a longer window needs. The
  later rule's conditions hold, and it does not fire.
\<close>

theorem burst_eviction_hides_rule:
  "let short = example_rule\<lparr>rule_Name := ''short'', MinBurst := 9, BurstWindow := 10\<rparr>;
       long = example_rule\<lparr>rule_Name := ''long'', MinBurst := 3, BurstWindow := 60\<rparr>;
       rs = example_rules [short, long]; b = ssh_burst [50, 60, 95]
   in first_match (rules rs) ssh_event zero_rec b 100 = (ActionBlock, ''long'')
    \<and> fst (Evaluate no_file rs ssh_event zero_rec b 100) = (ActionNone, '''')"
  by (simp add: example_simps Evaluate_def Let_def Count_def Before_def Add_def)

text \<open>
  The load-time lint is sound: if it warns about no rule, then no rule blocks an address whose
  record is made of stranger reports only and whose burst window no anchored reporter has fed.
\<close>

theorem lint_sound:
  assumes "lintBlockRules (rules (maybeReload f rs)) cap = []" and "rules (maybeReload f rs) \<noteq> []"
    and "0 \<le> cap" and "stranger_rec cap rec" and "StrangerSeen rec"
    and "burst_times b (IP e, Reason e) = []"
  shows "fst (fst (Evaluate f rs e rec b now)) \<noteq> ActionBlock"
proof
  let ?rs = "rules (maybeReload f rs)"
  assume "fst (fst (Evaluate f rs e rec b now)) = ActionBlock"
  with assms(2) have "fst (first_match ?rs e rec b now) = ActionBlock"
    using eval_loop_first_match [OF eval_inv_start] assms(6)
    by (simp add: Evaluate_def Let_def case_prod_beta)
  then obtain r where r: "r \<in> set ?rs" "rule_matches r e rec b now" "rule_Action r = ActionBlock"
    using first_match_result [of ?rs e rec b now ActionBlock] by (metis Action.distinct(5) prod.collapse)
  have "Corroboration rec = 0" "Score rec \<le> cap"
    using assms(4) by (auto simp: stranger_rec_def rec_ok_def)
  with r(2) assms(3,5,6) lint_empty [OF assms(1) r(1,3)] show False
    by (auto simp: rule_matches_def static_match_def window_times_def)
qed

theorem lint_sound_witness:
  "fst (fst (Evaluate no_file (example_rules [example_rule]) ssh_event
     (zero_rec\<lparr>Score := 20, StrangerContrib := 20, StrangerSeen := True\<rparr>) NewBurstStore 100)) \<noteq> ActionBlock"
  by (rule lint_sound [of _ _ 20])
    (simp_all add: example_simps stranger_rec_def rec_ok_def NewBurstStore_def)

end
