(* ===== verification/Netip.thy ===== *)
theory Netip
  imports Go_Prelude
begin

text \<open>
  The parts of Go's \<open>net/netip\<close> the program uses: addresses, prefixes, parsing and printing.
  A \<open>netip.Addr\<close> is four octets, or eight 16-bit groups with a zone; a \<open>netip.Prefix\<close> is an
  address and a length. The theory proves that printing and parsing are inverse, which the
  reputation keys of \<open>internal/netutil\<close> rely on.
\<close>

section \<open>Numbers as text\<close>

definition dec_digits :: string where
  "dec_digits = ''0123456789''"

definition hex_digits :: string where
  "hex_digits = ''0123456789abcdef''"

definition digit_char :: "nat \<Rightarrow> char" where
  "digit_char d = hex_digits ! d"

text \<open>The value of a digit; capital letters are accepted too.\<close>

definition char_digit :: "char \<Rightarrow> nat option" where
  "char_digit = map_of (zip hex_digits [0..<16] @ zip ''ABCDEF'' [10..<16])"

definition is_hex :: "char \<Rightarrow> bool" where
  "is_hex c \<longleftrightarrow> char_digit c \<noteq> None"

definition is_digit :: "char \<Rightarrow> bool" where
  "is_digit c \<longleftrightarrow> c \<in> set dec_digits"

definition number :: "nat \<Rightarrow> string \<Rightarrow> nat" where
  "number b s = foldl (\<lambda>n c. n * b + the (char_digit c)) 0 s"

lemma digit_char_table:
  "list_all (\<lambda>d. char_digit (digit_char d) = Some d \<and> (d < 10 \<longrightarrow> is_digit (digit_char d))
     \<and> (digit_char d = CHR ''0'' \<longrightarrow> d = 0)) [0..<16]"
  by (simp add: upt_rec_numeral upt_rec char_digit_def digit_char_def is_digit_def dec_digits_def hex_digits_def)

lemma char_digit_digit [simp]: "d < 16 \<Longrightarrow> char_digit (digit_char d) = Some d"
  using digit_char_table by (simp add: list_all_iff)

lemma is_hex_digit [simp]: "d < 16 \<Longrightarrow> is_hex (digit_char d)"
  by (simp add: is_hex_def)

lemma is_digit_digit [simp]: "d < 10 \<Longrightarrow> is_digit (digit_char d)"
  using digit_char_table by (simp add: list_all_iff)

lemma digit_char_zero: "d < 16 \<Longrightarrow> digit_char d = CHR ''0'' \<Longrightarrow> d = 0"
  using digit_char_table by (simp add: list_all_iff)

lemma not_hex [simp]: "\<not> is_hex CHR '':''" "\<not> is_hex CHR ''.''" "\<not> is_hex CHR ''/''" "\<not> is_hex CHR ''%''"
  by (simp_all add: is_hex_def char_digit_def hex_digits_def)

lemma not_digit [simp]: "\<not> is_digit CHR '':''" "\<not> is_digit CHR ''.''" "\<not> is_digit CHR ''/''" "\<not> is_digit CHR ''%''"
  by (simp_all add: is_digit_def dec_digits_def)

text \<open>The decimal text of an octet or a prefix length, and the hexadecimal text of a group.\<close>

definition dec_text :: "nat \<Rightarrow> string" where
  "dec_text n = (if 100 \<le> n then [digit_char (n div 100)] else []) @
     (if 10 \<le> n then [digit_char (n div 10 mod 10)] else []) @ [digit_char (n mod 10)]"

definition hex_text :: "nat \<Rightarrow> string" where
  "hex_text n = (if 4096 \<le> n then [digit_char (n div 4096)] else []) @
     (if 256 \<le> n then [digit_char (n div 256 mod 16)] else []) @
     (if 16 \<le> n then [digit_char (n div 16 mod 16)] else []) @ [digit_char (n mod 16)]"

lemma small_div: "n < 1000 \<Longrightarrow> n div 100 < (10 :: nat)" "n < 65536 \<Longrightarrow> n div 4096 < (16 :: nat)"
  by (simp_all add: div_less_iff_less_mult)

lemma digit_sums:
  "n div 100 * 100 + n div 10 mod 10 * 10 + n mod 10 = (n :: nat)"
  "n div 4096 * 4096 + n div 256 mod 16 * 256 + n div 16 mod 16 * 16 + n mod 16 = (n :: nat)"
proof -
  have step: "m div (b * c) * (b * c) + m div b mod c * b = m div b * b" for m b c :: nat
  proof -
    have "m div b = m div (b * c) * c + m div b mod c"
      by (simp add: div_mult2_eq)
    then have "m div b * b = (m div (b * c) * c + m div b mod c) * b" by simp
    then show ?thesis by (simp add: algebra_simps)
  qed
  have last: "m div b * b + m mod b = m" for m b :: nat by simp
  show "n div 100 * 100 + n div 10 mod 10 * 10 + n mod 10 = n"
    using step [of n 10 10] last [of n 10] by simp
  show "n div 4096 * 4096 + n div 256 mod 16 * 256 + n div 16 mod 16 * 16 + n mod 16 = n"
    using step [of n 256 16] step [of n 16 16] last [of n 16] by simp
qed

lemma dec_text_number:
  assumes "n < 1000"
  shows "number 10 (dec_text n) = n"
  using assms digit_sums(1) [of n]
  by (cases "100 \<le> n"; cases "10 \<le> n")
    (simp_all add: dec_text_def number_def div_less_iff_less_mult algebra_simps)

lemma hex_text_number:
  assumes "n < 65536"
  shows "number 16 (hex_text n) = n"
  using assms digit_sums(2) [of n]
  by (cases "4096 \<le> n"; cases "256 \<le> n"; cases "16 \<le> n")
    (simp_all add: hex_text_def number_def div_less_iff_less_mult algebra_simps)

lemma hex_text_hex: "n < 65536 \<Longrightarrow> c \<in> set (hex_text n) \<Longrightarrow> is_hex c"
  by (auto simp: hex_text_def small_div split: if_splits)

lemma dec_text_digit: "n < 1000 \<Longrightarrow> c \<in> set (dec_text n) \<Longrightarrow> is_digit c"
  by (auto simp: dec_text_def small_div split: if_splits)

lemma hex_text_length: "hex_text n \<noteq> []" "length (hex_text n) \<le> 4" "0 < length (hex_text n)"
  by (simp_all add: hex_text_def)

lemma dec_text_nonempty [simp]: "dec_text n \<noteq> []"
  by (simp add: dec_text_def)

text \<open>No octet is printed with a leading zero.\<close>

lemma dec_text_lead:
  assumes "n < 1000" and "hd (dec_text n) = CHR ''0''"
  shows "length (dec_text n) = 1"
proof -
  consider "100 \<le> n" | "10 \<le> n" "n < 100" | "n < 10" by linarith
  then show ?thesis
  proof cases
    case 1
    then have "n div 100 \<noteq> 0" by simp
    with 1 assms(2) small_div(1) [OF assms(1)] digit_char_zero [of "n div 100"] show ?thesis
      by (simp add: dec_text_def)
  next
    case 2
    then have "n div 10 \<noteq> 0" "n div 10 < 16" by simp_all
    with 2 assms(2) digit_char_zero [of "n div 10"] show ?thesis by (simp add: dec_text_def)
  qed (simp add: dec_text_def)
qed

section \<open>Addresses\<close>

text \<open>
  An address: four octets, or eight groups and the zone. The zero \<open>netip.Addr\<close> is the absent
  option.
\<close>

datatype addr = V4 "nat list" | V6 "nat list" string

definition addr_ok :: "addr \<Rightarrow> bool" where
  "addr_ok a \<longleftrightarrow> (case a of
       V4 os \<Rightarrow> length os = 4 \<and> (\<forall>x \<in> set os. x < 256)
     | V6 gs z \<Rightarrow> length gs = 8 \<and> (\<forall>x \<in> set gs. x < 65536))"

fun Is4 :: "addr \<Rightarrow> bool" where
  "Is4 (V4 os) = True"
| "Is4 (V6 gs z) = False"

fun Is6 :: "addr \<Rightarrow> bool" where
  "Is6 (V4 os) = False"
| "Is6 (V6 gs z) = True"

fun Zone :: "addr \<Rightarrow> string" where
  "Zone (V4 os) = ''''"
| "Zone (V6 gs z) = z"

text \<open>\<open>Is4In6\<close>: the groups of an IPv4-mapped address.\<close>

definition mapped :: "nat list \<Rightarrow> bool" where
  "mapped gs \<longleftrightarrow> take 6 gs = [0, 0, 0, 0, 0, 65535]"

fun Unmap :: "addr \<Rightarrow> addr" where
  "Unmap (V4 os) = V4 os"
| "Unmap (V6 gs z) =
     (if mapped gs then V4 [gs ! 6 div 256, gs ! 6 mod 256, gs ! 7 div 256, gs ! 7 mod 256] else V6 gs z)"

lemma Unmap_ok: "addr_ok a \<Longrightarrow> addr_ok (Unmap a)"
  by (cases a) (auto simp: addr_ok_def div_less_iff_less_mult)

lemma Unmap_idem [simp]: "Unmap (Unmap a) = Unmap a"
  by (cases a) auto

section \<open>IPv4 text\<close>

text \<open>One field of a dotted quad: digits, no leading zero, at most 255.\<close>

definition parse_octet :: "string \<Rightarrow> nat option" where
  "parse_octet s =
     (if s = [] \<or> \<not> list_all is_digit s \<or> (length s > 1 \<and> hd s = CHR ''0'') \<or> number 10 s > 255
      then None else Some (number 10 s))"

fun parse_all :: "('a \<Rightarrow> 'b option) \<Rightarrow> 'a list \<Rightarrow> 'b list option" where
  "parse_all p [] = Some []"
| "parse_all p (x # xs) =
     (case p x of None \<Rightarrow> None
      | Some y \<Rightarrow> (case parse_all p xs of None \<Rightarrow> None | Some ys \<Rightarrow> Some (y # ys)))"

definition parseIPv4Fields :: "string \<Rightarrow> nat list option" where
  "parseIPv4Fields s =
     (let fs = Split s CHR ''.'' in if length fs \<noteq> 4 then None else parse_all parse_octet fs)"

definition IPv4_text :: "nat list \<Rightarrow> string" where
  "IPv4_text os = Join (map dec_text os) ''.''"

lemma parse_octet_text: "n < 256 \<Longrightarrow> parse_octet (dec_text n) = Some n"
  using dec_text_number [of n] dec_text_lead [of n] dec_text_digit [of n]
  by (auto simp: parse_octet_def list_all_iff)

lemma parse_all_map: "\<forall>x \<in> set xs. p (f x) = Some x \<Longrightarrow> parse_all p (map f xs) = Some xs"
  by (induction xs) auto

lemma parse_all_length: "parse_all p xs = Some ys \<Longrightarrow> length ys = length xs"
  by (induction xs arbitrary: ys) (auto split: option.splits)

lemma parse_all_set: "parse_all p xs = Some ys \<Longrightarrow> y \<in> set ys \<Longrightarrow> \<exists>x \<in> set xs. p x = Some y"
  by (induction xs arbitrary: ys) (auto split: option.splits)

lemma dec_text_no_dot: "n < 1000 \<Longrightarrow> CHR ''.'' \<notin> set (dec_text n)"
  using dec_text_digit not_digit by blast

lemma IPv4_text_parse:
  assumes "length os = 4" and "\<forall>x \<in> set os. x < 256"
  shows "parseIPv4Fields (IPv4_text os) = Some os"
proof -
  have "map dec_text os \<noteq> []" using assms(1) by auto
  moreover have "\<forall>w \<in> set (map dec_text os). CHR ''.'' \<notin> set w"
    using assms(2) dec_text_no_dot by fastforce
  ultimately have "Split (IPv4_text os) CHR ''.'' = map dec_text os"
    unfolding IPv4_text_def by (rule Split_Join)
  with assms show ?thesis by (simp add: parseIPv4Fields_def parse_all_map parse_octet_text)
qed

lemma parseIPv4Fields_ok:
  assumes "parseIPv4Fields s = Some os"
  shows "length os = 4" and "x \<in> set os \<Longrightarrow> x < 256" and "c \<in> set s \<Longrightarrow> is_digit c \<or> c = CHR ''.''"
proof -
  let ?fs = "Split s CHR ''.''"
  have fs: "length ?fs = 4" "parse_all parse_octet ?fs = Some os"
    using assms by (auto simp: parseIPv4Fields_def Let_def split: if_splits)
  show "length os = 4" using fs parse_all_length by metis
  show "x < 256" if "x \<in> set os"
    using parse_all_set [OF fs(2) that] by (auto simp: parse_octet_def split: if_splits)
  have dig: "\<forall>w \<in> set ?fs. \<forall>c \<in> set w. is_digit c"
    using fs(2)
  proof (induction ?fs arbitrary: os s rule: list.induct)
    case Nil
    then show ?case by (metis Split_nonempty)
  next
    case (Cons w ws)
    have "parse_all parse_octet us = Some xs \<Longrightarrow> \<forall>w \<in> set us. \<forall>c \<in> set w. is_digit c" for us xs
      by (induction us arbitrary: xs) (auto simp: parse_octet_def list_all_iff split: option.splits if_splits)
    with Cons.prems show ?case by metis
  qed
  have "set (Join us ''.'') \<subseteq> (\<Union>w \<in> set us. set w) \<union> {CHR ''.''}" for us
    by (induction us "''.''" rule: Join.induct) auto
  from this [of ?fs] show "is_digit c \<or> c = CHR ''.''" if "c \<in> set s"
    using dig that by (auto simp: Join_Split)
qed

section \<open>IPv6 text\<close>

lemma dropWhile_length: "dropWhile P s = c # r \<Longrightarrow> length r < length s"
  using length_dropWhile_le [of P s] by simp

text \<open>
  The loop of \<open>parseIPv6\<close>: hexadecimal fields separated by colons, at most one double colon, and
  a dotted quad in place of the last two fields. The result is the groups read, the position of
  the double colon, and the text left over.
\<close>

function v6_loop :: "string \<Rightarrow> nat list \<Rightarrow> nat option \<Rightarrow> (nat list \<times> nat option \<times> string) option" where
  "v6_loop s acc ell =
     (if length acc \<ge> 8 then Some (acc, ell, s)
      else
        let ds = takeWhile is_hex s; rest = dropWhile is_hex s
        in if length ds > 4 \<or> ds = [] then None
           else case rest of
               [] \<Rightarrow> Some (acc @ [number 16 ds], ell, [])
             | c # r \<Rightarrow>
                 if c = CHR ''.'' then
                   (if ell = None \<and> length acc \<noteq> 6 \<or> length acc + 2 > 8 then None
                    else case parseIPv4Fields s of
                        None \<Rightarrow> None
                      | Some os \<Rightarrow> Some (acc @ [os ! 0 * 256 + os ! 1, os ! 2 * 256 + os ! 3], ell, []))
                 else if c \<noteq> CHR '':'' \<or> r = [] then None
                 else
                   let acc = acc @ [number 16 ds]
                   in if hd r = CHR '':'' then
                        (if ell \<noteq> None then None
                         else if tl r = [] then Some (acc, Some (length acc), [])
                         else v6_loop (tl r) acc (Some (length acc)))
                      else v6_loop r acc ell)"
  by pat_completeness auto

termination
proof (relation "measure (\<lambda>(s, acc, ell). length s)", goal_cases)
  case 1
  then show ?case by simp
next
  case (2 s acc ell ds rest c r acc')
  then show ?case using dropWhile_length [of is_hex s c r] by (cases r) auto
next
  case (3 s acc ell ds rest c r acc')
  then show ?case using dropWhile_length [of is_hex s c r] by auto
qed

declare v6_loop.simps [simp del]

text \<open>The double colon stands for the missing groups, of which there is at least one.\<close>

definition v6_finish :: "nat list \<times> nat option \<times> string \<Rightarrow> nat list option" where
  "v6_finish res = (case res of (acc, ell, rest) \<Rightarrow>
     if rest \<noteq> [] then None
     else if length acc < 8 then
       (case ell of None \<Rightarrow> None
        | Some e \<Rightarrow> Some (take e acc @ replicate (8 - length acc) 0 @ drop e acc))
     else if ell \<noteq> None then None else Some acc)"

definition v6_groups :: "string \<Rightarrow> nat list option" where
  "v6_groups s =
     (if take 2 s = ''::'' then
        (if drop 2 s = [] then Some (replicate 8 0)
         else case v6_loop (drop 2 s) [] (Some 0) of None \<Rightarrow> None | Some res \<Rightarrow> v6_finish res)
      else case v6_loop s [] None of None \<Rightarrow> None | Some res \<Rightarrow> v6_finish res)"

definition parseIPv6 :: "string \<Rightarrow> addr option" where
  "parseIPv6 s =
     (let body = takeWhile (\<lambda>c. c \<noteq> CHR ''%'') s; zone = drop (length body + 1) s
      in if CHR ''%'' \<in> set s \<and> zone = [] then None
         else case v6_groups body of None \<Rightarrow> None | Some gs \<Rightarrow> Some (V6 gs zone))"

text \<open>\<open>ParseAddr\<close> looks at the first of the characters that tell the families apart.\<close>

definition ParseAddr :: "string \<Rightarrow> addr option" where
  "ParseAddr s =
     (case dropWhile (\<lambda>c. c \<notin> {CHR ''.'', CHR '':'', CHR ''%''}) s of
        [] \<Rightarrow> None
      | c # _ \<Rightarrow>
          if c = CHR ''.'' then (case parseIPv4Fields s of None \<Rightarrow> None | Some os \<Rightarrow> Some (V4 os))
          else if c = CHR '':'' then parseIPv6 s else None)"

text \<open>
  Printing: the longest run of at least two zero groups, the first one of equals, is printed as
  a double colon.
\<close>

definition zero_run :: "nat list \<Rightarrow> nat \<Rightarrow> nat" where
  "zero_run gs i = length (takeWhile (\<lambda>g. g = 0) (drop i gs))"

definition zero_span :: "nat list \<Rightarrow> (nat \<times> nat) option" where
  "zero_span gs =
     fold (\<lambda>i best. let l = zero_run gs i
             in if l \<ge> 2 \<and> (case best of None \<Rightarrow> True | Some (a, b) \<Rightarrow> l > b - a) then Some (i, i + l) else best)
       [0..<length gs] None"

definition groups_text :: "nat list \<Rightarrow> string" where
  "groups_text gs = Join (map hex_text gs) '':''"

definition IPv6_text :: "nat list \<Rightarrow> string" where
  "IPv6_text gs =
     (if mapped gs then ''::ffff:'' @ IPv4_text [gs ! 6 div 256, gs ! 6 mod 256, gs ! 7 div 256, gs ! 7 mod 256]
      else case zero_span gs of
          None \<Rightarrow> groups_text gs
        | Some (a, b) \<Rightarrow> groups_text (take a gs) @ ''::'' @ groups_text (drop b gs))"

fun addr_String :: "addr \<Rightarrow> string" where
  "addr_String (V4 os) = IPv4_text os"
| "addr_String (V6 gs z) = IPv6_text gs @ (if z = '''' then '''' else ''%'' @ z)"

section \<open>Printing and parsing IPv6\<close>

lemma takeWhile_hex: "n < 65536 \<Longrightarrow> takeWhile is_hex (hex_text n @ s) = hex_text n @ takeWhile is_hex s"
  by (rule takeWhile_append2) (simp add: hex_text_hex)

lemma dropWhile_hex: "n < 65536 \<Longrightarrow> dropWhile is_hex (hex_text n @ s) = dropWhile is_hex s"
  by (rule dropWhile_append2) (simp add: hex_text_hex)

lemma takeWhile_hex0: "n < 65536 \<Longrightarrow> takeWhile is_hex (hex_text n) = hex_text n"
  using takeWhile_hex [of n "[]"] by simp

lemma dropWhile_hex0: "n < 65536 \<Longrightarrow> dropWhile is_hex (hex_text n) = []"
  using dropWhile_hex [of n "[]"] by simp

lemma groups_text_Cons:
  "groups_text (g # gs) = hex_text g @ (if gs = [] then [] else '':'' @ groups_text gs)"
  by (cases gs) (simp_all add: groups_text_def)

lemma hex_text_hd: "hex_text n = c # r \<Longrightarrow> n < 65536 \<Longrightarrow> is_hex c"
  using hex_text_hex [of n c] by simp

lemma take2_neq: "hd t \<noteq> c \<Longrightarrow> take 2 t \<noteq> [c, d]"
  by (cases t) auto

lemma groups_text_hd:
  "gs \<noteq> [] \<Longrightarrow> \<forall>g \<in> set gs. g < 65536 \<Longrightarrow> groups_text gs \<noteq> [] \<and> hd (groups_text gs @ s) \<noteq> CHR '':''"
proof (cases gs)
  case (Cons g gs')
  assume "\<forall>g \<in> set gs. g < 65536"
  moreover obtain c r where "hex_text g = c # r" using hex_text_length(1) by (cases "hex_text g") auto
  ultimately show ?thesis using Cons hex_text_hd [of g c r]
    by (auto simp: groups_text_Cons)
qed simp

text \<open>One group followed by a colon and more text that does not start with a colon.\<close>

lemma v6_loop_group:
  assumes "g < 65536" and "length acc < 8" and "t \<noteq> []" and "hd t \<noteq> CHR '':''"
  shows "v6_loop (hex_text g @ '':'' @ t) acc ell = v6_loop t (acc @ [g]) ell"
proof (subst v6_loop.simps)
qed (use assms hex_text_length [of g] in \<open>simp add: takeWhile_hex dropWhile_hex hex_text_number Let_def\<close>)

lemma v6_loop_last:
  assumes "g < 65536" and "length acc < 8"
  shows "v6_loop (hex_text g) acc ell = Some (acc @ [g], ell, [])"
  using assms hex_text_length [of g]
  by (subst v6_loop.simps) (simp add: takeWhile_hex0 dropWhile_hex0 hex_text_number Let_def)

lemma v6_loop_double:
  assumes "g < 65536" and "length acc < 8" and "t \<noteq> []"
  shows "v6_loop (hex_text g @ ''::'' @ t) acc None = v6_loop t (acc @ [g]) (Some (Suc (length acc)))"
  using assms hex_text_length [of g]
  by (subst v6_loop.simps) (simp add: takeWhile_hex dropWhile_hex hex_text_number Let_def)

lemma v6_loop_double_end:
  assumes "g < 65536" and "length acc < 8"
  shows "v6_loop (hex_text g @ ''::'') acc None = Some (acc @ [g], Some (Suc (length acc)), [])"
  using assms hex_text_length [of g]
  by (subst v6_loop.simps) (simp add: takeWhile_hex dropWhile_hex hex_text_number Let_def)

lemma v6_loop_groups:
  "gs \<noteq> [] \<Longrightarrow> \<forall>g \<in> set gs. g < 65536 \<Longrightarrow> length acc + length gs \<le> 8
     \<Longrightarrow> v6_loop (groups_text gs) acc ell = Some (acc @ gs, ell, [])"
proof (induction gs arbitrary: acc)
  case (Cons g gs)
  show ?case
  proof (cases "gs = []")
    case True
    with Cons.prems show ?thesis by (simp add: groups_text_Cons v6_loop_last)
  next
    case False
    with Cons.prems have "v6_loop (groups_text (g # gs)) acc ell = v6_loop (groups_text gs) (acc @ [g]) ell"
      using groups_text_hd [of gs "[]"] v6_loop_group [of g acc "groups_text gs" ell]
      by (simp add: groups_text_Cons)
    with Cons.IH [of "acc @ [g]"] Cons.prems False show ?thesis by simp
  qed
qed simp

lemma v6_loop_compressed:
  "pre \<noteq> [] \<Longrightarrow> \<forall>g \<in> set pre \<union> set post. g < 65536 \<Longrightarrow> length acc + length pre + length post < 8
     \<Longrightarrow> v6_loop (groups_text pre @ ''::'' @ groups_text post) acc None
       = Some (acc @ pre @ post, Some (length acc + length pre), [])"
proof (induction pre arbitrary: acc)
  case (Cons g gs)
  show ?case
  proof (cases "gs = []")
    case True
    show ?thesis
    proof (cases "post = []")
      case True
      with \<open>gs = []\<close> Cons.prems show ?thesis
        by (simp add: groups_text_Cons v6_loop_double_end groups_text_def [of "[]"])
    next
      case False
      with True Cons.prems show ?thesis
        using groups_text_hd [of post "[]"] v6_loop_double [of g acc "groups_text post"]
          v6_loop_groups [of post "acc @ [g]"]
        by (simp add: groups_text_Cons)
    qed
  next
    case False
    let ?t = "groups_text gs @ ''::'' @ groups_text post"
    have "v6_loop (groups_text (g # gs) @ ''::'' @ groups_text post) acc None = v6_loop ?t (acc @ [g]) None"
    proof -
      have gsb: "\<forall>g \<in> set gs. g < 65536" using Cons.prems(2) by simp
      have hd: "hd ?t \<noteq> CHR '':''"
        by (rule groups_text_hd [OF False gsb, THEN conjunct2])
      have "v6_loop (hex_text g @ '':'' @ ?t) acc None = v6_loop ?t (acc @ [g]) None"
        by (rule v6_loop_group [OF _ _ _ hd]) (use Cons.prems(2,3) in simp_all)
      then show ?thesis using False by (simp add: groups_text_Cons)
    qed
    with Cons.IH [of "acc @ [g]"] Cons.prems False show ?thesis by simp
  qed
qed simp

lemma zero_span_spec:
  assumes "zero_span gs = Some (a, b)"
  shows "a + 2 \<le> b" and "b \<le> length gs" and "\<forall>i. a \<le> i \<longrightarrow> i < b \<longrightarrow> gs ! i = 0"
proof -
  let ?ok = "\<lambda>a b. a + 2 \<le> b \<and> b \<le> length gs \<and> (\<forall>i. a \<le> i \<longrightarrow> i < b \<longrightarrow> gs ! i = 0)"
  have run: "?ok i (i + zero_run gs i)" if "2 \<le> zero_run gs i" for i
  proof (intro conjI allI impI)
    have l: "zero_run gs i \<le> length gs - i"
      unfolding zero_run_def by (metis length_drop length_takeWhile_le)
    with that show "i + zero_run gs i \<le> length gs" by simp
    show "i + 2 \<le> i + zero_run gs i" using that by simp
    fix j assume j: "i \<le> j" "j < i + zero_run gs i"
    then have "j - i < length (takeWhile (\<lambda>g. g = 0) (drop i gs))" by (simp add: zero_run_def)
    then have "takeWhile (\<lambda>g. g = 0) (drop i gs) ! (j - i) \<in> set (takeWhile (\<lambda>g. g = 0) (drop i gs))"
      by (rule nth_mem)
    then have "takeWhile (\<lambda>g. g = 0) (drop i gs) ! (j - i) = 0"
      by (auto dest: set_takeWhileD)
    moreover have "takeWhile (\<lambda>g. g = 0) (drop i gs) ! (j - i) = drop i gs ! (j - i)"
      using \<open>j - i < length _\<close> by (rule takeWhile_nth)
    ultimately show "gs ! j = 0" using j l that by (simp add: nth_drop)
  qed
  let ?step = "\<lambda>i best. let l = zero_run gs i
      in if l \<ge> 2 \<and> (case best of None \<Rightarrow> True | Some (a, b) \<Rightarrow> l > b - a) then Some (i, i + l) else best"
  define good where "good best \<longleftrightarrow> (\<forall>a b. best = Some (a, b) \<longrightarrow> ?ok a b)" for best
  have step: "good (?step i best)" if "good best" for i best
    using that run [of i] by (cases "2 \<le> zero_run gs i") (simp_all add: good_def Let_def)
  have "good (fold ?step js best)" if "good best" for js best
    using that by (induction js arbitrary: best) (simp, metis (no_types, lifting) fold_simps(2) step)
  moreover have "good None" by (simp add: good_def)
  ultimately have "good (zero_span gs)" unfolding zero_span_def by blast
  with assms show "a + 2 \<le> b" "b \<le> length gs" "\<forall>i. a \<le> i \<longrightarrow> i < b \<longrightarrow> gs ! i = 0"
    by (auto simp: good_def)
qed

lemma zeros_between:
  assumes "a \<le> b" "b \<le> length gs" "\<forall>i. a \<le> i \<longrightarrow> i < b \<longrightarrow> gs ! i = (0::nat)"
  shows "take a gs @ replicate (b - a) 0 @ drop b gs = gs"
proof -
  have "take (b - a) (drop a gs) = replicate (b - a) 0"
    using assms by (intro nth_equalityI) auto
  then have "replicate (b - a) 0 @ drop b gs = drop a gs"
    using assms(1) append_take_drop_id [of "b - a" "drop a gs"] by simp
  then show ?thesis by simp
qed

lemma v6_groups_text:
  assumes "length gs = 8" and "\<forall>g \<in> set gs. g < 65536" and "\<not> mapped gs"
  shows "v6_groups (IPv6_text gs) = Some gs"
proof (cases "zero_span gs")
  case None
  have ne: "gs \<noteq> []" using assms(1) by auto
  have "take 2 (groups_text gs) \<noteq> ''::''"
    using groups_text_hd [OF ne assms(2), of "[]"] by (cases "groups_text gs") auto
  with None assms ne show ?thesis
    by (simp add: v6_groups_def IPv6_text_def v6_loop_groups v6_finish_def)
next
  case (Some p)
  then obtain a b where ab: "zero_span gs = Some (a, b)" by (cases p) auto
  note z = zero_span_spec [OF ab]
  let ?pre = "take a gs" and ?post = "drop b gs"
  have lens: "length ?pre = a" "length ?post = 8 - b" "a \<le> 6" "b \<le> 8" using z assms(1) by auto
  have bnd: "\<forall>g \<in> set ?pre \<union> set ?post. g < 65536"
    using assms(2) by (auto dest: in_set_takeD in_set_dropD)
  have join: "?pre @ replicate (b - a) 0 @ ?post = gs" using z by (intro zeros_between) auto
  have fin: "v6_finish (?pre @ ?post, Some a, []) = Some gs"
    using lens z(1) join by (simp add: v6_finish_def)
  have body: "IPv6_text gs = groups_text ?pre @ ''::'' @ groups_text ?post"
    using assms(3) ab by (simp add: IPv6_text_def)
  show ?thesis
  proof (cases "a = 0")
    case False
    then have pre: "?pre \<noteq> []" using assms(1) by auto
    have preb: "\<forall>g \<in> set ?pre. g < 65536" using bnd by simp
    have "take 2 (IPv6_text gs) \<noteq> ''::''"
      unfolding body by (rule take2_neq [OF groups_text_hd [OF pre preb, THEN conjunct2]])
    moreover have "v6_loop (IPv6_text gs) [] None = Some (?pre @ ?post, Some a, [])"
      unfolding body using v6_loop_compressed [OF pre bnd, of "[]"] lens z(1) by simp
    ultimately show ?thesis using fin by (simp add: v6_groups_def)
  next
    case True
    then have txt': "IPv6_text gs = ''::'' @ groups_text ?post" using body by (simp add: groups_text_def)
    show ?thesis
    proof (cases "?post = []")
      case empty: True
      then have "b = 8" using assms(1) z(2) by simp
      with join True empty have "replicate 8 0 = gs" by simp
      with txt' empty show ?thesis by (simp add: v6_groups_def groups_text_def)
    next
      case False
      have postb: "\<forall>g \<in> set ?post. g < 65536" using bnd by simp
      have "v6_loop (groups_text ?post) [] (Some 0) = Some (?post, Some 0, [])"
        using v6_loop_groups [OF False postb, of "[]" "Some 0"] lens by simp
      moreover have "groups_text ?post \<noteq> []" using groups_text_hd [OF False postb] by blast
      ultimately show ?thesis using fin True txt' by (simp add: v6_groups_def)
    qed
  qed
qed

text \<open>An IPv4-mapped address is printed with its last two groups as a dotted quad.\<close>

lemma v6_groups_mapped:
  assumes "length gs = 8" and "\<forall>g \<in> set gs. g < 65536" and "mapped gs"
  shows "v6_groups (IPv6_text gs) = Some gs"
proof -
  let ?os = "[gs ! 6 div 256, gs ! 6 mod 256, gs ! 7 div 256, gs ! 7 mod 256]"
  have b: "gs ! 6 < 65536" "gs ! 7 < 65536" using assms(1,2) by auto
  have os: "parseIPv4Fields (IPv4_text ?os) = Some ?os"
    using b by (intro IPv4_text_parse) (auto simp: div_less_iff_less_mult)
  obtain c r where dq: "IPv4_text ?os = dec_text (gs ! 6 div 256) @ CHR ''.'' # r"
    by (simp add: IPv4_text_def)
  have dh: "is_digit c \<Longrightarrow> is_hex c" for c
    by (auto simp: is_digit_def is_hex_def dec_digits_def char_digit_def hex_digits_def upt_rec_numeral upt_rec)
  let ?d = "dec_text (gs ! 6 div 256)"
  have d: "\<forall>c \<in> set ?d. is_hex c" "?d \<noteq> []" "length ?d \<le> 4"
    using dec_text_digit [of "gs ! 6 div 256"] dh b by (auto simp: div_less_iff_less_mult dec_text_def)
  have tw: "takeWhile is_hex (?d @ CHR ''.'' # r) = ?d" "dropWhile is_hex (?d @ CHR ''.'' # r) = CHR ''.'' # r"
    using d(1) by (simp_all add: takeWhile_append2 dropWhile_append2)
  have "v6_loop (IPv4_text ?os) [65535] (Some 0)
      = Some ([65535, gs ! 6 div 256 * 256 + gs ! 6 mod 256, gs ! 7 div 256 * 256 + gs ! 7 mod 256], Some 0, [])"
    using os d unfolding dq by (subst v6_loop.simps) (simp add: tw Let_def)
  moreover have "v6_loop (''ffff:'' @ IPv4_text ?os) [] (Some 0) = v6_loop (IPv4_text ?os) [65535] (Some 0)"
  proof -
    have f: "hex_text 65535 = ''ffff''" by (simp add: hex_text_def digit_char_def hex_digits_def)
    have "hd (IPv4_text ?os) \<noteq> CHR '':''"
      using d(1,2) unfolding dq by (cases ?d) auto
    then show ?thesis
      using v6_loop_group [of 65535 "[]" "IPv4_text ?os" "Some 0"] dq f by simp
  qed
  moreover have "[0, 0, 0, 0, 0, 65535, gs ! 6, gs ! 7] = gs"
  proof -
    have "gs = take 6 gs @ drop 6 gs" by simp
    also have "drop 6 gs = [gs ! 6, gs ! 7]"
      using assms(1) by (intro nth_equalityI) (auto simp: less_Suc_eq numeral_eq_Suc)
    finally show ?thesis using assms(3) by (simp add: mapped_def)
  qed
  ultimately have loop: "v6_loop (''ffff:'' @ IPv4_text ?os) [] (Some 0) = Some ([65535, gs ! 6, gs ! 7], Some 0, [])"
    and gs: "[0, 0, 0, 0, 0, 65535, gs ! 6, gs ! 7] = gs"
    by (simp_all only: div_mult_mod_eq)
  have fin: "v6_finish ([65535, x, y], Some 0, []) = Some [0, 0, 0, 0, 0, 65535, x, y]" for x y
  proof -
    have "replicate 5 0 = [0, 0, 0, 0, 0 :: nat]" by (simp add: numeral_eq_Suc)
    then show ?thesis by (simp add: v6_finish_def)
  qed
  have split: "v6_groups (''::ffff:'' @ t) = (case v6_loop (''ffff:'' @ t) [] (Some 0) of
      None \<Rightarrow> None | Some res \<Rightarrow> v6_finish res)" for t
    by (simp add: v6_groups_def)
  have "IPv6_text gs = ''::ffff:'' @ IPv4_text ?os"
    using assms(3) by (simp only: IPv6_text_def if_True)
  then show ?thesis
    by (simp only: split loop option.case fin gs)
qed

lemma v6_groups_String:
  "length gs = 8 \<Longrightarrow> \<forall>g \<in> set gs. g < 65536 \<Longrightarrow> v6_groups (IPv6_text gs) = Some gs"
  using v6_groups_text v6_groups_mapped by blast

section \<open>What parsing accepts\<close>

lemma char_digit_less: "char_digit c = Some d \<Longrightarrow> d < 16"
  by (auto simp: char_digit_def hex_digits_def upt_rec_numeral upt_rec split: if_splits)

lemma number_bound: "\<forall>c \<in> set ds. is_hex c \<Longrightarrow> number 16 ds < 16 ^ length ds"
proof (induction ds rule: rev_induct)
  case (snoc c ds)
  then obtain d where d: "char_digit c = Some d" "d < 16"
    using char_digit_less [of c] by (auto simp: is_hex_def)
  have "number 16 (ds @ [c]) = number 16 ds * 16 + d" using d by (simp add: number_def)
  with snoc d show ?case by simp
qed (simp add: number_def)

lemma number_group: "length ds \<le> 4 \<Longrightarrow> \<forall>c \<in> set ds. is_hex c \<Longrightarrow> number 16 ds < 65536"
  using number_bound [of ds] power_increasing [of "length ds" 4 "16 :: nat"] by simp

lemma takeWhile_is_hex: "\<forall>c \<in> set (takeWhile is_hex s). is_hex c"
  by (auto dest: set_takeWhileD)

text \<open>An accepted text yields groups in range and contains no foreign character.\<close>

lemma v6_loop_cases:
  assumes "v6_loop s acc ell = Some (gs, e, [])" and "length acc < 8"
  obtains (last) "dropWhile is_hex s = []" "gs = acc @ [number 16 (takeWhile is_hex s)]" "e = ell"
      "length (takeWhile is_hex s) \<le> 4"
  | (quad) os where "parseIPv4Fields s = Some os"
      "gs = acc @ [os ! 0 * 256 + os ! 1, os ! 2 * 256 + os ! 3]" "e = ell" "length acc + 2 \<le> 8"
  | (ending) "dropWhile is_hex s = ''::''" "gs = acc @ [number 16 (takeWhile is_hex s)]"
      "e = Some (length gs)" "length (takeWhile is_hex s) \<le> 4"
  | (double) r where "dropWhile is_hex s = ''::'' @ r" "length (takeWhile is_hex s) \<le> 4"
      "v6_loop r (acc @ [number 16 (takeWhile is_hex s)]) (Some (Suc (length acc))) = Some (gs, e, [])"
  | (single) r where "dropWhile is_hex s = '':'' @ r" "length (takeWhile is_hex s) \<le> 4"
      "v6_loop r (acc @ [number 16 (takeWhile is_hex s)]) ell = Some (gs, e, [])"
proof -
  define ds where "ds = takeWhile is_hex s"
  define rest where "rest = dropWhile is_hex s"
  note eq = assms(1) [unfolded v6_loop.simps [of s acc ell] Let_def ds_def [symmetric] rest_def [symmetric]]
  note cases = last quad ending double single
  note cases = cases [folded ds_def rest_def]
  have ds: "length ds \<le> 4" using eq assms(2) by (auto split: if_splits)
  show ?thesis
  proof (cases rest)
    case Nil
    with eq assms(2) have "gs = acc @ [number 16 ds]" "e = ell" by (simp_all split: if_splits)
    with Nil ds show ?thesis using cases(1) by blast
  next
    case (Cons c r)
    consider "c = CHR ''.''" | "c = CHR '':''" "r \<noteq> []"
      using eq assms(2) Cons by (auto split: if_splits)
    then show ?thesis
    proof cases
      case 1
      with eq assms(2) Cons show ?thesis
        using cases(2) by (auto split: if_splits option.splits)
    next
      case 2
      show ?thesis
      proof (cases "hd r = CHR '':''")
        case d: True
        then have r: "r = CHR '':'' # tl r" using 2 by (cases r) auto
        show ?thesis
        proof (cases "tl r = []")
          case True
          with eq assms(2) Cons 2 d have "gs = acc @ [number 16 ds]" "e = Some (length gs)"
            by (auto split: if_splits)
          moreover have "rest = ''::''" using Cons 2 r True by metis
          ultimately show ?thesis using cases(3) ds by blast
        next
          case False
          with eq assms(2) Cons 2 d
          have "v6_loop (tl r) (acc @ [number 16 ds]) (Some (Suc (length acc))) = Some (gs, e, [])"
            by (auto split: if_splits)
          moreover have "rest = ''::'' @ tl r" using Cons 2(1) r by simp
          ultimately show ?thesis using cases(4) ds by blast
        qed
      next
        case False
        with eq assms(2) Cons 2 have "v6_loop r (acc @ [number 16 ds]) ell = Some (gs, e, [])"
          by (auto split: if_splits)
        moreover have "rest = '':'' @ r" using Cons 2(1) by simp
        ultimately show ?thesis using cases(5) ds by blast
      qed
    qed
  qed
qed

definition foreign :: "char \<Rightarrow> bool" where
  "foreign x \<longleftrightarrow> \<not> is_hex x \<and> x \<noteq> CHR '':'' \<and> x \<noteq> CHR ''.''"

lemma foreign_examples [simp]: "foreign CHR ''/''" "foreign CHR ''%''" "foreign CHR ''|''"
  by (simp_all add: foreign_def is_hex_def char_digit_def hex_digits_def)

lemma digit_is_hex: "is_digit c \<Longrightarrow> is_hex c"
  by (auto simp: is_digit_def dec_digits_def is_hex_def char_digit_def hex_digits_def)

lemma foreign_IPv4: "parseIPv4Fields s = Some os \<Longrightarrow> foreign x \<Longrightarrow> x \<notin> set s"
  using parseIPv4Fields_ok(3) digit_is_hex by (metis foreign_def)

lemma set_hex_parts: "dropWhile is_hex s = r \<Longrightarrow> foreign x \<Longrightarrow> x \<in> set s \<Longrightarrow> x \<in> set r"
  using takeWhile_is_hex [of s] by (metis Un_iff foreign_def set_append takeWhile_dropWhile_id)

lemma v6_loop_ok:
  "v6_loop s acc ell = Some (gs, e, []) \<Longrightarrow> foreign x \<Longrightarrow> \<forall>g \<in> set acc. g < 65536 \<Longrightarrow> length acc \<le> 8
     \<Longrightarrow> (\<forall>g \<in> set gs. g < 65536) \<and> length gs \<le> 8 \<and> x \<notin> set s"
proof (induction "length s" arbitrary: s acc ell rule: less_induct)
  case less
  let ?n = "number 16 (takeWhile is_hex s)"
  show ?case
  proof (cases "length acc < 8")
    case False
    with less.prems show ?thesis by (auto simp: v6_loop.simps [of s])
  next
    case acc: True
    have g: "length (takeWhile is_hex s) \<le> 4 \<Longrightarrow> ?n < 65536"
      using number_group takeWhile_is_hex by blast
    have ih: "(\<forall>g \<in> set gs. g < 65536) \<and> length gs \<le> 8 \<and> x \<notin> set s"
      if "dropWhile is_hex s = p @ r" "p \<noteq> []" "x \<notin> set p" "length (takeWhile is_hex s) \<le> 4"
        "v6_loop r (acc @ [?n]) l = Some (gs, e, [])" for p r l
    proof -
      have "length r < length s"
        using that(1,2) length_dropWhile_le [of is_hex s] by (cases p) auto
      from less.hyps [OF this that(5) less.prems(2)] less.prems(3) acc g [OF that(4)]
      have "(\<forall>g \<in> set gs. g < 65536) \<and> length gs \<le> 8 \<and> x \<notin> set r" by simp
      with set_hex_parts [OF that(1) less.prems(2)] that(3) show ?thesis by auto
    qed
    have colon: "x \<noteq> CHR '':''" using less.prems(2) by (simp add: foreign_def)
    from less.prems(1) acc show ?thesis
    proof (cases rule: v6_loop_cases)
      case last
      with less.prems(3) acc g set_hex_parts [OF last(1) less.prems(2)] show ?thesis by auto
    next
      case (quad os)
      note ok = parseIPv4Fields_ok [OF quad(1)]
      have "os ! i < 256" if "i < 4" for i using ok(1,2) that by simp
      then have "os ! 0 < 256" "os ! 1 < 256" "os ! 2 < 256" "os ! 3 < 256" by simp_all
      then have "os ! 0 * 256 + os ! 1 < 65536" "os ! 2 * 256 + os ! 3 < 65536" by linarith+
      moreover have "x \<notin> set s" by (rule foreign_IPv4 [OF quad(1) less.prems(2)])
      ultimately show ?thesis using quad less.prems(3) by auto
    next
      case ending
      with less.prems(3) acc g set_hex_parts [OF ending(1) less.prems(2)] colon show ?thesis by auto
    next
      case (double r)
      then show ?thesis using ih [of "''::''" r] colon by simp
    next
      case (single r)
      then show ?thesis using ih [of "'':''" r] colon by simp
    qed
  qed
qed

lemma v6_finish_ok:
  assumes "v6_finish (acc, e, rest) = Some gs" and "\<forall>g \<in> set acc. g < 65536" and "length acc \<le> 8"
  shows "(\<forall>g \<in> set gs. g < 65536) \<and> length gs = 8 \<and> rest = []"
  using assms
  by (auto simp: v6_finish_def split: if_splits option.splits dest!: in_set_takeD in_set_dropD)

lemma v6_groups_ok:
  assumes "v6_groups s = Some gs" and x: "foreign x"
  shows "(\<forall>g \<in> set gs. g < 65536) \<and> length gs = 8 \<and> x \<notin> set s"
proof -
  have loop: "(\<forall>g \<in> set gs. g < 65536) \<and> length gs = 8 \<and> x \<notin> set t"
    if "v6_loop t [] ell = Some res" "v6_finish res = Some gs" for t ell res
  proof -
    obtain acc e rest where res: "res = (acc, e, rest)" by (cases res)
    have "rest = []" using that(2) unfolding res v6_finish_def by (auto split: if_splits)
    with that(1) res have "v6_loop t [] ell = Some (acc, e, [])" by simp
    from v6_loop_ok [OF this x] v6_finish_ok [of acc e rest gs] that(2) res show ?thesis by auto
  qed
  show ?thesis
  proof (cases "take 2 s = ''::''")
    case True
    then have s: "s = ''::'' @ drop 2 s" by (metis append_take_drop_id)
    show ?thesis
    proof (cases "drop 2 s = []")
      case True
      with assms(1) s \<open>take 2 s = ''::''\<close> have "gs = replicate 8 0" "s = ''::''"
        by (auto simp: v6_groups_def)
      with x show ?thesis by (simp add: foreign_def)
    next
      case False
      with assms(1) True have "(\<forall>g \<in> set gs. g < 65536) \<and> length gs = 8 \<and> x \<notin> set (drop 2 s)"
        using loop by (auto simp: v6_groups_def split: option.splits)
      moreover have "set s = set (''::'' @ drop 2 s)" using s by metis
      ultimately show ?thesis using x by (simp add: foreign_def)
    qed
  next
    case False
    with assms(1) show ?thesis using loop by (auto simp: v6_groups_def split: option.splits)
  qed
qed

lemma ParseAddr_ok:
  assumes "ParseAddr s = Some a"
  shows "addr_ok a" and "CHR ''%'' \<notin> set s \<Longrightarrow> CHR ''/'' \<notin> set s \<and> Zone a = ''''"
    and "foreign x \<Longrightarrow> x \<notin> set (takeWhile (\<lambda>c. c \<noteq> CHR ''%'') s)"
proof -
  have parts: "addr_ok a \<and> (foreign x \<longrightarrow> x \<notin> set (takeWhile (\<lambda>c. c \<noteq> CHR ''%'') s)) \<and>
    (CHR ''%'' \<notin> set s \<longrightarrow> Zone a = '''')" for x
  proof (cases a)
    case (V4 os)
    have no6: "parseIPv6 s \<noteq> Some (V4 os)" for os
      by (simp add: parseIPv6_def Let_def split: option.split)
    have "parseIPv4Fields s = Some os"
      using assms V4 no6 by (auto simp: ParseAddr_def split: list.splits if_splits option.splits)
    from parseIPv4Fields_ok(1,2) [OF this] foreign_IPv4 [OF this] V4
    show ?thesis by (auto simp: addr_ok_def dest!: set_takeWhileD)
  next
    case (V6 gs z)
    let ?body = "takeWhile (\<lambda>c. c \<noteq> CHR ''%'') s"
    have "parseIPv6 s = Some (V6 gs z)"
      using assms V6 by (auto simp: ParseAddr_def split: list.splits if_splits option.splits)
    then have g: "v6_groups ?body = Some gs" "z = drop (length ?body + 1) s"
      by (simp_all add: parseIPv6_def Let_def split: option.splits if_splits)
    note ok = v6_groups_ok [OF g(1)]
    have "addr_ok a" using ok [OF foreign_examples(1)] V6 by (simp add: addr_ok_def)
    moreover have "Zone a = ''''" if "CHR ''%'' \<notin> set s"
    proof -
      have "?body = s" using that by (auto simp: takeWhile_eq_all_conv)
      with g(2) V6 show ?thesis by simp
    qed
    ultimately show ?thesis using ok by blast
  qed
  show "addr_ok a" "foreign x \<Longrightarrow> x \<notin> set (takeWhile (\<lambda>c. c \<noteq> CHR ''%'') s)" using parts by blast+
  assume p: "CHR ''%'' \<notin> set s"
  then have "takeWhile (\<lambda>c. c \<noteq> CHR ''%'') s = s" by (auto simp: takeWhile_eq_all_conv)
  with parts [of "CHR ''/''"] p show "CHR ''/'' \<notin> set s \<and> Zone a = ''''" by simp
qed

section \<open>Printing an address and parsing it again\<close>

lemma groups_text_chars:
  "\<forall>g \<in> set gs. g < 65536 \<Longrightarrow> c \<in> set (groups_text gs) \<Longrightarrow> is_hex c \<or> c = CHR '':''"
proof (induction gs)
  case (Cons g gs)
  then show ?case using hex_text_hex [of g c] by (auto simp: groups_text_Cons split: if_splits)
qed (simp add: groups_text_def)

lemma IPv4_text_chars:
  "\<forall>x \<in> set os. x < 256 \<Longrightarrow> c \<in> set (IPv4_text os) \<Longrightarrow> is_digit c \<or> c = CHR ''.''"
  unfolding IPv4_text_def
proof (induction "map dec_text os" "''.''" arbitrary: os rule: Join.induct)
  case 1
  then show ?case by simp
next
  case (2 w)
  then obtain n where "os = [n]" "w = dec_text n" by auto
  with 2 show ?case using dec_text_digit [of n c] by simp
next
  case (3 w v vs)
  then obtain n ns where os: "os = n # ns" "w = dec_text n" "v # vs = map dec_text ns" by auto
  have "c \<in> set (dec_text n) \<or> c = CHR ''.'' \<or> c \<in> set (Join (map dec_text ns) ''.'')"
    using 3(4) os by (cases ns) auto
  with 3(1) [OF os(3)] 3(3) os dec_text_digit [of n c] show ?case by auto
qed

lemma first_colon:
  assumes "\<forall>c \<in> set p. is_hex c"
  shows "dropWhile (\<lambda>c. c \<notin> {CHR ''.'', CHR '':'', CHR ''%''}) (p @ CHR '':'' # t) = CHR '':'' # t"
proof -
  have "c \<notin> {CHR ''.'', CHR '':'', CHR ''%''}" if "c \<in> set p" for c
    using assms that not_hex by blast
  then show ?thesis by (subst dropWhile_append2) auto
qed

text \<open>An IPv6 text has no percent sign and a colon before any dot.\<close>

lemma IPv6_text_form:
  assumes "length gs = 8" and "\<forall>g \<in> set gs. g < 65536"
  shows "CHR ''%'' \<notin> set (IPv6_text gs) \<and> (\<exists>p t. IPv6_text gs = p @ CHR '':'' # t \<and> (\<forall>c \<in> set p. is_hex c))"
proof -
  let ?form = "\<lambda>s. \<exists>p t. s = p @ CHR '':'' # t \<and> (\<forall>c \<in> set p. is_hex c)"
  have nopc: "CHR ''%'' \<notin> set (groups_text hs)" if "\<forall>g \<in> set hs. g < 65536" for hs
    using groups_text_chars [OF that, of "CHR ''%''"] by auto
  have lead: "?form (groups_text (g # hs) @ s)" if "g < 65536" "hs \<noteq> [] \<or> (\<exists>r. s = CHR '':'' # r)" for g hs s
  proof (cases "hs = []")
    case True
    with that obtain r where "groups_text (g # hs) @ s = hex_text g @ CHR '':'' # r"
      by (auto simp: groups_text_Cons)
    with hex_text_hex that(1) show ?thesis by blast
  next
    case False
    then have "groups_text (g # hs) @ s = hex_text g @ CHR '':'' # (groups_text hs @ s)"
      by (simp add: groups_text_Cons)
    with hex_text_hex that(1) show ?thesis by blast
  qed
  show ?thesis
  proof (cases "mapped gs")
    case True
    let ?q = "IPv4_text [gs ! 6 div 256, gs ! 6 mod 256, gs ! 7 div 256, gs ! 7 mod 256]"
    have m: "IPv6_text gs = ''::ffff:'' @ ?q" using True by (simp only: IPv6_text_def if_True)
    have "gs ! 6 < 65536" "gs ! 7 < 65536" using assms by auto
    then have "\<forall>x \<in> set [gs ! 6 div 256, gs ! 6 mod 256, gs ! 7 div 256, gs ! 7 mod 256]. x < 256"
      by (simp add: div_less_iff_less_mult)
    from IPv4_text_chars [OF this, of "CHR ''%''"] have "CHR ''%'' \<notin> set ?q" by auto
    moreover have "?form (''::ffff:'' @ ?q)" by (rule exI [of _ "[]"]) simp
    ultimately show ?thesis unfolding m by simp
  next
    case False
    show ?thesis
    proof (cases "zero_span gs")
      case None
      then have t: "IPv6_text gs = groups_text gs" using False by (simp add: IPv6_text_def)
      obtain g hs where gs: "gs = g # hs" "hs \<noteq> []" using assms(1) by (cases gs; cases "tl gs") auto
      have "CHR ''%'' \<notin> set (groups_text gs)" using nopc assms(2) by blast
      with lead [of g hs "[]"] gs assms(2) show ?thesis unfolding t by simp
    next
      case (Some q)
      then obtain a b where t: "IPv6_text gs = groups_text (take a gs) @ ''::'' @ groups_text (drop b gs)"
        using False by (cases q) (simp add: IPv6_text_def)
      have bnd: "\<forall>g \<in> set (take a gs). g < 65536" "\<forall>g \<in> set (drop b gs). g < 65536"
        using assms(2) by (auto dest!: in_set_takeD in_set_dropD)
      have "CHR ''%'' \<notin> set (groups_text (take a gs))" "CHR ''%'' \<notin> set (groups_text (drop b gs))"
        using nopc bnd by blast+
      then have pc: "CHR ''%'' \<notin> set (IPv6_text gs)" unfolding t by simp
      have "?form (IPv6_text gs)"
      proof (cases "take a gs")
        case Nil
        then have "IPv6_text gs = [] @ CHR '':'' # (CHR '':'' # groups_text (drop b gs))"
          unfolding t Nil by (simp add: groups_text_def [of "[]"])
        then show ?thesis by (metis empty_iff list.set(1))
      next
        case (Cons g hs)
        show ?thesis unfolding t Cons by (rule lead) (use bnd(1) Cons in auto)
      qed
      with pc show ?thesis by blast
    qed
  qed
qed

lemma parseIPv6_String:
  assumes "length gs = 8" and "\<forall>g \<in> set gs. g < 65536"
  shows "parseIPv6 (IPv6_text gs @ (if z = [] then [] else CHR ''%'' # z)) = Some (V6 gs z)"
proof -
  have np: "CHR ''%'' \<notin> set (IPv6_text gs)" using IPv6_text_form [OF assms] by blast
  then have tw: "takeWhile (\<lambda>c. c \<noteq> CHR ''%'') (IPv6_text gs @ (if z = [] then [] else CHR ''%'' # z)) = IPv6_text gs"
    by (subst takeWhile_append2) auto
  show ?thesis
    using np v6_groups_String [OF assms] unfolding parseIPv6_def Let_def tw
    by (cases "z = []") simp_all
qed

lemma ParseAddr_String:
  assumes "addr_ok a"
  shows "ParseAddr (addr_String a) = Some a"
proof (cases a)
  case (V4 os)
  with assms have os: "length os = 4" "\<forall>x \<in> set os. x < 256" by (auto simp: addr_ok_def)
  obtain n ns where ns: "os = n # ns" "ns \<noteq> []" using os(1) by (cases os; cases "tl os") auto
  let ?P = "\<lambda>c. c \<notin> {CHR ''.'', CHR '':'', CHR ''%''}"
  have "IPv4_text os = dec_text n @ CHR ''.'' # Join (map dec_text ns) ''.''"
    using ns by (cases ns) (simp_all add: IPv4_text_def)
  moreover have "?P c" if "c \<in> set (dec_text n)" for c
    using dec_text_digit [of n c] os ns that not_digit by auto
  ultimately have "dropWhile ?P (IPv4_text os) = CHR ''.'' # Join (map dec_text ns) ''.''"
    by (simp add: dropWhile_append2)
  with V4 IPv4_text_parse [OF os] show ?thesis by (simp add: ParseAddr_def)
next
  case (V6 gs z)
  with assms have gs: "length gs = 8" "\<forall>g \<in> set gs. g < 65536" by (auto simp: addr_ok_def)
  obtain p t where p: "IPv6_text gs = p @ CHR '':'' # t" "\<forall>c \<in> set p. is_hex c"
    using IPv6_text_form [OF gs] by blast
  have s: "addr_String a = IPv6_text gs @ (if z = [] then [] else CHR ''%'' # z)"
    using V6 by simp
  have "dropWhile (\<lambda>c. c \<notin> {CHR ''.'', CHR '':'', CHR ''%''}) (addr_String a)
      = CHR '':'' # (t @ (if z = [] then [] else CHR ''%'' # z))"
    unfolding s p(1) using first_colon [OF p(2)] by simp
  then show ?thesis
    unfolding ParseAddr_def s using parseIPv6_String [OF gs, of z] V6 by simp
qed

section \<open>Prefixes\<close>

record prefix =
  p_addr :: addr
  p_bits :: nat

text \<open>
  Masking keeps the first \<open>n\<close> bits of a list of units of \<open>u\<close> bits. \<open>Prefix\<close> drops the zone.
\<close>

definition mask_unit :: "nat \<Rightarrow> nat \<Rightarrow> nat \<Rightarrow> nat \<Rightarrow> nat" where
  "mask_unit u n i x = (let k = min u (n - u * i) in x div 2 ^ (u - k) * 2 ^ (u - k))"

definition mask_units :: "nat \<Rightarrow> nat \<Rightarrow> nat list \<Rightarrow> nat list" where
  "mask_units u n xs = map (\<lambda>i. mask_unit u n i (xs ! i)) [0..<length xs]"

fun mask_addr :: "nat \<Rightarrow> addr \<Rightarrow> addr" where
  "mask_addr n (V4 os) = V4 (mask_units 8 n os)"
| "mask_addr n (V6 gs z) = V6 (mask_units 16 n gs) ''''"

fun addr_bits :: "addr \<Rightarrow> nat" where
  "addr_bits (V4 os) = 32"
| "addr_bits (V6 gs z) = 128"

text \<open>\<open>Addr.Prefix\<close>: the masked prefix, an error for a length out of range.\<close>

definition addr_Prefix :: "addr \<Rightarrow> int \<Rightarrow> prefix option" where
  "addr_Prefix a b =
     (if b < 0 \<or> b > int (addr_bits a) then None else Some \<lparr>p_addr = mask_addr (nat b) a, p_bits = nat b\<rparr>)"

definition Masked :: "prefix \<Rightarrow> prefix" where
  "Masked p = p\<lparr>p_addr := mask_addr (p_bits p) (p_addr p)\<rparr>"

definition prefix_String :: "prefix \<Rightarrow> string" where
  "prefix_String p = addr_String (p_addr p) @ ''/'' @ dec_text (p_bits p)"

definition parse_bits :: "string \<Rightarrow> nat option" where
  "parse_bits s =
     (if s = [] \<or> \<not> list_all is_digit s \<or> (length s > 1 \<and> hd s = CHR ''0'') then None else Some (number 10 s))"

text \<open>\<open>ParsePrefix\<close> splits at the last slash and refuses a zone.\<close>

definition ParsePrefix :: "string \<Rightarrow> prefix option" where
  "ParsePrefix s =
     (if CHR ''/'' \<notin> set s then None
      else let b = rev (takeWhile (\<lambda>c. c \<noteq> CHR ''/'') (rev s)); h = take (length s - length b - 1) s
           in case ParseAddr h of
               None \<Rightarrow> None
             | Some a \<Rightarrow>
                 if Zone a \<noteq> '''' then None
                 else (case parse_bits b of
                     None \<Rightarrow> None
                   | Some n \<Rightarrow> if n > addr_bits a then None else Some \<lparr>p_addr = a, p_bits = n\<rparr>))"

text \<open>\<open>Prefix.Contains\<close>: same family, no zone, equal first bits.\<close>

definition prefix_Contains :: "prefix \<Rightarrow> addr \<Rightarrow> bool" where
  "prefix_Contains p a \<longleftrightarrow>
     Zone a = '''' \<and> Is4 a = Is4 (p_addr p) \<and> mask_addr (p_bits p) a = mask_addr (p_bits p) (p_addr p)"

lemma length_mask_units [simp]: "length (mask_units u n xs) = length xs"
  by (simp add: mask_units_def)

lemma mask_unit_le: "mask_unit u n i x \<le> x"
  by (simp add: mask_unit_def Let_def)

lemma mask_unit_idem [simp]: "mask_unit u n i (mask_unit u n i x) = mask_unit u n i x"
  by (simp add: mask_unit_def Let_def)

lemma mask_units_idem [simp]: "mask_units u n (mask_units u n xs) = mask_units u n xs"
  by (simp add: mask_units_def)

lemma mask_addr_idem [simp]: "mask_addr n (mask_addr n a) = mask_addr n a"
  by (cases a) simp_all

lemma mask_units_bound: "\<forall>x \<in> set xs. x < b \<Longrightarrow> \<forall>x \<in> set (mask_units u n xs). x < b"
  by (auto simp: mask_units_def intro: le_less_trans [OF mask_unit_le])

lemma mask_addr_ok: "addr_ok a \<Longrightarrow> addr_ok (mask_addr n a)"
  by (cases a) (auto simp: addr_ok_def dest: mask_units_bound)

lemma mask_addr_simps [simp]:
  "Is4 (mask_addr n a) = Is4 a" "Is6 (mask_addr n a) = Is6 a" "Zone (mask_addr n a) = ''''"
  "addr_bits (mask_addr n a) = addr_bits a"
  by (cases a; simp)+

lemma prefix_Contains_self: "Zone (p_addr p) = '''' \<Longrightarrow> prefix_Contains p (p_addr p)"
  by (simp add: prefix_Contains_def)

lemma prefix_Contains_Masked: "prefix_Contains (Masked p) a = prefix_Contains p a"
  by (simp add: prefix_Contains_def Masked_def)

text \<open>A longer prefix contains less.\<close>

lemma mask_unit_shorter:
  assumes "n \<le> m" and "mask_unit u m i x = mask_unit u m i y"
  shows "mask_unit u n i x = mask_unit u n i y"
proof -
  let ?k = "\<lambda>n. min u (n - u * i)"
  have le: "?k n \<le> ?k m" using assms(1) by auto
  have e: "x div 2 ^ (u - ?k m) = y div 2 ^ (u - ?k m)" using assms(2) by (simp add: mask_unit_def Let_def)
  have p: "(2 :: nat) ^ (u - ?k n) = 2 ^ (u - ?k m) * 2 ^ (?k m - ?k n)"
    using le by (simp add: power_add [symmetric])
  have "x div 2 ^ (u - ?k n) = y div 2 ^ (u - ?k n)"
    unfolding p div_mult2_eq e by (rule refl)
  then show ?thesis by (simp only: mask_unit_def Let_def)
qed

lemma mask_addr_shorter:
  assumes "n \<le> m" and "mask_addr m a = mask_addr m b"
  shows "mask_addr n a = mask_addr n b"
proof -
  have units: "mask_units u n xs = mask_units u n ys" if e: "mask_units u m xs = mask_units u m ys" for u xs ys
  proof (rule nth_equalityI)
    have len: "length xs = length ys" using arg_cong [OF e, of length] by simp
    then show "length (mask_units u n xs) = length (mask_units u n ys)" by simp
    fix i assume "i < length (mask_units u n xs)"
    then have i: "i < length xs" by simp
    then have "mask_unit u m i (xs ! i) = mask_unit u m i (ys ! i)"
      using arg_cong [OF e, of "\<lambda>zs. zs ! i"] len by (simp add: mask_units_def)
    then have "mask_unit u n i (xs ! i) = mask_unit u n i (ys ! i)" by (rule mask_unit_shorter [OF assms(1)])
    with i len show "mask_units u n xs ! i = mask_units u n ys ! i" by (simp add: mask_units_def)
  qed
  show ?thesis
  proof (cases a)
    case (V4 xs)
    with assms(2) obtain ys where b: "b = V4 ys" "mask_units 8 m xs = mask_units 8 m ys" by (cases b) auto
    from units [OF b(2)] V4 b(1) show ?thesis by simp
  next
    case (V6 xs z)
    with assms(2) obtain ys z' where b: "b = V6 ys z'" "mask_units 16 m xs = mask_units 16 m ys" by (cases b) auto
    from units [OF b(2)] V6 b(1) show ?thesis by simp
  qed
qed

lemma parse_bits_text: "n \<le> 128 \<Longrightarrow> parse_bits (dec_text n) = Some n"
  using dec_text_number [of n] dec_text_lead [of n] dec_text_digit [of n]
  by (auto simp: parse_bits_def list_all_iff)

lemma dec_text_no_slash: "n < 1000 \<Longrightarrow> CHR ''/'' \<notin> set (dec_text n)"
  using dec_text_digit [of n "CHR ''/''"] by auto

lemma ParsePrefix_String:
  assumes "ParseAddr t = Some a" and "Zone a = ''''" and "n \<le> addr_bits a"
  shows "ParsePrefix (t @ ''/'' @ dec_text n) = Some \<lparr>p_addr = a, p_bits = n\<rparr>"
proof -
  have n: "n \<le> 128" using assms(3) by (cases a) auto
  then have "\<forall>c \<in> set (rev (dec_text n)). c \<noteq> CHR ''/''" using dec_text_no_slash [of n] by auto
  then have "takeWhile (\<lambda>c. c \<noteq> CHR ''/'') (rev (dec_text n) @ CHR ''/'' # rev t) = rev (dec_text n)"
    by (subst takeWhile_append2) auto
  with assms parse_bits_text [OF n] show ?thesis
    by (simp add: ParsePrefix_def Let_def)
qed

lemma ParsePrefix_ok:
  assumes "ParsePrefix s = Some p"
  shows "addr_ok (p_addr p)" and "Zone (p_addr p) = ''''" and "p_bits p \<le> addr_bits (p_addr p)"
proof -
  let ?b = "rev (takeWhile (\<lambda>c. c \<noteq> CHR ''/'') (rev s))"
  let ?h = "take (length s - length ?b - 1) s"
  obtain a n where a: "ParseAddr ?h = Some a" "Zone a = ''''" "n \<le> addr_bits a" "p = \<lparr>p_addr = a, p_bits = n\<rparr>"
    using assms unfolding ParsePrefix_def Let_def by (auto simp: not_less split: if_splits option.splits)
  then show "addr_ok (p_addr p)" "Zone (p_addr p) = ''''" "p_bits p \<le> addr_bits (p_addr p)"
    using ParseAddr_ok(1) by simp_all
qed

text \<open>The text of an IPv6 prefix is not an address.\<close>

lemma ParseAddr_prefix_text:
  assumes "addr_ok (V6 gs z)"
  shows "ParseAddr (IPv6_text gs @ ''/'' @ dec_text n) = None \<or> 1000 \<le> n"
proof (rule ccontr)
  assume a: "\<not> (ParseAddr (IPv6_text gs @ ''/'' @ dec_text n) = None \<or> 1000 \<le> n)"
  then obtain b where b: "ParseAddr (IPv6_text gs @ ''/'' @ dec_text n) = Some b" by auto
  have "CHR ''%'' \<notin> set (IPv6_text gs)" using assms IPv6_text_form by (simp add: addr_ok_def)
  moreover have "CHR ''%'' \<notin> set (dec_text n)" using a dec_text_digit [of n "CHR ''%''"] by auto
  ultimately have "CHR ''%'' \<notin> set (IPv6_text gs @ ''/'' @ dec_text n)" by simp
  from ParseAddr_ok(2) [OF b this] show False by simp
qed

end
