(* ===== verification/Netutil.thy ===== *)
theory Netutil
  imports Netip Proto
begin

text \<open>
  Reputation keys (\<open>internal/netutil/netutil.go\<close>): how the node names an address, and the address
  a key stands for.
\<close>

section \<open>Reputation keys\<close>

definition NormalizeIP :: "string \<Rightarrow> int \<Rightarrow> error + string" where
  "NormalizeIP s ipv6Prefix =
     (let finish = (\<lambda>addr.
            if Is4 addr then Inr (addr_String addr)
            else case addr_Prefix addr ipv6Prefix of
                None \<Rightarrow> Inl (Fault ''netutil: mask'')
              | Some p \<Rightarrow> Inr (prefix_String (Masked p)))
      in case ParseAddr s of
          None \<Rightarrow>
            (case ParsePrefix s of
               None \<Rightarrow> Inl (Fault ''netutil: parse'')
             | Some p \<Rightarrow>
                 let base = Unmap (p_addr p)
                 in if \<not> Is6 base then Inl (Fault ''netutil: reject IPv4 CIDR'') else finish base)
        | Some addr \<Rightarrow> finish (Unmap addr))"

definition KeyAddr :: "string \<Rightarrow> addr option" where
  "KeyAddr s =
     (case ParseAddr s of
        Some a \<Rightarrow> Some (Unmap a)
      | None \<Rightarrow> (case ParsePrefix s of Some p \<Rightarrow> Some (Unmap (p_addr p)) | None \<Rightarrow> None))"

text \<open>The key of an address, and the address a spelling stands for.\<close>

definition key_of :: "addr \<Rightarrow> nat \<Rightarrow> string" where
  "key_of a n = (if Is4 a then addr_String a else prefix_String \<lparr>p_addr = mask_addr n a, p_bits = n\<rparr>)"

lemma Unmap_families: "Is6 (Unmap a) \<longleftrightarrow> \<not> Is4 (Unmap a)"
  by (cases "Unmap a") simp_all

lemma NormalizeIP_key:
  assumes "1 \<le> n" and "n \<le> 128" and "NormalizeIP s (int n) = Inr k"
  shows "\<exists>a. KeyAddr s = Some a \<and> addr_ok a \<and> Unmap a = a \<and> k = key_of a n"
proof -
  let ?fin = "\<lambda>addr. if Is4 addr then Inr (addr_String addr)
      else case addr_Prefix addr (int n) of None \<Rightarrow> Inl (Fault ''netutil: mask'')
        | Some p \<Rightarrow> Inr (prefix_String (Masked p))"
  have fin: "?fin a = Inr (key_of a n)" for a
    using assms(1,2) by (cases a) (simp_all add: key_of_def addr_Prefix_def Masked_def)
  show ?thesis
  proof (cases "ParseAddr s")
    case (Some a)
    then have "?fin (Unmap a) = Inr k" using assms(3) by (simp add: NormalizeIP_def Let_def)
    then have "k = key_of (Unmap a) n" unfolding fin by simp
    with Some ParseAddr_ok(1) [OF Some] Unmap_ok show ?thesis by (auto simp: KeyAddr_def)
  next
    case None
    then obtain p where p: "ParsePrefix s = Some p" "?fin (Unmap (p_addr p)) = Inr k"
      using assms(3) by (auto simp: NormalizeIP_def Let_def split: option.splits if_splits)
    from p(2) have "k = key_of (Unmap (p_addr p)) n" unfolding fin by simp
    with p(1) None ParsePrefix_ok(1) [OF p(1)] Unmap_ok show ?thesis by (auto simp: KeyAddr_def)
  qed
qed

text \<open>Masking cannot make an address IPv4-mapped that was not.\<close>

lemma mask_not_mapped:
  assumes "length gs = 8" and "\<not> mapped gs" and "\<forall>g \<in> set gs. g < 65536"
  shows "\<not> mapped (mask_units 16 n gs)"
proof
  assume m: "mapped (mask_units 16 n gs)"
  have nth: "mask_units 16 n gs ! i = mask_unit 16 n i (gs ! i)" if "i < 8" for i
    using that assms(1) by (simp add: mask_units_def)
  have t: "take 6 (mask_units 16 n gs) ! i = [0, 0, 0, 0, 0, 65535 :: nat] ! i" if "i < 6" for i
    using m by (simp add: mapped_def)
  have five: "mask_unit 16 n 5 (gs ! 5) = 65535" using t [of 5] nth [of 5] by simp
  then have "96 \<le> n"
  proof -
    define k where "k = min 16 (n - 80)"
    have "gs ! 5 div 2 ^ (16 - k) * 2 ^ (16 - k) = 65535"
      using five by (simp add: mask_unit_def Let_def k_def)
    then have "2 ^ (16 - k) dvd (65535 :: nat)" by (metis dvd_triv_right)
    then have "16 - k = 0"
    proof (rule contrapos_pp)
      assume "16 - k \<noteq> 0"
      then have "(2 :: nat) dvd 2 ^ (16 - k)" by simp
      then show "\<not> 2 ^ (16 - k) dvd (65535 :: nat)"
        by (meson dvd_trans odd_numeral) 
    qed
    then show ?thesis by (simp add: k_def)
  qed
  then have full: "mask_unit 16 n i x = x" if "i < 6" for i x
    using that by (simp add: mask_unit_def Let_def)
  have "take 6 gs = [0, 0, 0, 0, 0, 65535]"
  proof (rule nth_equalityI)
    show "length (take 6 gs) = length [0, 0, 0, 0, 0, 65535 :: nat]" using assms(1) by simp
    fix i assume "i < length (take 6 gs)"
    then have i: "i < 6" by simp
    then show "take 6 gs ! i = [0, 0, 0, 0, 0, 65535] ! i"
      using t [OF i] nth [of i] full [OF i] by simp
  qed
  with assms(2) show False by (simp add: mapped_def)
qed

lemma key_of_address:
  assumes "addr_ok a" and "Unmap a = a" and "n \<le> 128"
  shows "KeyAddr (key_of a n) = Some (if Is4 a then a else mask_addr n a)"
    and "\<not> Is4 a \<Longrightarrow> ParseAddr (key_of a n) = None
           \<and> ParsePrefix (key_of a n) = Some \<lparr>p_addr = mask_addr n a, p_bits = n\<rparr>"
proof -
  have four: "KeyAddr (key_of a n) = Some a" if "Is4 a"
    using that ParseAddr_String [OF assms(1)] assms(2) by (simp add: key_of_def KeyAddr_def)
  have six: "ParseAddr (key_of a n) = None \<and> ParsePrefix (key_of a n) = Some \<lparr>p_addr = mask_addr n a, p_bits = n\<rparr>
      \<and> Unmap (mask_addr n a) = mask_addr n a" if n4: "\<not> Is4 a"
  proof -
    obtain gs z where a: "a = V6 gs z" using n4 by (cases a) auto
    have ok: "addr_ok (mask_addr n a)" using assms(1) by (rule mask_addr_ok)
    let ?gs = "mask_units 16 n gs"
    have m: "mask_addr n a = V6 ?gs ''''" by (simp add: a)
    have key: "key_of a n = IPv6_text ?gs @ ''/'' @ dec_text n"
      by (simp add: key_of_def a prefix_String_def)
    have pa: "ParseAddr (IPv6_text ?gs) = Some (mask_addr n a)"
      using ParseAddr_String [OF ok] by (simp add: m)
    have "ParseAddr (key_of a n) = None"
      using ParseAddr_prefix_text [of ?gs "''''" n] ok assms(3) unfolding key m by auto
    moreover have "ParsePrefix (key_of a n) = Some \<lparr>p_addr = mask_addr n a, p_bits = n\<rparr>"
      unfolding key by (rule ParsePrefix_String [OF pa]) (use a assms(3) in simp_all)
    moreover have "\<not> mapped gs" using assms(2) a by (auto split: if_splits)
    then have "Unmap (mask_addr n a) = mask_addr n a"
      using mask_not_mapped [of gs n] assms(1) a by (simp add: addr_ok_def)
    ultimately show ?thesis by blast
  qed
  show "KeyAddr (key_of a n) = Some (if Is4 a then a else mask_addr n a)"
    using four six by (cases "Is4 a") (simp_all add: KeyAddr_def)
  show "\<not> Is4 a \<Longrightarrow> ParseAddr (key_of a n) = None
      \<and> ParsePrefix (key_of a n) = Some \<lparr>p_addr = mask_addr n a, p_bits = n\<rparr>"
    using six by blast
qed

lemma NormalizeIP_key_of:
  assumes "addr_ok a" and "Unmap a = a" and "1 \<le> n" and "n \<le> 128"
  shows "NormalizeIP (key_of a n) (int n) = Inr (key_of a n)"
proof (cases "Is4 a")
  case True
  with ParseAddr_String [OF assms(1)] assms(2) show ?thesis
    by (simp add: NormalizeIP_def key_of_def Let_def)
next
  case False
  note k = key_of_address(1) [OF assms(1,2,4)] key_of_address(2) [OF assms(1,2,4) False]
  have u: "Unmap (mask_addr n a) = mask_addr n a" using k False by (simp add: KeyAddr_def)
  have "addr_bits a = 128" "\<not> Is4 (mask_addr n a)" "Is6 (mask_addr n a)"
    using False by (cases a; simp)+
  with k(2) u assms(4) False show ?thesis
    by (simp add: NormalizeIP_def Let_def addr_Prefix_def Masked_def) (simp add: key_of_def)
qed

text \<open>
  Normalising is idempotent, so a key that travels through the swarm is the key it was: for
  every prefix length the configuration allows, normalising a key again returns it unchanged.
\<close>

theorem NormalizeIP_idempotent:
  assumes "1 \<le> n" and "n \<le> 128" and "NormalizeIP s (int n) = Inr k"
  shows "NormalizeIP k (int n) = Inr k"
  using NormalizeIP_key [OF assms] NormalizeIP_key_of [OF _ _ assms(1,2)] by auto

theorem NormalizeIP_idempotent_witness:
  "NormalizeIP ''192.0.2.7'' 64 = Inr ''192.0.2.7''"
proof -
  have "NormalizeIP (key_of (V4 [192, 0, 2, 7]) 64) (int 64) = Inr (key_of (V4 [192, 0, 2, 7]) 64)"
    by (rule NormalizeIP_idempotent [OF _ _ NormalizeIP_key_of]) (simp_all add: addr_ok_def)
  moreover have "key_of (V4 [192, 0, 2, 7]) 64 = ''192.0.2.7''"
    by (simp add: key_of_def IPv4_text_def dec_text_def digit_char_def hex_digits_def)
  ultimately show ?thesis by simp
qed

text \<open>
  Every spelling of an address has one key. Two texts that stand for the same address (an
  IPv4 address and its IPv4-mapped form, or two spellings of an IPv6 address) are normalised to
  the same key, and so are two IPv6 addresses that agree on the configured prefix.
\<close>

theorem NormalizeIP_same_key:
  assumes "1 \<le> n" and "n \<le> 128" and "NormalizeIP s (int n) = Inr k" and "NormalizeIP s' (int n) = Inr k'"
    and "KeyAddr s = Some a" and "KeyAddr s' = Some a'" and "Is4 a = Is4 a'"
    and "if Is4 a then a = a' else mask_addr n a = mask_addr n a'"
  shows "k = k'"
  using NormalizeIP_key [OF assms(1-3)] NormalizeIP_key [OF assms(1,2,4)] assms(5-8)
  by (auto simp: key_of_def)

end
