(* ===== verification/Allowlists.thy ===== *)
theory Allowlists
  imports Netutil
begin

text \<open>
  The never-block list (\<open>internal/enforce/neverblock.go\<close>) and the operator's local whitelist
  (\<open>internal/store/whitelist.go\<close>). Both answer for a reputation key by the address the key
  stands for; the locale \<open>address_filter\<close> is that contract.
\<close>

section \<open>The contract of an address filter\<close>

locale address_filter =
  fixes contains :: "string \<Rightarrow> bool"
    and member :: "addr \<Rightarrow> bool"
  assumes contains_member: "contains s \<longleftrightarrow> (case KeyAddr s of None \<Rightarrow> False | Some a \<Rightarrow> member a)"
begin

lemma contains_spelling: "KeyAddr s = KeyAddr s' \<Longrightarrow> contains s = contains s'"
  by (simp add: contains_member)

text \<open>Normalising an IPv4 address does not change the answer.\<close>

lemma contains_v4_key:
  assumes "KeyAddr s = Some a" and "Is4 a" and "1 \<le> n" and "n \<le> 128" and "NormalizeIP s (int n) = Inr k"
  shows "contains k \<longleftrightarrow> contains s"
proof -
  obtain b where b: "KeyAddr s = Some b" "addr_ok b" "Unmap b = b" "k = key_of b n"
    using NormalizeIP_key [OF assms(3-5)] by blast
  with assms(1) have "b = a" by simp
  with key_of_address(1) [OF b(2,3) assms(4)] b assms(2) have "KeyAddr k = KeyAddr s" by simp
  then show ?thesis by (rule contains_spelling)
qed

text \<open>For an IPv6 address the answer is the one for the masked address.\<close>

lemma contains_v6_key:
  assumes "KeyAddr s = Some a" and "\<not> Is4 a" and "1 \<le> n" and "n \<le> 128" and "NormalizeIP s (int n) = Inr k"
  shows "contains k \<longleftrightarrow> member (mask_addr n a)"
proof -
  obtain b where b: "KeyAddr s = Some b" "addr_ok b" "Unmap b = b" "k = key_of b n"
    using NormalizeIP_key [OF assms(3-5)] by blast
  with assms(1) have "b = a" by simp
  with key_of_address(1) [OF b(2,3) assms(4)] b assms(2) show ?thesis by (simp add: contains_member)
qed

end

section \<open>The never-block list\<close>

definition defaultNeverBlock :: "string list" where
  "defaultNeverBlock =
     [''127.0.0.0/8'', ''::1/128'', ''10.0.0.0/8'', ''172.16.0.0/12'', ''192.168.0.0/16'', ''100.64.0.0/10'',
      ''169.254.0.0/16'', ''224.0.0.0/4'', ''fc00::/7'', ''fe80::/10'', ''8.8.8.8/32'', ''8.8.4.4/32'',
      ''1.1.1.1/32'', ''1.0.0.1/32'', ''9.9.9.9/32'', ''149.112.112.112/32'']"

record NeverBlockList =
  prefixes :: "prefix list"

text \<open>The loop of the constructor; an entry that parses as neither is skipped.\<close>

fun build_prefixes :: "string list \<Rightarrow> prefix list" where
  "build_prefixes [] = []"
| "build_prefixes (cidr # rest) =
     (case ParsePrefix cidr of
        Some p \<Rightarrow> Masked p # build_prefixes rest
      | None \<Rightarrow>
          (case ParseAddr cidr of
             None \<Rightarrow> build_prefixes rest
           | Some a \<Rightarrow>
               let addr = Unmap a
               in if Zone addr \<noteq> '''' then build_prefixes rest
                  else let bits = (if Is6 addr then 128 else 32)
                       in \<lparr>p_addr = addr, p_bits = bits\<rparr> # build_prefixes rest))"

definition NewNeverBlockList :: "string list \<Rightarrow> NeverBlockList" where
  "NewNeverBlockList extra = \<lparr>prefixes = build_prefixes (defaultNeverBlock @ extra)\<rparr>"

definition nbl_Contains :: "NeverBlockList \<Rightarrow> string \<Rightarrow> bool" where
  "nbl_Contains l ip =
     (case KeyAddr ip of
        None \<Rightarrow> False
      | Some addr \<Rightarrow> list_ex (\<lambda>p. prefix_Contains p addr) (prefixes l))"

interpretation nbl: address_filter "nbl_Contains l" "\<lambda>a. list_ex (\<lambda>p. prefix_Contains p a) (prefixes l)"
  for l :: NeverBlockList
  by unfold_locales (simp add: nbl_Contains_def)

lemma build_prefixes_append: "build_prefixes (xs @ ys) = build_prefixes xs @ build_prefixes ys"
  by (induction xs) (auto simp: Let_def split: option.splits)

section \<open>The local whitelist\<close>

record WhitelistStore =
  wl_path :: string
  wl_entries :: "WhitelistEntry list"

text \<open>
  A read of the file returns no file, another error, or its content; an empty file is an empty
  list. The JSON decoding of a non-empty file is part of the result.
\<close>

datatype file_read = NotExist | ReadError error | EmptyFile | Decoded "error + WhitelistEntry list"

definition LoadWhitelist :: "file_read \<Rightarrow> string \<Rightarrow> error + WhitelistStore" where
  "LoadWhitelist f path =
     (case f of
        NotExist \<Rightarrow> Inr \<lparr>wl_path = path, wl_entries = []\<rparr>
      | ReadError e \<Rightarrow> Inl (Wrap ''store: read whitelist'' e)
      | EmptyFile \<Rightarrow> Inr \<lparr>wl_path = path, wl_entries = []\<rparr>
      | Decoded (Inl e) \<Rightarrow> Inl (Wrap ''store: parse whitelist'' e)
      | Decoded (Inr es) \<Rightarrow> Inr \<lparr>wl_path = path, wl_entries = es\<rparr>)"

definition entry_matches :: "WhitelistEntry \<Rightarrow> addr \<Rightarrow> bool" where
  "entry_matches e addr =
     (case ParseAddr (IPOrRange e) of
        Some a \<Rightarrow> Unmap a = addr
      | None \<Rightarrow>
          (case ParsePrefix (IPOrRange e) of
             Some p \<Rightarrow> prefix_Contains (Masked p) addr
           | None \<Rightarrow> False))"

definition wl_Contains :: "WhitelistStore \<Rightarrow> string \<Rightarrow> bool" where
  "wl_Contains w ip =
     (case KeyAddr ip of
        None \<Rightarrow> False
      | Some addr \<Rightarrow> list_ex (\<lambda>e. entry_matches e addr) (wl_entries w))"

interpretation wl: address_filter "wl_Contains w" "\<lambda>a. list_ex (\<lambda>e. entry_matches e a) (wl_entries w)"
  for w :: WhitelistStore
  by unfold_locales (simp add: wl_Contains_def)

text \<open>
  Saving writes a temporary file and renames it over the old one. The outcome of the three calls
  is a parameter; the last component is the list on disk.
\<close>

record save_io =
  io_marshal :: "error option"
  io_write :: "error option"
  io_rename :: "error option"

definition whitelistSave ::
  "save_io \<Rightarrow> WhitelistEntry list \<Rightarrow> WhitelistEntry list \<Rightarrow> error option \<times> WhitelistEntry list" where
  "whitelistSave io entries disk =
     (case io_marshal io of
        Some e \<Rightarrow> (Some (Wrap ''store: marshal whitelist'' e), disk)
      | None \<Rightarrow>
          (case io_write io of
             Some e \<Rightarrow> (Some (Wrap ''store: write whitelist tmp'' e), disk)
           | None \<Rightarrow>
               (case io_rename io of
                  Some e \<Rightarrow> (Some (Wrap ''store: rename whitelist'' e), disk)
                | None \<Rightarrow> (None, entries))))"

definition wl_Add ::
  "save_io \<Rightarrow> WhitelistStore \<Rightarrow> WhitelistEntry list \<Rightarrow> WhitelistEntry
     \<Rightarrow> error option \<times> WhitelistStore \<times> WhitelistEntry list" where
  "wl_Add io w disk entry =
     (if list_ex (\<lambda>e. IPOrRange e = IPOrRange entry) (wl_entries w) then (None, w, disk)
      else let w = w\<lparr>wl_entries := wl_entries w @ [entry]\<rparr>;
               (err, disk) = whitelistSave io (wl_entries w) disk
           in (err, w, disk))"

definition wl_Remove ::
  "save_io \<Rightarrow> WhitelistStore \<Rightarrow> WhitelistEntry list \<Rightarrow> string
     \<Rightarrow> error option \<times> WhitelistStore \<times> WhitelistEntry list" where
  "wl_Remove io w disk ipOrRange =
     (let filtered = filter (\<lambda>e. IPOrRange e \<noteq> ipOrRange) (wl_entries w)
      in if length filtered = length (wl_entries w) then (None, w, disk)
         else let w = w\<lparr>wl_entries := filtered\<rparr>;
                  (err, disk) = whitelistSave io (wl_entries w) disk
              in (err, w, disk))"

definition wl_List :: "WhitelistStore \<Rightarrow> WhitelistEntry list" where
  "wl_List w = wl_entries w"

text \<open>One entry per address or range.\<close>

definition wl_unique :: "WhitelistEntry list \<Rightarrow> bool" where
  "wl_unique es \<longleftrightarrow> distinct (map IPOrRange es)"

lemma whitelistSave_atomic: "snd (whitelistSave io es disk) \<in> {disk, es}"
  by (simp add: whitelistSave_def split: option.split)

lemma whitelistSave_ok: "fst (whitelistSave io es disk) = None \<Longrightarrow> snd (whitelistSave io es disk) = es"
  by (simp add: whitelistSave_def split: option.splits)

lemma wl_Add_unique:
  "wl_unique (wl_entries w) \<Longrightarrow> wl_Add io w disk e = (err, w', disk') \<Longrightarrow> wl_unique (wl_entries w')"
  by (auto simp: wl_Add_def wl_unique_def list_ex_iff Let_def image_iff split: if_splits prod.splits) metis

lemma wl_Remove_unique:
  "wl_unique (wl_entries w) \<Longrightarrow> wl_Remove io w disk k = (err, w', disk') \<Longrightarrow> wl_unique (wl_entries w')"
  by (auto simp: wl_Remove_def wl_unique_def Let_def distinct_map_filter split: if_splits prod.splits)

lemma wl_Add_has:
  "wl_Add io w disk e = (err, w', disk') \<Longrightarrow> \<exists>e' \<in> set (wl_entries w'). IPOrRange e' = IPOrRange e"
  by (auto simp: wl_Add_def list_ex_iff Let_def split: if_splits prod.splits)

lemma wl_Remove_gone:
  assumes "wl_Remove io w disk k = (err, w', disk')"
  shows "\<forall>e \<in> set (wl_entries w'). IPOrRange e \<noteq> k"
proof (cases "length (filter (\<lambda>e. IPOrRange e \<noteq> k) (wl_entries w)) = length (wl_entries w)")
  case True
  then have "filter (\<lambda>e. IPOrRange e \<noteq> k) (wl_entries w) = wl_entries w"
    by (metis filter_True length_filter_less less_irrefl)
  then have "\<forall>e \<in> set (wl_entries w). IPOrRange e \<noteq> k" by (simp add: filter_id_conv)
  with True assms show ?thesis by (simp add: wl_Remove_def)
next
  case False
  with assms show ?thesis by (auto simp: wl_Remove_def Let_def split: prod.splits)
qed

section \<open>Properties\<close>

lemma parse_cidr:
  assumes "addr_ok a" and "Zone a = ''''" and "n \<le> addr_bits a" and "s = addr_String a @ ''/'' @ dec_text n"
    and "mask_addr n a = a"
  shows "build_prefixes (s # rest) = \<lparr>p_addr = a, p_bits = n\<rparr> # build_prefixes rest"
  using ParsePrefix_String [OF ParseAddr_String [OF assms(1)] assms(2,3)] assms(4,5)
  by (simp add: Masked_def)

lemmas text_simps = IPv4_text_def dec_text_def digit_char_def hex_digits_def

lemmas text6_simps = IPv6_text_def mapped_def zero_span_def zero_run_def upt_rec_numeral upt_rec
  groups_text_def hex_text_def

lemmas mask_simps = mask_units_def mask_unit_def upt_rec_numeral upt_rec

definition default_prefixes :: "prefix list" where
  "default_prefixes =
     [\<lparr>p_addr = V4 [127, 0, 0, 0], p_bits = 8\<rparr>, \<lparr>p_addr = V6 [0, 0, 0, 0, 0, 0, 0, 1] '''', p_bits = 128\<rparr>,
      \<lparr>p_addr = V4 [10, 0, 0, 0], p_bits = 8\<rparr>, \<lparr>p_addr = V4 [172, 16, 0, 0], p_bits = 12\<rparr>,
      \<lparr>p_addr = V4 [192, 168, 0, 0], p_bits = 16\<rparr>, \<lparr>p_addr = V4 [100, 64, 0, 0], p_bits = 10\<rparr>,
      \<lparr>p_addr = V4 [169, 254, 0, 0], p_bits = 16\<rparr>, \<lparr>p_addr = V4 [224, 0, 0, 0], p_bits = 4\<rparr>,
      \<lparr>p_addr = V6 [64512, 0, 0, 0, 0, 0, 0, 0] '''', p_bits = 7\<rparr>,
      \<lparr>p_addr = V6 [65152, 0, 0, 0, 0, 0, 0, 0] '''', p_bits = 10\<rparr>,
      \<lparr>p_addr = V4 [8, 8, 8, 8], p_bits = 32\<rparr>, \<lparr>p_addr = V4 [8, 8, 4, 4], p_bits = 32\<rparr>,
      \<lparr>p_addr = V4 [1, 1, 1, 1], p_bits = 32\<rparr>, \<lparr>p_addr = V4 [1, 0, 0, 1], p_bits = 32\<rparr>,
      \<lparr>p_addr = V4 [9, 9, 9, 9], p_bits = 32\<rparr>, \<lparr>p_addr = V4 [149, 112, 112, 112], p_bits = 32\<rparr>]"

lemma dec_small:
  "dec_text 4 = ''4''" "dec_text 7 = ''7''" "dec_text 8 = ''8''" "dec_text 10 = ''10''"
  "dec_text 12 = ''12''" "dec_text 16 = ''16''" "dec_text 32 = ''32''" "dec_text 128 = ''128''"
  by (simp_all add: text_simps)

lemma v4_texts:
  "IPv4_text [127, 0, 0, 0] = ''127.0.0.0''" "IPv4_text [10, 0, 0, 0] = ''10.0.0.0''"
  "IPv4_text [172, 16, 0, 0] = ''172.16.0.0''" "IPv4_text [192, 168, 0, 0] = ''192.168.0.0''"
  "IPv4_text [100, 64, 0, 0] = ''100.64.0.0''" "IPv4_text [169, 254, 0, 0] = ''169.254.0.0''"
  "IPv4_text [224, 0, 0, 0] = ''224.0.0.0''" "IPv4_text [8, 8, 8, 8] = ''8.8.8.8''"
  "IPv4_text [8, 8, 4, 4] = ''8.8.4.4''" "IPv4_text [1, 1, 1, 1] = ''1.1.1.1''"
  "IPv4_text [1, 0, 0, 1] = ''1.0.0.1''" "IPv4_text [9, 9, 9, 9] = ''9.9.9.9''"
  "IPv4_text [149, 112, 112, 112] = ''149.112.112.112''"
  by (simp_all add: text_simps)

lemma v6_texts:
  "IPv6_text [0, 0, 0, 0, 0, 0, 0, 1] = ''::1''"
  "IPv6_text [64512, 0, 0, 0, 0, 0, 0, 0] = ''fc00::''"
  "IPv6_text [65152, 0, 0, 0, 0, 0, 0, 0] = ''fe80::''"
  by (simp_all add: text6_simps text_simps)

lemma default_parsed: "build_prefixes defaultNeverBlock = default_prefixes"
proof -
  note p = parse_cidr [of "V4 [127, 0, 0, 0]" 8] parse_cidr [of "V6 [0, 0, 0, 0, 0, 0, 0, 1] ''''" 128]
    parse_cidr [of "V4 [10, 0, 0, 0]" 8] parse_cidr [of "V4 [172, 16, 0, 0]" 12]
    parse_cidr [of "V4 [192, 168, 0, 0]" 16] parse_cidr [of "V4 [100, 64, 0, 0]" 10]
    parse_cidr [of "V4 [169, 254, 0, 0]" 16] parse_cidr [of "V4 [224, 0, 0, 0]" 4]
    parse_cidr [of "V6 [64512, 0, 0, 0, 0, 0, 0, 0] ''''" 7] parse_cidr [of "V6 [65152, 0, 0, 0, 0, 0, 0, 0] ''''" 10]
    parse_cidr [of "V4 [8, 8, 8, 8]" 32] parse_cidr [of "V4 [8, 8, 4, 4]" 32] parse_cidr [of "V4 [1, 1, 1, 1]" 32]
    parse_cidr [of "V4 [1, 0, 0, 1]" 32] parse_cidr [of "V4 [9, 9, 9, 9]" 32]
    parse_cidr [of "V4 [149, 112, 112, 112]" 32]
  show ?thesis
    unfolding defaultNeverBlock_def default_prefixes_def
    by (simp add: p addr_ok_def dec_small v4_texts v6_texts mask_simps del: build_prefixes.simps(2) One_nat_def)
qed

text \<open>The IPv4 ranges of the default list that are not single hosts.\<close>

definition private_v4 :: "nat list \<Rightarrow> bool" where
  "private_v4 os \<longleftrightarrow>
     (let a = os ! 0; b = os ! 1
      in a = 10 \<or> a = 127 \<or> (a = 172 \<and> 16 \<le> b \<and> b < 32) \<or> (a = 192 \<and> b = 168)
         \<or> (a = 100 \<and> 64 \<le> b \<and> b < 128) \<or> (a = 169 \<and> b = 254) \<or> (224 \<le> a \<and> a < 240))"

lemma v4_nth: "length os = 4 \<Longrightarrow> os = [os ! 0, os ! 1, os ! 2, os ! 3]"
  by (intro nth_equalityI) (auto simp: less_Suc_eq numeral_eq_Suc)

lemma contains_v4:
  "length os = 4 \<Longrightarrow> prefix_Contains \<lparr>p_addr = V4 [a, b, c, d], p_bits = n\<rparr> (V4 os)
     \<longleftrightarrow> [mask_unit 8 n 0 (os ! 0), mask_unit 8 n 1 (os ! 1), mask_unit 8 n 2 (os ! 2), mask_unit 8 n 3 (os ! 3)]
         = [mask_unit 8 n 0 a, mask_unit 8 n 1 b, mask_unit 8 n 2 c, mask_unit 8 n 3 d]"
  by (simp add: prefix_Contains_def mask_units_def upt_rec_numeral upt_rec numeral_2_eq_2 numeral_3_eq_3)

lemma div_range: "k * m \<le> x \<Longrightarrow> x < k * m + m \<Longrightarrow> x div m = (k :: nat)"
  by (metis div_nat_eqI mult.commute mult_Suc add.commute)

lemma private_default:
  assumes "length os = 4" and "\<forall>x \<in> set os. x < 256" and "private_v4 os"
  shows "list_ex (\<lambda>p. prefix_Contains p (V4 os)) default_prefixes"
proof -
  have b: "os ! 2 < 256" "os ! 3 < 256" "os ! 1 < 256" using assms(1,2) by auto
  have "os ! 0 = 10 \<or> os ! 0 = 127 \<or> (os ! 0 = 172 \<and> os ! 1 div 16 = 1) \<or> (os ! 0 = 192 \<and> os ! 1 = 168)
      \<or> (os ! 0 = 100 \<and> os ! 1 div 64 = 1) \<or> (os ! 0 = 169 \<and> os ! 1 = 254) \<or> os ! 0 div 16 = 14"
    using assms(3) div_range [of 1 16 "os ! 1"] div_range [of 1 64 "os ! 1"] div_range [of 14 16 "os ! 0"]
    by (auto simp: private_v4_def Let_def)
  then show ?thesis
    using b unfolding default_prefixes_def
    by (elim disjE) (simp_all add: contains_v4 [OF assms(1)] mask_unit_def)
qed

text \<open>
  The key of every private, loopback, carrier, link-local and multicast IPv4 address is in the
  list, whatever the operator adds.
\<close>

lemma private_v4_contained:
  assumes "KeyAddr s = Some (V4 os)" and "private_v4 os" and "1 \<le> n" and "n \<le> 128"
    and "NormalizeIP s (int n) = Inr k"
  shows "nbl_Contains (NewNeverBlockList extra) k"
proof -
  obtain a where a: "KeyAddr s = Some a" "addr_ok a" using NormalizeIP_key [OF assms(3-5)] by blast
  with assms(1) have os: "length os = 4" "\<forall>x \<in> set os. x < 256" by (auto simp: addr_ok_def)
  have "nbl_Contains (NewNeverBlockList extra) s"
    using private_default [OF os assms(2)] assms(1)
    by (simp add: nbl_Contains_def NewNeverBlockList_def build_prefixes_append default_parsed)
  then show ?thesis using nbl.contains_v4_key [OF assms(1) _ assms(3-5)] by simp
qed

lemma private_example:
  "KeyAddr ''10.0.0.0'' = Some (V4 [10, 0, 0, 0])" "NormalizeIP ''10.0.0.0'' 64 = Inr ''10.0.0.0''"
proof -
  have k: "key_of (V4 [10, 0, 0, 0]) 64 = ''10.0.0.0''" by (simp add: key_of_def v4_texts)
  have o: "addr_ok (V4 [10, 0, 0, 0])" by (simp add: addr_ok_def)
  show "KeyAddr ''10.0.0.0'' = Some (V4 [10, 0, 0, 0])"
    using key_of_address(1) [OF o, of 64] k by simp
  show "NormalizeIP ''10.0.0.0'' 64 = Inr ''10.0.0.0''"
    using NormalizeIP_key_of [OF o, of 64] k by simp
qed

text \<open>
  The IPv6 loopback entry of the default list does not protect the loopback address: the
  event path normalises \<open>::1\<close> to \<open>::/64\<close> first, and the list tests the base address \<open>::\<close> of
  that key, which \<open>::1/128\<close> does not contain.
\<close>

theorem v6_loopback_not_protected:
  "NormalizeIP ''::1'' 64 = Inr ''::/64'' \<and> nbl_Contains (NewNeverBlockList []) ''::1''
     \<and> \<not> nbl_Contains (NewNeverBlockList []) ''::/64''"
proof -
  let ?a = "V6 [0, 0, 0, 0, 0, 0, 0, 1] ''''"
  have ok: "addr_ok ?a" "Unmap ?a = ?a" by (simp_all add: addr_ok_def mapped_def)
  have t: "addr_String ?a = ''::1''" by (simp add: v6_texts(1) del: One_nat_def)
  have m: "mask_addr 64 ?a = V6 [0, 0, 0, 0, 0, 0, 0, 0] ''''" by (simp add: mask_simps)
  have "IPv6_text [0, 0, 0, 0, 0, 0, 0, 0] = ''::''" by (simp add: text6_simps)
  then have key: "key_of ?a 64 = ''::/64''"
    unfolding key_of_def m by (simp add: prefix_String_def text_simps)
  have parse: "ParseAddr ''::1'' = Some ?a" using ParseAddr_String [OF ok(1)] unfolding t .
  have n: "NormalizeIP ''::1'' 64 = Inr ''::/64''"
    using parse ok(2) key by (simp add: NormalizeIP_def Let_def addr_Prefix_def Masked_def key_of_def
        del: mask_addr.simps Unmap.simps)
  have k1: "KeyAddr ''::1'' = Some ?a" using parse ok(2) by (simp add: KeyAddr_def)
  have k2: "KeyAddr ''::/64'' = Some (V6 [0, 0, 0, 0, 0, 0, 0, 0] '''')"
    using key_of_address(1) [OF ok, of 64] unfolding key m by simp
  have "nbl_Contains (NewNeverBlockList []) ''::1''"
    by (simp add: nbl_Contains_def k1 NewNeverBlockList_def default_parsed default_prefixes_def prefix_Contains_def)
  moreover have "\<not> nbl_Contains (NewNeverBlockList []) ''::/64''"
    by (simp add: nbl_Contains_def k2 NewNeverBlockList_def default_parsed default_prefixes_def
        prefix_Contains_def mask_simps)
  ultimately show ?thesis using n by blast
qed

text \<open>
  For the same reason a whitelisted IPv6 host is not exempt: the whitelist contains the host,
  and does not contain the key its events are scored and blocked under, unless the host address
  is the base of its prefix.
\<close>

theorem whitelisted_v6_host_not_exempt:
  assumes "addr_ok (V6 gs '''')" and "\<not> mapped gs" and "n \<le> 128" and "mask_units 16 n gs \<noteq> gs"
    and "wl_entries w = [\<lparr>IPOrRange = IPv6_text gs, Scope = sc, wl_Source = src\<rparr>]"
  shows "wl_Contains w (IPv6_text gs) \<and> \<not> wl_Contains w (key_of (V6 gs '''') n)"
proof -
  let ?a = "V6 gs ''''"
  have u: "Unmap ?a = ?a" using assms(2) by simp
  have parse: "ParseAddr (IPv6_text gs) = Some ?a" using ParseAddr_String [OF assms(1)] by simp
  have "KeyAddr (key_of ?a n) = Some (mask_addr n ?a)"
    using key_of_address(1) [OF assms(1) u assms(3)] by simp
  with parse u assms(4,5) show ?thesis
    by (simp add: wl_Contains_def entry_matches_def KeyAddr_def)
qed

theorem whitelisted_v6_host_not_exempt_witness:
  "let w = \<lparr>wl_path = '''', wl_entries = [\<lparr>IPOrRange = ''::1'', Scope = ''local-only'', wl_Source = ''''\<rparr>]\<rparr>
   in wl_Contains w ''::1'' \<and> \<not> wl_Contains w (key_of (V6 [0, 0, 0, 0, 0, 0, 0, 1] '''') 64)"
  using whitelisted_v6_host_not_exempt [of "[0, 0, 0, 0, 0, 0, 0, 1]" 64
      "\<lparr>wl_path = '''', wl_entries = [\<lparr>IPOrRange = ''::1'', Scope = ''local-only'', wl_Source = ''''\<rparr>]\<rparr>"
      "''local-only''" "''''"]
  by (simp add: addr_ok_def mapped_def mask_simps v6_texts(1) [simplified])

datatype wl_op = WAdd WhitelistEntry | WRemove string

fun wl_step ::
  "save_io \<Rightarrow> wl_op \<Rightarrow> WhitelistStore \<Rightarrow> WhitelistEntry list \<Rightarrow> error option \<times> WhitelistStore \<times> WhitelistEntry list" where
  "wl_step io (WAdd e) w disk = wl_Add io w disk e"
| "wl_step io (WRemove k) w disk = wl_Remove io w disk k"



end
