(* ===== verification/Config.thy ===== *)
theory Config
  imports Go_Prelude
begin

text \<open>
  The runtime configuration, \<open>internal/config/config.go\<close>: the structs, the defaults, the file
  paths and the effective values. YAML decoding is a parameter of \<open>LoadYAML\<close>.
\<close>

section \<open>Structs\<close>

type_synonym TaxonomyConfig = "(string \<times> string list) list"

record APIConfig =
  api_Addr :: string
  api_Purpose :: string
  api_Taxonomy :: TaxonomyConfig

record DNSBLConfig =
  dnsbl_Addr :: string
  dnsbl_Zone :: string
  dnsbl_MinScore :: real

record ReputationConfig =
  HalfLife :: duration
  BlockThreshold :: real
  UnblockThreshold :: real
  DecayInterval :: duration
  RulesFile :: string
  IPv6Prefix :: int

record TailConfig =
  tail_Enabled :: bool
  tail_LogFile :: string
  tail_PollInterval :: duration

record CrowdSecConfig =
  cs_Enabled :: bool
  cs_LAPIURL :: string
  cs_APIKey :: string
  cs_MachineID :: string
  cs_MachinePassword :: string
  cs_PollInterval :: duration
  cs_EnableDecisions :: bool
  cs_EnableAlerts :: bool

record MailcowConfig =
  mc_Enabled :: bool
  mc_PostfixContainer :: string
  mc_DovecotContainer :: string
  mc_PollInterval :: duration

record Fail2BanConfig =
  f2b_Enabled :: bool
  f2b_Mode :: string
  f2b_Container :: string
  f2b_PollInterval :: duration
  f2b_JailReasons :: "string \<rightharpoonup> string"

record IngestConfig =
  Honeypot :: TailConfig
  OpenCanary :: TailConfig
  CrowdSec :: CrowdSecConfig
  MailcowLogs :: MailcowConfig
  Spamtrap :: TailConfig
  Fail2Ban :: Fail2BanConfig

record EnforceConfig =
  Backend :: string
  SetName :: string
  Chain :: string
  Chains :: "string list"
  NftHook :: string
  ExtraWhitelist :: "string list"
  enf_CrowdSecLAPIURL :: string
  enf_CrowdSecMachineID :: string
  enf_CrowdSecMachinePassword :: string
  enf_CrowdSecBanDuration :: duration

record TrustConfig =
  AnchorsFile :: string
  PersonKeyFile :: string
  PeerCertFile :: string
  AnchorWeight :: real
  StrangerWeight :: real
  StrangerScoreCap :: real
  FederationDiscount :: real
  DiversityRepeatFactor :: real
  BlockedPeersFile :: string

record ObservabilityConfig =
  PrometheusAddr :: string
  SQLitePath :: string
  SQLiteRetention :: duration
  ScoreGaugeThreshold :: real

record DiscoveryConfig =
  Advertise :: bool
  Discover :: bool
  RelayListPath :: string

record Config =
  FederationMode :: string
  FederationSubnet :: string
  FederationBridgeSubnets :: "string list"
  FederationAggregators :: "string list"
  FederationQueryTimeout :: duration
  FederationQueryCacheTTL :: duration
  FederationMaterialize :: bool
  FederationBlockThreshold :: real
  FederationBlockMinSubnets :: int
  FederationBlockTTL :: duration
  DisputeWeight :: real
  DisputeUnblockMinSubnets :: int
  store_Dir :: string
  Reputation :: ReputationConfig
  Ingest :: IngestConfig
  Enforce :: EnforceConfig
  Trust :: TrustConfig
  Observability :: ObservabilityConfig
  API :: APIConfig
  BootstrapPeers :: "string list"
  BootstrapReconnectInterval :: duration
  DNSBL :: DNSBLConfig
  Discovery :: DiscoveryConfig
  MaxEventsPerSec :: real

definition Defaults :: Config where
  "Defaults =
    \<lparr>FederationMode = ''solo'', FederationSubnet = '''', FederationBridgeSubnets = [],
     FederationAggregators = [], FederationQueryTimeout = 0, FederationQueryCacheTTL = 0,
     FederationMaterialize = False, FederationBlockThreshold = 80, FederationBlockMinSubnets = 3,
     FederationBlockTTL = 0, DisputeWeight = 0, DisputeUnblockMinSubnets = 3,
     store_Dir = ''data/reputation'',
     Reputation = \<lparr>HalfLife = 7 * 24 * hour, BlockThreshold = 75, UnblockThreshold = 60,
       DecayInterval = hour, RulesFile = '''', IPv6Prefix = 64\<rparr>,
     Ingest = \<lparr>
       Honeypot = \<lparr>tail_Enabled = False, tail_LogFile = '''', tail_PollInterval = second\<rparr>,
       OpenCanary = \<lparr>tail_Enabled = False, tail_LogFile = '''', tail_PollInterval = second\<rparr>,
       CrowdSec = \<lparr>cs_Enabled = False, cs_LAPIURL = '''', cs_APIKey = '''', cs_MachineID = '''',
         cs_MachinePassword = '''', cs_PollInterval = 30 * second, cs_EnableDecisions = True, cs_EnableAlerts = True\<rparr>,
       MailcowLogs = \<lparr>mc_Enabled = False, mc_PostfixContainer = '''', mc_DovecotContainer = '''',
         mc_PollInterval = 30 * second\<rparr>,
       Spamtrap = \<lparr>tail_Enabled = False, tail_LogFile = '''', tail_PollInterval = second\<rparr>,
       Fail2Ban = \<lparr>f2b_Enabled = False, f2b_Mode = '''', f2b_Container = ''fail2ban'',
         f2b_PollInterval = 30 * second, f2b_JailReasons = Map.empty\<rparr>\<rparr>,
     Enforce = \<lparr>Backend = ''ipset'', SetName = ''federloom'', Chain = ''DOCKER-USER'', Chains = [],
       NftHook = ''input'', ExtraWhitelist = [], enf_CrowdSecLAPIURL = '''', enf_CrowdSecMachineID = '''',
       enf_CrowdSecMachinePassword = '''', enf_CrowdSecBanDuration = 0\<rparr>,
     Trust = \<lparr>AnchorsFile = '''', PersonKeyFile = '''', PeerCertFile = '''', AnchorWeight = 9 / 10,
       StrangerWeight = 3 / 10, StrangerScoreCap = 15, FederationDiscount = 1 / 2,
       DiversityRepeatFactor = 15 / 100, BlockedPeersFile = ''''\<rparr>,
     Observability = \<lparr>PrometheusAddr = '''', SQLitePath = '''', SQLiteRetention = 0, ScoreGaugeThreshold = 0\<rparr>,
     API = \<lparr>api_Addr = '''', api_Purpose = '''', api_Taxonomy = []\<rparr>,
     BootstrapPeers = [], BootstrapReconnectInterval = minute,
     DNSBL = \<lparr>dnsbl_Addr = '''', dnsbl_Zone = '''', dnsbl_MinScore = 0\<rparr>,
     Discovery = \<lparr>Advertise = True, Discover = True, RelayListPath = ''''\<rparr>,
     MaxEventsPerSec = 0\<rparr>"

text \<open>\<open>decode\<close> is \<open>yaml.Unmarshal\<close> into a configuration that already holds the defaults.\<close>

definition LoadYAML :: "(Config \<Rightarrow> error + Config) \<Rightarrow> error + Config" where
  "LoadYAML decode =
     (case decode Defaults of Inl e \<Rightarrow> Inl (Wrap ''config: unmarshal'' e) | Inr cfg \<Rightarrow> Inr cfg)"

definition Load :: "error + (Config \<Rightarrow> error + Config) \<Rightarrow> error + Config" where
  "Load file = (case file of Inl e \<Rightarrow> Inl (Wrap ''config: read'' e) | Inr decode \<Rightarrow> LoadYAML decode)"

section \<open>Paths\<close>

text \<open>
  \<open>filepath.Join\<close> of a directory and a plain file name: empty elements are ignored and the result
  is cleaned, component by component.
\<close>

fun clean_parts :: "bool \<Rightarrow> string list \<Rightarrow> string list \<Rightarrow> string list" where
  "clean_parts rooted [] out = rev out"
| "clean_parts rooted (p # ps) out =
     (if p = '''' \<or> p = ''.'' then clean_parts rooted ps out
      else if p = ''..'' then
        (if out \<noteq> [] \<and> hd out \<noteq> ''..'' then clean_parts rooted ps (tl out)
         else if rooted then clean_parts rooted ps out
         else clean_parts rooted ps (p # out))
      else clean_parts rooted ps (p # out))"

definition path_Clean :: "string \<Rightarrow> string" where
  "path_Clean p =
     (let rooted = (p \<noteq> [] \<and> hd p = CHR ''/'');
          parts = clean_parts rooted (Split p CHR ''/'') [];
          s = (if rooted then ''/'' else '''') @ Join parts ''/''
      in if s = '''' then ''.'' else s)"

definition path_Join :: "string \<Rightarrow> string \<Rightarrow> string" where
  "path_Join dir file = path_Clean (if dir = '''' then file else dir @ ''/'' @ file)"

definition NodeKeyFile :: "Config \<Rightarrow> string" where
  "NodeKeyFile c = path_Join (store_Dir c) ''identity.key''"

definition TrustAnchorsFile :: "Config \<Rightarrow> string" where
  "TrustAnchorsFile c =
     (if AnchorsFile (Trust c) \<noteq> '''' then AnchorsFile (Trust c) else path_Join (store_Dir c) ''anchors.json'')"

definition TrustPersonKeyFile :: "Config \<Rightarrow> string" where
  "TrustPersonKeyFile c =
     (if PersonKeyFile (Trust c) \<noteq> '''' then PersonKeyFile (Trust c) else path_Join (store_Dir c) ''person.key'')"

definition TrustPeerCertFile :: "Config \<Rightarrow> string" where
  "TrustPeerCertFile c =
     (if PeerCertFile (Trust c) \<noteq> '''' then PeerCertFile (Trust c) else path_Join (store_Dir c) ''peer.cert'')"

definition TrustCertsFile :: "Config \<Rightarrow> string" where
  "TrustCertsFile c = path_Join (store_Dir c) ''imported-certs.json''"

definition TrustBlockedPeersFile :: "Config \<Rightarrow> string" where
  "TrustBlockedPeersFile c =
     (if BlockedPeersFile (Trust c) \<noteq> '''' then BlockedPeersFile (Trust c)
      else path_Join (store_Dir c) ''blocked-peers.json'')"

definition WhitelistFile :: "Config \<Rightarrow> string" where
  "WhitelistFile c = path_Join (store_Dir c) ''whitelist.json''"

definition RulesFilePath :: "Config \<Rightarrow> string" where
  "RulesFilePath c =
     (if RulesFile (Reputation c) \<noteq> '''' then RulesFile (Reputation c) else path_Join (store_Dir c) ''rules.yaml'')"

section \<open>Effective values\<close>

definition EffectiveIPv6Prefix :: "ReputationConfig \<Rightarrow> int" where
  "EffectiveIPv6Prefix c = (if IPv6Prefix c < 1 \<or> IPv6Prefix c > 128 then 64 else IPv6Prefix c)"

definition EffectiveChains :: "EnforceConfig \<Rightarrow> string list" where
  "EffectiveChains e =
     (if length (Chains e) > 0 then Chains e else if Chain e \<noteq> '''' then [Chain e] else [''DOCKER-USER''])"

definition canon :: "string \<Rightarrow> string" where
  "canon s = (if s = ''default'' then '''' else s)"

definition EffectiveBridgeSubnets :: "Config \<Rightarrow> string list" where
  "EffectiveBridgeSubnets c =
     filter (\<lambda>s. \<not> canon s = canon (FederationSubnet c)) (FederationBridgeSubnets c)"

definition EffectiveQueryTimeout :: "Config \<Rightarrow> duration" where
  "EffectiveQueryTimeout c = (if FederationQueryTimeout c \<le> 0 then 150 * millisecond else FederationQueryTimeout c)"

definition EffectiveQueryCacheTTL :: "Config \<Rightarrow> duration" where
  "EffectiveQueryCacheTTL c = (if FederationQueryCacheTTL c \<le> 0 then 5 * minute else FederationQueryCacheTTL c)"

definition EffectiveFederationBlockTTL :: "Config \<Rightarrow> duration" where
  "EffectiveFederationBlockTTL c = (if FederationBlockTTL c \<le> 0 then hour else FederationBlockTTL c)"

definition EffectiveDiversityRepeatFactor :: "Config \<Rightarrow> real" where
  "EffectiveDiversityRepeatFactor c =
     (let f = DiversityRepeatFactor (Trust c) in if f \<le> 0 then 15 / 100 else if f > 1 then 1 else f)"

definition EffectiveDisputeWeight :: "Config \<Rightarrow> real" where
  "EffectiveDisputeWeight c = (if DisputeWeight c \<le> 0 then 10 else DisputeWeight c)"

lemma EffectiveIPv6Prefix_range: "1 \<le> EffectiveIPv6Prefix c \<and> EffectiveIPv6Prefix c \<le> 128"
  by (simp add: EffectiveIPv6Prefix_def)

lemma EffectiveDiversity_range: "0 < EffectiveDiversityRepeatFactor c \<and> EffectiveDiversityRepeatFactor c \<le> 1"
  by (simp add: EffectiveDiversityRepeatFactor_def Let_def)

lemma EffectiveDisputeWeight_pos: "0 < EffectiveDisputeWeight c"
  by (simp add: EffectiveDisputeWeight_def)

lemma EffectiveBridgeSubnets_iff:
  "s \<in> set (EffectiveBridgeSubnets c) \<longleftrightarrow> s \<in> set (FederationBridgeSubnets c) \<and> canon s \<noteq> canon (FederationSubnet c)"
  by (auto simp: EffectiveBridgeSubnets_def)

text \<open>
  Whatever the operator writes, the effective values are in range: an IPv6 prefix the
  normalisation accepts, a damping factor in (0, 1], a positive dispute weight, positive deadlines
  and block times, at least one chain, and no bridge that aliases the home subnet.
\<close>

theorem effective_values_in_range:
  "1 \<le> EffectiveIPv6Prefix (Reputation c) \<and> EffectiveIPv6Prefix (Reputation c) \<le> 128
   \<and> 0 < EffectiveDiversityRepeatFactor c \<and> EffectiveDiversityRepeatFactor c \<le> 1
   \<and> 0 < EffectiveDisputeWeight c \<and> 0 < EffectiveQueryTimeout c \<and> 0 < EffectiveQueryCacheTTL c
   \<and> 0 < EffectiveFederationBlockTTL c \<and> EffectiveChains (Enforce c) \<noteq> []
   \<and> FederationSubnet c \<notin> set (EffectiveBridgeSubnets c)"
  using EffectiveIPv6Prefix_range [of "Reputation c"] EffectiveDiversity_range [of c] EffectiveDisputeWeight_pos [of c]
  by (auto simp: EffectiveQueryTimeout_def EffectiveQueryCacheTTL_def EffectiveFederationBlockTTL_def
      EffectiveChains_def EffectiveBridgeSubnets_iff millisecond_def minute_def hour_def)

end
