(* ===== verification/Enforce.thy ===== *)
theory Enforce
  imports Config
begin

text \<open>
  The data plane, \<open>internal/enforce\<close>: the ipset, nftables and CrowdSec sinks. The external
  commands and the HTTP service act on a state \<open>'k\<close> that belongs to them; a sink is what it sends
  them. The locale \<open>deny_sink\<close> is the contract of the \<open>Sink\<close> interface (\<open>plugin.go\<close>), and the
  locales \<open>ipset_tool\<close> and \<open>nft_tool\<close> state the documented behaviour of the tools.
\<close>

type_synonym 'k runner = "'k \<Rightarrow> string list \<Rightarrow> error option \<times> 'k"

section \<open>The sink contract\<close>

locale deny_sink =
  fixes block :: "'k \<Rightarrow> string \<Rightarrow> error option \<times> 'k"
    and blockFor :: "'k \<Rightarrow> string \<Rightarrow> duration \<Rightarrow> error option \<times> 'k"
    and unblock :: "'k \<Rightarrow> string \<Rightarrow> error option \<times> 'k"
    and denied :: "'k \<Rightarrow> string \<Rightarrow> bool"
  assumes block_denies: "block k ip = (None, k') \<Longrightarrow> denied k' ip"
    and blockFor_denies: "blockFor k ip ttl = (None, k') \<Longrightarrow> denied k' ip"
    and unblock_allows: "unblock k ip = (None, k') \<Longrightarrow> \<not> denied k' ip"
    and unblock_keeps: "unblock k ip = (r, k') \<Longrightarrow> denied k' ip \<Longrightarrow> denied k ip"
    and block_other: "block k ip = (r, k') \<Longrightarrow> j \<noteq> ip \<Longrightarrow> denied k' j = denied k j"
    and blockFor_other: "blockFor k ip ttl = (r, k') \<Longrightarrow> j \<noteq> ip \<Longrightarrow> denied k' j = denied k j"
    and unblock_other: "unblock k ip = (r, k') \<Longrightarrow> j \<noteq> ip \<Longrightarrow> denied k' j = denied k j"
begin

text \<open>A run of the sink.\<close>

inductive sink_run :: "'k \<Rightarrow> string set \<Rightarrow> string set \<Rightarrow> 'k \<Rightarrow> bool" where
  run_nil: "sink_run k {} {} k"
| run_block: "sink_run k B U k' \<Longrightarrow> block k' ip = (r, k'') \<Longrightarrow> sink_run k (insert ip B) U k''"
| run_blockFor: "sink_run k B U k' \<Longrightarrow> blockFor k' ip ttl = (r, k'') \<Longrightarrow> sink_run k (insert ip B) U k''"
| run_unblock: "sink_run k B U k' \<Longrightarrow> unblock k' ip = (r, k'') \<Longrightarrow> sink_run k B (insert ip U) k''"

text \<open>An address nobody blocked or unblocked keeps its state.\<close>

lemma sink_run_frame: "sink_run k B U k' \<Longrightarrow> j \<notin> B \<Longrightarrow> j \<notin> U \<Longrightarrow> denied k' j = denied k j"
proof (induction rule: sink_run.induct)
  case (run_block k B U k' ip r k'')
  then show ?case using block_other [OF run_block.hyps(2)] by auto
next
  case (run_blockFor k B U k' ip ttl r k'')
  then show ?case using blockFor_other [OF run_blockFor.hyps(2)] by auto
next
  case (run_unblock k B U k' ip r k'')
  then show ?case using unblock_other [OF run_unblock.hyps(2)] by auto
qed simp

lemma block_unblock:
  "block k ip = (r, k') \<Longrightarrow> unblock k' ip = (None, k'') \<Longrightarrow> \<not> denied k'' ip \<and> (\<forall>j. j \<noteq> ip \<longrightarrow> denied k'' j = denied k j)"
  using unblock_allows unblock_other block_other by metis

end

section \<open>ipset\<close>

record IpsetSink =
  ips_setName :: string
  ips_chains :: "string list"

definition NewIpset :: "string \<Rightarrow> string list \<Rightarrow> IpsetSink" where
  "NewIpset setName chs =
     \<lparr>ips_setName = (if setName = '''' then ''federloom'' else setName),
      ips_chains = (if length chs = 0 then [''DOCKER-USER''] else chs)\<rparr>"

definition ipSet :: "IpsetSink \<Rightarrow> string \<Rightarrow> string" where
  "ipSet s ip = (if CHR '':'' \<in> set ip then ips_setName s @ ''6'' else ips_setName s)"

definition drop_rule :: "string \<Rightarrow> string \<Rightarrow> string \<Rightarrow> string \<Rightarrow> string list" where
  "drop_rule tool flag chain st = [tool, flag, chain, ''-m'', ''set'', ''--match-set'', st, ''src'', ''-j'', ''DROP'']"

definition create_set :: "string \<Rightarrow> string \<Rightarrow> string \<Rightarrow> string list" where
  "create_set st kind family =
     [''ipset'', ''create'', st, kind, ''family'', family, ''timeout'', ''0'', ''-exist'']"

text \<open>Creating a set, with the migration that drops the rules that refer to an old one.\<close>

definition drop_rules :: "'k runner \<Rightarrow> string \<Rightarrow> string list \<Rightarrow> string \<Rightarrow> 'k \<Rightarrow> 'k" where
  "drop_rules run tool chs st k = fold (\<lambda>chain k. snd (run k (drop_rule tool ''-D'' chain st))) chs k"

definition ensure_set ::
  "'k runner \<Rightarrow> string \<Rightarrow> string \<Rightarrow> string \<Rightarrow> string \<Rightarrow> string list \<Rightarrow> 'k \<Rightarrow> error option \<times> 'k" where
  "ensure_set run tool st kind family chs k =
     (case run k (create_set st kind family) of
        (None, k) \<Rightarrow> (None, k)
      | (Some _, k) \<Rightarrow>
          let k = drop_rules run tool chs st k;
              (_, k) = run k [''ipset'', ''destroy'', st]
          in run k (create_set st kind family))"

text \<open>The loop that installs the rules: IPv4 failures are fatal, IPv6 is best effort.\<close>

fun install_rules :: "'k runner \<Rightarrow> IpsetSink \<Rightarrow> string list \<Rightarrow> 'k \<Rightarrow> error option \<times> 'k" where
  "install_rules run s [] k = (None, k)"
| "install_rules run s (chain # chs) k =
     (let (c, k) = run k (drop_rule ''iptables'' ''-C'' chain (ips_setName s));
          (err, k) = (if c \<noteq> None then run k (drop_rule ''iptables'' ''-I'' chain (ips_setName s)) else (None, k))
      in case err of
           Some e \<Rightarrow> (Some (Wrap ''enforce/ipset: install iptables rule'' e), k)
         | None \<Rightarrow>
             let (c6, k) = run k (drop_rule ''ip6tables'' ''-C'' chain (ips_setName s @ ''6''));
                 k = (if c6 \<noteq> None then snd (run k (drop_rule ''ip6tables'' ''-I'' chain (ips_setName s @ ''6''))) else k)
             in install_rules run s chs k)"

definition ipset_Start :: "'k runner \<Rightarrow> IpsetSink \<Rightarrow> 'k \<Rightarrow> error option \<times> 'k" where
  "ipset_Start run s k =
     (case ensure_set run ''iptables'' (ips_setName s) ''hash:ip'' ''inet'' (ips_chains s) k of
        (Some e, k) \<Rightarrow> (Some (Wrap ''enforce/ipset: create IPv4 set'' e), k)
      | (None, k) \<Rightarrow>
          let (_, k) = ensure_set run ''ip6tables'' (ips_setName s @ ''6'') ''hash:net'' ''inet6'' (ips_chains s) k
          in install_rules run s (ips_chains s) k)"

definition wrap_err :: "string \<Rightarrow> error option \<times> 'k \<Rightarrow> error option \<times> 'k" where
  "wrap_err msg r = (case r of (None, k) \<Rightarrow> (None, k) | (Some e, k) \<Rightarrow> (Some (Wrap msg e), k))"

definition ipset_Block :: "'k runner \<Rightarrow> IpsetSink \<Rightarrow> 'k \<Rightarrow> string \<Rightarrow> error option \<times> 'k" where
  "ipset_Block run s k ip =
     wrap_err ''enforce/ipset: block'' (run k [''ipset'', ''add'', ipSet s ip, ip, ''-exist''])"

definition ipset_BlockFor :: "'k runner \<Rightarrow> IpsetSink \<Rightarrow> 'k \<Rightarrow> string \<Rightarrow> duration \<Rightarrow> error option \<times> 'k" where
  "ipset_BlockFor run s k ip ttl =
     (if ttl \<le> 0 then ipset_Block run s k ip
      else wrap_err ''enforce/ipset: blockFor''
        (run k [''ipset'', ''add'', ipSet s ip, ip, ''timeout'', itoa (nat (whole_seconds ttl)), ''-exist'']))"

definition ipset_Unblock :: "'k runner \<Rightarrow> IpsetSink \<Rightarrow> 'k \<Rightarrow> string \<Rightarrow> error option \<times> 'k" where
  "ipset_Unblock run s k ip =
     wrap_err ''enforce/ipset: unblock'' (run k [''ipset'', ''del'', ipSet s ip, ip, ''-exist''])"

lemma wrap_err_None [simp]: "wrap_err msg r = (None, k) \<longleftrightarrow> r = (None, k)"
  by (cases r) (auto simp: wrap_err_def split: option.splits)

lemma wrap_err_state [simp]: "snd (wrap_err msg r) = snd r"
  by (cases r) (simp add: wrap_err_def split: option.split)

text \<open>
  The documented behaviour of ipset and iptables the sink relies on: an addition that succeeds
  makes the element a member (until (until its timeout), a deletion that succeeds removes it and one that fails adds
  nothing, either touches that element only; a check or an insertion of a rule that succeeds leaves the rule in
  the chain; only a deletion of a rule removes one.
\<close>

locale ipset_tool =
  fixes run :: "'k runner"
    and member :: "'k \<Rightarrow> string \<Rightarrow> string \<Rightarrow> bool"
    and rule_in :: "'k \<Rightarrow> string \<Rightarrow> string \<Rightarrow> string \<Rightarrow> bool"
  assumes add_member: "run k ([''ipset'', ''add'', st, ip] @ opts) = (None, k') \<Longrightarrow> member k' st ip"
    and add_other: "run k ([''ipset'', ''add'', st, ip] @ opts) = (r, k') \<Longrightarrow> st2 \<noteq> st \<or> j \<noteq> ip
        \<Longrightarrow> member k' st2 j = member k st2 j"
    and del_member: "run k [''ipset'', ''del'', st, ip, ''-exist''] = (None, k') \<Longrightarrow> \<not> member k' st ip"
    and del_keeps: "run k [''ipset'', ''del'', st, ip, ''-exist''] = (r, k') \<Longrightarrow> member k' st ip \<Longrightarrow> member k st ip"
    and del_other: "run k [''ipset'', ''del'', st, ip, ''-exist''] = (r, k') \<Longrightarrow> st2 \<noteq> st \<or> j \<noteq> ip
        \<Longrightarrow> member k' st2 j = member k st2 j"
    and check_rule: "flag = ''-C'' \<or> flag = ''-I'' \<Longrightarrow> run k (drop_rule tool flag chain st) = (None, k')
        \<Longrightarrow> rule_in k' tool chain st"
    and keep_rule: "flag = ''-C'' \<or> flag = ''-I'' \<Longrightarrow> run k (drop_rule tool flag chain st) = (r, k')
        \<Longrightarrow> rule_in k tool' chain' st2 \<Longrightarrow> rule_in k' tool' chain' st2"
begin

lemma install_rules_keep:
  "install_rules run s chs k = (r, k') \<Longrightarrow> rule_in k tool c st \<Longrightarrow> rule_in k' tool c st"
proof (induction chs arbitrary: k)
  case (Cons chain chs)
  obtain c k1 where c: "run k (drop_rule ''iptables'' ''-C'' chain (ips_setName s)) = (c, k1)" by fastforce
  obtain e k2 where e: "(if c \<noteq> None then run k1 (drop_rule ''iptables'' ''-I'' chain (ips_setName s)) else (None, k1)) = (e, k2)"
    by fastforce
  obtain c6 k3 where c6: "run k2 (drop_rule ''ip6tables'' ''-C'' chain (ips_setName s @ ''6'')) = (c6, k3)" by fastforce
  obtain e6 k4 where e6: "run k3 (drop_rule ''ip6tables'' ''-I'' chain (ips_setName s @ ''6'')) = (e6, k4)" by fastforce
  have r2: "rule_in k2 tool c st" if "rule_in k tool c st" for c
    using keep_rule [OF _ c] e that keep_rule [of "''-I''" k1] by (auto split: if_splits)
  have r4: "rule_in k3 tool c st \<and> rule_in k4 tool c st" if "rule_in k2 tool c st" for c
    using keep_rule [OF _ c6] keep_rule [OF _ e6] that by auto
  show ?case
  proof (cases e)
    case None
    then have "install_rules run s chs (if c6 \<noteq> None then k4 else k3) = (r, k')"
      using Cons.prems(1) c e c6 e6 by (simp split: if_splits)
    with Cons.IH r2 r4 Cons.prems(2) show ?thesis by (auto split: if_splits)
  next
    case (Some x)
    with Cons.prems c e r2 show ?thesis by (simp split: if_splits)
  qed
qed simp

lemma install_rules_installed:
  "install_rules run s chs k = (None, k') \<Longrightarrow> chain \<in> set chs \<Longrightarrow> rule_in k' ''iptables'' chain (ips_setName s)"
proof (induction chs arbitrary: k)
  case (Cons ch chs)
  obtain c k1 where c: "run k (drop_rule ''iptables'' ''-C'' ch (ips_setName s)) = (c, k1)" by fastforce
  obtain e k2 where e: "(if c \<noteq> None then run k1 (drop_rule ''iptables'' ''-I'' ch (ips_setName s)) else (None, k1)) = (e, k2)"
    by fastforce
  obtain c6 k3 where c6: "run k2 (drop_rule ''ip6tables'' ''-C'' ch (ips_setName s @ ''6'')) = (c6, k3)" by fastforce
  obtain e6 k4 where e6: "run k3 (drop_rule ''ip6tables'' ''-I'' ch (ips_setName s @ ''6'')) = (e6, k4)" by fastforce
  have none: "e = None" using Cons.prems(1) c e by (cases e) (simp_all split: if_splits)
  then have rest: "install_rules run s chs (if c6 \<noteq> None then k4 else k3) = (None, k')"
    using Cons.prems(1) c e c6 e6 by (simp split: if_splits)
  have "rule_in k2 ''iptables'' ch (ips_setName s)"
    using c e none check_rule [of "''-I''" k1] check_rule [of "''-C''" k] by (cases c) auto
  then have "rule_in k3 ''iptables'' ch (ips_setName s)" "rule_in k4 ''iptables'' ch (ips_setName s)"
    using keep_rule [OF _ c6] keep_rule [OF _ e6] by auto
  then have "rule_in k' ''iptables'' ch (ips_setName s)"
    using install_rules_keep [OF rest] by (auto split: if_splits)
  with Cons.IH [OF rest] Cons.prems(2) show ?case by auto
qed simp

lemma ipset_Start_installs:
  "ipset_Start run s k = (None, k') \<Longrightarrow> chain \<in> set (ips_chains s) \<Longrightarrow> rule_in k' ''iptables'' chain (ips_setName s)"
  by (auto simp: ipset_Start_def Let_def split: prod.splits option.splits intro: install_rules_installed)

end

text \<open>With such tools the ipset sink keeps the contract of a sink.\<close>

sublocale ipset_tool \<subseteq> ipset: deny_sink "ipset_Block run s" "ipset_BlockFor run s" "ipset_Unblock run s"
  "\<lambda>k ip. member k (ipSet s ip) ip" for s
proof unfold_locales
  show "ipset_Block run s k ip = (None, k') \<Longrightarrow> member k' (ipSet s ip) ip" for k ip k'
    using add_member [of k _ _ "[''-exist'']"] by (simp add: ipset_Block_def)
  then show "ipset_BlockFor run s k ip ttl = (None, k') \<Longrightarrow> member k' (ipSet s ip) ip" for k ip ttl k'
    using add_member [of k "ipSet s ip" ip "[''timeout'', itoa (nat (whole_seconds ttl)), ''-exist'']"]
    by (simp add: ipset_BlockFor_def split: if_splits)
  show "ipset_Unblock run s k ip = (None, k') \<Longrightarrow> \<not> member k' (ipSet s ip) ip" for k ip k'
    using del_member by (simp add: ipset_Unblock_def)
  show "ipset_Unblock run s k ip = (r, k') \<Longrightarrow> member k' (ipSet s ip) ip \<Longrightarrow> member k (ipSet s ip) ip" for k ip r k'
    using del_keeps [of k "ipSet s ip" ip _ k']
    by (cases "run k [''ipset'', ''del'', ipSet s ip, ip, ''-exist'']")
      (auto simp: ipset_Unblock_def wrap_err_def split: option.splits)
  show o1: "ipset_Block run s k ip = (r, k') \<Longrightarrow> j \<noteq> ip \<Longrightarrow> member k' (ipSet s j) j = member k (ipSet s j) j"
    for k ip r k' j
    using add_other [of k "ipSet s ip" ip "[''-exist'']" _ k' "ipSet s j" j]
    by (cases "run k [''ipset'', ''add'', ipSet s ip, ip, ''-exist'']")
      (auto simp: ipset_Block_def wrap_err_def split: option.splits)
  then show "ipset_BlockFor run s k ip ttl = (r, k') \<Longrightarrow> j \<noteq> ip \<Longrightarrow> member k' (ipSet s j) j = member k (ipSet s j) j"
    for k ip ttl r k' j
    using add_other [of k "ipSet s ip" ip "[''timeout'', itoa (nat (whole_seconds ttl)), ''-exist'']" _ k' "ipSet s j" j]
    by (cases "run k [''ipset'', ''add'', ipSet s ip, ip, ''timeout'', itoa (nat (whole_seconds ttl)), ''-exist'']")
      (auto simp: ipset_BlockFor_def wrap_err_def split: option.splits if_splits)
  show "ipset_Unblock run s k ip = (r, k') \<Longrightarrow> j \<noteq> ip \<Longrightarrow> member k' (ipSet s j) j = member k (ipSet s j) j"
    for k ip r k' j
    using del_other [of k "ipSet s ip" ip _ k' "ipSet s j" j]
    by (cases "run k [''ipset'', ''del'', ipSet s ip, ip, ''-exist'']")
      (auto simp: ipset_Unblock_def wrap_err_def split: option.splits)
qed

text \<open>A kernel with sets and rules behaves as documented: the witnesses run on it.\<close>

record kernel =
  k_members :: "(string \<times> string) list"
  k_rules :: "(string \<times> string \<times> string) list"

definition kernel_run :: "kernel runner" where
  "kernel_run k args =
     (if take 2 args = [''ipset'', ''add''] then
        (None, k\<lparr>k_members := (args ! 2, args ! 3) # k_members k\<rparr>)
      else if take 2 args = [''ipset'', ''del''] then
        (None, k\<lparr>k_members := removeAll (args ! 2, args ! 3) (k_members k)\<rparr>)
      else if args ! 1 = ''-C'' then
        ((if (args ! 0, args ! 2, args ! 6) \<in> set (k_rules k) then None else Some (Fault ''no such rule'')), k)
      else if args ! 1 = ''-I'' then
        (None, k\<lparr>k_rules := (args ! 0, args ! 2, args ! 6) # k_rules k\<rparr>)
      else if args ! 1 = ''-D'' then
        (None, k\<lparr>k_rules := removeAll (args ! 0, args ! 2, args ! 6) (k_rules k)\<rparr>)
      else (None, k))"

interpretation kernel: ipset_tool kernel_run "\<lambda>k st ip. (st, ip) \<in> set (k_members k)"
  "\<lambda>k tool chain st. (tool, chain, st) \<in> set (k_rules k)"
  by unfold_locales (auto simp: kernel_run_def drop_rule_def split: if_splits)

section \<open>nftables\<close>

record NftablesSink =
  nft_setName :: string
  nft_hook :: string

definition nftTable :: string where
  "nftTable = ''federloom''"

definition nftSetName :: string where
  "nftSetName = ''blocked''"

definition NewNftables :: "string \<Rightarrow> string \<Rightarrow> NftablesSink" where
  "NewNftables setName hook =
     \<lparr>nft_setName = (if setName = '''' then nftSetName else setName),
      nft_hook = (if hook = '''' then ''input'' else hook)\<rparr>"

definition nft_set6 :: "NftablesSink \<Rightarrow> string" where
  "nft_set6 s = nft_setName s @ ''6''"

definition nftSet :: "NftablesSink \<Rightarrow> string \<Rightarrow> string" where
  "nftSet s ip = (if CHR '':'' \<in> set ip then nft_set6 s else nft_setName s)"

text \<open>The six commands of \<open>Start\<close>, whose errors are ignored.\<close>

definition nft_cmds :: "NftablesSink \<Rightarrow> string list list" where
  "nft_cmds s =
     [[''nft'', ''add'', ''table'', ''inet'', nftTable],
      [''nft'', ''add'', ''set'', ''inet'', nftTable, nft_setName s, ''{ type ipv4_addr; flags interval, timeout; }''],
      [''nft'', ''add'', ''set'', ''inet'', nftTable, nft_set6 s, ''{ type ipv6_addr; flags interval, timeout; }''],
      [''nft'', ''add'', ''chain'', ''inet'', nftTable, nft_hook s,
         ''{ type filter hook '' @ nft_hook s @ '' priority 0; }''],
      [''nft'', ''add'', ''rule'', ''inet'', nftTable, nft_hook s, ''ip'', ''saddr'', ''@'' @ nft_setName s, ''drop''],
      [''nft'', ''add'', ''rule'', ''inet'', nftTable, nft_hook s, ''ip6'', ''saddr'', ''@'' @ nft_set6 s, ''drop'']]"

definition nft_Start :: "'k runner \<Rightarrow> NftablesSink \<Rightarrow> 'k \<Rightarrow> error option \<times> 'k" where
  "nft_Start run s k = (None, fold (\<lambda>args k. snd (run k args)) (nft_cmds s) k)"

definition nft_Block :: "'k runner \<Rightarrow> NftablesSink \<Rightarrow> 'k \<Rightarrow> string \<Rightarrow> error option \<times> 'k" where
  "nft_Block run s k ip =
     wrap_err ''enforce/nftables: block''
       (run k [''nft'', ''add'', ''element'', ''inet'', nftTable, nftSet s ip, ''{'', ip, ''}''])"

definition nft_BlockFor :: "'k runner \<Rightarrow> NftablesSink \<Rightarrow> 'k \<Rightarrow> string \<Rightarrow> duration \<Rightarrow> error option \<times> 'k" where
  "nft_BlockFor run s k ip ttl =
     (if ttl \<le> 0 then nft_Block run s k ip
      else wrap_err ''enforce/nftables: blockFor''
        (run k [''nft'', ''add'', ''element'', ''inet'', nftTable, nftSet s ip, ''{'', ip, ''timeout'',
                itoa (nat (whole_seconds ttl)) @ ''s'', ''}'']))"

definition nft_Unblock :: "'k runner \<Rightarrow> NftablesSink \<Rightarrow> 'k \<Rightarrow> string \<Rightarrow> error option \<times> 'k" where
  "nft_Unblock run s k ip =
     wrap_err ''enforce/nftables: unblock''
       (run k [''nft'', ''delete'', ''element'', ''inet'', nftTable, nftSet s ip, ''{'', ip, ''}''])"

locale nft_tool =
  fixes run :: "'k runner"
    and member :: "'k \<Rightarrow> string \<Rightarrow> string \<Rightarrow> bool"
  assumes nft_add: "run k ([''nft'', ''add'', ''element'', ''inet'', tab, st, ''{'', ip] @ opts) = (None, k')
        \<Longrightarrow> member k' st ip"
    and nft_add_other: "run k ([''nft'', ''add'', ''element'', ''inet'', tab, st, ''{'', ip] @ opts) = (r, k')
        \<Longrightarrow> st2 \<noteq> st \<or> j \<noteq> ip \<Longrightarrow> member k' st2 j = member k st2 j"
    and nft_del: "run k [''nft'', ''delete'', ''element'', ''inet'', tab, st, ''{'', ip, ''}''] = (None, k')
        \<Longrightarrow> \<not> member k' st ip"
    and nft_del_keeps: "run k [''nft'', ''delete'', ''element'', ''inet'', tab, st, ''{'', ip, ''}''] = (r, k')
        \<Longrightarrow> member k' st ip \<Longrightarrow> member k st ip"
    and nft_del_other: "run k [''nft'', ''delete'', ''element'', ''inet'', tab, st, ''{'', ip, ''}''] = (r, k')
        \<Longrightarrow> st2 \<noteq> st \<or> j \<noteq> ip \<Longrightarrow> member k' st2 j = member k st2 j"

sublocale nft_tool \<subseteq> nft: deny_sink "nft_Block run s" "nft_BlockFor run s" "nft_Unblock run s"
  "\<lambda>k ip. member k (nftSet s ip) ip" for s
proof unfold_locales
  let ?dur = "\<lambda>ttl. itoa (nat (whole_seconds ttl)) @ ''s''"
  show "nft_Block run s k ip = (None, k') \<Longrightarrow> member k' (nftSet s ip) ip" for k ip k'
    using nft_add [of k _ _ _ "[''}'']"] by (simp add: nft_Block_def)
  then show "nft_BlockFor run s k ip ttl = (None, k') \<Longrightarrow> member k' (nftSet s ip) ip" for k ip ttl k'
    using nft_add [of k nftTable "nftSet s ip" ip "[''timeout'', ?dur ttl, ''}'']"]
    by (simp add: nft_BlockFor_def split: if_splits)
  show "nft_Unblock run s k ip = (None, k') \<Longrightarrow> \<not> member k' (nftSet s ip) ip" for k ip k'
    using nft_del by (simp add: nft_Unblock_def)
  show "nft_Unblock run s k ip = (r, k') \<Longrightarrow> member k' (nftSet s ip) ip \<Longrightarrow> member k (nftSet s ip) ip" for k ip r k'
    using nft_del_keeps [of k nftTable "nftSet s ip" ip _ k']
    by (cases "run k [''nft'', ''delete'', ''element'', ''inet'', nftTable, nftSet s ip, ''{'', ip, ''}'']")
      (auto simp: nft_Unblock_def wrap_err_def split: option.splits)
  show o1: "nft_Block run s k ip = (r, k') \<Longrightarrow> j \<noteq> ip \<Longrightarrow> member k' (nftSet s j) j = member k (nftSet s j) j"
    for k ip r k' j
    using nft_add_other [of k nftTable "nftSet s ip" ip "[''}'']" _ k' "nftSet s j" j]
    by (cases "run k [''nft'', ''add'', ''element'', ''inet'', nftTable, nftSet s ip, ''{'', ip, ''}'']")
      (auto simp: nft_Block_def wrap_err_def split: option.splits)
  then show "nft_BlockFor run s k ip ttl = (r, k') \<Longrightarrow> j \<noteq> ip \<Longrightarrow> member k' (nftSet s j) j = member k (nftSet s j) j"
    for k ip ttl r k' j
    using nft_add_other [of k nftTable "nftSet s ip" ip "[''timeout'', ?dur ttl, ''}'']" _ k' "nftSet s j" j]
    by (cases "run k [''nft'', ''add'', ''element'', ''inet'', nftTable, nftSet s ip, ''{'', ip, ''timeout'', ?dur ttl, ''}'']")
      (auto simp: nft_BlockFor_def wrap_err_def split: option.splits if_splits)
  show "nft_Unblock run s k ip = (r, k') \<Longrightarrow> j \<noteq> ip \<Longrightarrow> member k' (nftSet s j) j = member k (nftSet s j) j"
    for k ip r k' j
    using nft_del_other [of k nftTable "nftSet s ip" ip _ k' "nftSet s j" j]
    by (cases "run k [''nft'', ''delete'', ''element'', ''inet'', nftTable, nftSet s ip, ''{'', ip, ''}'']")
      (auto simp: nft_Unblock_def wrap_err_def split: option.splits)
qed

definition nft_kernel :: "kernel runner" where
  "nft_kernel k args =
     (if take 3 args = [''nft'', ''add'', ''element''] then
        (None, k\<lparr>k_members := (args ! 5, args ! 7) # k_members k\<rparr>)
      else if take 3 args = [''nft'', ''delete'', ''element''] then
        (None, k\<lparr>k_members := removeAll (args ! 5, args ! 7) (k_members k)\<rparr>)
      else (None, k))"

interpretation nft_kernel: nft_tool nft_kernel "\<lambda>k st ip. (st, ip) \<in> set (k_members k)"
  by unfold_locales (auto simp: nft_kernel_def)

section \<open>CrowdSec\<close>

text \<open>
  A request to the LAPI: the alert of a block carries its decision (the constant fields are left
  out, the duration is the value and not its text), and the header its token.
\<close>

record cs_decision =
  dec_Duration :: duration
  dec_IP :: string
  dec_Origin :: string
  dec_Scenario :: string
  dec_Scope :: string
  dec_Type :: string
  dec_Value :: string

datatype cs_body = NoBody | LoginBody string string | AlertBody cs_decision

record cs_request =
  req_Method :: string
  req_URL :: string
  req_Body :: cs_body
  req_Authorization :: "string option"

record cs_response =
  resp_Status :: int
  resp_Login :: "error + string \<times> time option"

type_synonym 'k http = "'k \<Rightarrow> cs_request \<Rightarrow> (error + cs_response) \<times> 'k"

record CrowdSecSink =
  css_cfg :: EnforceConfig
  css_halfLife :: duration
  css_jwt :: string
  css_jwtExpiry :: time
  css_banDur :: duration

definition NewCrowdSec :: "EnforceConfig \<Rightarrow> duration \<Rightarrow> CrowdSecSink" where
  "NewCrowdSec cfg halfLife =
     (let banDur = enf_CrowdSecBanDuration cfg;
          banDur = (if banDur \<le> 0 then (if halfLife > 0 then halfLife else 168 * hour) else banDur)
      in \<lparr>css_cfg = cfg, css_halfLife = halfLife, css_jwt = '''', css_jwtExpiry = zero_time, css_banDur = banDur\<rparr>)"

definition csScopeFor :: "string \<Rightarrow> string" where
  "csScopeFor v = (if CHR ''/'' \<in> set v then ''Range'' else ''Ip'')"

text \<open>\<open>url.QueryEscape\<close>\<close>

definition hex_upper :: "nat \<Rightarrow> char" where
  "hex_upper d = ''0123456789ABCDEF'' ! d"

definition unreserved :: "char \<Rightarrow> bool" where
  "unreserved c \<longleftrightarrow> c \<in> set ''abcdefghijklmnopqrstuvwxyzABCDEFGHIJKLMNOPQRSTUVWXYZ0123456789-_.~''"

fun QueryEscape :: "string \<Rightarrow> string" where
  "QueryEscape [] = []"
| "QueryEscape (c # s) =
     (if unreserved c then [c] else if c = CHR '' '' then ''+''
      else [CHR ''%'', hex_upper (of_char c div 16), hex_upper (of_char c mod 16)]) @ QueryEscape s"

definition authenticate ::
  "'k http \<Rightarrow> time \<Rightarrow> CrowdSecSink \<Rightarrow> 'k \<Rightarrow> error option \<times> CrowdSecSink \<times> 'k" where
  "authenticate http now s k =
     (let req = \<lparr>req_Method = ''POST'', req_URL = enf_CrowdSecLAPIURL (css_cfg s) @ ''/v1/watchers/login'',
            req_Body = LoginBody (enf_CrowdSecMachineID (css_cfg s)) (enf_CrowdSecMachinePassword (css_cfg s)),
            req_Authorization = None\<rparr>
      in case http k req of
           (Inl e, k) \<Rightarrow> (Some e, s, k)
         | (Inr resp, k) \<Rightarrow>
             if resp_Status resp \<noteq> 200 then (Some (Fault ''enforce/crowdsec: auth returned''), s, k)
             else case resp_Login resp of
                 Inl e \<Rightarrow> (Some e, s, k)
               | Inr (token, expire) \<Rightarrow>
                   let expiry = (case expire of Some t \<Rightarrow> t | None \<Rightarrow> Add now (23 * hour))
                   in (None, s\<lparr>css_jwt := token, css_jwtExpiry := expiry\<rparr>, k))"

text \<open>\<open>authRequest\<close> returns the header it sets.\<close>

definition authRequest ::
  "'k http \<Rightarrow> time \<Rightarrow> CrowdSecSink \<Rightarrow> 'k \<Rightarrow> (error + string) \<times> CrowdSecSink \<times> 'k" where
  "authRequest http now s k =
     (let needsRefresh = (css_jwt s = '''' \<or> After now (Add (css_jwtExpiry s) (- (5 * minute))))
      in if needsRefresh then
           (case authenticate http now s k of
              (Some e, s, k) \<Rightarrow> (Inl (Wrap ''enforce/crowdsec: re-authenticate'' e), s, k)
            | (None, s, k) \<Rightarrow> (Inr (''Bearer '' @ css_jwt s), s, k))
         else (Inr (''Bearer '' @ css_jwt s), s, k))"

definition css_Start :: "'k http \<Rightarrow> time \<Rightarrow> CrowdSecSink \<Rightarrow> 'k \<Rightarrow> error option \<times> CrowdSecSink \<times> 'k" where
  "css_Start http now s k =
     (if enf_CrowdSecLAPIURL (css_cfg s) = '''' then
        (Some (Fault ''enforce/crowdsec: crowdsec_lapi_url is required''), s, k)
      else if enf_CrowdSecMachineID (css_cfg s) = '''' \<or> enf_CrowdSecMachinePassword (css_cfg s) = '''' then
        (Some (Fault ''enforce/crowdsec: crowdsec_machine_id and crowdsec_machine_password are required''), s, k)
      else authenticate http now s k)"

definition blockWithDuration ::
  "'k http \<Rightarrow> time \<Rightarrow> CrowdSecSink \<Rightarrow> 'k \<Rightarrow> string \<Rightarrow> duration \<Rightarrow> error option \<times> CrowdSecSink \<times> 'k" where
  "blockWithDuration http now s k ip dur =
     (let body = AlertBody \<lparr>dec_Duration = dur, dec_IP = ip, dec_Origin = ''federloom'',
            dec_Scenario = ''federloom/reputation'', dec_Scope = csScopeFor ip, dec_Type = ''ban'', dec_Value = ip\<rparr>
      in case authRequest http now s k of
           (Inl e, s, k) \<Rightarrow> (Some (Wrap ''enforce/crowdsec: block auth'' e), s, k)
         | (Inr auth, s, k) \<Rightarrow>
             (case http k \<lparr>req_Method = ''POST'', req_URL = enf_CrowdSecLAPIURL (css_cfg s) @ ''/v1/alerts'',
                 req_Body = body, req_Authorization = Some auth\<rparr> of
                (Inl e, k) \<Rightarrow> (Some (Wrap ''enforce/crowdsec: block request'' e), s, k)
              | (Inr resp, k) \<Rightarrow>
                  if resp_Status resp \<noteq> 200 \<and> resp_Status resp \<noteq> 201
                  then (Some (Fault ''enforce/crowdsec: block returned''), s, k) else (None, s, k)))"

definition css_Block :: "'k http \<Rightarrow> time \<Rightarrow> CrowdSecSink \<Rightarrow> 'k \<Rightarrow> string \<Rightarrow> error option \<times> CrowdSecSink \<times> 'k" where
  "css_Block http now s k ip = blockWithDuration http now s k ip (css_banDur s)"

definition css_BlockFor ::
  "'k http \<Rightarrow> time \<Rightarrow> CrowdSecSink \<Rightarrow> 'k \<Rightarrow> string \<Rightarrow> duration \<Rightarrow> error option \<times> CrowdSecSink \<times> 'k" where
  "css_BlockFor http now s k ip ttl =
     (if ttl \<le> 0 then css_Block http now s k ip else blockWithDuration http now s k ip ttl)"

definition css_Unblock :: "'k http \<Rightarrow> time \<Rightarrow> CrowdSecSink \<Rightarrow> 'k \<Rightarrow> string \<Rightarrow> error option \<times> CrowdSecSink \<times> 'k" where
  "css_Unblock http now s k ip =
     (let u = enf_CrowdSecLAPIURL (css_cfg s) @ ''/v1/decisions?origin=federloom&value='' @ QueryEscape ip
      in case authRequest http now s k of
           (Inl e, s, k) \<Rightarrow> (Some (Wrap ''enforce/crowdsec: unblock auth'' e), s, k)
         | (Inr auth, s, k) \<Rightarrow>
             (case http k \<lparr>req_Method = ''DELETE'', req_URL = u, req_Body = NoBody, req_Authorization = Some auth\<rparr> of
                (Inl e, k) \<Rightarrow> (Some (Wrap ''enforce/crowdsec: unblock request'' e), s, k)
              | (Inr resp, k) \<Rightarrow>
                  if resp_Status resp \<noteq> 200 \<and> resp_Status resp \<noteq> 204
                  then (Some (Fault ''enforce/crowdsec: unblock returned''), s, k) else (None, s, k)))"

lemma authRequest_token:
  assumes "authRequest http now s k = (Inr auth, s', k')"
  shows "auth = ''Bearer '' @ css_jwt s' \<and>
    (s' = s \<and> k' = k \<and> now \<le> css_jwtExpiry s - 5 * minute \<or>
     authenticate http now s k = (None, s', k'))"
  using assms
  by (auto simp: authRequest_def After_def Add_def Let_def split: if_splits prod.splits option.splits)

section \<open>Properties\<close>


context ipset_tool
begin

lemma ipset_sink_ok:
  "ipset_Block run s k ip = (None, k') \<Longrightarrow> member k' (ipSet s ip) ip"
  "ipset_BlockFor run s k ip ttl = (None, k') \<Longrightarrow> member k' (ipSet s ip) ip"
  "ipset_Unblock run s k ip = (None, k') \<Longrightarrow> \<not> member k' (ipSet s ip) ip"
  by (rule ipset.block_denies ipset.blockFor_denies ipset.unblock_allows, assumption)+

lemma ipset_sink_frame:
  "ipset.sink_run s k B U k' \<Longrightarrow> j \<notin> B \<Longrightarrow> j \<notin> U \<Longrightarrow> member k' (ipSet s j) j = member k (ipSet s j) j"
  by (rule ipset.sink_run_frame)

lemma ipset_block_unblock:
  "ipset_Block run s k ip = (r, k') \<Longrightarrow> ipset_Unblock run s k' ip = (None, k'')
     \<Longrightarrow> \<not> member k'' (ipSet s ip) ip \<and> (\<forall>j. j \<noteq> ip \<longrightarrow> member k'' (ipSet s j) j = member k (ipSet s j) j)"
  by (rule ipset.block_unblock)

end

section \<open>Properties\<close>

text \<open>
  C21. With tools that behave as documented, a start of the ipset sink that reports success leaves
  the drop rule in every configured chain, after a \<open>Block\<close> or \<open>BlockFor\<close> that reports success
  the address is in the set of its family, and an \<open>Unblock\<close> that reports success takes it out
  again and leaves every other address as it was before the block.
\<close>

theorem ipset_sink_contract:
  assumes "ipset_tool run member rule_in"
    and "ipset_Start run s k0 = (None, k)" and "ipset_Block run s k ip = (None, k1)"
    and "ipset_BlockFor run s k ip ttl = (None, k2)" and "ipset_Unblock run s k1 ip = (None, k3)"
  shows "(\<forall>chain \<in> set (ips_chains s). rule_in k ''iptables'' chain (ips_setName s))
       \<and> member k1 (ipSet s ip) ip \<and> member k2 (ipSet s ip) ip \<and> \<not> member k3 (ipSet s ip) ip
       \<and> (\<forall>j. j \<noteq> ip \<longrightarrow> member k3 (ipSet s j) j = member k (ipSet s j) j)"
  using ipset_tool.ipset_Start_installs [OF assms(1,2)] ipset_tool.ipset_sink_ok(1) [OF assms(1,3)]
    ipset_tool.ipset_sink_ok(2) [OF assms(1,4)] ipset_tool.ipset_block_unblock [OF assms(1,3,5)]
  by blast

definition empty_kernel :: kernel where
  "empty_kernel = \<lparr>k_members = [], k_rules = []\<rparr>"

theorem ipset_sink_contract_witness:
  "let s = NewIpset '''' []; k = snd (ipset_Start kernel_run s empty_kernel)
   in (''iptables'', ''DOCKER-USER'', ''federloom'') \<in> set (k_rules k)
      \<and> (''federloom'', ''192.0.2.1'') \<in> set (k_members (snd (ipset_Block kernel_run s k ''192.0.2.1'')))"
proof -
  let ?s = "NewIpset '''' []"
  have st: "ipset_Start kernel_run ?s empty_kernel = (None, snd (ipset_Start kernel_run ?s empty_kernel))"
    by (simp add: NewIpset_def ipset_Start_def ensure_set_def create_set_def kernel_run_def drop_rule_def
        empty_kernel_def Let_def)
  have run: "fst (ipset_Block kernel_run ?s k ip) = None" "fst (ipset_BlockFor kernel_run ?s k ip ttl) = None"
    "fst (ipset_Unblock kernel_run ?s k ip) = None" for k ip ttl
    by (simp_all add: ipset_Block_def ipset_BlockFor_def ipset_Unblock_def kernel_run_def wrap_err_def)
  have split: "fst p = None \<Longrightarrow> p = (None, snd p)" for p :: "error option \<times> kernel" by (cases p) simp
  show ?thesis
    using ipset_sink_contract [OF kernel.ipset_tool_axioms st split [OF run(1)] split [OF run(2)] split [OF run(3)],
        of "''192.0.2.1''" second]
    by (simp add: Let_def NewIpset_def ipSet_def)
qed

text \<open>
  A temporary block shorter than a second is permanent: the time to live is truncated to
  whole seconds, and the command asks for \<open>timeout 0\<close>, which ipset documents as no timeout.
\<close>

theorem subsecond_block_is_permanent:
  assumes "0 < ttl" and "ttl < second"
  shows "ipset_BlockFor run s k ip ttl = wrap_err ''enforce/ipset: blockFor''
     (run k [''ipset'', ''add'', ipSet s ip, ip, ''timeout'', ''0'', ''-exist''])"
proof -
  have "itoa (nat (whole_seconds ttl)) = ''0''"
    using assms by (simp add: whole_seconds_def itoa.simps [of 0])
  with assms(1) show ?thesis by (simp add: ipset_BlockFor_def)
qed

theorem subsecond_block_is_permanent_witness:
  "ipset_BlockFor (\<lambda>k args. (None, args)) (NewIpset '''' []) [] ''192.0.2.1'' (500 * millisecond)
     = (None, [''ipset'', ''add'', ''federloom'', ''192.0.2.1'', ''timeout'', ''0'', ''-exist''])"
  by (subst subsecond_block_is_permanent)
    (simp_all add: millisecond_def second_def wrap_err_def NewIpset_def ipSet_def)

end
