(* ===== verification/Base64.thy ===== *)
theory Base64
  imports Go_Prelude
begin

text \<open>
  \<open>base64.StdEncoding\<close> of the standard library: \<open>EncodeToString\<close> and \<open>DecodeString\<close>, which
  skips line breaks, wants padding and does not look at the unused bits of the last group.
\<close>

definition alphabet :: string where
  "alphabet = ''ABCDEFGHIJKLMNOPQRSTUVWXYZabcdefghijklmnopqrstuvwxyz0123456789+/''"

definition sextet :: "nat \<Rightarrow> char" where
  "sextet n = alphabet ! n"

definition unsextet :: "char \<Rightarrow> nat option" where
  "unsextet = map_of (zip alphabet [0..<64])"

abbreviation val :: "char \<Rightarrow> nat" where
  "val \<equiv> of_char"

fun EncodeToString :: "string \<Rightarrow> string" where
  "EncodeToString [] = []"
| "EncodeToString [a] = [sextet (val a div 4), sextet (val a mod 4 * 16), CHR ''='', CHR ''='']"
| "EncodeToString [a, b] =
     [sextet (val a div 4), sextet (val a mod 4 * 16 + val b div 16), sextet (val b mod 16 * 4), CHR ''='']"
| "EncodeToString (a # b # c # r) =
     [sextet (val a div 4), sextet (val a mod 4 * 16 + val b div 16),
      sextet (val b mod 16 * 4 + val c div 64), sextet (val c mod 64)] @ EncodeToString r"

definition byte1 :: "nat \<Rightarrow> nat \<Rightarrow> char" where
  "byte1 a b = char_of (a * 4 + b div 16)"

definition byte2 :: "nat \<Rightarrow> nat \<Rightarrow> char" where
  "byte2 b c = char_of (b mod 16 * 16 + c div 4)"

definition byte3 :: "nat \<Rightarrow> nat \<Rightarrow> char" where
  "byte3 c d = char_of (c mod 4 * 64 + d)"

fun decode_groups :: "string \<Rightarrow> string option" where
  "decode_groups [] = Some []"
| "decode_groups (a # b # c # d # r) =
     (case (unsextet a, unsextet b) of
        (Some x, Some y) \<Rightarrow>
          if c = CHR ''='' then (if d = CHR ''='' \<and> r = [] then Some [byte1 x y] else None)
          else (case unsextet c of
                  None \<Rightarrow> None
                | Some z \<Rightarrow>
                    if d = CHR ''='' then (if r = [] then Some [byte1 x y, byte2 y z] else None)
                    else (case (unsextet d, decode_groups r) of
                            (Some w, Some bs) \<Rightarrow> Some (byte1 x y # byte2 y z # byte3 z w # bs)
                          | _ \<Rightarrow> None))
      | _ \<Rightarrow> None)"
| "decode_groups _ = None"

definition newline_chars :: string where
  "newline_chars = [char_of (10::nat), char_of (13::nat)]"

definition DecodeString :: "string \<Rightarrow> error + string" where
  "DecodeString s =
     (case decode_groups (filter (\<lambda>c. c \<notin> set newline_chars) s) of
        None \<Rightarrow> Inl (Fault ''illegal base64 data'') | Some bs \<Rightarrow> Inr bs)"

lemma length_alphabet [simp]: "length alphabet = 64"
  by (simp add: alphabet_def)

lemma distinct_alphabet: "distinct alphabet"
  by (simp add: alphabet_def)

lemma unsextet_sextet [simp]: "n < 64 \<Longrightarrow> unsextet (sextet n) = Some n"
  using map_of_zip_nth [of alphabet "[0..<64]" n] distinct_alphabet
  by (simp add: unsextet_def sextet_def)

lemma sextet_in [simp]: "n < 64 \<Longrightarrow> sextet n \<in> set alphabet"
  by (simp add: sextet_def)

lemma pad_not_alphabet: "CHR ''='' \<notin> set alphabet" "CHR ''|'' \<notin> set alphabet"
  by (simp_all add: alphabet_def)

lemma sextet_not_pad [simp]: "n < 64 \<Longrightarrow> sextet n \<noteq> CHR ''=''"
  using sextet_in pad_not_alphabet by metis

lemma newline_not_alphabet: "c \<in> set newline_chars \<Longrightarrow> c \<notin> insert (CHR ''='') (set alphabet)"
proof -
  assume "c \<in> set newline_chars"
  then have v: "val c = 10 \<or> val c = 13" by (auto simp: newline_chars_def)
  have "\<forall>d \<in> insert (CHR ''='') (set alphabet). val d \<noteq> 10 \<and> val d \<noteq> 13"
    by (simp add: alphabet_def)
  with v show ?thesis by metis
qed

lemma val_less [simp]: "val c < 256"
  by (rule nat_of_char_less_256)

lemma groups_small [simp]:
  "val a div 4 < 64" "val a mod 4 * 16 < 64" "val a mod 4 * 16 + val b div 16 < 64"
  "val b mod 16 * 4 < 64" "val b mod 16 * 4 + val c div 64 < 64" "val c mod 64 < 64"
  using val_less [of a] val_less [of b] val_less [of c] by linarith+

lemma regroup [simp]:
  "byte1 (val a div 4) (val a mod 4 * 16) = a"
  "byte1 (val a div 4) (val a mod 4 * 16 + val b div 16) = a"
  "byte2 (val a mod 4 * 16 + val b div 16) (val b mod 16 * 4) = b"
  "byte2 (val a mod 4 * 16 + val b div 16) (val b mod 16 * 4 + val c div 64) = b"
  "byte3 (val b mod 16 * 4 + val c div 64) (val c mod 64) = c"
proof -
  have "val a div 4 * 4 + val a mod 4 * 16 div 16 = val a" by simp
  then show "byte1 (val a div 4) (val a mod 4 * 16) = a" by (simp add: byte1_def)
  have "val a div 4 * 4 + (val a mod 4 * 16 + val b div 16) div 16 = val a"
    using val_less [of b] by (simp add: div_mult2_eq [symmetric])
  then show "byte1 (val a div 4) (val a mod 4 * 16 + val b div 16) = a" by (simp add: byte1_def)
  have b16: "val b div 16 < 16" using val_less [of b] by linarith
  have m: "(val a mod 4 * 16 + val b div 16) mod 16 = val b div 16"
    using b16 by simp
  have "(val a mod 4 * 16 + val b div 16) mod 16 * 16 + val b mod 16 * 4 div 4 = val b"
    unfolding m by simp
  then show "byte2 (val a mod 4 * 16 + val b div 16) (val b mod 16 * 4) = b"
    by (simp only: byte2_def char_of_char)
  have "(val b mod 16 * 4 + val c div 64) div 4 = val b mod 16"
    using val_less [of c] by (simp add: div_mult2_eq [symmetric])
  then have "(val a mod 4 * 16 + val b div 16) mod 16 * 16 + (val b mod 16 * 4 + val c div 64) div 4 = val b"
    unfolding m by simp
  then show "byte2 (val a mod 4 * 16 + val b div 16) (val b mod 16 * 4 + val c div 64) = b"
    by (simp only: byte2_def char_of_char)
  have "val c div 64 < 4" using val_less [of c] by linarith
  then have "(val b mod 16 * 4 + val c div 64) mod 4 = val c div 64" by simp
  then have "(val b mod 16 * 4 + val c div 64) mod 4 * 64 + val c mod 64 = val c" by simp
  then show "byte3 (val b mod 16 * 4 + val c div 64) (val c mod 64) = c"
    by (simp only: byte3_def char_of_char)
qed

lemma decode_encode_groups: "decode_groups (EncodeToString bs) = Some bs"
  by (induction bs rule: EncodeToString.induct) simp_all

lemma encode_chars: "set (EncodeToString bs) \<subseteq> insert (CHR ''='') (set alphabet)"
  by (induction bs rule: EncodeToString.induct) simp_all

lemma encode_no_bar [simp]: "CHR ''|'' \<notin> set (EncodeToString bs)"
proof
  assume "CHR ''|'' \<in> set (EncodeToString bs)"
  then have "CHR ''|'' \<in> insert (CHR ''='') (set alphabet)" using encode_chars by blast
  with pad_not_alphabet(2) show False by simp
qed

lemma encode_no_newline: "filter (\<lambda>c. c \<notin> set newline_chars) (EncodeToString bs) = EncodeToString bs"
  using encode_chars newline_not_alphabet by (intro filter_True) blast

lemma DecodeString_Encode [simp]: "DecodeString (EncodeToString bs) = Inr bs"
  by (simp add: DecodeString_def encode_no_newline decode_encode_groups)

lemma DecodeString_line [simp]: "DecodeString (EncodeToString bs @ [char_of (10::nat)]) = Inr bs"
  by (simp add: DecodeString_def encode_no_newline decode_encode_groups newline_chars_def [symmetric])
    (simp add: newline_chars_def)

lemma EncodeToString_inj: "EncodeToString a = EncodeToString b \<Longrightarrow> a = b"
  by (metis DecodeString_Encode sum.inject(2))

end
