(* ===== verification/Files.thy ===== *)
theory Files
  imports Go_Prelude
begin

text \<open>
  The part of package \<open>os\<close> the key and trust files are kept with: a file system as a map from
  paths to contents with permission bits, and for each call the error, if any, the kernel answers
  with. Directories and ownership are not modelled; \<open>MkdirAll\<close> is only its outcome.
\<close>

record os_file =
  content :: string
  mode :: nat

type_synonym fs = "string \<rightharpoonup> os_file"

record os_faults =
  f_stat :: "error option"
  f_read :: "error option"
  f_mkdir :: "error option"
  f_open :: "error option"
  f_write :: "error option"
  f_close :: "error option"
  f_rename :: "error option"
  f_remove :: "error option"
  f_partial :: string

text \<open>No call fails.\<close>

definition no_faults :: os_faults where
  "no_faults = \<lparr>f_stat = None, f_read = None, f_mkdir = None, f_open = None, f_write = None,
     f_close = None, f_rename = None, f_remove = None, f_partial = ''''\<rparr>"

definition ErrNotExist :: error where
  "ErrNotExist = Fault ''file does not exist''"

definition IsNotExist :: "error \<Rightarrow> bool" where
  "IsNotExist e \<longleftrightarrow> e = ErrNotExist"

definition Stat :: "os_faults \<Rightarrow> fs \<Rightarrow> string \<Rightarrow> error + os_file" where
  "Stat f fs p =
     (case f_stat f of Some e \<Rightarrow> Inl e
      | None \<Rightarrow> (case fs p of None \<Rightarrow> Inl ErrNotExist | Some x \<Rightarrow> Inr x))"

definition ReadFile :: "os_faults \<Rightarrow> fs \<Rightarrow> string \<Rightarrow> error + string" where
  "ReadFile f fs p =
     (case f_read f of Some e \<Rightarrow> Inl e
      | None \<Rightarrow> (case fs p of None \<Rightarrow> Inl ErrNotExist | Some x \<Rightarrow> Inr (content x)))"

text \<open>\<open>OpenFile\<close> with \<open>O_CREATE|O_EXCL\<close>: an existing file is an error.\<close>

definition OpenExcl :: "os_faults \<Rightarrow> fs \<Rightarrow> string \<Rightarrow> nat \<Rightarrow> error option \<times> fs" where
  "OpenExcl f fs p perm =
     (case f_open f of Some e \<Rightarrow> (Some e, fs)
      | None \<Rightarrow> (if fs p \<noteq> None then (Some (Fault ''file exists''), fs)
                 else (None, fs(p \<mapsto> \<lparr>content = '''', mode = perm\<rparr>))))"

text \<open>Writing to an open file; a failed write leaves part of the data.\<close>

definition WriteOpen :: "os_faults \<Rightarrow> fs \<Rightarrow> string \<Rightarrow> string \<Rightarrow> error option \<times> fs" where
  "WriteOpen f fs p data =
     (f_write f, (case fs p of None \<Rightarrow> fs
        | Some x \<Rightarrow> fs(p \<mapsto> x\<lparr>content := (if f_write f = None then data else f_partial f)\<rparr>)))"

text \<open>\<open>os.WriteFile\<close>: truncates an existing file, whose mode it keeps, and creates a missing one.\<close>

definition WriteFile :: "os_faults \<Rightarrow> fs \<Rightarrow> string \<Rightarrow> string \<Rightarrow> nat \<Rightarrow> error option \<times> fs" where
  "WriteFile f fs p data perm =
     (case f_open f of Some e \<Rightarrow> (Some e, fs)
      | None \<Rightarrow>
          WriteOpen f (fs(p \<mapsto> \<lparr>content = '''', mode = (case fs p of None \<Rightarrow> perm | Some x \<Rightarrow> mode x)\<rparr>))
            p data)"

definition Remove :: "os_faults \<Rightarrow> fs \<Rightarrow> string \<Rightarrow> error option \<times> fs" where
  "Remove f fs p = (case f_remove f of Some e \<Rightarrow> (Some e, fs) | None \<Rightarrow> (None, fs(p := None)))"

text \<open>\<open>os.Rename\<close> replaces the target in one step or leaves both files alone.\<close>

definition Rename :: "os_faults \<Rightarrow> fs \<Rightarrow> string \<Rightarrow> string \<Rightarrow> error option \<times> fs" where
  "Rename f fs a b =
     (case f_rename f of Some e \<Rightarrow> (Some e, fs)
      | None \<Rightarrow> (case fs a of None \<Rightarrow> (Some ErrNotExist, fs)
                 | Some x \<Rightarrow> (None, (fs(a := None))(b \<mapsto> x))))"

lemmas os_defs = Stat_def ReadFile_def OpenExcl_def WriteOpen_def WriteFile_def Remove_def Rename_def

text \<open>A write through a temporary file and a rename: the contract of every saved file.\<close>

locale atomic_writer =
  fixes wr :: "os_faults \<Rightarrow> fs \<Rightarrow> string \<Rightarrow> string \<Rightarrow> string \<Rightarrow> error option \<times> fs"
  assumes all_or_nothing:
    "tmp \<noteq> p \<Longrightarrow> wr f fs tmp p data = (r, fs') \<Longrightarrow>
       (if r = None then \<exists>m. fs' p = Some \<lparr>content = data, mode = m\<rparr> else fs' p = fs p)"
    and others_kept: "q \<noteq> p \<Longrightarrow> q \<noteq> tmp \<Longrightarrow> wr f fs tmp p data = (r, fs') \<Longrightarrow> fs' q = fs q"
begin

lemma never_torn:
  assumes "tmp \<noteq> p" "fs p = Some old" "wr f fs tmp p data = (r, fs')"
  shows "\<exists>x. fs' p = Some x \<and> (content x = content old \<or> content x = data)"
  using all_or_nothing [OF assms(1,3)] assms(2) by (auto split: if_splits)

lemma read_back:
  assumes "tmp \<noteq> p" "wr f fs tmp p data = (None, fs')" "f_read g = None"
  shows "ReadFile g fs' p = Inr data"
  using all_or_nothing [OF assms(1,2)] assms(3) by (auto simp: ReadFile_def)

end

end
