(* ===== verification/Identity.thy ===== *)
theory Identity
  imports Proto Time_Format Base64 Files
begin

text \<open>
  Package \<open>internal/identity\<close>: Person keys and peer certificates (\<open>person.go\<close>, \<open>cert.go\<close>),
  signed events and votes (\<open>sign.go\<close>) and the node key (\<open>nodekey.go\<close>).

  Ed25519, SHA-256 and libp2p's keys and peer IDs are parameters; their documented laws are the
  assumptions of the locales \<open>ed25519_scheme\<close> and \<open>libp2p_keys\<close>. A private key of
  \<open>crypto/ed25519\<close> is its 32-byte seed followed by its public key, as that package says.
\<close>

section \<open>Person keys\<close>

record ed25519 =
  ed_pub :: "bytes \<Rightarrow> bytes"
  ed_sign :: "bytes \<Rightarrow> bytes \<Rightarrow> bytes"
  ed_verify :: "bytes \<Rightarrow> bytes \<Rightarrow> bytes \<Rightarrow> bool"

locale ed25519_scheme =
  fixes C :: ed25519
  assumes pub_length: "length seed = 32 \<Longrightarrow> length (ed_pub C seed) = 32"
    and sign_verify: "length seed = 32 \<Longrightarrow>
      ed_verify C (ed_pub C seed) m (ed_sign C (seed @ ed_pub C seed) m)"

definition NewKeyFromSeed :: "ed25519 \<Rightarrow> bytes \<Rightarrow> bytes" where
  "NewKeyFromSeed C seed = seed @ ed_pub C seed"

definition key_Seed :: "bytes \<Rightarrow> bytes" where
  "key_Seed priv = take 32 priv"

definition PersonPub :: "bytes \<Rightarrow> bytes" where
  "PersonPub priv = drop 32 priv"

definition pubKeyPrefix :: string where
  "pubKeyPrefix = ''ed25519:''"

definition EncodePub :: "bytes \<Rightarrow> string" where
  "EncodePub pub = pubKeyPrefix @ EncodeToString pub"

definition DecodePub :: "string \<Rightarrow> error + bytes" where
  "DecodePub s =
     (if \<not> HasPrefix s pubKeyPrefix then Inl (Fault ''identity: pubkey: missing prefix'')
      else (case DecodeString (TrimPrefix s pubKeyPrefix) of
              Inl e \<Rightarrow> Inl (Wrap ''identity: pubkey'' e)
            | Inr raw \<Rightarrow>
                if length raw \<noteq> 32 then Inl (Fault ''identity: pubkey: bad length'') else Inr raw))"

definition hex_byte :: "char \<Rightarrow> string" where
  "hex_byte c = [''0123456789abcdef'' ! (of_char c div 16), ''0123456789abcdef'' ! (of_char c mod 16)]"

text \<open>The slices of \<open>Fingerprint\<close>, the hash being the parameter.\<close>

definition Fingerprint :: "(bytes \<Rightarrow> bytes) \<Rightarrow> bytes \<Rightarrow> string" where
  "Fingerprint sha256 pub =
     (let hexs = concat (map hex_byte (take 8 (sha256 pub)))
      in Join [take 4 hexs, take 4 (drop 4 hexs), take 4 (drop 8 hexs), take 4 (drop 12 hexs)] '' '')"

definition checkKeyPerms :: "os_faults \<Rightarrow> fs \<Rightarrow> string \<Rightarrow> error option" where
  "checkKeyPerms f fs path =
     (case Stat f fs path of
        Inl e \<Rightarrow> Some (Wrap ''identity: stat'' e)
      | Inr fi \<Rightarrow>
          if mode fi mod 64 \<noteq> 0 then Some (Fault ''identity: must not be group/world-accessible'')
          else None)"

definition newline :: string where
  "newline = [char_of (10::nat)]"

text \<open>
  \<open>GeneratePersonKey\<close>: \<open>rnd\<close> is what \<open>ed25519.GenerateKey\<close> reads from the system's
  random source, a seed or an error; \<open>0o600\<close> is 384.
\<close>

definition GeneratePersonKey ::
  "ed25519 \<Rightarrow> os_faults \<Rightarrow> error + bytes \<Rightarrow> fs \<Rightarrow> string \<Rightarrow> (error + bytes) \<times> fs" where
  "GeneratePersonKey C f rnd fs path =
     (case Stat f fs path of
        Inr _ \<Rightarrow> (Inl (Fault ''identity: person key already exists''), fs)
      | Inl _ \<Rightarrow>
          (case rnd of
             Inl e \<Rightarrow> (Inl (Wrap ''identity: generate person key'' e), fs)
           | Inr seed \<Rightarrow>
               (let priv = NewKeyFromSeed C seed; enc = EncodeToString (key_Seed priv)
                in (case f_mkdir f of
                      Some e \<Rightarrow> (Inl (Wrap ''identity: create key dir'' e), fs)
                    | None \<Rightarrow>
                        (let tmp = path @ ''.tmp''
                         in (case OpenExcl f fs tmp 384 of
                               (Some e, fs) \<Rightarrow> (Inl (Wrap ''identity: create temp person key'' e), fs)
                             | (None, fs) \<Rightarrow>
                                 (let (werr, fs) = WriteOpen f fs tmp (enc @ newline); cerr = f_close f
                                  in if werr \<noteq> None \<or> cerr \<noteq> None
                                     then (Inl (Fault ''identity: write person key''), snd (Remove f fs tmp))
                                     else (case Rename f fs tmp path of
                                             (Some e, fs) \<Rightarrow>
                                               (Inl (Wrap ''identity: install person key'' e),
                                                snd (Remove f fs tmp))
                                           | (None, fs) \<Rightarrow> (Inr priv, fs)))))))))"

definition LoadPersonKey :: "ed25519 \<Rightarrow> os_faults \<Rightarrow> fs \<Rightarrow> string \<Rightarrow> error + bytes" where
  "LoadPersonKey C f fs path =
     (case checkKeyPerms f fs path of
        Some e \<Rightarrow> Inl e
      | None \<Rightarrow>
          (case ReadFile f fs path of
             Inl e \<Rightarrow> Inl (Wrap ''identity: read person key'' e)
           | Inr data \<Rightarrow>
               (case DecodeString (TrimSpace data) of
                  Inl e \<Rightarrow> Inl (Wrap ''identity: parse person key'' e)
                | Inr seed \<Rightarrow>
                    if length seed \<noteq> 32 then Inl (Fault ''identity: person key: bad seed length'')
                    else Inr (NewKeyFromSeed C seed))))"

section \<open>Peer certificates\<close>

definition certMessage :: "string \<Rightarrow> bytes \<Rightarrow> time \<Rightarrow> bytes" where
  "certMessage peerID personKey validUntil =
     ''federloom-peer-cert-v1|'' @ peerID @ ''|'' @ EncodeToString personKey @ ''|'' @ RFC3339 validUntil"

definition IssueCert :: "ed25519 \<Rightarrow> bytes \<Rightarrow> string \<Rightarrow> time \<Rightarrow> PeerCert" where
  "IssueCert C priv peerID validUntil =
     (let pub = PersonPub priv
      in \<lparr>PeerID = peerID, PersonKey = pub, ValidUntil = validUntil,
          Sig = ed_sign C priv (certMessage peerID pub validUntil)\<rparr>)"

definition VerifyCert :: "ed25519 \<Rightarrow> PeerCert \<Rightarrow> time \<Rightarrow> error option" where
  "VerifyCert C cert now =
     (if PeerID cert = '''' then Some (Fault ''identity: cert has empty peer ID'')
      else if length (PersonKey cert) \<noteq> 32 then Some (Fault ''identity: bad person key length'')
      else if CHR ''|'' \<in> set (PeerID cert) then
        Some (Fault ''identity: cert peer ID contains reserved delimiter'')
      else if \<not> Before now (ValidUntil cert) then Some (Fault ''identity: cert expired'')
      else if \<not> ed_verify C (PersonKey cert)
               (certMessage (PeerID cert) (PersonKey cert) (ValidUntil cert)) (Sig cert) then
        Some (Fault ''identity: cert: invalid signature'')
      else None)"

section \<open>Signed events and votes\<close>

definition eventMessage :: "Event \<Rightarrow> bytes" where
  "eventMessage e =
     ''federloom-event-v2|'' @ IP e @ ''|'' @ Reason e @ ''|'' @ RFC3339Nano (Timestamp e) @ ''|'' @
     ReporterID e @ ''|'' @ SubnetID e"

definition voteMessage :: "Event \<Rightarrow> bytes" where
  "voteMessage e =
     ''federloom-vote-v2|'' @ IP e @ ''|'' @ RFC3339Nano (Timestamp e) @ ''|'' @
     ReporterID e @ ''|'' @ SubnetID e"

definition signedMessage :: "Event \<Rightarrow> bytes" where
  "signedMessage e = (if Kind e = ''vote'' then voteMessage e else eventMessage e)"

text \<open>libp2p: a key's peer ID, its text, and the key a peer ID embeds.\<close>

record ('sk, 'pid, 'pk) libp2p =
  IDFromPrivateKey :: "'sk \<Rightarrow> error + 'pid"
  pid_String :: "'pid \<Rightarrow> string"
  peer_Decode :: "string \<Rightarrow> error + 'pid"
  ExtractPublicKey :: "'pid \<Rightarrow> error + 'pk"
  key_Sign :: "'sk \<Rightarrow> bytes \<Rightarrow> error + bytes"
  key_Verify :: "'pk \<Rightarrow> bytes \<Rightarrow> bytes \<Rightarrow> error + bool"

definition PeerIDFromPrivKey :: "('sk, 'pid, 'pk) libp2p \<Rightarrow> 'sk \<Rightarrow> error + string" where
  "PeerIDFromPrivKey P priv =
     (case IDFromPrivateKey P priv of
        Inl e \<Rightarrow> Inl (Wrap ''identity: derive peer ID'' e) | Inr pid \<Rightarrow> Inr (pid_String P pid))"

definition SignEvent :: "('sk, 'pid, 'pk) libp2p \<Rightarrow> Event \<Rightarrow> 'sk \<Rightarrow> error + Event" where
  "SignEvent P e priv =
     (case key_Sign P priv (signedMessage e) of
        Inl err \<Rightarrow> Inl (Wrap ''identity: sign event'' err) | Inr s \<Rightarrow> Inr (e\<lparr>Signature := s\<rparr>))"

definition VerifyEventSig :: "('sk, 'pid, 'pk) libp2p \<Rightarrow> Event \<Rightarrow> error option" where
  "VerifyEventSig P e =
     (if ReporterID e = '''' then Some (Fault ''identity: event has empty reporter ID'')
      else if Signature e = [] then Some (Fault ''identity: event has no signature'')
      else (case peer_Decode P (ReporterID e) of
              Inl err \<Rightarrow> Some (Wrap ''identity: decode reporter ID'' err)
            | Inr pid \<Rightarrow>
                (case ExtractPublicKey P pid of
                   Inl err \<Rightarrow> Some (Wrap ''identity: extract public key'' err)
                 | Inr pub \<Rightarrow>
                     (case key_Verify P pub (signedMessage e) (Signature e) of
                        Inl err \<Rightarrow> Some (Wrap ''identity: verify event'' err)
                      | Inr okay \<Rightarrow>
                          if \<not> okay then Some (Fault ''identity: invalid signature on event'') else None))))"

section \<open>The node key\<close>

record 'sk key_codec =
  GenerateKeyPair :: "error + 'sk"
  MarshalPrivateKey :: "'sk \<Rightarrow> error + bytes"
  UnmarshalPrivateKey :: "bytes \<Rightarrow> error + 'sk"

definition LoadOrCreateNodeKey ::
  "'sk key_codec \<Rightarrow> os_faults \<Rightarrow> fs \<Rightarrow> string \<Rightarrow> (error + 'sk) \<times> fs" where
  "LoadOrCreateNodeKey K f fs path =
     (case ReadFile f fs path of
        Inr data \<Rightarrow>
          (case checkKeyPerms f fs path of
             Some e \<Rightarrow> (Inl e, fs)
           | None \<Rightarrow>
               (case UnmarshalPrivateKey K data of
                  Inl e \<Rightarrow> (Inl (Wrap ''identity: parse node key'' e), fs)
                | Inr priv \<Rightarrow> (Inr priv, fs)))
      | Inl err \<Rightarrow>
          if \<not> IsNotExist err then (Inl (Wrap ''identity: read node key'' err), fs)
          else (case GenerateKeyPair K of
                  Inl e \<Rightarrow> (Inl (Wrap ''identity: generate node key'' e), fs)
                | Inr priv \<Rightarrow>
                    (case MarshalPrivateKey K priv of
                       Inl e \<Rightarrow> (Inl (Wrap ''identity: marshal node key'' e), fs)
                     | Inr raw \<Rightarrow>
                         (case f_mkdir f of
                            Some e \<Rightarrow> (Inl (Wrap ''identity: create key dir'' e), fs)
                          | None \<Rightarrow>
                              (let tmp = path @ ''.tmp''
                               in (case WriteFile f fs tmp raw 384 of
                                     (Some e, fs) \<Rightarrow>
                                       (Inl (Wrap ''identity: write node key'' e), snd (Remove f fs tmp))
                                   | (None, fs) \<Rightarrow>
                                       (case Rename f fs tmp path of
                                          (Some e, fs) \<Rightarrow>
                                            (Inl (Wrap ''identity: install node key'' e),
                                             snd (Remove f fs tmp))
                                        | (None, fs) \<Rightarrow> (Inr priv, fs))))))))"

section \<open>Key texts and key files\<close>

lemma EncodePub_Decode: "length pub = 32 \<Longrightarrow> DecodePub (EncodePub pub) = Inr pub"
  by (simp add: EncodePub_def DecodePub_def)

lemma DecodePub_length: "DecodePub s = Inr pub \<Longrightarrow> length pub = 32"
  by (auto simp: DecodePub_def split: if_splits sum.splits)

lemma EncodePub_inj: "EncodePub a = EncodePub b \<longleftrightarrow> a = b"
  by (auto simp: EncodePub_def dest: EncodeToString_inj)

lemma newline_space: "filter is_space newline = newline" "dropWhile is_space newline = []"
  by (simp_all add: newline_def is_space_def)

lemma TrimSpace_line: "\<forall>c \<in> set s. \<not> is_space c \<Longrightarrow> TrimSpace (s @ newline) = s"
proof (cases s)
  case (Cons c r)
  assume a: "\<forall>c \<in> set s. \<not> is_space c"
  have d: "dropWhile is_space (s @ newline) = s @ newline" using a Cons by simp
  have "dropWhile is_space (rev s) = rev s"
    using a by (metis dropWhile_eq_self_iff hd_in_set set_rev)
  then show ?thesis
    by (simp add: TrimSpace_def d) (simp add: newline_def is_space_def)
qed (simp add: TrimSpace_def newline_space)

lemma base64_no_space: "c \<in> set (EncodeToString bs) \<Longrightarrow> \<not> is_space c"
proof -
  have "\<forall>d \<in> insert (CHR ''='') (set alphabet). \<not> is_space d"
    by (simp add: alphabet_def is_space_def)
  moreover assume "c \<in> set (EncodeToString bs)"
  ultimately show ?thesis using encode_chars [of bs] by blast
qed

lemma LoadPersonKey_stored:
  assumes "fs path = Some \<lparr>content = EncodeToString seed @ newline, mode = 384\<rparr>" "length seed = 32"
    "f_stat f = None" "f_read f = None"
  shows "LoadPersonKey C f fs path = Inr (NewKeyFromSeed C seed)"
  using assms
  by (simp add: LoadPersonKey_def checkKeyPerms_def Stat_def ReadFile_def TrimSpace_line base64_no_space)

lemma tmp_neq [simp]: "path \<noteq> path @ ''.tmp''" "path @ ''.tmp'' \<noteq> path"
  by simp_all

lemma GeneratePersonKey_outcome:
  assumes "GeneratePersonKey C f rnd fs path = (r, fs')"
  shows "case r of
       Inl e \<Rightarrow> fs' path = fs path
     | Inr priv \<Rightarrow> \<exists>seed. rnd = Inr seed \<and> priv = NewKeyFromSeed C seed \<and>
         (f_stat f = None \<longrightarrow> fs path = None) \<and>
         fs' path = Some \<lparr>content = EncodeToString (key_Seed priv) @ newline, mode = 384\<rparr>"
  using assms
  by (auto simp: GeneratePersonKey_def os_defs Let_def split: sum.splits option.splits if_splits)

lemma GeneratePersonKey_others:
  "GeneratePersonKey C f rnd fs path = (r, fs') \<Longrightarrow> q \<noteq> path \<Longrightarrow> q \<noteq> path @ ''.tmp'' \<Longrightarrow> fs' q = fs q"
  by (auto simp: GeneratePersonKey_def os_defs Let_def split: sum.splits option.splits if_splits)

lemma LoadOrCreateNodeKey_outcome:
  assumes "LoadOrCreateNodeKey K f fs path = (r, fs')" "f_read f \<noteq> Some ErrNotExist"
  shows "(fs' path = fs path \<or>
      (\<exists>priv raw m. r = Inr priv \<and> fs path = None \<and> MarshalPrivateKey K priv = Inr raw \<and>
         fs' path = Some \<lparr>content = raw, mode = m\<rparr> \<and>
         m = (case fs (path @ ''.tmp'') of None \<Rightarrow> 384 | Some x \<Rightarrow> mode x)))"
  using assms
  by (auto simp: LoadOrCreateNodeKey_def os_defs Let_def IsNotExist_def
      split: sum.splits option.splits if_splits)

section \<open>What a signature covers\<close>

text \<open>The fields a message is joined from, as \<open>strings.Split\<close> gives them back.\<close>

lemma no_bar_texts [simp]: "CHR ''|'' \<notin> set ''federloom-event-v2''" "CHR ''|'' \<notin> set ''federloom-vote-v2''"
  "CHR ''|'' \<notin> set ''federloom-peer-cert-v1''"
  by simp_all

lemma Split_inj: "Split a c = Split b c \<Longrightarrow> a = b"
  by (metis Join_Split)

lemma eventMessage_fields:
  assumes "CHR ''|'' \<notin> set (IP e)" "CHR ''|'' \<notin> set (Reason e)" "CHR ''|'' \<notin> set (ReporterID e)"
  shows "Split (eventMessage e) (CHR ''|'') =
    ''federloom-event-v2'' # IP e # Reason e # RFC3339Nano (Timestamp e) # ReporterID e #
    Split (SubnetID e) (CHR ''|'')"
proof -
  have "eventMessage e = ''federloom-event-v2'' @ CHR ''|'' # IP e @ CHR ''|'' # Reason e @
      CHR ''|'' # RFC3339Nano (Timestamp e) @ CHR ''|'' # ReporterID e @ CHR ''|'' # SubnetID e"
    by (simp add: eventMessage_def)
  then show ?thesis using assms by (simp only: Split_append no_bar_texts time_texts_no_bar not_False_eq_True)
qed

lemma voteMessage_fields:
  assumes "CHR ''|'' \<notin> set (IP e)" "CHR ''|'' \<notin> set (ReporterID e)"
  shows "Split (voteMessage e) (CHR ''|'') =
    ''federloom-vote-v2'' # IP e # RFC3339Nano (Timestamp e) # ReporterID e #
    Split (SubnetID e) (CHR ''|'')"
proof -
  have "voteMessage e = ''federloom-vote-v2'' @ CHR ''|'' # IP e @ CHR ''|'' #
      RFC3339Nano (Timestamp e) @ CHR ''|'' # ReporterID e @ CHR ''|'' # SubnetID e"
    by (simp add: voteMessage_def)
  then show ?thesis using assms by (simp only: Split_append no_bar_texts time_texts_no_bar not_False_eq_True)
qed

lemma certMessage_fields:
  assumes "CHR ''|'' \<notin> set p"
  shows "Split (certMessage p k v) (CHR ''|'') = [''federloom-peer-cert-v1'', p, EncodeToString k, RFC3339 v]"
proof -
  have "certMessage p k v = ''federloom-peer-cert-v1'' @ CHR ''|'' # p @ CHR ''|'' #
      EncodeToString k @ CHR ''|'' # RFC3339 v"
    by (simp add: certMessage_def)
  then show ?thesis using assms
    by (simp only: Split_append Split_single no_bar_texts time_texts_no_bar encode_no_bar not_False_eq_True)
qed

lemma message_heads:
  "take 14 (eventMessage e) = ''federloom-even''" "take 14 (voteMessage e) = ''federloom-vote''"
  "take 14 (certMessage p k v) = ''federloom-peer''"
  by (simp_all add: eventMessage_def voteMessage_def certMessage_def)

text \<open>The three kinds of message never coincide, whatever their fields hold.\<close>

lemma messages_disjoint:
  "eventMessage e \<noteq> voteMessage e'" "voteMessage e \<noteq> certMessage p k v" "eventMessage e \<noteq> certMessage p k v"
proof -
  show "eventMessage e \<noteq> voteMessage e'"
  proof
    assume "eventMessage e = voteMessage e'"
    then have "''federloom-even'' = ''federloom-vote''" using message_heads by metis
    then show False by simp
  qed
  show "voteMessage e \<noteq> certMessage p k v"
  proof
    assume "voteMessage e = certMessage p k v"
    then have "''federloom-vote'' = ''federloom-peer''" using message_heads by metis
    then show False by simp
  qed
  show "eventMessage e \<noteq> certMessage p k v"
  proof
    assume "eventMessage e = certMessage p k v"
    then have "''federloom-even'' = ''federloom-peer''" using message_heads by metis
    then show False by simp
  qed
qed

text \<open>The fields a signature of \<open>e\<close> binds: for a vote the reason is not among them.\<close>

definition signed_fields :: "Event \<Rightarrow> bool \<times> string \<times> string \<times> string \<times> string \<times> string" where
  "signed_fields e =
     (is_vote e, IP e, (if is_vote e then '''' else Reason e), RFC3339Nano (Timestamp e), ReporterID e,
      SubnetID e)"

definition plain_fields :: "Event \<Rightarrow> bool" where
  "plain_fields e \<longleftrightarrow> CHR ''|'' \<notin> set (IP e) \<and> CHR ''|'' \<notin> set (Reason e) \<and> CHR ''|'' \<notin> set (ReporterID e)"

lemma signedMessage_fields:
  assumes "plain_fields a" "plain_fields b" "signedMessage a = signedMessage b"
  shows "signed_fields a = signed_fields b"
proof (cases "is_vote a"; cases "is_vote b")
  assume v: "is_vote a" "is_vote b"
  then have "Split (voteMessage a) (CHR ''|'') = Split (voteMessage b) (CHR ''|'')"
    using assms(3) by (simp add: signedMessage_def is_vote_def)
  with v assms(1,2) show ?thesis
    by (auto simp: voteMessage_fields plain_fields_def signed_fields_def dest: Split_inj)
next
  assume v: "\<not> is_vote a" "\<not> is_vote b"
  then have "Split (eventMessage a) (CHR ''|'') = Split (eventMessage b) (CHR ''|'')"
    using assms(3) by (simp add: signedMessage_def is_vote_def)
  with v assms(1,2) show ?thesis
    by (auto simp: eventMessage_fields plain_fields_def signed_fields_def dest: Split_inj)
next
  assume "is_vote a" "\<not> is_vote b"
  with assms(3) have "eventMessage b = voteMessage a" by (simp add: signedMessage_def is_vote_def)
  then show ?thesis using messages_disjoint(1) by blast
next
  assume "\<not> is_vote a" "is_vote b"
  with assms(3) have "eventMessage a = voteMessage b" by (simp add: signedMessage_def is_vote_def)
  then show ?thesis using messages_disjoint(1) by blast
qed

section \<open>Signing and verifying\<close>

lemma signedMessage_Signature [simp]: "signedMessage (e\<lparr>Signature := s\<rparr>) = signedMessage e"
  by (simp add: signedMessage_def voteMessage_def eventMessage_def)

text \<open>
  libp2p on an Ed25519 key \<open>sk\<close>: signing succeeds, the peer ID embeds the public key, and a
  signature verifies under it.
\<close>

locale libp2p_keys =
  fixes P :: "('sk, 'pid, 'pk) libp2p"
  assumes signs: "\<exists>s. key_Sign P sk m = Inr s \<and> s \<noteq> []"
    and id_text: "IDFromPrivateKey P sk = Inr pid \<Longrightarrow> peer_Decode P (pid_String P pid) = Inr pid"
    and id_nonempty: "pid_String P pid \<noteq> ''''"
    and embeds: "IDFromPrivateKey P sk = Inr pid \<Longrightarrow> \<exists>pk. ExtractPublicKey P pid = Inr pk \<and>
      (\<forall>m s. key_Sign P sk m = Inr s \<longrightarrow> key_Verify P pk m s = Inr True)"
begin

lemma SignEvent_verifies:
  assumes "PeerIDFromPrivKey P sk = Inr rid" "ReporterID e = rid"
  shows "\<exists>e'. SignEvent P e sk = Inr e' \<and> VerifyEventSig P e' = None"
proof -
  obtain pid where pid: "IDFromPrivateKey P sk = Inr pid" "rid = pid_String P pid"
    using assms(1) by (auto simp: PeerIDFromPrivKey_def split: sum.splits)
  obtain s where s: "key_Sign P sk (signedMessage e) = Inr s" "s \<noteq> []" using signs by blast
  obtain pk where "ExtractPublicKey P pid = Inr pk" "key_Verify P pk (signedMessage e) s = Inr True"
    using embeds [OF pid(1)] s(1) by blast
  then show ?thesis
    using s pid assms(2) id_text [OF pid(1)] id_nonempty [of pid]
    by (simp add: SignEvent_def VerifyEventSig_def)
qed

end

context ed25519_scheme
begin

lemma key_parts:
  "length seed = 32 \<Longrightarrow> key_Seed (NewKeyFromSeed C seed) = seed"
  "length seed = 32 \<Longrightarrow> PersonPub (NewKeyFromSeed C seed) = ed_pub C seed"
  by (simp_all add: key_Seed_def NewKeyFromSeed_def PersonPub_def)

lemma IssueCert_verifies:
  assumes "length seed = 32" "p \<noteq> ''''" "CHR ''|'' \<notin> set p" "now < v"
  shows "VerifyCert C (IssueCert C (NewKeyFromSeed C seed) p v) now = None"
  using assms pub_length sign_verify
  by (simp add: VerifyCert_def IssueCert_def Let_def key_parts Before_def NewKeyFromSeed_def PersonPub_def)

lemma generated_key_loads:
  assumes "GeneratePersonKey C f (Inr seed) fs path = (Inr priv, fs')" "length seed = 32"
    "f_stat g = None" "f_read g = None"
  shows "LoadPersonKey C g fs' path = Inr priv"
proof -
  have "priv = NewKeyFromSeed C seed" "fs' path = Some \<lparr>content = EncodeToString seed @ newline, mode = 384\<rparr>"
    using GeneratePersonKey_outcome [OF assms(1)] assms(2) by (auto simp: key_parts)
  with assms show ?thesis by (simp add: LoadPersonKey_stored)
qed

end

lemma VerifyCert_accepts:
  "VerifyCert C cert now = None \<longleftrightarrow>
     PeerID cert \<noteq> '''' \<and> length (PersonKey cert) = 32 \<and> CHR ''|'' \<notin> set (PeerID cert) \<and>
     now < ValidUntil cert \<and>
     ed_verify C (PersonKey cert) (certMessage (PeerID cert) (PersonKey cert) (ValidUntil cert)) (Sig cert)"
  by (auto simp: VerifyCert_def Before_def)

text \<open>
  Verification reads only the signed fields, the reporter and the signature: it never sees the
  trace, the vouch, nor the reason of a vote.
\<close>

lemma VerifyEventSig_cong:
  "signedMessage a = signedMessage b \<Longrightarrow> ReporterID a = ReporterID b \<Longrightarrow> Signature a = Signature b
   \<Longrightarrow> VerifyEventSig P a = VerifyEventSig P b"
  by (simp only: VerifyEventSig_def)

text \<open>A signature scheme on which the laws hold: a signature is the key followed by the message.\<close>

definition plain_ed25519 :: ed25519 where
  "plain_ed25519 = \<lparr>ed_pub = \<lambda>seed. seed, ed_sign = \<lambda>priv m. take 32 priv @ m,
     ed_verify = \<lambda>pub m s. s = pub @ m\<rparr>"

interpretation plain: ed25519_scheme plain_ed25519
  by unfold_locales (simp_all add: plain_ed25519_def)

definition plain_libp2p :: "(string, string, string) libp2p" where
  "plain_libp2p = \<lparr>IDFromPrivateKey = Inr, pid_String = \<lambda>pid. ''12D3'' @ pid,
     peer_Decode = \<lambda>s. if HasPrefix s ''12D3'' then Inr (TrimPrefix s ''12D3'') else Inl (Fault ''bad peer ID''),
     ExtractPublicKey = Inr, key_Sign = \<lambda>sk m. Inr (CHR ''s'' # sk @ m),
     key_Verify = \<lambda>pk m s. Inr (s = CHR ''s'' # pk @ m)\<rparr>"

interpretation plain_keys: libp2p_keys plain_libp2p
  by unfold_locales (auto simp: plain_libp2p_def HasPrefix_def TrimPrefix_def)

definition example_report :: Event where
  "example_report = zero_Event\<lparr>IP := ''192.0.2.7'', Reason := ''ssh-bruteforce'', Timestamp := 5,
     ReporterID := ''12D3ana'', SubnetID := ''blue''\<rparr>"

section \<open>Properties\<close>



text \<open>
  The fields of a report can hold the separator, against the comment at \<open>eventMessage\<close>:
  when the signed subnet of a report reads as a time, the reporter and another subnet, the same
  signature also verifies for a report with another reason, another time and another subnet.
\<close>

theorem bar_in_subnet_shifts_fields:
  assumes "\<not> is_vote e" "SubnetID e = RFC3339Nano t @ ''|'' @ ReporterID e @ ''|'' @ s"
  defines "e' \<equiv> e\<lparr>Reason := Reason e @ ''|'' @ RFC3339Nano (Timestamp e) @ ''|'' @ ReporterID e,
    Timestamp := t, SubnetID := s\<rparr>"
  shows "VerifyEventSig P e' = VerifyEventSig P e \<and> Reason e' \<noteq> Reason e"
proof -
  have "signedMessage e' = signedMessage e"
    using assms(1,2) by (simp add: e'_def signedMessage_def is_vote_def eventMessage_def)
  then show ?thesis by (auto simp: e'_def intro: VerifyEventSig_cong)
qed

theorem bar_in_subnet_shifts_fields_witness:
  "VerifyEventSig plain_libp2p (example_report\<lparr>Reason := ''ssh-bruteforce|'' @ RFC3339Nano 5 @ ''|12D3ana'',
     Timestamp := 9, SubnetID := ''red''\<rparr>) =
   VerifyEventSig plain_libp2p (example_report\<lparr>SubnetID := RFC3339Nano 9 @ ''|12D3ana|red''\<rparr>)"
  using bar_in_subnet_shifts_fields
    [of "example_report\<lparr>SubnetID := RFC3339Nano 9 @ ''|12D3ana|red''\<rparr>" 9 "''red''" plain_libp2p]
  by (simp add: is_vote_def example_report_def zero_Event_def)

text \<open>
  C23. \<open>SignEvent\<close> then \<open>VerifyEventSig\<close>: an event signed with a node's key verifies when
  its reporter is that node's peer ID, and still verifies after a relay has rewritten its trace and
  its vouch.
\<close>

theorem signed_event_verifies:
  assumes "libp2p_keys P" "PeerIDFromPrivKey P sk = Inr rid" "ReporterID e = rid"
  shows "\<exists>e'. SignEvent P e sk = Inr e' \<and>
    (\<forall>tr v. VerifyEventSig P (e'\<lparr>OriginTrace := tr, Vouch := v\<rparr>) = None)"
proof -
  obtain e' where e': "SignEvent P e sk = Inr e'" "VerifyEventSig P e' = None"
    using libp2p_keys.SignEvent_verifies [OF assms] by blast
  have "VerifyEventSig P (e'\<lparr>OriginTrace := tr, Vouch := v\<rparr>) = VerifyEventSig P e'" for tr v
    by (rule VerifyEventSig_cong) (simp_all add: signedMessage_def voteMessage_def eventMessage_def)
  with e' show ?thesis by auto
qed

theorem signed_event_verifies_witness:
  "\<exists>e'. SignEvent plain_libp2p example_report ''ana'' = Inr e' \<and>
    (\<forall>tr v. VerifyEventSig plain_libp2p (e'\<lparr>OriginTrace := tr, Vouch := v\<rparr>) = None)"
  using signed_event_verifies [OF plain_keys.libp2p_keys_axioms, of "''ana''" "''12D3ana''" example_report]
  by (simp add: PeerIDFromPrivKey_def plain_libp2p_def example_report_def)

text \<open>
  \<open>IssueCert\<close> then \<open>VerifyCert\<close>: a certificate a Person key issues for a plain peer ID
  is accepted exactly before its expiry, and whatever certificate is accepted names a non-empty
  plain peer ID, carries a 32-byte key, has not expired, and is signed by that key.
\<close>

theorem certificates_verify:
  assumes "ed25519_scheme C" "length seed = 32" "p \<noteq> ''''" "CHR ''|'' \<notin> set p"
  shows "(VerifyCert C (IssueCert C (NewKeyFromSeed C seed) p v) now = None \<longleftrightarrow> now < v) \<and>
    (\<forall>cert. VerifyCert C cert now = None \<longrightarrow>
       PeerID cert \<noteq> '''' \<and> CHR ''|'' \<notin> set (PeerID cert) \<and> length (PersonKey cert) = 32 \<and>
       now < ValidUntil cert \<and>
       ed_verify C (PersonKey cert)
         (certMessage (PeerID cert) (PersonKey cert) (ValidUntil cert)) (Sig cert))"
proof -
  have "VerifyCert C (IssueCert C (NewKeyFromSeed C seed) p v) now = None \<Longrightarrow> now < v"
    by (simp add: VerifyCert_accepts IssueCert_def Let_def)
  then show ?thesis
    using ed25519_scheme.IssueCert_verifies [OF assms] VerifyCert_accepts by blast
qed

theorem certificates_verify_witness:
  "VerifyCert plain_ed25519
     (IssueCert plain_ed25519 (NewKeyFromSeed plain_ed25519 (replicate 32 (CHR ''k''))) ''12D3ana'' 10) 3 = None"
  using certificates_verify [OF plain.ed25519_scheme_axioms, of "replicate 32 (CHR ''k'')" "''12D3ana''" 10 3]
  by simp

text \<open>
  \<open>GeneratePersonKey\<close> then \<open>LoadPersonKey\<close>: whatever call of the file system fails,
  the key file is either left as it was or holds the whole key, no third file is touched, an
  existing key is never overwritten; a generated key is loaded back, and its public key survives
  \<open>EncodePub\<close> and \<open>DecodePub\<close>.
\<close>

theorem person_key_roundtrip:
  assumes "ed25519_scheme C" "\<forall>seed. rnd = Inr seed \<longrightarrow> length seed = 32"
    "GeneratePersonKey C f rnd fs path = (r, fs')" "f_stat g = None" "f_read g = None"
  shows "(case r of
       Inl _ \<Rightarrow> fs' path = fs path
     | Inr priv \<Rightarrow> LoadPersonKey C g fs' path = Inr priv \<and>
         DecodePub (EncodePub (PersonPub priv)) = Inr (PersonPub priv)) \<and>
    (\<forall>q. q \<noteq> path \<and> q \<noteq> path @ ''.tmp'' \<longrightarrow> fs' q = fs q) \<and>
    (f_stat f = None \<and> fs path \<noteq> None \<longrightarrow> is_err r \<and> fs' = fs)"
proof -
  have kept: "f_stat f = None \<and> fs path \<noteq> None \<longrightarrow> is_err r \<and> fs' = fs"
    using assms(3) by (auto simp: GeneratePersonKey_def Stat_def)
  have "case r of Inl _ \<Rightarrow> fs' path = fs path
     | Inr priv \<Rightarrow> LoadPersonKey C g fs' path = Inr priv \<and>
         DecodePub (EncodePub (PersonPub priv)) = Inr (PersonPub priv)"
  proof (cases r)
    case (Inr priv)
    obtain seed where seed: "rnd = Inr seed" "priv = NewKeyFromSeed C seed" "length seed = 32"
      using GeneratePersonKey_outcome [OF assms(3)] assms(2) Inr by auto
    with assms Inr show ?thesis
      by (simp add: ed25519_scheme.generated_key_loads ed25519_scheme.key_parts
          ed25519_scheme.pub_length EncodePub_Decode)
  qed (use GeneratePersonKey_outcome [OF assms(3)] in simp)
  with kept GeneratePersonKey_others [OF assms(3)] show ?thesis by blast
qed

lemma GeneratePersonKey_fresh:
  "\<exists>fs'. GeneratePersonKey C no_faults (Inr seed) Map.empty path = (Inr (NewKeyFromSeed C seed), fs')"
  by (simp add: GeneratePersonKey_def os_defs no_faults_def Let_def)

theorem person_key_roundtrip_witness:
  "\<exists>priv fs'. GeneratePersonKey plain_ed25519 no_faults (Inr (replicate 32 (CHR ''k''))) Map.empty ''me'' =
     (Inr priv, fs') \<and> LoadPersonKey plain_ed25519 no_faults fs' ''me'' = Inr priv"
proof -
  let ?seed = "replicate 32 (CHR ''k'')"
  obtain fs' where g: "GeneratePersonKey plain_ed25519 no_faults (Inr ?seed) Map.empty ''me'' =
      (Inr (NewKeyFromSeed plain_ed25519 ?seed), fs')"
    using GeneratePersonKey_fresh by blast
  have "\<forall>seed. (Inr ?seed :: error + bytes) = Inr seed \<longrightarrow> length seed = 32" by simp
  from person_key_roundtrip [OF plain.ed25519_scheme_axioms this g, of no_faults]
  have "LoadPersonKey plain_ed25519 no_faults fs' ''me'' = Inr (NewKeyFromSeed plain_ed25519 ?seed)"
    by (simp add: no_faults_def)
  with g show ?thesis by blast
qed

end
