(* ===== verification/Trust.thy ===== *)
theory Trust
  imports Identity
begin

text \<open>
  Package \<open>internal/trust\<close>: the anchored Person identities, the imported certificates and the
  blocked peers with their files (\<open>anchors.go\<close>, \<open>certs.go\<close>, \<open>blocked.go\<close>,
  \<open>bundle.go\<close>), and the store that answers how much a peer is trusted (\<open>store.go\<close>).
  JSON is Go's \<open>encoding/json\<close>: its encoders and decoders are the record \<open>trust_json\<close>.
\<close>

section \<open>The files\<close>

record Anchor =
  Person :: string
  Label :: string
  IdentityPubkey :: string
  anchor_Weight :: real
  anchor_ValidUntil :: time
  anchor_Source :: string

record Bundle =
  bundle_Person :: string
  bundle_Label :: string
  bundle_IdentityPubkey :: string
  Certs :: "PeerCert list"

definition Expired :: "Anchor \<Rightarrow> time \<Rightarrow> bool" where
  "Expired a now \<longleftrightarrow> \<not> IsZero (anchor_ValidUntil a) \<and> After now (anchor_ValidUntil a)"

record trust_json =
  dec_anchors :: "string \<Rightarrow> error + Anchor list"
  enc_anchors :: "Anchor list \<Rightarrow> error + string"
  dec_certs :: "string \<Rightarrow> error + PeerCert list"
  enc_certs :: "PeerCert list \<Rightarrow> error + string"
  dec_peers :: "string \<Rightarrow> error + string list"
  enc_peers :: "string list \<Rightarrow> error + string"

text \<open>
  What the three loaders share: a missing file is the empty list. \<open>r\<close> is the result of
  \<open>os.ReadFile\<close>.
\<close>

definition load_list :: "(string \<Rightarrow> error + 'a list) \<Rightarrow> string \<Rightarrow> string \<Rightarrow> error + string \<Rightarrow> error + 'a list" where
  "load_list decode read_msg parse_msg r =
     (case r of
        Inl e \<Rightarrow> if IsNotExist e then Inr [] else Inl (Wrap read_msg e)
      | Inr data \<Rightarrow> (case decode data of Inl e \<Rightarrow> Inl (Wrap parse_msg e) | Inr xs \<Rightarrow> Inr xs))"

definition LoadAnchors :: "trust_json \<Rightarrow> error + string \<Rightarrow> error + Anchor list" where
  "LoadAnchors J = load_list (dec_anchors J) ''trust: read'' ''trust: parse''"

definition LoadCerts :: "trust_json \<Rightarrow> error + string \<Rightarrow> error + PeerCert list" where
  "LoadCerts J = load_list (dec_certs J) ''trust: read'' ''trust: parse''"

definition LoadBlockedPeers :: "trust_json \<Rightarrow> error + string \<Rightarrow> error + string list" where
  "LoadBlockedPeers J = load_list (dec_peers J) ''trust: read blocked peers'' ''trust: parse blocked peers''"

text \<open>\<open>atomicWrite\<close>; \<open>tmp\<close> is the fresh name \<open>os.CreateTemp\<close> picks.\<close>

definition atomicWrite :: "os_faults \<Rightarrow> fs \<Rightarrow> string \<Rightarrow> string \<Rightarrow> string \<Rightarrow> error option \<times> fs" where
  "atomicWrite f fs tmp path data =
     (case f_mkdir f of
        Some e \<Rightarrow> (Some (Wrap ''trust: create dir'' e), fs)
      | None \<Rightarrow>
          (case f_open f of
             Some e \<Rightarrow> (Some (Wrap ''trust: temp file'' e), fs)
           | None \<Rightarrow>
               (case WriteOpen f (fs(tmp \<mapsto> \<lparr>content = '''', mode = 384\<rparr>)) tmp data of
                  (Some e, fs) \<Rightarrow> (Some (Wrap ''trust: write temp'' e), snd (Remove f fs tmp))
                | (None, fs) \<Rightarrow>
                    (case f_close f of
                       Some e \<Rightarrow> (Some (Wrap ''trust: close temp'' e), snd (Remove f fs tmp))
                     | None \<Rightarrow>
                         (case Rename f fs tmp path of
                            (Some e, fs) \<Rightarrow> (Some (Wrap ''trust: rename'' e), snd (Remove f fs tmp))
                          | (None, fs) \<Rightarrow> (None, fs))))))"

definition save_list ::
  "('a list \<Rightarrow> error + string) \<Rightarrow> string \<Rightarrow> os_faults \<Rightarrow> fs \<Rightarrow> string \<Rightarrow> string \<Rightarrow> 'a list \<Rightarrow> error option \<times> fs" where
  "save_list encode marshal_msg f fs tmp path xs =
     (case encode xs of
        Inl e \<Rightarrow> (Some (Wrap marshal_msg e), fs) | Inr data \<Rightarrow> atomicWrite f fs tmp path data)"

definition SaveAnchors :: "trust_json \<Rightarrow> os_faults \<Rightarrow> fs \<Rightarrow> string \<Rightarrow> string \<Rightarrow> Anchor list \<Rightarrow> error option \<times> fs" where
  "SaveAnchors J = save_list (enc_anchors J) ''trust: marshal anchors''"

definition SaveCerts :: "trust_json \<Rightarrow> os_faults \<Rightarrow> fs \<Rightarrow> string \<Rightarrow> string \<Rightarrow> PeerCert list \<Rightarrow> error option \<times> fs" where
  "SaveCerts J = save_list (enc_certs J) ''trust: marshal certs''"

definition SaveBlockedPeers :: "trust_json \<Rightarrow> os_faults \<Rightarrow> fs \<Rightarrow> string \<Rightarrow> string \<Rightarrow> string list \<Rightarrow> error option \<times> fs" where
  "SaveBlockedPeers J = save_list (enc_peers J) ''trust: marshal blocked peers''"

section \<open>The store\<close>

type_synonym file_stat = "time \<times> int"

record TrustStore =
  anchorsPath :: string
  certsPath :: string
  blockedPath :: string
  strangerWeight :: real
  reloadEvery :: duration
  anchors :: "string \<rightharpoonup> Anchor"
  certs :: "string \<rightharpoonup> PeerCert"
  blocked :: "string set"
  lastCheck :: time
  anchorsStat :: file_stat
  certsStat :: file_stat
  blockedStat :: file_stat
  loadedOnce :: bool

text \<open>
  What the disk answers during one reload: each file's \<open>os.Stat\<close> (\<open>None\<close> when it fails) and
  \<open>os.ReadFile\<close>.
\<close>

record trust_files =
  af_stat :: "file_stat option"
  af_read :: "error + string"
  cf_stat :: "file_stat option"
  cf_read :: "error + string"
  bf_stat :: "file_stat option"
  bf_read :: "error + string"

definition statChanged :: "file_stat option \<Rightarrow> file_stat \<Rightarrow> file_stat \<times> bool" where
  "statChanged st prev =
     (case st of
        None \<Rightarrow> ((zero_time, 0), True)
      | Some cur \<Rightarrow> (cur, fst cur \<noteq> fst prev \<or> snd cur \<noteq> snd prev))"

text \<open>The two loops of \<open>maybeReload\<close>: over the anchors read, and over the certificates read.\<close>

fun anchor_loop :: "Anchor list \<Rightarrow> (string \<rightharpoonup> Anchor) \<Rightarrow> (string \<rightharpoonup> Anchor)" where
  "anchor_loop [] m = m"
| "anchor_loop (a # rest) m =
     (if anchor_Weight a \<le> 0 then anchor_loop rest m
      else (let a = (if anchor_Weight a > 1 then a\<lparr>anchor_Weight := 1\<rparr> else a)
            in anchor_loop rest (m(IdentityPubkey a \<mapsto> a))))"

fun cert_loop :: "ed25519 \<Rightarrow> time \<Rightarrow> PeerCert list \<Rightarrow> (string \<rightharpoonup> PeerCert) \<Rightarrow> (string \<rightharpoonup> PeerCert)" where
  "cert_loop C now [] m = m"
| "cert_loop C now (c # rest) m =
     (if VerifyCert C c now \<noteq> None then cert_loop C now rest m
      else if (case m (PeerID c) of None \<Rightarrow> True
               | Some existing \<Rightarrow> After (ValidUntil c) (ValidUntil existing))
      then cert_loop C now rest (m(PeerID c \<mapsto> c))
      else cert_loop C now rest m)"

definition reload_anchors :: "trust_json \<Rightarrow> trust_files \<Rightarrow> TrustStore \<Rightarrow> TrustStore" where
  "reload_anchors J fl s =
     (let (st, changed) = statChanged (af_stat fl) (anchorsStat s)
      in if changed \<or> \<not> loadedOnce s
         then (case LoadAnchors J (af_read fl) of
                 Inl _ \<Rightarrow> if loadedOnce s then s else s\<lparr>anchors := Map.empty\<rparr>
               | Inr xs \<Rightarrow> s\<lparr>anchors := anchor_loop xs Map.empty, anchorsStat := st\<rparr>)
         else s)"

definition reload_certs :: "ed25519 \<Rightarrow> trust_json \<Rightarrow> trust_files \<Rightarrow> time \<Rightarrow> TrustStore \<Rightarrow> TrustStore" where
  "reload_certs C J fl now s =
     (let (st, changed) = statChanged (cf_stat fl) (certsStat s)
      in if changed \<or> \<not> loadedOnce s
         then (case LoadCerts J (cf_read fl) of
                 Inl _ \<Rightarrow> s
               | Inr xs \<Rightarrow> s\<lparr>certs := cert_loop C now xs (certs s), certsStat := st\<rparr>)
         else s)"

definition reload_blocked :: "trust_json \<Rightarrow> trust_files \<Rightarrow> TrustStore \<Rightarrow> TrustStore" where
  "reload_blocked J fl s =
     (if blockedPath s = '''' then s
      else (let (st, changed) = statChanged (bf_stat fl) (blockedStat s)
            in if changed \<or> \<not> loadedOnce s
               then (case LoadBlockedPeers J (bf_read fl) of
                       Inl _ \<Rightarrow> s
                     | Inr xs \<Rightarrow> s\<lparr>blocked := set xs, blockedStat := st\<rparr>)
               else s))"

definition maybeReload :: "ed25519 \<Rightarrow> trust_json \<Rightarrow> trust_files \<Rightarrow> time \<Rightarrow> TrustStore \<Rightarrow> TrustStore" where
  "maybeReload C J fl now s =
     (if loadedOnce s \<and> Sub now (lastCheck s) < reloadEvery s then s
      else (let s = s\<lparr>lastCheck := now\<rparr>;
                s = reload_anchors J fl s;
                s = reload_certs C J fl now s;
                s = reload_blocked J fl s
            in s\<lparr>loadedOnce := True\<rparr>))"

definition NewStore ::
  "ed25519 \<Rightarrow> trust_json \<Rightarrow> trust_files \<Rightarrow> time \<Rightarrow> string \<Rightarrow> string \<Rightarrow> string \<Rightarrow> real \<Rightarrow> TrustStore" where
  "NewStore C J fl now aPath cPath bPath sw =
     maybeReload C J fl now
       \<lparr>anchorsPath = aPath, certsPath = cPath, blockedPath = bPath, strangerWeight = sw,
        reloadEvery = 10 * second, anchors = Map.empty, certs = Map.empty, blocked = {},
        lastCheck = zero_time, anchorsStat = (zero_time, 0), certsStat = (zero_time, 0),
        blockedStat = (zero_time, 0), loadedOnce = False\<rparr>"

definition SetReloadInterval :: "TrustStore \<Rightarrow> duration \<Rightarrow> TrustStore" where
  "SetReloadInterval s d = s\<lparr>reloadEvery := d\<rparr>"

definition AddCert :: "ed25519 \<Rightarrow> TrustStore \<Rightarrow> PeerCert \<Rightarrow> time \<Rightarrow> error option \<times> TrustStore" where
  "AddCert C s cert now =
     (case VerifyCert C cert now of
        Some e \<Rightarrow> (Some e, s) | None \<Rightarrow> (None, s\<lparr>certs := (certs s)(PeerID cert \<mapsto> cert)\<rparr>))"

text \<open>The lookup of \<open>Resolve\<close> after the reload.\<close>

definition resolve_in :: "TrustStore \<Rightarrow> time \<Rightarrow> string \<Rightarrow> real \<times> string \<times> bool" where
  "resolve_in s now peerID =
     (case certs s peerID of
        None \<Rightarrow> (strangerWeight s, '''', False)
      | Some cert \<Rightarrow>
          if After now (ValidUntil cert) then (strangerWeight s, '''', False)
          else (case anchors s (EncodePub (PersonKey cert)) of
                  None \<Rightarrow> (strangerWeight s, '''', False)
                | Some a \<Rightarrow>
                    if Expired a now then (strangerWeight s, '''', False)
                    else (anchor_Weight a, Person a, True)))"

definition Resolve ::
  "ed25519 \<Rightarrow> trust_json \<Rightarrow> trust_files \<Rightarrow> time \<Rightarrow> TrustStore \<Rightarrow> string \<Rightarrow> (real \<times> string \<times> bool) \<times> TrustStore" where
  "Resolve C J fl now s peerID =
     (let s = maybeReload C J fl now s in (resolve_in s now peerID, s))"

definition IsBlocked ::
  "ed25519 \<Rightarrow> trust_json \<Rightarrow> trust_files \<Rightarrow> time \<Rightarrow> TrustStore \<Rightarrow> string \<Rightarrow> bool \<times> TrustStore" where
  "IsBlocked C J fl now s peerID =
     (let s = maybeReload C J fl now s in (peerID \<in> blocked s, s))"

section \<open>Files written through a rename\<close>

interpretation saved: atomic_writer atomicWrite
proof unfold_locales
  fix tmp p data fs fs' :: string and f r
  fix fs fs' :: fs
  assume "tmp \<noteq> p" "atomicWrite f fs tmp p data = (r, fs')"
  then show "if r = None then \<exists>m. fs' p = Some \<lparr>content = data, mode = m\<rparr> else fs' p = fs p"
    by (auto simp: atomicWrite_def os_defs split: option.splits if_splits)
next
  fix q p tmp data :: string and f r
  fix fs fs' :: fs
  assume "q \<noteq> p" "q \<noteq> tmp" "atomicWrite f fs tmp p data = (r, fs')"
  then show "fs' q = fs q"
    by (auto simp: atomicWrite_def os_defs split: option.splits if_splits)
qed

lemma save_load_list:
  assumes "\<forall>xs d. encode xs = Inr d \<longrightarrow> decode d = Inr xs" "tmp \<noteq> path" "f_read g = None"
    "save_list encode m f fs tmp path xs = (None, fs')"
  shows "load_list decode rm pm (ReadFile g fs' path) = Inr xs"
proof (cases "encode xs")
  case (Inr data)
  with assms(4) have w: "atomicWrite f fs tmp path data = (None, fs')" by (simp add: save_list_def)
  show ?thesis
    using saved.read_back [OF assms(2) w assms(3)] assms(1) Inr by (simp add: load_list_def)
qed (use assms(4) in \<open>simp add: save_list_def\<close>)

lemma save_list_failed:
  assumes "tmp \<noteq> path" "save_list encode m f fs tmp path xs = (Some e, fs')"
  shows "fs' path = fs path"
proof (cases "encode xs")
  case (Inr data)
  with assms(2) have "atomicWrite f fs tmp path data = (Some e, fs')" by (simp add: save_list_def)
  from saved.all_or_nothing [OF assms(1) this] show ?thesis by simp
qed (use assms(2) in \<open>simp add: save_list_def\<close>)

section \<open>Well-formed trust\<close>

text \<open>
  Anchors are kept under their own key with a weight in (0,1], certificates under their own peer,
  each of them verified at some time.
\<close>

definition anchors_ok :: "(string \<rightharpoonup> Anchor) \<Rightarrow> bool" where
  "anchors_ok m \<longleftrightarrow> (\<forall>k a. m k = Some a \<longrightarrow> IdentityPubkey a = k \<and> 0 < anchor_Weight a \<and> anchor_Weight a \<le> 1)"

definition certs_ok :: "ed25519 \<Rightarrow> (string \<rightharpoonup> PeerCert) \<Rightarrow> bool" where
  "certs_ok C m \<longleftrightarrow> (\<forall>p c. m p = Some c \<longrightarrow> PeerID c = p \<and> (\<exists>t. VerifyCert C c t = None))"

definition trust_ok :: "ed25519 \<Rightarrow> TrustStore \<Rightarrow> bool" where
  "trust_ok C s \<longleftrightarrow> anchors_ok (anchors s) \<and> certs_ok C (certs s)"

lemma maps_ok_empty [simp]: "anchors_ok Map.empty" "certs_ok C Map.empty"
  by (simp_all add: anchors_ok_def certs_ok_def)

lemma anchors_ok_put:
  "anchors_ok m \<Longrightarrow> 0 < anchor_Weight a \<Longrightarrow> anchor_Weight a \<le> 1 \<Longrightarrow> anchors_ok (m(IdentityPubkey a \<mapsto> a))"
  unfolding anchors_ok_def by simp

lemma certs_ok_put: "certs_ok C m \<Longrightarrow> VerifyCert C c t = None \<Longrightarrow> certs_ok C (m(PeerID c \<mapsto> c))"
  unfolding certs_ok_def by (metis map_upd_Some_unfold)

lemma anchor_loop_ok: "anchors_ok m \<Longrightarrow> anchors_ok (anchor_loop xs m)"
proof (induction xs arbitrary: m)
  case (Cons b rest)
  let ?c = "b\<lparr>anchor_Weight := 1\<rparr>"
  consider "anchor_Weight b \<le> 0" | "anchor_Weight b > 1" | "0 < anchor_Weight b" "anchor_Weight b \<le> 1"
    by linarith
  then show ?case
  proof cases
    case 2
    then have "anchor_loop (b # rest) m = anchor_loop rest (m(IdentityPubkey ?c \<mapsto> ?c))" by simp
    moreover have "anchors_ok (m(IdentityPubkey ?c \<mapsto> ?c))"
      using Cons.prems by (rule anchors_ok_put) simp_all
    ultimately show ?thesis by (simp only: Cons.IH)
  next
    case 3
    then show ?thesis using Cons.IH [OF anchors_ok_put [OF Cons.prems 3]] by (simp del: fun_upd_apply)
  qed (simp add: Cons)
qed simp

lemma cert_loop_ok: "certs_ok C m \<Longrightarrow> certs_ok C (cert_loop C now xs m)"
proof (induction xs arbitrary: m)
  case (Cons d rest)
  show ?case
  proof (cases "VerifyCert C d now = None")
    case True
    with Cons.IH [OF certs_ok_put [OF Cons.prems True]] Cons.IH [OF Cons.prems] show ?thesis
      by (simp del: fun_upd_apply)
  qed (simp add: Cons)
qed simp

lemma reload_frame [frame_simps]:
  "certs (reload_anchors J fl s) = certs s" "blocked (reload_anchors J fl s) = blocked s"
  "anchors (reload_certs C J fl now s) = anchors s" "blocked (reload_certs C J fl now s) = blocked s"
  "anchors (reload_blocked J fl s) = anchors s" "certs (reload_blocked J fl s) = certs s"
  "loadedOnce (reload_anchors J fl s) = loadedOnce s" "loadedOnce (reload_certs C J fl now s) = loadedOnce s"
  "strangerWeight (reload_anchors J fl s) = strangerWeight s"
  "strangerWeight (reload_certs C J fl now s) = strangerWeight s"
  "strangerWeight (reload_blocked J fl s) = strangerWeight s"
  "certsStat (reload_anchors J fl s) = certsStat s" "blockedStat (reload_certs C J fl now s) = blockedStat s"
  "blockedStat (reload_anchors J fl s) = blockedStat s" "blockedPath (reload_anchors J fl s) = blockedPath s"
  "blockedPath (reload_certs C J fl now s) = blockedPath s"
  by (simp_all add: reload_anchors_def reload_certs_def reload_blocked_def case_prod_beta Let_def
      split: sum.split)

lemma reload_anchors_ok: "trust_ok C s \<Longrightarrow> trust_ok C (reload_anchors J fl s)"
  by (simp add: trust_ok_def reload_anchors_def case_prod_beta Let_def anchor_loop_ok split: sum.split)

lemma reload_certs_ok: "trust_ok C s \<Longrightarrow> trust_ok C (reload_certs C J fl now s)"
  by (simp add: trust_ok_def reload_certs_def case_prod_beta Let_def cert_loop_ok split: sum.split)

lemma reload_blocked_ok: "trust_ok C s \<Longrightarrow> trust_ok C (reload_blocked J fl s)"
  by (simp add: trust_ok_def frame_simps)

lemma trust_ok_update [simp]:
  "trust_ok C (s\<lparr>lastCheck := t\<rparr>) = trust_ok C s" "trust_ok C (s\<lparr>loadedOnce := b\<rparr>) = trust_ok C s"
  by (simp_all add: trust_ok_def)

lemma maybeReload_ok: "trust_ok C s \<Longrightarrow> trust_ok C (maybeReload C J fl now s)"
  by (simp add: maybeReload_def Let_def reload_anchors_ok reload_certs_ok reload_blocked_ok)

lemma maybeReload_weight [frame_simps]: "strangerWeight (maybeReload C J fl now s) = strangerWeight s"
  by (simp add: maybeReload_def Let_def frame_simps)

lemma NewStore_ok: "trust_ok C (NewStore C J fl now a c b sw)"
  unfolding NewStore_def by (rule maybeReload_ok) (simp add: trust_ok_def)

lemma AddCert_ok: "trust_ok C s \<Longrightarrow> trust_ok C (snd (AddCert C s cert now))"
  by (simp add: AddCert_def trust_ok_def certs_ok_put split: option.split)

lemma AddCert_frame [frame_simps]:
  "strangerWeight (snd (AddCert C s cert now)) = strangerWeight s"
  "anchors (snd (AddCert C s cert now)) = anchors s" "blocked (snd (AddCert C s cert now)) = blocked s"
  by (simp_all add: AddCert_def split: option.split)

lemma Resolve_ok: "trust_ok C s \<Longrightarrow> trust_ok C (snd (Resolve C J fl now s p))"
  by (simp add: Resolve_def Let_def maybeReload_ok)

lemma IsBlocked_ok: "trust_ok C s \<Longrightarrow> trust_ok C (snd (IsBlocked C J fl now s p))"
  by (simp add: IsBlocked_def Let_def maybeReload_ok)

text \<open>Who counts as anchored.\<close>

definition vouched :: "TrustStore \<Rightarrow> time \<Rightarrow> string \<Rightarrow> PeerCert \<Rightarrow> Anchor \<Rightarrow> bool" where
  "vouched s now p cert a \<longleftrightarrow>
     certs s p = Some cert \<and> now \<le> ValidUntil cert \<and> anchors s (EncodePub (PersonKey cert)) = Some a \<and>
     \<not> Expired a now"

lemma resolve_in_cases:
  "resolve_in s now p = (strangerWeight s, '''', False) \<and> (\<nexists>cert a. vouched s now p cert a) \<or>
   (\<exists>cert a. vouched s now p cert a \<and> resolve_in s now p = (anchor_Weight a, Person a, True))"
  by (auto simp: resolve_in_def vouched_def After_def split: option.split)

lemma resolve_in_anchored:
  "resolve_in s now p = (w, g, True) \<longleftrightarrow> (\<exists>cert a. vouched s now p cert a \<and> w = anchor_Weight a \<and> g = Person a)"
  by (auto simp: resolve_in_def vouched_def After_def split: option.splits if_splits)

lemma resolve_in_stranger: "resolve_in s now p = (w, g, False) \<Longrightarrow> w = strangerWeight s \<and> g = ''''"
  by (auto simp: resolve_in_def split: option.splits if_splits)

lemma resolve_in_weight:
  assumes "trust_ok C s" "resolve_in s now p = (w, g, True)"
  shows "0 < w \<and> w \<le> 1"
  using assms by (auto simp: resolve_in_anchored vouched_def trust_ok_def anchors_ok_def)

text \<open>A sequence of operations, each with the disk and the clock it sees.\<close>

datatype trust_op = TAdd PeerCert | TResolve string | TBlocked string | TInterval duration

fun trust_step :: "ed25519 \<Rightarrow> trust_json \<Rightarrow> trust_op \<times> trust_files \<times> time \<Rightarrow> TrustStore \<Rightarrow> TrustStore" where
  "trust_step C J (TAdd c, fl, now) s = snd (AddCert C s c now)"
| "trust_step C J (TResolve p, fl, now) s = snd (Resolve C J fl now s p)"
| "trust_step C J (TBlocked p, fl, now) s = snd (IsBlocked C J fl now s p)"
| "trust_step C J (TInterval d, fl, now) s = SetReloadInterval s d"

definition trust_run :: "ed25519 \<Rightarrow> trust_json \<Rightarrow> (trust_op \<times> trust_files \<times> time) list \<Rightarrow> TrustStore \<Rightarrow> TrustStore" where
  "trust_run C J = fold (trust_step C J)"

lemma trust_step_ok:
  "trust_ok C s \<Longrightarrow> trust_ok C (trust_step C J x s) \<and> strangerWeight (trust_step C J x s) = strangerWeight s"
proof (cases x)
  case (fields q fl now)
  assume a: "trust_ok C s"
  have d: "trust_ok C (SetReloadInterval s d)" for d
    using a by (simp add: trust_ok_def SetReloadInterval_def)
  show ?thesis
    by (cases q) (simp_all add: fields a d AddCert_ok Resolve_ok IsBlocked_ok frame_simps
        SetReloadInterval_def [THEN arg_cong, of strangerWeight] Resolve_def IsBlocked_def Let_def maybeReload_ok)
qed

lemma trust_run_ok:
  "trust_ok C s \<Longrightarrow> trust_ok C (trust_run C J xs s) \<and> strangerWeight (trust_run C J xs s) = strangerWeight s"
  unfolding trust_run_def
proof (induction xs arbitrary: s)
  case (Cons x xs)
  from trust_step_ok [OF Cons.prems] Cons.IH [of "trust_step C J x s"] show ?case by simp
qed simp

text \<open>A failed reload of a file leaves what was loaded from it.\<close>

lemma maybeReload_failed:
  assumes "loadedOnce s"
  shows "LoadAnchors J (af_read fl) = Inl e \<Longrightarrow> anchors (maybeReload C J fl now s) = anchors s"
    "LoadCerts J (cf_read fl) = Inl e \<Longrightarrow> certs (maybeReload C J fl now s) = certs s"
    "LoadBlockedPeers J (bf_read fl) = Inl e \<Longrightarrow> blocked (maybeReload C J fl now s) = blocked s"
proof -
  let ?s = "s\<lparr>lastCheck := now\<rparr>"
  show "LoadAnchors J (af_read fl) = Inl e \<Longrightarrow> anchors (maybeReload C J fl now s) = anchors s"
    using assms by (simp add: maybeReload_def Let_def frame_simps) (simp add: reload_anchors_def case_prod_beta Let_def)
  show "LoadCerts J (cf_read fl) = Inl e \<Longrightarrow> certs (maybeReload C J fl now s) = certs s"
    using assms by (simp add: maybeReload_def Let_def frame_simps)
      (simp add: reload_certs_def case_prod_beta Let_def frame_simps)
  show "LoadBlockedPeers J (bf_read fl) = Inl e \<Longrightarrow> blocked (maybeReload C J fl now s) = blocked s"
    using assms by (simp add: maybeReload_def Let_def frame_simps)
      (simp add: reload_blocked_def case_prod_beta Let_def frame_simps)
qed

lemma maybeReload_removed:
  assumes "af_stat fl = None" "af_read fl = Inl ErrNotExist" "reloadEvery s \<le> Sub now (lastCheck s)"
  shows "anchors (maybeReload C J fl now s) = Map.empty"
proof -
  have "anchors (reload_anchors J fl (s\<lparr>lastCheck := now\<rparr>)) = Map.empty"
    using assms by (simp add: reload_anchors_def statChanged_def LoadAnchors_def load_list_def IsNotExist_def)
  with assms show ?thesis by (simp add: maybeReload_def Let_def frame_simps)
qed

lemma resolve_in_no_anchors: "anchors s = Map.empty \<Longrightarrow> resolve_in s now p = (strangerWeight s, '''', False)"
  by (simp add: resolve_in_def split: option.split)

section \<open>A store with one vouched peer\<close>

definition ana_key :: bytes where
  "ana_key = replicate 32 (CHR ''a'')"

definition ana_anchor :: Anchor where
  "ana_anchor = \<lparr>Person = ''ana'', Label = '''', IdentityPubkey = EncodePub ana_key, anchor_Weight = 1 / 2,
     anchor_ValidUntil = zero_time, anchor_Source = ''self-added''\<rparr>"

definition ana_cert :: PeerCert where
  "ana_cert = IssueCert plain_ed25519 (NewKeyFromSeed plain_ed25519 ana_key) ''p1'' 100"

definition bob_cert :: PeerCert where
  "bob_cert = IssueCert plain_ed25519 (NewKeyFromSeed plain_ed25519 (replicate 32 (CHR ''b''))) ''p1'' 200"

text \<open>A text format with one file of anchors.\<close>

definition plain_json :: trust_json where
  "plain_json = \<lparr>dec_anchors = \<lambda>d. if d = ''A'' then Inr [ana_anchor] else Inl (Fault ''json''),
     enc_anchors = \<lambda>xs. if xs = [ana_anchor] then Inr ''A'' else Inl (Fault ''json''),
     dec_certs = \<lambda>d. Inl (Fault ''json''), enc_certs = \<lambda>xs. Inl (Fault ''json''),
     dec_peers = \<lambda>d. Inl (Fault ''json''), enc_peers = \<lambda>xs. Inl (Fault ''json'')\<rparr>"

definition ana_files :: trust_files where
  "ana_files = \<lparr>af_stat = Some (1, 1), af_read = Inr ''A'', cf_stat = None, cf_read = Inl ErrNotExist,
     bf_stat = None, bf_read = Inl ErrNotExist\<rparr>"

definition ana_store :: TrustStore where
  "ana_store = NewStore plain_ed25519 plain_json ana_files 10 ''anchors.json'' ''certs.json'' ''blocked.json'' (1 / 10)"

lemma length_keys [simp]: "length ana_key = 32" by (simp add: ana_key_def)

lemma certs_verify:
  "now < 100 \<Longrightarrow> VerifyCert plain_ed25519 ana_cert now = None"
  "now < 200 \<Longrightarrow> VerifyCert plain_ed25519 bob_cert now = None"
  unfolding ana_cert_def bob_cert_def by (rule plain.IssueCert_verifies; simp)+

lemma cert_fields:
  "PeerID ana_cert = ''p1''" "ValidUntil ana_cert = 100" "PersonKey ana_cert = ana_key"
  "PeerID bob_cert = ''p1''" "ValidUntil bob_cert = 200" "PersonKey bob_cert = replicate 32 (CHR ''b'')"
  by (simp_all add: ana_cert_def bob_cert_def IssueCert_def Let_def plain.key_parts)
    (simp_all add: plain_ed25519_def)

lemma ana_store_fields:
  "anchors ana_store = [EncodePub ana_key \<mapsto> ana_anchor]" "certs ana_store = Map.empty"
  "strangerWeight ana_store = 1 / 10" "loadedOnce ana_store" "lastCheck ana_store = 10"
  "reloadEvery ana_store = 10 * second"
  by (simp_all add: ana_store_def NewStore_def maybeReload_def reload_anchors_def reload_certs_def
      reload_blocked_def statChanged_def LoadAnchors_def LoadCerts_def LoadBlockedPeers_def load_list_def
      IsNotExist_def ana_files_def plain_json_def Let_def ana_anchor_def)

lemma ana_store_blocked: "blocked ana_store = {}"
  by (simp add: ana_store_def NewStore_def maybeReload_def reload_anchors_def reload_certs_def
      reload_blocked_def statChanged_def LoadAnchors_def LoadCerts_def LoadBlockedPeers_def load_list_def
      IsNotExist_def ana_files_def plain_json_def Let_def ana_anchor_def)

lemma ana_resolves:
  "resolve_in (snd (AddCert plain_ed25519 ana_store ana_cert 20)) 30 ''p1'' = (1 / 2, ''ana'', True)"
  by (simp add: AddCert_def certs_verify cert_fields resolve_in_def ana_store_fields After_def Expired_def
      IsZero_def ana_anchor_def)

lemma no_reload_at_30:
  "loadedOnce s \<Longrightarrow> lastCheck s = 10 \<Longrightarrow> reloadEvery s = 10 * second \<Longrightarrow> maybeReload C J fl 30 s = s"
  by (simp add: maybeReload_def Sub_def max_duration_def min_duration_def second_def)

section \<open>Properties\<close>

text \<open>
  C24. \<open>Resolve\<close> after any sequence of \<open>AddCert\<close>, \<open>Resolve\<close>, \<open>IsBlocked\<close> and changes of
  the reload interval on a new store, whatever the files held in between: a peer is answered as
  anchored only when a certificate of its own, verified at some time and not lapsed, is by a key
  with an unexpired anchor, and then with that anchor's Person and a weight in (0,1]; everyone else
  gets the stranger weight and no group.
\<close>

theorem Resolve_sound:
  assumes "Resolve C J fl now (trust_run C J xs (NewStore C J fl0 t0 a c b sw)) p = ((w, g, anchored), s')"
  shows "if anchored
     then \<exists>cert anch. certs s' p = Some cert \<and> PeerID cert = p \<and> (\<exists>t. VerifyCert C cert t = None) \<and>
       now \<le> ValidUntil cert \<and> anchors s' (EncodePub (PersonKey cert)) = Some anch \<and>
       \<not> Expired anch now \<and> g = Person anch \<and> w = anchor_Weight anch \<and> 0 < w \<and> w \<le> 1
     else w = sw \<and> g = ''''"
proof -
  let ?s = "trust_run C J xs (NewStore C J fl0 t0 a c b sw)"
  have w0: "strangerWeight (NewStore C J fl0 t0 a c b sw) = sw"
    by (simp add: NewStore_def frame_simps)
  have s': "s' = maybeReload C J fl now ?s" "resolve_in s' now p = (w, g, anchored)"
    using assms by (auto simp: Resolve_def Let_def)
  have "trust_ok C s' \<and> strangerWeight s' = sw"
    using trust_run_ok [OF NewStore_ok] w0 by (simp add: s'(1) maybeReload_ok frame_simps)
  then show ?thesis
    using s'(2) resolve_in_weight [of C s' now p w g] resolve_in_stranger [of s' now p w g]
    by (cases anchored) (auto simp: resolve_in_anchored vouched_def trust_ok_def certs_ok_def)
qed

theorem Resolve_sound_witness:
  "\<exists>s'. Resolve plain_ed25519 plain_json ana_files 30
      (trust_run plain_ed25519 plain_json [(TAdd ana_cert, ana_files, 20)] ana_store) ''p1'' =
      ((1 / 2, ''ana'', True), s') \<and> certs s' ''p1'' \<noteq> None"
proof -
  let ?s = "snd (AddCert plain_ed25519 ana_store ana_cert 20)"
  have "maybeReload plain_ed25519 plain_json ana_files 30 ?s = ?s"
    by (rule no_reload_at_30) (simp_all add: AddCert_def certs_verify ana_store_fields)
  then have r: "Resolve plain_ed25519 plain_json ana_files 30
      (trust_run plain_ed25519 plain_json [(TAdd ana_cert, ana_files, 20)]
        (NewStore plain_ed25519 plain_json ana_files 10 ''anchors.json'' ''certs.json'' ''blocked.json'' (1 / 10)))
      ''p1'' = ((1 / 2, ''ana'', True), ?s)"
    by (simp add: Resolve_def Let_def trust_run_def ana_store_def [symmetric] ana_resolves)
  from Resolve_sound [OF r] have "certs ?s ''p1'' \<noteq> None" by auto
  with r show ?thesis unfolding ana_store_def by blast
qed

text \<open>
  C25. \<open>maybeReload\<close> on a loaded store: a file that cannot be read or parsed leaves the anchors,
  the certificates or the blocked list loaded from it as they were, while a removed anchors file
  is noticed at the next check and withdraws the trust of every peer.
\<close>

theorem reload_keeps_last_good:
  assumes "loadedOnce s"
  shows "(is_err (LoadAnchors J (af_read fl)) \<longrightarrow> anchors (maybeReload C J fl now s) = anchors s) \<and>
    (is_err (LoadCerts J (cf_read fl)) \<longrightarrow> certs (maybeReload C J fl now s) = certs s) \<and>
    (is_err (LoadBlockedPeers J (bf_read fl)) \<longrightarrow> blocked (maybeReload C J fl now s) = blocked s) \<and>
    (af_stat fl = None \<and> af_read fl = Inl ErrNotExist \<and> reloadEvery s \<le> Sub now (lastCheck s) \<longrightarrow>
       (\<forall>p. fst (Resolve C J fl now s p) = (strangerWeight s, '''', False)))"
  using maybeReload_failed [OF assms, of J fl _ C now] maybeReload_removed [of fl s now C J]
  by (auto simp: is_err_def Resolve_def Let_def resolve_in_no_anchors frame_simps split: sum.splits)

theorem reload_keeps_last_good_witness:
  "anchors (maybeReload plain_ed25519 plain_json (ana_files\<lparr>af_read := Inr ''B'', af_stat := Some (50, 1)\<rparr>)
     (60 * second) ana_store) = anchors ana_store"
  using reload_keeps_last_good [of ana_store plain_json "ana_files\<lparr>af_read := Inr ''B'', af_stat := Some (50, 1)\<rparr>"
      plain_ed25519 "60 * second"]
  by (simp add: ana_store_fields LoadAnchors_def load_list_def plain_json_def)

text \<open>
  C26. \<open>AddCert\<close> replaces whatever certificate the peer had, without the test of
  \<open>maybeReload\<close> that keeps the longer-lived one: a certificate anyone else issued for an
  anchored peer's ID, whose key has no anchor, is accepted and takes the peer's trust away.
\<close>

theorem foreign_cert_strips_trust:
  assumes "resolve_in s now p = (w, g, True)" "VerifyCert C cert now = None" "PeerID cert = p"
    "anchors s (EncodePub (PersonKey cert)) = None"
  shows "fst (AddCert C s cert now) = None \<and>
    resolve_in (snd (AddCert C s cert now)) now p = (strangerWeight s, '''', False)"
  using assms(2-4) by (simp add: AddCert_def resolve_in_def)

theorem foreign_cert_strips_trust_witness:
  "resolve_in (snd (AddCert plain_ed25519 (snd (AddCert plain_ed25519 ana_store ana_cert 20)) bob_cert 30)) 30 ''p1''
     = (1 / 10, '''', False)"
proof -
  have n: "EncodePub (replicate 32 (CHR ''b'')) \<noteq> EncodePub ana_key"
    by (simp only: EncodePub_inj ana_key_def) (simp add: replicate_eq_replicate)
  show ?thesis
    using foreign_cert_strips_trust [OF ana_resolves certs_verify(2)] n
    by (simp add: cert_fields frame_simps ana_store_fields)
qed

text \<open>
  \<open>SaveAnchors\<close> then \<open>LoadAnchors\<close>, over a codec that reads back what it writes: a save
  that succeeds is read back whole, a save that fails leaves the old file, and no path but the
  target and the temporary file is touched.
\<close>

theorem SaveAnchors_LoadAnchors:
  assumes "\<forall>xs d. enc_anchors J xs = Inr d \<longrightarrow> dec_anchors J d = Inr xs" "tmp \<noteq> path"
    "SaveAnchors J f fs tmp path xs = (r, fs')" "f_read g = None"
  shows "(if r = None then LoadAnchors J (ReadFile g fs' path) = Inr xs else fs' path = fs path) \<and>
    (\<forall>q. q \<noteq> path \<and> q \<noteq> tmp \<longrightarrow> fs' q = fs q)"
proof -
  have "\<forall>q. q \<noteq> path \<and> q \<noteq> tmp \<longrightarrow> fs' q = fs q"
    using assms(3) saved.others_kept by (auto simp: SaveAnchors_def save_list_def split: sum.splits)
  moreover have "r = None \<Longrightarrow> LoadAnchors J (ReadFile g fs' path) = Inr xs"
    unfolding LoadAnchors_def using save_load_list [OF assms(1,2,4)] assms(3) by (simp add: SaveAnchors_def)
  moreover have "r \<noteq> None \<Longrightarrow> fs' path = fs path"
    using save_list_failed [OF assms(2)] assms(3) by (auto simp: SaveAnchors_def)
  ultimately show ?thesis by simp
qed

theorem SaveAnchors_LoadAnchors_witness:
  "\<exists>fs'. SaveAnchors plain_json no_faults Map.empty ''tmp'' ''anchors.json'' [ana_anchor] = (None, fs') \<and>
     LoadAnchors plain_json (ReadFile no_faults fs' ''anchors.json'') = Inr [ana_anchor]"
proof -
  obtain fs' where s: "SaveAnchors plain_json no_faults Map.empty ''tmp'' ''anchors.json'' [ana_anchor] = (None, fs')"
    by (simp add: SaveAnchors_def save_list_def plain_json_def atomicWrite_def os_defs no_faults_def)
  have "\<forall>xs d. enc_anchors plain_json xs = Inr d \<longrightarrow> dec_anchors plain_json d = Inr xs"
    by (simp add: plain_json_def)
  from SaveAnchors_LoadAnchors [OF this _ s, of no_faults] s show ?thesis by (simp add: no_faults_def)
qed

end
