(* ===== verification/Observability.thy ===== *)
theory Observability
  imports Reputation Governor Config
begin

text \<open>
  Package \<open>internal/observability\<close>: the metrics (\<open>prometheus.go\<close>), the tables
  (\<open>sqlite.go\<close>) and the observer that feeds both and remembers which addresses are blocked
  (\<open>observer.go\<close>). A counter vector is a function from its label values; a histogram is the
  list of its observations; a table is the list of its rows. Whether the database accepts a
  statement is the parameter \<open>up\<close>. The HTTP endpoint and the SQL schema are not modelled.
\<close>

section \<open>Prometheus\<close>

record prometheusOutput =
  p_events :: "string \<times> string \<Rightarrow> nat"
  p_rules :: "string \<times> string \<Rightarrow> nat"
  blockedIPs :: int
  p_score :: "string \<rightharpoonup> real"
  p_peers :: real
  p_federated :: "string \<Rightarrow> nat"
  p_blocks :: "string \<Rightarrow> nat"
  timeToBlock :: "(string \<times> real) list"
  p_corroboration :: "(string \<times> real) list"
  p_unblocks :: "string \<Rightarrow> nat"
  p_recurrences :: "string \<Rightarrow> nat"
  p_shed :: "string \<Rightarrow> nat"
  shedMode :: real
  procRate :: real
  p_threshold :: real

definition newPrometheusOutput :: "real \<Rightarrow> prometheusOutput" where
  "newPrometheusOutput scoreThreshold =
     \<lparr>p_events = \<lambda>_. 0, p_rules = \<lambda>_. 0, blockedIPs = 0, p_score = Map.empty, p_peers = 0,
      p_federated = \<lambda>_. 0, p_blocks = \<lambda>_. 0, timeToBlock = [], p_corroboration = [], p_unblocks = \<lambda>_. 0,
      p_recurrences = \<lambda>_. 0, p_shed = \<lambda>_. 0, shedMode = 0, procRate = 0, p_threshold = scoreThreshold\<rparr>"

definition Inc :: "('a \<Rightarrow> nat) \<Rightarrow> 'a \<Rightarrow> 'a \<Rightarrow> nat" where
  "Inc f k = f(k := Suc (f k))"

definition prom_recordEvent :: "prometheusOutput \<Rightarrow> Event \<Rightarrow> real \<Rightarrow> string \<Rightarrow> string \<Rightarrow> prometheusOutput" where
  "prom_recordEvent p e score rule action =
     (let p = p\<lparr>p_events := Inc (p_events p) (Reason e, ReporterID e)\<rparr>;
          p = (if rule \<noteq> '''' then p\<lparr>p_rules := Inc (p_rules p) (rule, action)\<rparr> else p)
      in if score \<ge> p_threshold p then p\<lparr>p_score := (p_score p)(IP e \<mapsto> score)\<rparr>
         else p\<lparr>p_score := (p_score p)(IP e := None)\<rparr>)"

definition prom_recordBlock :: "prometheusOutput \<Rightarrow> time \<Rightarrow> string \<Rightarrow> time \<Rightarrow> nat \<Rightarrow> prometheusOutput" where
  "prom_recordBlock p now rule firstSeen corr =
     p\<lparr>p_blocks := Inc (p_blocks p) rule, timeToBlock := timeToBlock p @ [(rule, Seconds (Sub now firstSeen))],
       p_corroboration := p_corroboration p @ [(rule, real corr)]\<rparr>"

definition prom_recordUnblock :: "prometheusOutput \<Rightarrow> string \<Rightarrow> prometheusOutput" where
  "prom_recordUnblock p rule = p\<lparr>p_unblocks := Inc (p_unblocks p) rule\<rparr>"

definition prom_recordRecurrence :: "prometheusOutput \<Rightarrow> string \<Rightarrow> prometheusOutput" where
  "prom_recordRecurrence p rule = p\<lparr>p_recurrences := Inc (p_recurrences p) rule\<rparr>"

definition prom_recordShed :: "prometheusOutput \<Rightarrow> string \<Rightarrow> prometheusOutput" where
  "prom_recordShed p kind = p\<lparr>p_shed := Inc (p_shed p) kind\<rparr>"

definition prom_setShedMode :: "prometheusOutput \<Rightarrow> bool \<Rightarrow> prometheusOutput" where
  "prom_setShedMode p on = p\<lparr>shedMode := (if on then 1 else 0)\<rparr>"

definition prom_setProcessingRate :: "prometheusOutput \<Rightarrow> real \<Rightarrow> prometheusOutput" where
  "prom_setProcessingRate p r = p\<lparr>procRate := r\<rparr>"

section \<open>SQLite\<close>

record event_row =
  er_ts :: int
  er_ip :: string
  er_reason :: string
  er_reporter :: string
  er_subnet :: string
  er_score :: real

record firing_row =
  fr_ts :: int
  fr_ip :: string
  fr_rule :: string
  fr_action :: string
  fr_score :: real

record block_row =
  br_ip :: string
  blocked_at :: int
  unblocked_at :: "int option"
  score_at_block :: real
  expected_unblock :: int

record sqliteOutput =
  sq_events :: "event_row list"
  sq_firings :: "firing_row list"
  sq_blocks :: "block_row list"
  sq_retention :: duration
  sq_halfLife :: duration
  sq_threshold :: real

definition newSQLiteOutput :: "duration \<Rightarrow> duration \<Rightarrow> real \<Rightarrow> sqliteOutput" where
  "newSQLiteOutput retention halfLife threshold =
     \<lparr>sq_events = [], sq_firings = [], sq_blocks = [], sq_retention = retention, sq_halfLife = halfLife,
      sq_threshold = threshold\<rparr>"

definition Unix :: "time \<Rightarrow> int" where
  "Unix t = (t - 62135596800 * second) div second"

definition sq_recordEvent :: "bool \<Rightarrow> sqliteOutput \<Rightarrow> time \<Rightarrow> Event \<Rightarrow> real \<Rightarrow> sqliteOutput" where
  "sq_recordEvent up s now e score =
     (if up then s\<lparr>sq_events := sq_events s @
        [\<lparr>er_ts = Unix now, er_ip = IP e, er_reason = Reason e, er_reporter = ReporterID e,
          er_subnet = SubnetID e, er_score = score\<rparr>]\<rparr> else s)"

definition sq_recordRuleFiring ::
  "bool \<Rightarrow> sqliteOutput \<Rightarrow> time \<Rightarrow> Event \<Rightarrow> real \<Rightarrow> string \<Rightarrow> string \<Rightarrow> sqliteOutput" where
  "sq_recordRuleFiring up s now e score rule action =
     (if up then s\<lparr>sq_firings := sq_firings s @
        [\<lparr>fr_ts = Unix now, fr_ip = IP e, fr_rule = rule, fr_action = action, fr_score = score\<rparr>]\<rparr> else s)"

text \<open>\<open>computeUnblock\<close>: the conversion to a duration truncates.\<close>

definition computeUnblock :: "sqliteOutput \<Rightarrow> real \<Rightarrow> time \<Rightarrow> time" where
  "computeUnblock s score now =
     (if score \<le> sq_threshold s then now
      else Add now \<lfloor>real_of_int (sq_halfLife s) * log 2 (score / sq_threshold s)\<rfloor>)"

definition sq_recordBlock :: "bool \<Rightarrow> sqliteOutput \<Rightarrow> time \<Rightarrow> string \<Rightarrow> real \<Rightarrow> sqliteOutput" where
  "sq_recordBlock up s now ip score =
     (if up then s\<lparr>sq_blocks := sq_blocks s @
        [\<lparr>br_ip = ip, blocked_at = Unix now, unblocked_at = None, score_at_block = score,
          expected_unblock = Unix (computeUnblock s score now)\<rparr>]\<rparr> else s)"

definition sq_recordUnblock :: "bool \<Rightarrow> sqliteOutput \<Rightarrow> time \<Rightarrow> string \<Rightarrow> sqliteOutput" where
  "sq_recordUnblock up s now ip =
     (if up then s\<lparr>sq_blocks := map (\<lambda>r. if br_ip r = ip \<and> unblocked_at r = None
         then r\<lparr>unblocked_at := Some (Unix now)\<rparr> else r) (sq_blocks s)\<rparr> else s)"

definition sweep :: "bool \<Rightarrow> sqliteOutput \<Rightarrow> time \<Rightarrow> sqliteOutput" where
  "sweep up s now =
     (if up then let cutoff = Unix (Add now (- sq_retention s))
        in s\<lparr>sq_events := filter (\<lambda>r. \<not> er_ts r < cutoff) (sq_events s),
             sq_firings := filter (\<lambda>r. \<not> fr_ts r < cutoff) (sq_firings s),
             sq_blocks := filter (\<lambda>r. \<not> (blocked_at r < cutoff \<and> unblocked_at r \<noteq> None)) (sq_blocks s)\<rparr>
      else s)"

text \<open>The retention sweep runs once a day: each tick with whether the database answers and the clock.\<close>

definition retention_run :: "(bool \<times> time) list \<Rightarrow> sqliteOutput \<Rightarrow> sqliteOutput" where
  "retention_run ticks s = fold (\<lambda>(up, now) s. sweep up s now) ticks s"

section \<open>The observer\<close>

record unblockedEntry =
  ue_rule :: string
  unblockedAt :: time

record Observer =
  prom :: "prometheusOutput option"
  sq :: "sqliteOutput option"
  blockedByRule :: "string \<rightharpoonup> string"
  recentlyUnblocked :: "string \<rightharpoonup> unblockedEntry"

text \<open>\<open>New\<close>: \<open>None\<close> is the nil observer; opening the outputs may fail.\<close>

definition new_observer ::
  "error option \<Rightarrow> error option \<Rightarrow> ObservabilityConfig \<Rightarrow> ReputationConfig \<Rightarrow> error + Observer option" where
  "new_observer prom_err sq_err cfg repCfg =
     (if PrometheusAddr cfg = '''' \<and> SQLitePath cfg = '''' then Inr None
      else case (if PrometheusAddr cfg = '''' then None else prom_err,
                 if SQLitePath cfg = '''' then None else sq_err) of
          (Some e, _) \<Rightarrow> Inl e
        | (None, Some e) \<Rightarrow> Inl e
        | (None, None) \<Rightarrow>
            (let threshold = (if ScoreGaugeThreshold cfg = 0 then BlockThreshold repCfg / 2
                              else ScoreGaugeThreshold cfg);
                 retention = (if SQLiteRetention cfg \<le> 0 then 360 * hour else SQLiteRetention cfg);
                 halfLife = (if HalfLife repCfg \<le> 0 then 7 * 24 * hour else HalfLife repCfg)
             in Inr (Some
                 \<lparr>prom = (if PrometheusAddr cfg = '''' then None else Some (newPrometheusOutput threshold)),
                  sq = (if SQLitePath cfg = '''' then None
                        else Some (newSQLiteOutput retention halfLife (BlockThreshold repCfg))),
                  blockedByRule = Map.empty, recentlyUnblocked = Map.empty\<rparr>)))"

text \<open>What \<open>Start\<close> starts: the metrics endpoint, unless its address is empty, and the retention sweep.\<close>

definition observer_Start :: "string \<Rightarrow> Observer option \<Rightarrow> bool \<times> bool" where
  "observer_Start addr o' =
     (case o' of None \<Rightarrow> (False, False) | Some ob \<Rightarrow> (prom ob \<noteq> None \<and> addr \<noteq> '''', sq ob \<noteq> None))"

definition week :: duration where
  "week = 7 * 24 * hour"

definition on_prom :: "(prometheusOutput \<Rightarrow> prometheusOutput) \<Rightarrow> Observer \<Rightarrow> Observer" where
  "on_prom f s = s\<lparr>prom := map_option f (prom s)\<rparr>"

definition on_sq :: "(sqliteOutput \<Rightarrow> sqliteOutput) \<Rightarrow> Observer \<Rightarrow> Observer" where
  "on_sq f s = s\<lparr>sq := map_option f (sq s)\<rparr>"

definition RecordEvent :: "bool \<Rightarrow> Observer \<Rightarrow> time \<Rightarrow> Event \<Rightarrow> real \<Rightarrow> string \<Rightarrow> string \<Rightarrow> Observer" where
  "RecordEvent up s now e score rule action =
     (let s = on_prom (\<lambda>p. prom_recordEvent p e score rule action) s;
          s = on_sq (\<lambda>q. sq_recordEvent up q now e score) s
      in if rule \<noteq> '''' then on_sq (\<lambda>q. sq_recordRuleFiring up q now e score rule action) s else s)"

definition RecordBlock :: "bool \<Rightarrow> Observer \<Rightarrow> time \<Rightarrow> string \<Rightarrow> string \<Rightarrow> real \<Rightarrow> time \<Rightarrow> nat \<Rightarrow> Observer" where
  "RecordBlock up s now ip rule score firstSeen corr =
     (let already = (blockedByRule s ip \<noteq> None);
          s = (if already then s else s\<lparr>blockedByRule := (blockedByRule s)(ip \<mapsto> rule)\<rparr>);
          prev = recentlyUnblocked s ip;
          s = (case prev of None \<Rightarrow> s | Some _ \<Rightarrow> s\<lparr>recentlyUnblocked := (recentlyUnblocked s)(ip := None)\<rparr>);
          s = (if already then s
               else on_sq (\<lambda>q. sq_recordBlock up q now ip score)
                 (on_prom (\<lambda>p. prom_recordBlock (p\<lparr>blockedIPs := blockedIPs p + 1\<rparr>) now rule firstSeen corr) s))
      in case prev of
           None \<Rightarrow> s
         | Some pr \<Rightarrow>
             if Sub now (unblockedAt pr) < week then on_prom (\<lambda>p. prom_recordRecurrence p (ue_rule pr)) s
             else s)"

definition RecordUnblock :: "bool \<Rightarrow> Observer \<Rightarrow> time \<Rightarrow> string \<Rightarrow> Observer" where
  "RecordUnblock up s now ip =
     (let s = (case blockedByRule s ip of
                 None \<Rightarrow> s
               | Some rule \<Rightarrow>
                   (let ru = (recentlyUnblocked s)(ip \<mapsto> \<lparr>ue_rule = rule, unblockedAt = now\<rparr>);
                        ru = (\<lambda>k. case ru k of None \<Rightarrow> None
                              | Some v \<Rightarrow> if Sub now (unblockedAt v) > week then None else Some v)
                    in on_prom (\<lambda>p. prom_recordUnblock (p\<lparr>blockedIPs := blockedIPs p - 1\<rparr>) rule)
                        (s\<lparr>blockedByRule := (blockedByRule s)(ip := None), recentlyUnblocked := ru\<rparr>)))
      in on_sq (\<lambda>q. sq_recordUnblock up q now ip) s)"

definition UpdatePeers :: "Observer \<Rightarrow> nat \<Rightarrow> Observer" where
  "UpdatePeers s n = on_prom (\<lambda>p. p\<lparr>p_peers := real n\<rparr>) s"

definition RecordFederated :: "Observer \<Rightarrow> string \<Rightarrow> Observer" where
  "RecordFederated s direction = on_prom (\<lambda>p. p\<lparr>p_federated := Inc (p_federated p) direction\<rparr>) s"

definition RecordShed :: "Observer \<Rightarrow> string \<Rightarrow> Observer" where
  "RecordShed s kind = on_prom (\<lambda>p. prom_recordShed p kind) s"

definition SetShedMode :: "Observer \<Rightarrow> bool \<Rightarrow> Observer" where
  "SetShedMode s on = on_prom (\<lambda>p. prom_setShedMode p on) s"

definition SetProcessingRate :: "Observer \<Rightarrow> real \<Rightarrow> Observer" where
  "SetProcessingRate s r = on_prom (\<lambda>p. prom_setProcessingRate p r) s"

section \<open>The observer counts what is blocked\<close>

datatype obs_call =
  CEvent Event real string string
| CBlock string string real time nat
| CUnblock string
| CFederated string
| CShed string
| CShedMode bool
| CRate real
| CPeers nat

fun obs_step :: "bool \<Rightarrow> time \<Rightarrow> obs_call \<Rightarrow> Observer \<Rightarrow> Observer" where
  "obs_step up now (CEvent e score rule action) s = RecordEvent up s now e score rule action"
| "obs_step up now (CBlock ip rule score firstSeen corr) s = RecordBlock up s now ip rule score firstSeen corr"
| "obs_step up now (CUnblock ip) s = RecordUnblock up s now ip"
| "obs_step up now (CFederated d) s = RecordFederated s d"
| "obs_step up now (CShed k) s = RecordShed s k"
| "obs_step up now (CShedMode on) s = SetShedMode s on"
| "obs_step up now (CRate r) s = SetProcessingRate s r"
| "obs_step up now (CPeers n) s = UpdatePeers s n"

definition obs_run :: "(bool \<times> time \<times> obs_call) list \<Rightarrow> Observer \<Rightarrow> Observer" where
  "obs_run = fold (\<lambda>(up, now, c). obs_step up now c)"

definition obs_ok :: "Observer \<Rightarrow> bool" where
  "obs_ok s \<longleftrightarrow>
     finite (dom (blockedByRule s)) \<and> dom (blockedByRule s) \<inter> dom (recentlyUnblocked s) = {} \<and>
     (\<forall>p. prom s = Some p \<longrightarrow> blockedIPs p = int (card (dom (blockedByRule s))))"

text \<open>The blocks table has one open row for each blocked address and none for any other.\<close>

definition open_rows :: "sqliteOutput \<Rightarrow> string \<Rightarrow> nat" where
  "open_rows q ip = length (filter (\<lambda>r. br_ip r = ip \<and> unblocked_at r = None) (sq_blocks q))"

definition rows_ok :: "Observer \<Rightarrow> bool" where
  "rows_ok s \<longleftrightarrow> (\<forall>q ip. sq s = Some q \<longrightarrow> open_rows q ip = (if ip \<in> dom (blockedByRule s) then 1 else 0))"

lemma on_fields [simp]:
  "blockedByRule (on_prom f s) = blockedByRule s" "recentlyUnblocked (on_prom f s) = recentlyUnblocked s"
  "blockedByRule (on_sq g s) = blockedByRule s" "recentlyUnblocked (on_sq g s) = recentlyUnblocked s"
  "prom (on_prom f s) = map_option f (prom s)" "sq (on_prom f s) = sq s"
  "prom (on_sq g s) = prom s" "sq (on_sq g s) = map_option g (sq s)"
  by (simp_all add: on_prom_def on_sq_def)

lemma prom_gauge [simp]:
  "blockedIPs (prom_recordEvent p e sc r a) = blockedIPs p" "blockedIPs (prom_recordBlock p now r fs c) = blockedIPs p"
  "blockedIPs (prom_recordUnblock p r) = blockedIPs p" "blockedIPs (prom_recordRecurrence p r) = blockedIPs p"
  "blockedIPs (prom_recordShed p k) = blockedIPs p" "blockedIPs (prom_setShedMode p on) = blockedIPs p"
  "blockedIPs (prom_setProcessingRate p x) = blockedIPs p"
  by (simp_all add: prom_recordEvent_def prom_recordBlock_def prom_recordUnblock_def prom_recordRecurrence_def
      prom_recordShed_def prom_setShedMode_def prom_setProcessingRate_def Let_def)

lemma RecordBlock_maps:
  "blockedByRule (RecordBlock up s now ip rule sc fs c) =
     (if blockedByRule s ip = None then (blockedByRule s)(ip \<mapsto> rule) else blockedByRule s)"
  "recentlyUnblocked (RecordBlock up s now ip rule sc fs c) = (recentlyUnblocked s)(ip := None)"
  by (cases "blockedByRule s ip"; simp add: RecordBlock_def Let_def fun_upd_idem split: option.split)+

lemma RecordBlock_gauge:
  "prom (RecordBlock up s now ip rule sc fs c) = Some p' \<Longrightarrow>
     \<exists>p. prom s = Some p \<and> blockedIPs p' = blockedIPs p + (if blockedByRule s ip = None then 1 else 0)"
  by (auto simp: RecordBlock_def Let_def split: option.splits if_splits)

lemma RecordBlock_rows:
  "sq (RecordBlock up s now ip rule sc fs c) =
     (if blockedByRule s ip = None then map_option (\<lambda>q. sq_recordBlock up q now ip sc) (sq s) else sq s)"
  by (cases "blockedByRule s ip"; simp add: RecordBlock_def Let_def split: option.split)

lemma disjoint_moved: "A \<inter> B = {} \<Longrightarrow> C \<subseteq> insert x B \<Longrightarrow> (A - {x}) \<inter> C = {}"
  by blast

lemma RecordUnblock_maps:
  "blockedByRule (RecordUnblock up s now ip) = (blockedByRule s)(ip := None)"
  "dom (recentlyUnblocked (RecordUnblock up s now ip)) \<subseteq>
     (if blockedByRule s ip = None then dom (recentlyUnblocked s) else insert ip (dom (recentlyUnblocked s)))"
  by (auto simp: RecordUnblock_def Let_def fun_upd_idem split: option.splits if_splits)

lemma RecordUnblock_gauge:
  "prom (RecordUnblock up s now ip) = Some p' \<Longrightarrow>
     \<exists>p. prom s = Some p \<and> blockedIPs p' = blockedIPs p - (if blockedByRule s ip = None then 0 else 1)"
  by (auto simp: RecordUnblock_def Let_def split: option.splits)

lemma RecordUnblock_rows: "sq (RecordUnblock up s now ip) = map_option (\<lambda>q. sq_recordUnblock up q now ip) (sq s)"
  by (simp add: RecordUnblock_def Let_def split: option.split)

text \<open>The calls that leave the block state alone.\<close>

fun quiet :: "obs_call \<Rightarrow> bool" where
  "quiet (CBlock _ _ _ _ _) = False"
| "quiet (CUnblock _) = False"
| "quiet _ = True"

lemma quiet_step:
  assumes "quiet c"
  shows "blockedByRule (obs_step up now c s) = blockedByRule s"
    "recentlyUnblocked (obs_step up now c s) = recentlyUnblocked s"
    "prom (obs_step up now c s) = Some p' \<Longrightarrow> \<exists>p. prom s = Some p \<and> blockedIPs p' = blockedIPs p"
    "sq (obs_step up now c s) = Some q' \<Longrightarrow> \<exists>q. sq s = Some q \<and> sq_blocks q' = sq_blocks q"
  using assms
  by (cases c; auto simp: RecordEvent_def RecordFederated_def RecordShed_def SetShedMode_def
      SetProcessingRate_def UpdatePeers_def Let_def sq_recordEvent_def sq_recordRuleFiring_def
      split: if_splits option.splits)+

lemma obs_step_ok: "obs_ok s \<Longrightarrow> obs_ok (obs_step up now c s)"
proof (cases "quiet c")
  case True
  assume "obs_ok s"
  with quiet_step [OF True, of up now s] show ?thesis unfolding obs_ok_def by metis
next
  case False
  assume s: "obs_ok s"
  from False show ?thesis
  proof (cases c)
    case (CBlock ip rule sc fs co)
    have "prom (obs_step up now c s) = Some p' \<Longrightarrow>
        blockedIPs p' = int (card (dom (blockedByRule (obs_step up now c s))))" for p'
      using s RecordBlock_gauge [of up s now ip rule sc fs co p']
      by (cases "blockedByRule s ip") (auto simp: CBlock obs_ok_def RecordBlock_maps card_insert_if domIff)
    then show ?thesis using s by (auto simp: CBlock obs_ok_def RecordBlock_maps)
  next
    case (CUnblock ip)
    have "prom (obs_step up now c s) = Some p' \<Longrightarrow>
        blockedIPs p' = int (card (dom (blockedByRule (obs_step up now c s))))" for p'
    proof -
      assume "prom (obs_step up now c s) = Some p'"
      then obtain p where p: "prom s = Some p" "blockedIPs p' = blockedIPs p - (if blockedByRule s ip = None then 0 else 1)"
        using RecordUnblock_gauge [of up s now ip p'] by (auto simp: CUnblock)
      have "ip \<in> dom (blockedByRule s) \<Longrightarrow> 0 < card (dom (blockedByRule s))"
        using s by (auto simp: obs_ok_def card_gt_0_iff)
      with s p show ?thesis
        by (cases "blockedByRule s ip") (auto simp: CUnblock obs_ok_def RecordUnblock_maps domIff of_nat_diff)
    qed
    moreover have "dom (blockedByRule (obs_step up now c s)) \<inter> dom (recentlyUnblocked (obs_step up now c s)) = {}"
      unfolding CUnblock obs_step.simps RecordUnblock_maps(1) dom_fun_upd if_P [OF refl]
      by (rule disjoint_moved [where B = "dom (recentlyUnblocked s)"])
        (use s RecordUnblock_maps(2) [of up s now ip] in \<open>auto simp: obs_ok_def split: if_splits\<close>)
    ultimately show ?thesis using s by (simp add: CUnblock obs_ok_def RecordUnblock_maps(1))
  qed simp_all
qed

lemma open_rows_block: "open_rows (sq_recordBlock True q now ip sc) j = open_rows q j + (if j = ip then 1 else 0)"
  by (simp add: open_rows_def sq_recordBlock_def)

lemma open_rows_unblock: "open_rows (sq_recordUnblock True q now ip) j = (if j = ip then 0 else open_rows q j)"
proof -
  let ?close = "\<lambda>r. if br_ip r = ip \<and> unblocked_at r = None then r\<lparr>unblocked_at := Some (Unix now)\<rparr> else r"
  have f: "length (filter (\<lambda>r. br_ip r = j \<and> unblocked_at r = None) (map ?close xs)) =
    (if j = ip then 0 else length (filter (\<lambda>r. br_ip r = j \<and> unblocked_at r = None) xs))" for xs
    by (cases "j = ip") (auto simp: filter_map comp_def filter_empty_conv
        intro!: arg_cong [of _ _ length] filter_cong split: if_splits)
  have b: "sq_blocks (sq_recordUnblock True q now ip) = map ?close (sq_blocks q)"
    by (simp add: sq_recordUnblock_def)
  show ?thesis unfolding open_rows_def b by (rule f)
qed

lemma obs_step_rows: "rows_ok s \<Longrightarrow> rows_ok (obs_step True now c s)"
proof (cases "quiet c")
  case True
  assume s: "rows_ok s"
  show ?thesis unfolding rows_ok_def
  proof (intro allI impI)
    fix q' ip
    assume "sq (obs_step True now c s) = Some q'"
    then obtain q where "sq s = Some q" "sq_blocks q' = sq_blocks q" using quiet_step(4) [OF True] by blast
    with s show "open_rows q' ip = (if ip \<in> dom (blockedByRule (obs_step True now c s)) then 1 else 0)"
      by (simp add: rows_ok_def open_rows_def quiet_step(1) [OF True])
  qed
next
  case False
  assume s: "rows_ok s"
  then have h: "sq s = Some q \<Longrightarrow> open_rows q j = (if blockedByRule s j = None then 0 else 1)" for q j
    by (auto simp: rows_ok_def)
  from False show ?thesis
  proof (cases c)
    case (CBlock ip rule sc fs co)
    show ?thesis unfolding rows_ok_def
    proof (intro allI impI)
      fix q' j
      assume "sq (obs_step True now c s) = Some q'"
      then show "open_rows q' j = (if j \<in> dom (blockedByRule (obs_step True now c s)) then 1 else 0)"
        by (cases "blockedByRule s ip") (auto simp: CBlock RecordBlock_rows RecordBlock_maps open_rows_block domIff h)
    qed
  next
    case (CUnblock ip)
    show ?thesis unfolding rows_ok_def
    proof (intro allI impI)
      fix q' j
      assume "sq (obs_step True now c s) = Some q'"
      then show "open_rows q' j = (if j \<in> dom (blockedByRule (obs_step True now c s)) then 1 else 0)"
        by (auto simp: CUnblock RecordUnblock_rows RecordUnblock_maps(1) open_rows_unblock domIff h)
    qed
  qed simp_all
qed

lemma obs_run_ok:
  "obs_ok s \<Longrightarrow> obs_ok (obs_run cs s)"
  "\<lbrakk>rows_ok s; \<forall>(up, now, c) \<in> set cs. up\<rbrakk> \<Longrightarrow> rows_ok (obs_run cs s)"
  unfolding obs_run_def by (induction cs arbitrary: s) (auto simp: obs_step_ok obs_step_rows)

lemma new_observer_ok:
  "new_observer pe se cfg rc = Inr (Some s) \<Longrightarrow> obs_ok s \<and> rows_ok s"
  by (auto simp: new_observer_def obs_ok_def rows_ok_def open_rows_def newPrometheusOutput_def
      newSQLiteOutput_def Let_def split: if_splits option.splits)

section \<open>The expected end of a block\<close>

lemma decay_factor_powr:
  assumes "0 < h" "l \<le> n" "n - l < 2 ^ 63"
  shows "decay_factor l n h = 2 powr (- (real_of_int (n - l) / real_of_int h))"
proof -
  have "Sub n l = n - l" using assms by (simp add: Sub_in_range)
  then show ?thesis using assms by (simp add: decay_factor_def Seconds_def powr_def)
qed

lemma computeUnblock_above:
  assumes "0 < sq_threshold q" "sq_threshold q < score" "0 < sq_halfLife q"
    "computeUnblock q score now - now < 2 ^ 62"
  shows "sq_threshold q \<le> DecayScore score now (computeUnblock q score now) (sq_halfLife q)"
    "DecayScore score now (computeUnblock q score now + 1) (sq_halfLife q) < sq_threshold q"
    "now \<le> computeUnblock q score now"
proof -
  let ?h = "real_of_int (sq_halfLife q)"
  let ?x = "?h * log 2 (score / sq_threshold q)"
  let ?T = "computeUnblock q score now"
  have T: "?T = now + \<lfloor>?x\<rfloor>" using assms by (simp add: computeUnblock_def Add_def)
  have r: "1 < score / sq_threshold q" using assms by simp
  then have lpos: "0 < log 2 (score / sq_threshold q)" by simp
  then have xpos: "0 < ?x" using assms(3) by simp
  then have d: "0 \<le> ?T - now" using T by simp
  then show le: "now \<le> ?T" by simp
  have D: "DecayScore score now (now + n) (sq_halfLife q) = score * 2 powr (- (real_of_int n / ?h))"
    if "0 \<le> n" "n < 2 ^ 63" for n
    using that assms(3) decay_factor_powr [of "sq_halfLife q" now "now + n"] by (simp add: DecayScore_factor)
  have th: "score * 2 powr (- log 2 (score / sq_threshold q)) = sq_threshold q"
    using r assms by (simp add: powr_minus powr_log_cancel field_simps)
  have lo: "real_of_int \<lfloor>?x\<rfloor> / ?h \<le> log 2 (score / sq_threshold q)"
    using assms(3) by (simp add: divide_le_eq mult.commute of_int_floor_le)
  have "?x < real_of_int \<lfloor>?x\<rfloor> + 1" by linarith
  then have hi: "log 2 (score / sq_threshold q) < real_of_int (\<lfloor>?x\<rfloor> + 1) / ?h"
    using assms(3) by (simp add: less_divide_eq mult.commute)
  have b: "0 \<le> \<lfloor>?x\<rfloor>" "\<lfloor>?x\<rfloor> + 1 < 2 ^ 63" using assms(4) d T by simp_all
  have "sq_threshold q = score * 2 powr (- log 2 (score / sq_threshold q))" using th by simp
  also have "\<dots> \<le> score * 2 powr (- (real_of_int \<lfloor>?x\<rfloor> / ?h))"
    using lo assms by (intro mult_left_mono) simp_all
  finally show "sq_threshold q \<le> DecayScore score now ?T (sq_halfLife q)"
    using D [of "\<lfloor>?x\<rfloor>"] b T by simp
  have "score * 2 powr (- (real_of_int (\<lfloor>?x\<rfloor> + 1) / ?h)) < score * 2 powr (- log 2 (score / sq_threshold q))"
    using hi assms by (intro mult_strict_left_mono) simp_all
  then show "DecayScore score now (?T + 1) (sq_halfLife q) < sq_threshold q"
    using D [of "\<lfloor>?x\<rfloor> + 1"] b T th by (simp add: add.assoc)
qed

section \<open>Properties\<close>

text \<open>
  The observer's bookkeeping over any run of its calls from a new observer: the
  \<open>blocked_ips\<close> gauge is the number of addresses kept in \<open>blockedByRule\<close>, no address is both
  blocked and recently unblocked, and, while the database accepts every statement, the blocks
  table has exactly one open row for each blocked address and none for any other.
\<close>

theorem observer_counts_blocks:
  fixes s :: Observer and cs :: "(bool \<times> time \<times> obs_call) list"
  assumes "new_observer pe se cfg rc = Inr (Some s)"
  defines "s' \<equiv> obs_run cs s"
  shows "(\<forall>p. prom s' = Some p \<longrightarrow> blockedIPs p = int (card (dom (blockedByRule s')))) \<and>
    finite (dom (blockedByRule s')) \<and> dom (blockedByRule s') \<inter> dom (recentlyUnblocked s') = {} \<and>
    ((\<forall>(up, now, c) \<in> set cs. up) \<longrightarrow>
      (\<forall>q ip. sq s' = Some q \<longrightarrow> open_rows q ip = (if ip \<in> dom (blockedByRule s') then 1 else 0)))"
  using new_observer_ok [OF assms(1)] obs_run_ok [of s cs] unfolding s'_def obs_ok_def rows_ok_def by blast

definition metrics_only :: ObservabilityConfig where
  "metrics_only = \<lparr>PrometheusAddr = '':9090'', SQLitePath = '''', SQLiteRetention = 0, ScoreGaugeThreshold = 0\<rparr>"

definition plain_observer :: Observer where
  "plain_observer = \<lparr>prom = Some (newPrometheusOutput (BlockThreshold (Reputation Defaults) / 2)), sq = None,
     blockedByRule = Map.empty, recentlyUnblocked = Map.empty\<rparr>"

theorem observer_counts_blocks_witness:
  "\<exists>p. prom (obs_run [(True, 5, CBlock ''192.0.2.1'' ''r'' 90 1 2), (True, 6, CBlock ''192.0.2.1'' ''r'' 95 1 2)]
     plain_observer) = Some p \<and> blockedIPs p = 1"
proof -
  have n: "new_observer None None metrics_only (Reputation Defaults) = Inr (Some plain_observer)"
    by (simp add: new_observer_def metrics_only_def plain_observer_def Let_def)
  let ?cs = "[(True, 5, CBlock ''192.0.2.1'' ''r'' 90 1 2), (True, 6, CBlock ''192.0.2.1'' ''r'' 95 1 2)]"
  have b: "blockedByRule (obs_run ?cs plain_observer) = [''192.0.2.1'' \<mapsto> ''r'']"
    by (simp add: obs_run_def RecordBlock_maps plain_observer_def)
  have "prom (obs_run ?cs plain_observer) \<noteq> None"
    by (simp add: obs_run_def RecordBlock_def plain_observer_def Let_def)
  with observer_counts_blocks [OF n, of ?cs] b show ?thesis by auto
qed

text \<open>
  \<open>computeUnblock\<close> against \<open>DecayScore\<close>: the expected end of a block is the last
  nanosecond at which the decayed score still reaches the threshold; a score already at the
  threshold ends now.
\<close>

theorem expected_unblock_exact:
  assumes "0 < sq_threshold q" "sq_threshold q < score" "0 < sq_halfLife q"
    "computeUnblock q score now - now < 2 ^ 62"
  shows "sq_threshold q \<le> DecayScore score now (computeUnblock q score now) (sq_halfLife q) \<and>
    DecayScore score now (computeUnblock q score now + 1) (sq_halfLife q) < sq_threshold q"
  using computeUnblock_above [OF assms] by simp

theorem expected_unblock_exact_witness:
  "50 \<le> DecayScore 100 7 (computeUnblock (newSQLiteOutput hour hour 50) 100 7) hour"
proof -
  have c: "computeUnblock (newSQLiteOutput hour hour 50) 100 7 = 7 + hour"
    by (simp add: computeUnblock_def newSQLiteOutput_def Add_def)
  show ?thesis
    using expected_unblock_exact [of "newSQLiteOutput hour hour 50" 100 7]
    by (simp add: c) (simp add: newSQLiteOutput_def hour_def)
qed

end
