(* ===== verification/Repquery.thy ===== *)
theory Repquery
  imports Caches Reputation Trust
begin

text \<open>
  Package \<open>internal/repquery\<close>: reputation asked from other nodes. A responder shares an
  aggregate of a record without identities (\<open>aggregate.go\<close>, \<open>responder.go\<close>); the asking side
  recomputes a score from it under its own parameters (\<open>recompute.go\<close>), caches the answer
  (\<open>querier.go\<close>) and puts the local store first (\<open>resolver.go\<close>). Streams, timeouts and the
  collapsing of concurrent queries for one address are the parameters: the answers that arrive
  before the deadline, in their order of arrival.
\<close>

section \<open>Sharing and recomputing evidence\<close>

definition AggregateFromRecord :: "string \<Rightarrow> ScoreRecord \<Rightarrow> EvidenceAggregate" where
  "AggregateFromRecord ip r =
     \<lparr>ev_IP = ip, Scenarios = Reasons r, WindowFirst = FirstSeen r, WindowLast = LastSeen r,
      DiversityBuckets = [''groups'' \<mapsto> int (length (Groups r)), ''reporters'' \<mapsto> int (length (ReporterIDs r)),
        ''subnets'' \<mapsto> int (length (SubnetsSeen r)),
        ''dispute_subnets'' \<mapsto> int (length (DisputeSubnetsSeen r))],
      StrangersPresent = StrangerSeen r, EvidenceWeight = Some 1\<rparr>"

definition maxEvidenceFolds :: int where
  "maxEvidenceFolds = 64"

fun scenario_loop :: "string list \<Rightarrow> string \<times> real \<Rightarrow> string" where
  "scenario_loop [] (best, bestW) = best"
| "scenario_loop (s # ss) (best, bestW) =
     (if weightFor s > bestW then scenario_loop ss (s, weightFor s) else scenario_loop ss (best, bestW))"

definition maxWeightScenario :: "string list \<Rightarrow> string" where
  "maxWeightScenario scenarios = scenario_loop scenarios ('''', -1)"

text \<open>The consumer's own reputation parameters.\<close>

record recompute_params =
  rq_halfLife :: duration
  rq_strangerCap :: real
  rq_federationDiscount :: real
  rq_diversityRepeat :: real
  rq_disputeWeight :: real

definition evidence_trust :: "EvidenceAggregate \<Rightarrow> recompute_params \<Rightarrow> real" where
  "evidence_trust ev q =
     (let weight = (case EvidenceWeight ev of None \<Rightarrow> 0 | Some w \<Rightarrow> if w < 0 then 0 else w);
          weight = (if weight > 1 then 1 else weight)
      in weight * rq_federationDiscount q)"

definition fold_groups :: "int \<Rightarrow> int \<Rightarrow> string \<Rightarrow> real \<Rightarrow> time \<Rightarrow> recompute_params \<Rightarrow> ScoreRecord" where
  "fold_groups groups fullVotes reason trust t q =
     fold (\<lambda>i rec. Accumulate rec
         \<lparr>obs_Reason = reason, obs_ReporterID = ''fed'', obs_Group = ''fed'', obs_Trust = trust,
          obs_Anchored = True, obs_Subnet = (if int i \<ge> fullVotes then ''fed-repeat'' else ''fed-'' @ itoa i)\<rparr>
         t (rq_halfLife q) (rq_strangerCap q) (rq_diversityRepeat q))
       [0..<nat groups] zero_rec"

definition fold_disputes :: "int \<Rightarrow> real \<Rightarrow> time \<Rightarrow> recompute_params \<Rightarrow> ScoreRecord \<Rightarrow> ScoreRecord" where
  "fold_disputes disputeSubnets trust t q rec =
     fold (\<lambda>i rec. ApplyDispute rec
         \<lparr>obs_Reason = '''', obs_ReporterID = ''fed-dispute'', obs_Group = '''', obs_Trust = trust,
          obs_Anchored = True, obs_Subnet = ''fed-d'' @ itoa i\<rparr>
         t (rq_halfLife q) (rq_disputeWeight q) (rq_strangerCap q) (rq_diversityRepeat q))
       [0..<nat disputeSubnets] rec"

text \<open>The clamped counts, and the record all synthetic votes are folded into.\<close>

definition evidence_groups :: "EvidenceAggregate \<Rightarrow> int" where
  "evidence_groups ev =
     (let groups = bucket ev ''groups'';
          groups = (if groups > maxEvidenceFolds then maxEvidenceFolds else groups)
      in if groups < 0 then 0 else groups)"

definition full_votes :: "EvidenceAggregate \<Rightarrow> int" where
  "full_votes ev =
     (let groups = evidence_groups ev;
          subnets = bucket ev ''subnets'';
          subnets = (if subnets < 1 then 1 else subnets)
      in if subnets < groups then subnets else groups)"

definition folded_votes :: "EvidenceAggregate \<Rightarrow> recompute_params \<Rightarrow> ScoreRecord" where
  "folded_votes ev q =
     (let trust = evidence_trust ev q;
          reason = maxWeightScenario (Scenarios ev);
          folded = fold_groups (evidence_groups ev) (full_votes ev) reason trust (WindowLast ev) q
      in if StrangersPresent ev
         then Accumulate folded
           \<lparr>obs_Reason = reason, obs_ReporterID = ''fed-stranger'', obs_Group = '''', obs_Trust = trust,
            obs_Anchored = False, obs_Subnet = ''''\<rparr>
           (WindowLast ev) (rq_halfLife q) (rq_strangerCap q) 1
         else folded)"

definition folded_record :: "EvidenceAggregate \<Rightarrow> recompute_params \<Rightarrow> ScoreRecord" where
  "folded_record ev q =
     (let disputeSubnets = bucket ev ''dispute_subnets'';
          disputeSubnets = (if disputeSubnets > maxEvidenceFolds then maxEvidenceFolds else disputeSubnets)
      in fold_disputes disputeSubnets (evidence_trust ev q) (WindowLast ev) q (folded_votes ev q))"

definition RecordFromEvidence :: "EvidenceAggregate \<Rightarrow> time \<Rightarrow> recompute_params \<Rightarrow> ScoreRecord" where
  "RecordFromEvidence ev now q =
     (if IsZero (WindowLast ev) then zero_rec
      else let score = DecayScore (Score (folded_record ev q)) (WindowLast ev) now (rq_halfLife q);
               score = (if score > 100 then 100 else score);
               score = (if score < 0 then 0 else score)
           in zero_rec\<lparr>Score := score, Reasons := Scenarios ev, FirstSeen := WindowFirst ev,
                LastSeen := WindowLast ev\<rparr>)"

section \<open>The querier\<close>

definition maxCacheEntries :: nat where
  "maxCacheEntries = 65536"

record cacheEntry =
  ce_entry :: ScoreRecord
  ce_subnets :: int
  ce_ok :: bool
  ce_at :: time

record Querier =
  qr_cacheTTL :: duration
  qr_params :: recompute_params
  qr_cache :: "(string \<times> cacheEntry) list"

definition NewQuerier :: "duration \<Rightarrow> recompute_params \<Rightarrow> Querier" where
  "NewQuerier cacheTTL q = \<lparr>qr_cacheTTL = cacheTTL, qr_params = q, qr_cache = []\<rparr>"

definition entry_ttl :: "duration \<Rightarrow> cacheEntry \<Rightarrow> duration" where
  "entry_ttl cacheTTL c = (if \<not> ce_ok c then cacheTTL div 5 else cacheTTL)"

definition evictLocked :: "Querier \<Rightarrow> time \<Rightarrow> Querier" where
  "evictLocked q now =
     q\<lparr>qr_cache := evict_map ce_at (entry_ttl (qr_cacheTTL q)) maxCacheEntries now (qr_cache q)\<rparr>"

text \<open>\<open>ask\<close>: the outcome of one exchange, the answer decoded or an error of the stream.\<close>

definition ask :: "error + EvidenceAggregate \<Rightarrow> EvidenceAggregate option" where
  "ask r = (case r of Inl _ \<Rightarrow> None | Inr ev \<Rightarrow> if IsZero (WindowLast ev) then None else Some ev)"

text \<open>
  The collecting loop of \<open>fanout\<close>. The reasons are a set kept as a list; Go lists them in any
  order.
\<close>

fun collect :: "recompute_params \<Rightarrow> time \<Rightarrow> (error + EvidenceAggregate) list \<Rightarrow>
    ScoreRecord \<times> int \<times> bool \<times> string list \<Rightarrow> ScoreRecord \<times> int \<times> bool \<times> string list" where
  "collect q now [] acc = acc"
| "collect q now (r # rs) (best, bestSubnets, found, reasons) =
     (case ask r of
        None \<Rightarrow> collect q now rs (best, bestSubnets, found, reasons)
      | Some ev \<Rightarrow>
          (let rec = RecordFromEvidence ev now q
           in if IsZero (LastSeen rec) then collect q now rs (best, bestSubnets, found, reasons)
              else (let reasons = fold (\<lambda>x acc. add_new acc x) (Reasons rec) reasons
                    in if \<not> found \<or> Score rec > Score best
                       then collect q now rs (rec, bucket ev ''subnets'', True, reasons)
                       else collect q now rs (best, bestSubnets, True, reasons))))"

definition fanout ::
  "recompute_params \<Rightarrow> time \<Rightarrow> (error + EvidenceAggregate) list \<Rightarrow> ScoreRecord \<times> int \<times> bool" where
  "fanout q now answers =
     (case collect q now answers (zero_rec, 0, False, []) of
        (best, bestSubnets, found, reasons) \<Rightarrow>
          (if found then best\<lparr>Reasons := reasons\<rparr> else best, bestSubnets, found))"

definition query_miss ::
  "Querier \<Rightarrow> time \<Rightarrow> (error + EvidenceAggregate) list \<Rightarrow> string \<Rightarrow> (ScoreRecord \<times> int \<times> bool) \<times> Querier" where
  "query_miss q now answers ip =
     (case fanout (qr_params q) now answers of
        (merged, subnets, okay) \<Rightarrow>
          (let q = (if length (qr_cache q) \<ge> maxCacheEntries then evictLocked q now else q)
           in ((merged, subnets, okay),
               q\<lparr>qr_cache := AList.update ip
                  \<lparr>ce_entry = merged, ce_subnets = subnets, ce_ok = okay, ce_at = now\<rparr> (qr_cache q)\<rparr>)))"

definition Query ::
  "Querier \<Rightarrow> time \<Rightarrow> (error + EvidenceAggregate) list \<Rightarrow> string \<Rightarrow> (ScoreRecord \<times> int \<times> bool) \<times> Querier" where
  "Query q now answers ip =
     (case map_of (qr_cache q) ip of
        Some c \<Rightarrow>
          if Sub now (ce_at c) < entry_ttl (qr_cacheTTL q) c
          then ((ce_entry c, ce_subnets c, ce_ok c), q)
          else query_miss q now answers ip
      | None \<Rightarrow> query_miss q now answers ip)"

section \<open>The resolver\<close>

text \<open>
  The resolver over a state \<open>'w\<close> its callbacks may change: the local reader, the querier and the
  two callbacks, each of which may be nil.
\<close>

record 'w Resolver =
  rs_local :: "'w \<Rightarrow> string \<Rightarrow> error + ScoreRecord"
  rs_q :: "('w \<Rightarrow> string \<Rightarrow> (ScoreRecord \<times> int \<times> bool) \<times> 'w) option"
  onFederated :: "('w \<Rightarrow> string \<Rightarrow> ScoreRecord \<Rightarrow> int \<Rightarrow> 'w) option"
  rs_shed :: "('w \<Rightarrow> bool \<times> 'w) option"

definition NewResolver ::
  "('w \<Rightarrow> string \<Rightarrow> error + ScoreRecord) \<Rightarrow> ('w \<Rightarrow> string \<Rightarrow> (ScoreRecord \<times> int \<times> bool) \<times> 'w) option
     \<Rightarrow> ('w \<Rightarrow> string \<Rightarrow> ScoreRecord \<Rightarrow> int \<Rightarrow> 'w) option \<Rightarrow> ('w \<Rightarrow> bool \<times> 'w) option \<Rightarrow> 'w Resolver" where
  "NewResolver loc q onF sh = \<lparr>rs_local = loc, rs_q = q, onFederated = onF, rs_shed = sh\<rparr>"

definition SetMaterialiser :: "'w Resolver \<Rightarrow> ('w \<Rightarrow> string \<Rightarrow> ScoreRecord \<Rightarrow> int \<Rightarrow> 'w) option \<Rightarrow> 'w Resolver" where
  "SetMaterialiser r f = r\<lparr>onFederated := f\<rparr>"

definition SetShed :: "'w Resolver \<Rightarrow> ('w \<Rightarrow> bool \<times> 'w) option \<Rightarrow> 'w Resolver" where
  "SetShed r f = r\<lparr>rs_shed := f\<rparr>"

definition resolver_GetScore :: "'w Resolver \<Rightarrow> 'w \<Rightarrow> string \<Rightarrow> (error + ScoreRecord) \<times> 'w" where
  "resolver_GetScore r w ip =
     (case rs_local r w ip of
        Inl e \<Rightarrow> (Inl e, w)
      | Inr rec \<Rightarrow>
          (case rs_q r of
             None \<Rightarrow> (Inr rec, w)
           | Some q \<Rightarrow>
               if \<not> IsZero (LastSeen rec) then (Inr rec, w)
               else (let (over, w) = (case rs_shed r of None \<Rightarrow> (False, w) | Some f \<Rightarrow> f w)
                     in if over then (Inr rec, w)
                        else (case q w ip of
                                ((rec2, subnets, okay), w) \<Rightarrow>
                                  if okay
                                  then (Inr rec2, case onFederated r of None \<Rightarrow> w | Some f \<Rightarrow> f w ip rec2 subnets)
                                  else (Inr rec, w)))))"

section \<open>The responder\<close>

datatype reply = Reset | Closed | Answer EvidenceAggregate

text \<open>
  One stream: the authorizer, the decoding of the request (\<open>None\<close> when it fails) and the local
  store.
\<close>

definition respond ::
  "ed25519 \<Rightarrow> trust_json \<Rightarrow> trust_files \<Rightarrow> time \<Rightarrow> (string \<Rightarrow> error + ScoreRecord) \<Rightarrow> TrustStore option \<Rightarrow> string
     \<Rightarrow> RepQuery option \<Rightarrow> reply \<times> TrustStore option" where
  "respond C J fl now get auth peerID request =
     (case auth of
        None \<Rightarrow> (Reset, None)
      | Some ts \<Rightarrow>
          (let (bl, ts) = IsBlocked C J fl now ts peerID
           in if bl then (Reset, Some ts)
              else (let ((_, _, anchored), ts) = Resolve C J fl now ts peerID
                    in if \<not> anchored then (Reset, Some ts)
                       else (case request of
                               None \<Rightarrow> (Reset, Some ts)
                             | Some q \<Rightarrow>
                                 (case get (query_IP q) of
                                    Inl _ \<Rightarrow> (Closed, Some ts)
                                  | Inr rec \<Rightarrow> (Answer (AggregateFromRecord (query_IP q) rec), Some ts))))))"

section \<open>Recomputed records\<close>

lemma evidence_trust_bounds:
  assumes "0 \<le> rq_federationDiscount q"
  shows "0 \<le> evidence_trust ev q" "evidence_trust ev q \<le> rq_federationDiscount q"
  using assms by (auto simp: evidence_trust_def Let_def mult_left_le_one_le split: option.split)

lemma fold_groups_ok:
  assumes "0 \<le> trust" "0 \<le> rq_strangerCap q" "0 \<le> rq_diversityRepeat q"
  shows "rec_ok (rq_strangerCap q) (fold_groups g v r trust t q)"
proof -
  have "rec_ok (rq_strangerCap q) (fold (\<lambda>i rec. Accumulate rec
         \<lparr>obs_Reason = r, obs_ReporterID = ''fed'', obs_Group = ''fed'', obs_Trust = trust,
          obs_Anchored = True, obs_Subnet = (if int i \<ge> v then ''fed-repeat'' else ''fed-'' @ itoa i)\<rparr>
         t (rq_halfLife q) (rq_strangerCap q) (rq_diversityRepeat q)) xs rec)"
    if "rec_ok (rq_strangerCap q) rec" for xs rec
    using that by (induction xs arbitrary: rec) (simp_all add: Accumulate_rec_ok assms)
  then show ?thesis using assms(2) by (simp add: fold_groups_def)
qed

lemma ApplyDispute_le:
  assumes "0 \<le> Score rec" "0 \<le> obs_Trust obs" "0 \<le> dw" "0 \<le> dr"
  shows "Score (ApplyDispute rec obs now h dw cap dr) \<le> Score rec"
  using disp_reduction_bounds(1) [OF assms, of now h cap] decayed_le [OF assms(1), of now h] assms(1)
  by (simp add: ApplyDispute_fields)

lemma fold_disputes_ok:
  assumes "0 \<le> trust" "0 \<le> rq_disputeWeight q" "0 \<le> rq_diversityRepeat q"
    "rec_ok (rq_strangerCap q) rec"
  shows "rec_ok (rq_strangerCap q) (fold_disputes d trust t q rec) \<and>
    Score (fold_disputes d trust t q rec) \<le> Score rec"
proof -
  have "rec_ok (rq_strangerCap q) r' \<and> Score r' \<le> Score r"
    if "rec_ok (rq_strangerCap q) r" "r' = fold (\<lambda>i rec. ApplyDispute rec
         \<lparr>obs_Reason = '''', obs_ReporterID = ''fed-dispute'', obs_Group = '''', obs_Trust = trust,
          obs_Anchored = True, obs_Subnet = ''fed-d'' @ itoa i\<rparr>
         t (rq_halfLife q) (rq_disputeWeight q) (rq_strangerCap q) (rq_diversityRepeat q)) xs r" for xs r r'
    using that
  proof (induction xs arbitrary: r)
    case (Cons x xs)
    let ?o = "\<lparr>obs_Reason = '''', obs_ReporterID = ''fed-dispute'', obs_Group = '''', obs_Trust = trust,
          obs_Anchored = True, obs_Subnet = ''fed-d'' @ itoa x\<rparr>"
    let ?r = "ApplyDispute r ?o t (rq_halfLife q) (rq_disputeWeight q) (rq_strangerCap q) (rq_diversityRepeat q)"
    have ok: "rec_ok (rq_strangerCap q) ?r" using Cons.prems(1) assms by (intro ApplyDispute_rec_ok) simp_all
    have "Score ?r \<le> Score r"
      using rec_okD(1) [OF Cons.prems(1)] assms by (intro ApplyDispute_le) simp_all
    moreover have "rec_ok (rq_strangerCap q) r' \<and> Score r' \<le> Score ?r"
      using Cons.IH [OF ok] Cons.prems(2) by simp
    ultimately show ?case by linarith
  qed simp
  then show ?thesis using assms(4) by (simp add: fold_disputes_def)
qed

lemma fold_groups_none: "g \<le> 0 \<Longrightarrow> fold_groups g v r trust t q = zero_rec"
  by (simp add: fold_groups_def)

lemma zero_trust_Accumulate:
  "Score rec = 0 \<Longrightarrow> obs_Trust obs = 0 \<Longrightarrow> Score (Accumulate rec obs now h cap dr) = 0"
  by (simp add: Accumulate_fields acc_contrib_def acc_raw_def decayed_def)

lemma fold_groups_zero_trust: "Score (fold_groups g v r 0 t q) = 0"
proof -
  have "Score (fold (\<lambda>i rec. Accumulate rec
         \<lparr>obs_Reason = r, obs_ReporterID = ''fed'', obs_Group = ''fed'', obs_Trust = 0,
          obs_Anchored = True, obs_Subnet = (if int i \<ge> v then ''fed-repeat'' else ''fed-'' @ itoa i)\<rparr>
         t (rq_halfLife q) (rq_strangerCap q) (rq_diversityRepeat q)) xs rec) = 0"
    if "Score rec = 0" for xs rec
    using that by (induction xs arbitrary: rec) (simp_all add: zero_trust_Accumulate)
  then show ?thesis by (simp add: fold_groups_def)
qed

definition params_ok :: "recompute_params \<Rightarrow> bool" where
  "params_ok q \<longleftrightarrow> 0 \<le> rq_strangerCap q \<and> 0 \<le> rq_federationDiscount q \<and> 0 \<le> rq_diversityRepeat q \<and>
     0 \<le> rq_disputeWeight q"

lemma params_okD:
  assumes "params_ok q"
  shows "0 \<le> rq_strangerCap q" "0 \<le> rq_diversityRepeat q" "0 \<le> rq_disputeWeight q"
    "0 \<le> evidence_trust ev q"
  using assms evidence_trust_bounds by (auto simp: params_ok_def)

lemma folded_votes_ok:
  assumes "params_ok q"
  shows "rec_ok (rq_strangerCap q) (folded_votes ev q)"
  using params_okD [OF assms] by (simp add: folded_votes_def Let_def fold_groups_ok Accumulate_rec_ok)

lemma folded_record_ok:
  assumes "params_ok q"
  shows "rec_ok (rq_strangerCap q) (folded_record ev q)" "Score (folded_record ev q) \<le> Score (folded_votes ev q)"
  using fold_disputes_ok [OF params_okD(4,3,2) [OF assms] folded_votes_ok [OF assms]] assms
  by (simp_all add: folded_record_def Let_def)

text \<open>Without an anchored group the score stays within the stranger cap; without trust it is 0.\<close>

lemma folded_votes_stranger:
  assumes "params_ok q" "bucket ev ''groups'' \<le> 0"
  shows "Score (folded_votes ev q) \<le> rq_strangerCap q"
proof -
  have "evidence_groups ev \<le> 0" using assms(2) by (simp add: evidence_groups_def maxEvidenceFolds_def Let_def)
  then have z: "fold_groups (evidence_groups ev) v r t w q = zero_rec" for v r t w
    by (simp add: fold_groups_none)
  have "stranger_rec (rq_strangerCap q) (folded_votes ev q)"
    using params_okD [OF assms(1)] by (simp add: folded_votes_def Let_def z stranger_rec_Accumulate)
  then show ?thesis by (meson rec_okD(3) order_trans stranger_rec_def)
qed

lemma folded_votes_zero: "evidence_trust ev q = 0 \<Longrightarrow> Score (folded_votes ev q) = 0"
  by (simp add: folded_votes_def Let_def fold_groups_zero_trust zero_trust_Accumulate)

lemma RecordFromEvidence_Score:
  assumes "params_ok q" "WindowLast ev \<noteq> 0"
  shows "Score (RecordFromEvidence ev now q) =
    DecayScore (Score (folded_record ev q)) (WindowLast ev) now (rq_halfLife q)"
proof -
  note ok = rec_okD [OF folded_record_ok(1) [OF assms(1), of ev]]
  have "DecayScore (Score (folded_record ev q)) (WindowLast ev) now (rq_halfLife q) \<le> 100"
    using DecayScore_le [OF ok(1)] ok(2) by (rule order_trans)
  then show ?thesis using assms(2) DecayScore_nonneg [OF ok(1), of "WindowLast ev" now "rq_halfLife q"]
    by (simp add: RecordFromEvidence_def Let_def IsZero_def not_less)
qed

lemma RecordFromEvidence_bounds:
  assumes "params_ok q"
  shows "0 \<le> Score (RecordFromEvidence ev now q)" "Score (RecordFromEvidence ev now q) \<le> 100"
    "bucket ev ''groups'' \<le> 0 \<Longrightarrow> Score (RecordFromEvidence ev now q) \<le> rq_strangerCap q"
    "evidence_trust ev q = 0 \<Longrightarrow> Score (RecordFromEvidence ev now q) = 0"
proof -
  let ?x = "Score (RecordFromEvidence ev now q)"
  note ok = rec_okD [OF folded_record_ok(1) [OF assms, of ev]]
  have x: "?x = 0 \<or> 0 \<le> ?x \<and> ?x \<le> Score (folded_record ev q)"
    using RecordFromEvidence_Score [OF assms, of ev now]
      DecayScore_nonneg [OF ok(1), of "WindowLast ev" now "rq_halfLife q"]
      DecayScore_le [OF ok(1), of "WindowLast ev" now "rq_halfLife q"]
    by (cases "WindowLast ev = 0") (simp_all add: RecordFromEvidence_def IsZero_def)
  then show "0 \<le> ?x" by linarith
  show "?x \<le> 100" using x ok(2) by linarith
  show "bucket ev ''groups'' \<le> 0 \<Longrightarrow> ?x \<le> rq_strangerCap q"
    using x folded_record_ok(2) [OF assms, of ev] folded_votes_stranger [OF assms, of ev] params_okD(1) [OF assms]
    by linarith
  show "evidence_trust ev q = 0 \<Longrightarrow> ?x = 0"
    using x folded_record_ok(2) [OF assms, of ev] folded_votes_zero [of ev q] by linarith
qed

lemma RecordFromEvidence_fields:
  "Groups (RecordFromEvidence ev now q) = []" "ReporterIDs (RecordFromEvidence ev now q) = []"
  "Corroboration (RecordFromEvidence ev now q) = 0" "SubnetsSeen (RecordFromEvidence ev now q) = []"
  "LastSeen (RecordFromEvidence ev now q) = WindowLast ev"
  "FirstSeen (RecordFromEvidence ev now q) = (if WindowLast ev = 0 then 0 else WindowFirst ev)"
  "Reasons (RecordFromEvidence ev now q) = (if WindowLast ev = 0 then [] else Scenarios ev)"
  by (simp_all add: RecordFromEvidence_def Let_def IsZero_def)

section \<open>Merging answers\<close>

definition usable :: "(error + EvidenceAggregate) list \<Rightarrow> EvidenceAggregate set" where
  "usable answers = {ev. Inr ev \<in> set answers \<and> WindowLast ev \<noteq> 0}"

lemma usable_Cons:
  "usable (r # rs) = (case ask r of None \<Rightarrow> usable rs | Some ev \<Rightarrow> insert ev (usable rs))"
  by (auto simp: usable_def ask_def IsZero_def split: sum.splits)

lemma set_fold_add_new: "set (fold (\<lambda>x acc. add_new acc x) xs acc) = set xs \<union> set acc"
  by (induction xs arbitrary: acc) auto

lemma collect_spec:
  assumes "collect q now answers (b, n, found, rs) = (b', n', found', rs')"
  shows "found' = (found \<or> usable answers \<noteq> {}) \<and>
    set rs' = set rs \<union> (\<Union>ev \<in> usable answers. set (Scenarios ev)) \<and>
    (found \<longrightarrow> Score b \<le> Score b') \<and>
    (\<forall>ev \<in> usable answers. Score (RecordFromEvidence ev now q) \<le> Score b') \<and>
    ((b', n') = (b, n) \<and> (found \<or> usable answers = {}) \<or>
      (\<exists>ev \<in> usable answers. b' = RecordFromEvidence ev now q \<and> n' = bucket ev ''subnets''))"
  using assms
proof (induction answers arbitrary: b n found rs)
  case Nil
  then show ?case by (simp add: usable_def)
next
  case (Cons r answers)
  show ?case
  proof (cases "ask r")
    case None
    with Cons show ?thesis by (simp add: usable_Cons)
  next
    case (Some ev)
    then have w: "WindowLast ev \<noteq> 0" by (auto simp: ask_def IsZero_def split: sum.splits if_splits)
    let ?rec = "RecordFromEvidence ev now q"
    let ?rs = "fold (\<lambda>x acc. add_new acc x) (Reasons ?rec) rs"
    have rs: "set ?rs = set (Scenarios ev) \<union> set rs"
      using w by (simp add: set_fold_add_new RecordFromEvidence_fields)
    show ?thesis
    proof (cases "\<not> found \<or> Score b < Score ?rec")
      case True
      then have "collect q now answers (?rec, bucket ev ''subnets'', True, ?rs) = (b', n', found', rs')"
        using Cons.prems Some w by (simp add: Let_def IsZero_def RecordFromEvidence_fields)
      from Cons.IH [OF this] True show ?thesis by (auto simp: usable_Cons Some rs)
    next
      case False
      then have "collect q now answers (b, n, True, ?rs) = (b', n', found', rs')"
        using Cons.prems Some w by (simp add: Let_def IsZero_def RecordFromEvidence_fields)
      from Cons.IH [OF this] False show ?thesis by (auto simp: usable_Cons Some rs)
    qed
  qed
qed

lemma fanout_spec:
  assumes "fanout q now answers = (rec, n, okay)"
  shows "okay \<longleftrightarrow> usable answers \<noteq> {}"
    "okay \<Longrightarrow> set (Reasons rec) = (\<Union>ev \<in> usable answers. set (Scenarios ev))"
    "ev \<in> usable answers \<Longrightarrow> Score (RecordFromEvidence ev now q) \<le> Score rec"
    "okay \<Longrightarrow> \<exists>ev \<in> usable answers. rec = (RecordFromEvidence ev now q)\<lparr>Reasons := Reasons rec\<rparr> \<and>
      n = bucket ev ''subnets''"
    "\<not> okay \<Longrightarrow> rec = zero_rec \<and> n = 0"
proof -
  obtain b n' f rs where c: "collect q now answers (zero_rec, 0, False, []) = (b, n', f, rs)"
    by (metis prod_cases4)
  from assms c have r: "rec = (if f then b\<lparr>Reasons := rs\<rparr> else b)" "n = n'" "okay = f"
    by (auto simp: fanout_def)
  note s = collect_spec [OF c]
  show "okay \<longleftrightarrow> usable answers \<noteq> {}" using s r by simp
  show "okay \<Longrightarrow> set (Reasons rec) = (\<Union>ev \<in> usable answers. set (Scenarios ev))" using s r by simp
  show "ev \<in> usable answers \<Longrightarrow> Score (RecordFromEvidence ev now q) \<le> Score rec" using s r by auto
  show "okay \<Longrightarrow> \<exists>ev \<in> usable answers. rec = (RecordFromEvidence ev now q)\<lparr>Reasons := Reasons rec\<rparr> \<and>
      n = bucket ev ''subnets''"
    using s r by fastforce
  show "\<not> okay \<Longrightarrow> rec = zero_rec \<and> n = 0" using s r by auto
qed

section \<open>The answer cache\<close>

interpretation answers: evicting_cache "evict_map ce_at (entry_ttl T) bound" ce_at "entry_ttl T" bound
  for T :: duration and bound :: nat
proof unfold_locales
  fix k :: string and v :: cacheEntry and m :: "(string \<times> cacheEntry) list" and now
  assume "(k, v) \<in> set m" "Sub now (ce_at v) < entry_ttl T v" "wf_map m"
  then show "(k, v) \<in> set (evict_map ce_at (entry_ttl T) bound now m) \<or>
      (\<forall>p \<in> set m. Sub now (ce_at (snd p)) < entry_ttl T (snd p) \<longrightarrow> ce_at v \<le> ce_at (snd p)) \<and>
      bound \<le> length (filter (\<lambda>p. Sub now (ce_at (snd p)) < entry_ttl T (snd p)) m)"
    by (rule evict_map_keep)
qed (simp_all add: evict_map_wf evict_map_sub evict_map_room)

lemma query_miss_insert:
  "query_miss q now answers ip =
     (fanout (qr_params q) now answers,
      q\<lparr>qr_cache := answers.insert_entry (qr_cacheTTL q) maxCacheEntries now (qr_cache q) ip
        (case fanout (qr_params q) now answers of (m, n, okay) \<Rightarrow>
           \<lparr>ce_entry = m, ce_subnets = n, ce_ok = okay, ce_at = now\<rparr>)\<rparr>)"
  by (simp add: query_miss_def answers.insert_entry_def evictLocked_def Let_def split: prod.split)

definition live_entry :: "Querier \<Rightarrow> time \<Rightarrow> string \<Rightarrow> bool" where
  "live_entry q now ip \<longleftrightarrow>
     (case map_of (qr_cache q) ip of None \<Rightarrow> False | Some c \<Rightarrow> Sub now (ce_at c) < entry_ttl (qr_cacheTTL q) c)"

lemma Query_hit:
  "live_entry q now ip \<Longrightarrow> Query q now answers ip = Query q now [] ip \<and> snd (Query q now answers ip) = q"
  by (simp add: live_entry_def Query_def split: option.splits)

lemma Query_miss: "\<not> live_entry q now ip \<Longrightarrow> Query q now answers ip = query_miss q now answers ip"
  by (simp add: live_entry_def Query_def split: option.splits)

definition querier_ok :: "Querier \<Rightarrow> bool" where
  "querier_ok q \<longleftrightarrow> answers.cache_ok maxCacheEntries (qr_cache q)"

lemma Query_ok: "querier_ok q \<Longrightarrow> ip \<noteq> '''' \<Longrightarrow> querier_ok (snd (Query q now ans ip))"
proof (cases "live_entry q now ip")
  case True
  assume "querier_ok q"
  with Query_hit [OF True, of ans] show ?thesis by metis
next
  case False
  assume "querier_ok q" "ip \<noteq> ''''"
  moreover have "0 < maxCacheEntries" by (simp add: maxCacheEntries_def)
  ultimately show ?thesis
    by (simp add: False Query_miss query_miss_insert querier_ok_def answers.insert_entry_ok)
qed

text \<open>What was just answered is answered again, without asking anyone, for the entry's time to live.\<close>

lemma Query_again:
  assumes "\<not> live_entry q now ip" "Query q now ans ip = ((rec, n, okay), q')"
    "Sub later now < (if okay then qr_cacheTTL q else qr_cacheTTL q div 5)"
  shows "Query q' later ans' ip = ((rec, n, okay), q')"
proof -
  have f: "fanout (qr_params q) now ans = (rec, n, okay)"
    and q': "q' = q\<lparr>qr_cache := answers.insert_entry (qr_cacheTTL q) maxCacheEntries now (qr_cache q) ip
      \<lparr>ce_entry = rec, ce_subnets = n, ce_ok = okay, ce_at = now\<rparr>\<rparr>"
    using assms(1,2) by (auto simp: Query_miss query_miss_insert)
  show ?thesis
    using assms(3) by (simp add: Query_def q' answers.insert_entry_lookup entry_ttl_def split: if_splits)
qed

section \<open>Properties\<close>

text \<open>
  C27. \<open>RecordFromEvidence\<close> is advisory: whatever an aggregator sends, the recomputed record has
  no groups, no reporters and no corroboration, a score on the scale, within the stranger cap when
  the evidence counts no anchored group, and 0 when its weight is NaN or not positive.
\<close>

theorem federated_record_advisory:
  fixes ev :: EvidenceAggregate and now :: time
  assumes "params_ok q"
  defines "r \<equiv> RecordFromEvidence ev now q"
  shows "Groups r = [] \<and> ReporterIDs r = [] \<and> Corroboration r = 0 \<and> 0 \<le> Score r \<and> Score r \<le> 100 \<and>
    (LastSeen r = 0 \<longleftrightarrow> WindowLast ev = 0) \<and>
    (bucket ev ''groups'' \<le> 0 \<longrightarrow> Score r \<le> rq_strangerCap q) \<and>
    ((case EvidenceWeight ev of None \<Rightarrow> True | Some w \<Rightarrow> w \<le> 0) \<longrightarrow> Score r = 0)"
proof -
  have "(case EvidenceWeight ev of None \<Rightarrow> True | Some w \<Rightarrow> w \<le> 0) \<Longrightarrow> evidence_trust ev q = 0"
    by (auto simp: evidence_trust_def Let_def split: option.splits)
  with RecordFromEvidence_bounds [OF assms(1), of ev now] show ?thesis
    unfolding r_def by (auto simp: RecordFromEvidence_fields)
qed

definition default_params :: recompute_params where
  "default_params = \<lparr>rq_halfLife = hour, rq_strangerCap = 20, rq_federationDiscount = 1 / 2,
     rq_diversityRepeat = 1 / 10, rq_disputeWeight = 10\<rparr>"

lemma default_params_ok [simp]: "params_ok default_params"
  by (simp add: params_ok_def default_params_def)

definition some_evidence :: EvidenceAggregate where
  "some_evidence = zero_Evidence\<lparr>ev_IP := ''192.0.2.1'', Scenarios := [''ssh-probe''], WindowFirst := 1,
     WindowLast := 2, StrangersPresent := True, EvidenceWeight := Some 1\<rparr>"

theorem federated_record_advisory_witness:
  "Score (RecordFromEvidence some_evidence 5 default_params) \<le> 20"
  using federated_record_advisory [OF default_params_ok, of some_evidence 5]
  by (simp add: some_evidence_def zero_Evidence_def bucket_def) (simp add: default_params_def)

text \<open>
  C28. \<open>Query\<close>: a live cache entry is answered without asking; otherwise the answer merges the
  usable aggregates that arrived (its score is the largest recomputed one, its subnets count is
  that aggregate's, its reasons are everyone's, and it is negative exactly when none is usable),
  and the same answer is given again, whatever aggregators would say, for the whole time to live,
  a fifth of it for a negative answer. The cache stays within its bound.
\<close>

theorem Query_merges_and_caches:
  assumes "Query q now ans ip = ((rec, n, okay), q')" "querier_ok q" "ip \<noteq> ''''"
  shows "querier_ok q' \<and> length (qr_cache q') \<le> 65536 \<and>
    (live_entry q now ip \<longrightarrow> q' = q \<and> fst (Query q now [] ip) = (rec, n, okay)) \<and>
    (\<not> live_entry q now ip \<longrightarrow>
      (okay \<longleftrightarrow> usable ans \<noteq> {}) \<and>
      (\<forall>ev \<in> usable ans. Score (RecordFromEvidence ev now (qr_params q)) \<le> Score rec) \<and>
      (okay \<longrightarrow> set (Reasons rec) = (\<Union>ev \<in> usable ans. set (Scenarios ev)) \<and>
        (\<exists>ev \<in> usable ans. rec = (RecordFromEvidence ev now (qr_params q))\<lparr>Reasons := Reasons rec\<rparr> \<and>
          n = bucket ev ''subnets'')) \<and>
      (\<forall>later ans'. Sub later now < (if okay then qr_cacheTTL q else qr_cacheTTL q div 5) \<longrightarrow>
        Query q' later ans' ip = ((rec, n, okay), q')))"
proof -
  have ok: "querier_ok q'" using Query_ok [OF assms(2,3), of now ans] assms(1) by simp
  then have len: "length (qr_cache q') \<le> 65536"
    by (simp add: querier_ok_def answers.cache_ok_def maxCacheEntries_def)
  show ?thesis
  proof (cases "live_entry q now ip")
    case True
    with Query_hit [OF True, of ans] assms(1) ok len show ?thesis by (metis fst_conv snd_conv)
  next
    case False
    then have f: "fanout (qr_params q) now ans = (rec, n, okay)"
      using assms(1) by (simp add: Query_miss query_miss_insert)
    show ?thesis using False ok len fanout_spec [OF f] Query_again [OF False assms(1)] by blast
  qed
qed

lemma NewQuerier_ok [simp]: "querier_ok (NewQuerier T q)"
  by (simp add: querier_ok_def NewQuerier_def answers.cache_ok_def)

theorem Query_merges_and_caches_witness:
  "\<exists>rec n q'. Query (NewQuerier hour default_params) 5 [Inl (Fault ''reset''), Inr some_evidence] ''192.0.2.1'' =
     ((rec, n, True), q') \<and> set (Reasons rec) = {''ssh-probe''} \<and> Query q' 6 [] ''192.0.2.1'' = ((rec, n, True), q')"
proof -
  let ?a = "[Inl (Fault ''reset''), Inr some_evidence]" and ?q = "NewQuerier hour default_params"
  obtain rec n okay q' where q: "Query ?q 5 ?a ''192.0.2.1'' = ((rec, n, okay), q')"
    by (metis prod.collapse)
  have u: "usable ?a = {some_evidence}" by (auto simp: usable_def some_evidence_def zero_Evidence_def)
  have l: "\<not> live_entry ?q 5 ''192.0.2.1''" by (simp add: live_entry_def NewQuerier_def)
  have t: "Sub 6 5 < hour" by (simp add: Sub_def max_duration_def min_duration_def hour_def)
  have s: "Scenarios some_evidence = [''ssh-probe'']" by (simp add: some_evidence_def)
  have T: "qr_cacheTTL ?q = hour" by (simp add: NewQuerier_def)
  note m = Query_merges_and_caches [OF q NewQuerier_ok, simplified T u]
  have okay using m l by simp
  have "set (Reasons rec) = {''ssh-probe''}" using m l \<open>okay\<close> by (simp add: s)
  moreover have "Query q' 6 [] ''192.0.2.1'' = ((rec, n, okay), q')" using m l t \<open>okay\<close> by simp
  ultimately show ?thesis using q \<open>okay\<close> by auto
qed

text \<open>
  C29. The responder fails closed and shares no identity: an answer goes only to a peer that is
  not blocked and is anchored at that moment, and two stores whose records agree on the score's
  provenance counts, reasons and times get the same answer, whoever reported.
\<close>

theorem responder_fails_closed:
  assumes "respond C J fl now get auth peerID request = (Answer ev, auth')"
  shows "\<exists>ts q rec. auth = Some ts \<and> request = Some q \<and> get (query_IP q) = Inr rec \<and>
    ev = AggregateFromRecord (query_IP q) rec \<and>
    \<not> fst (IsBlocked C J fl now ts peerID) \<and>
    (\<exists>w g. fst (Resolve C J fl now (snd (IsBlocked C J fl now ts peerID)) peerID) = (w, g, True)) \<and>
    (\<forall>rec'. Reasons rec' = Reasons rec \<and> FirstSeen rec' = FirstSeen rec \<and> LastSeen rec' = LastSeen rec \<and>
       StrangerSeen rec' = StrangerSeen rec \<and> length (Groups rec') = length (Groups rec) \<and>
       length (ReporterIDs rec') = length (ReporterIDs rec) \<and>
       length (SubnetsSeen rec') = length (SubnetsSeen rec) \<and>
       length (DisputeSubnetsSeen rec') = length (DisputeSubnetsSeen rec) \<longrightarrow>
       AggregateFromRecord (query_IP q) rec' = ev)"
proof -
  obtain ts where ts: "auth = Some ts" using assms by (cases auth) (simp_all add: respond_def)
  let ?b = "IsBlocked C J fl now ts peerID"
  let ?r = "Resolve C J fl now (snd ?b) peerID"
  have r: "respond C J fl now get auth peerID request =
     (if fst ?b then (Reset, Some (snd ?b)) else if \<not> snd (snd (fst ?r)) then (Reset, Some (snd ?r))
      else case request of None \<Rightarrow> (Reset, Some (snd ?r))
        | Some q \<Rightarrow> (case get (query_IP q) of Inl _ \<Rightarrow> (Closed, Some (snd ?r))
            | Inr rec \<Rightarrow> (Answer (AggregateFromRecord (query_IP q) rec), Some (snd ?r))))"
    by (simp add: ts respond_def Let_def case_prod_beta)
  have b: "\<not> fst ?b" and a: "snd (snd (fst ?r))"
    using assms unfolding r by (simp_all split: if_splits)
  obtain q where q: "request = Some q"
    using assms b a unfolding r by (cases request) simp_all
  obtain rec where rec: "get (query_IP q) = Inr rec"
    using assms [unfolded r] b a by (cases "get (query_IP q)") (simp_all add: q)
  have ev: "ev = AggregateFromRecord (query_IP q) rec"
    using assms [unfolded r] b a by (simp add: q rec)
  have "\<exists>w g. fst ?r = (w, g, True)" using a by (metis prod.collapse)
  moreover have "AggregateFromRecord (query_IP q) rec' = ev"
    if "Reasons rec' = Reasons rec \<and> FirstSeen rec' = FirstSeen rec \<and> LastSeen rec' = LastSeen rec \<and>
       StrangerSeen rec' = StrangerSeen rec \<and> length (Groups rec') = length (Groups rec) \<and>
       length (ReporterIDs rec') = length (ReporterIDs rec) \<and>
       length (SubnetsSeen rec') = length (SubnetsSeen rec) \<and>
       length (DisputeSubnetsSeen rec') = length (DisputeSubnetsSeen rec)" for rec'
    using that by (simp add: ev AggregateFromRecord_def)
  ultimately show ?thesis using ts q rec ev b by blast
qed

theorem responder_fails_closed_witness:
  "\<exists>w g. fst (Resolve plain_ed25519 plain_json ana_files 30
      (snd (IsBlocked plain_ed25519 plain_json ana_files 30 (snd (AddCert plain_ed25519 ana_store ana_cert 20)) ''p1''))
      ''p1'') = (w, g, True)"
proof -
  let ?s = "snd (AddCert plain_ed25519 ana_store ana_cert 20)"
  have m: "maybeReload plain_ed25519 plain_json ana_files 30 ?s = ?s"
    by (rule no_reload_at_30) (simp_all add: AddCert_def certs_verify ana_store_fields)
  have b: "blocked ?s = {}"
    by (simp add: frame_simps ana_store_def NewStore_def maybeReload_def reload_anchors_def reload_certs_def
      reload_blocked_def statChanged_def LoadAnchors_def LoadCerts_def LoadBlockedPeers_def load_list_def
      IsNotExist_def ana_files_def plain_json_def Let_def)
  have "respond plain_ed25519 plain_json ana_files 30 (\<lambda>_. Inr zero_rec) (Some ?s) ''p1''
      (Some \<lparr>query_IP = ''192.0.2.1''\<rparr>) = (Answer (AggregateFromRecord ''192.0.2.1'' zero_rec), Some ?s)"
    by (simp add: respond_def IsBlocked_def Resolve_def Let_def m b ana_resolves)
  from responder_fails_closed [OF this] show ?thesis by auto
qed

end
