(* ===== verification/Transport.thy ===== *)
theory Transport
  imports Proto
begin

text \<open>
  Package \<open>internal/transport\<close>: the topics a node joins and publishes on (\<open>options.go\<close>,
  \<open>gossip.go\<close>), the messages it accepts from them, and the loop that keeps the bootstrap peers
  connected (\<open>dht.go\<close>, \<open>reconnect.go\<close>). libp2p's host, gossipsub and DHT are parameters: the
  outcome of each call on them.
\<close>

section \<open>Subnets and topics\<close>

datatype NodeMode = ModeLeaf | ModeRelay

definition DefaultTopic :: string where
  "DefaultTopic = ''federloom/events/v2''"

record Options =
  ListenAddrs :: "string list"
  opt_BootstrapPeers :: "string list"
  opt_Mode :: NodeMode
  has_PrivKey :: bool
  opt_Topic :: string
  opt_Subnet :: string
  BridgeSubnets :: "string list"

text \<open>The libp2p options a node asks for, as \<open>buildLibp2pOptions\<close> builds them.\<close>

datatype libp2p_option = OptListenAddrs "string list" | OptIdentity | OptRelayService

definition buildLibp2pOptions :: "Options \<Rightarrow> libp2p_option list" where
  "buildLibp2pOptions opts =
     (if 0 < length (ListenAddrs opts) then [OptListenAddrs (ListenAddrs opts)] else []) @
     (if has_PrivKey opts then [OptIdentity] else []) @
     (if opt_Mode opts = ModeRelay then [OptRelayService] else [])"

definition SubnetTopic :: "string \<Rightarrow> string \<Rightarrow> string" where
  "SubnetTopic base subnet = (if subnet = '''' \<or> subnet = ''default'' then base else base @ ''/'' @ subnet)"

definition canonicalSubnet :: "string \<Rightarrow> string" where
  "canonicalSubnet s = (if s = ''default'' then '''' else s)"

text \<open>The loop over the bridge subnets, \<open>seen\<close> being the set of names already listed.\<close>

fun subnet_loop :: "string list \<Rightarrow> string set \<Rightarrow> string list \<Rightarrow> string list" where
  "subnet_loop [] seen subnets = subnets"
| "subnet_loop (s # rest) seen subnets =
     (let cs = canonicalSubnet s
      in if cs \<notin> seen then subnet_loop rest (insert cs seen) (subnets @ [cs]) else subnet_loop rest seen subnets)"

definition joined_subnets :: "Options \<Rightarrow> string list" where
  "joined_subnets opts =
     (let home = canonicalSubnet (opt_Subnet opts) in subnet_loop (BridgeSubnets opts) {home} [home])"

section \<open>The node\<close>

record Transport =
  tr_self :: string
  tr_topics :: "(string \<times> string) list"

text \<open>
  What libp2p answers while a node starts: the host (its peer ID), the DHT, gossipsub, and for
  each topic whether it can be joined and subscribed to.
\<close>

record startup =
  su_host :: "error + string"
  su_dht :: "error option"
  su_pubsub :: "error option"
  su_join :: "string \<Rightarrow> error option"
  su_subscribe :: "string \<Rightarrow> error option"

fun join_loop :: "startup \<Rightarrow> string \<Rightarrow> string list \<Rightarrow> (string \<times> string) list \<Rightarrow> error + (string \<times> string) list" where
  "join_loop su base [] topics = Inr topics"
| "join_loop su base (cs # rest) topics =
     (let t = SubnetTopic base cs
      in (case su_join su t of
            Some e \<Rightarrow> Inl (Wrap ''transport: join subnet'' e)
          | None \<Rightarrow>
              (case su_subscribe su t of
                 Some e \<Rightarrow> Inl (Wrap ''transport: subscribe subnet'' e)
               | None \<Rightarrow> join_loop su base rest (topics @ [(cs, t)]))))"

definition transport_New :: "startup \<Rightarrow> Options \<Rightarrow> error + Transport" where
  "transport_New su opts =
     (let base = (if opt_Topic opts = '''' then DefaultTopic else opt_Topic opts)
      in (case su_host su of
            Inl e \<Rightarrow> Inl (Wrap ''transport: create host'' e)
          | Inr self \<Rightarrow>
              (case su_dht su of
                 Some e \<Rightarrow> Inl (Wrap ''transport: create dht'' e)
               | None \<Rightarrow>
                   (case su_pubsub su of
                      Some e \<Rightarrow> Inl (Wrap ''transport: create gossipsub'' e)
                    | None \<Rightarrow>
                        (case join_loop su base (joined_subnets opts) [] of
                           Inl e \<Rightarrow> Inl e
                         | Inr topics \<Rightarrow> Inr \<lparr>tr_self = self, tr_topics = topics\<rparr>)))))"

definition Subnets :: "Transport \<Rightarrow> string list" where
  "Subnets n = keys (tr_topics n)"

text \<open>\<open>Publish\<close>: the topic and the bytes handed to gossipsub, if any, and the error.\<close>

definition Publish ::
  "(Event \<Rightarrow> error + bytes) \<Rightarrow> (string \<Rightarrow> bytes \<Rightarrow> error option) \<Rightarrow> Transport \<Rightarrow> Event \<Rightarrow> string
     \<Rightarrow> error option \<times> (string \<times> bytes) option" where
  "Publish encode pub n e subnet =
     (case map_of (tr_topics n) (canonicalSubnet subnet) of
        None \<Rightarrow> (Some (Fault ''transport: not joined to subnet''), None)
      | Some topic \<Rightarrow>
          (case encode e of
             Inl err \<Rightarrow> (Some (Wrap ''transport: marshal event'' err), None)
           | Inr data \<Rightarrow> (pub topic data, Some (topic, data))))"

record ReceivedEvent =
  re_Event :: Event
  From :: string
  Subnet :: string

text \<open>
  \<open>readLoop\<close> on one subnet: the messages \<open>sub.Next\<close> returns, each with its verified publisher,
  up to the error that ends the loop.
\<close>

fun readLoop :: "(bytes \<Rightarrow> error + Event) \<Rightarrow> string \<Rightarrow> string \<Rightarrow> (error + string \<times> bytes) list \<Rightarrow> ReceivedEvent list" where
  "readLoop decode self subnet [] = []"
| "readLoop decode self subnet (Inl e # msgs) = []"
| "readLoop decode self subnet (Inr (from, data) # msgs) =
     (if from = self then readLoop decode self subnet msgs
      else (case decode data of
              Inl _ \<Rightarrow> readLoop decode self subnet msgs
            | Inr e \<Rightarrow> \<lparr>re_Event = e, From = from, Subnet = subnet\<rparr> # readLoop decode self subnet msgs))"

section \<open>Bootstrap peers\<close>

datatype net_call = Connect string | Protect string | ClearBackoff string | Refresh | LogUnreachable string

text \<open>\<open>Bootstrap\<close>: \<open>dial\<close> is the outcome of connecting to each peer, \<open>dht\<close> of the refresh.\<close>

fun bootstrap_loop :: "string \<Rightarrow> (string \<Rightarrow> error option) \<Rightarrow> string list \<Rightarrow> error list \<times> net_call list" where
  "bootstrap_loop self dial [] = ([], [])"
| "bootstrap_loop self dial (p # ps) =
     (let (errs, calls) = bootstrap_loop self dial ps
      in if p = self then (errs, calls)
         else (case dial p of
                 Some e \<Rightarrow> (Wrap ''transport: connect bootstrap peer'' e # errs, Connect p # calls)
               | None \<Rightarrow> (errs, Connect p # Protect p # calls)))"

definition Bootstrap :: "string \<Rightarrow> (string \<Rightarrow> error option) \<Rightarrow> error option \<Rightarrow> string list \<Rightarrow> error list \<times> net_call list" where
  "Bootstrap self dial dht peers =
     (let (errs, calls) = bootstrap_loop self dial peers
      in (errs @ (case dht of None \<Rightarrow> [] | Some e \<Rightarrow> [e]), calls @ [Refresh]))"

text \<open>The mode of the DHT, the time between two ticks of \<open>KeepBootstrapPeers\<close>, and what \<open>Close\<close> closes.\<close>

definition dht_server :: "NodeMode \<Rightarrow> bool" where
  "dht_server mode \<longleftrightarrow> mode = ModeRelay"

definition keep_interval :: "duration \<Rightarrow> duration" where
  "keep_interval interval = (if interval \<le> 0 then minute else interval)"

datatype close_call = CancelSub string | CloseTopic string | CloseDHT | CloseHost

definition transport_Close :: "error option \<Rightarrow> Transport \<Rightarrow> error option \<times> close_call list" where
  "transport_Close host n =
     (host, concat (map (\<lambda>(cs, t). [CancelSub t, CloseTopic t]) (tr_topics n)) @ [CloseDHT, CloseHost])"

text \<open>
  One tick of \<open>KeepBootstrapPeers\<close> over the configured peers: \<open>conn\<close> tells which are connected,
  \<open>dial\<close> how each attempt ends. The state is the set of peers known to be down.
\<close>

fun keep_loop ::
  "string \<Rightarrow> (string \<Rightarrow> bool) \<Rightarrow> (string \<Rightarrow> error option) \<Rightarrow> string list \<Rightarrow> string set \<times> bool \<times> net_call list
     \<Rightarrow> string set \<times> bool \<times> net_call list" where
  "keep_loop self conn dial [] st = st"
| "keep_loop self conn dial (p # ps) (down, reconnected, calls) =
     (if p = self then keep_loop self conn dial ps (down, reconnected, calls)
      else if conn p then
        (let calls = calls @ [Protect p]
         in if p \<in> down then keep_loop self conn dial ps (down - {p}, True, calls)
            else keep_loop self conn dial ps (down, reconnected, calls))
      else
        (let calls = calls @ [ClearBackoff p, Connect p]
         in (case dial p of
               Some e \<Rightarrow>
                 if p \<notin> down then keep_loop self conn dial ps (insert p down, reconnected, calls @ [LogUnreachable p])
                 else keep_loop self conn dial ps (down, reconnected, calls)
             | None \<Rightarrow> keep_loop self conn dial ps (down - {p}, True, calls @ [Protect p]))))"

definition keep_tick ::
  "string \<Rightarrow> (string \<Rightarrow> bool) \<Rightarrow> (string \<Rightarrow> error option) \<Rightarrow> string list \<Rightarrow> string set \<Rightarrow> string set \<times> net_call list" where
  "keep_tick self conn dial peers down =
     (case keep_loop self conn dial peers (down, False, []) of
        (down, reconnected, calls) \<Rightarrow> (down, if reconnected then calls @ [Refresh] else calls))"

section \<open>Topics are joined once\<close>

lemma canonicalSubnet_idem [simp]: "canonicalSubnet (canonicalSubnet s) = canonicalSubnet s"
  by (simp add: canonicalSubnet_def)

lemma canonicalSubnet_not_default [simp]: "canonicalSubnet s \<noteq> ''default''"
  by (simp add: canonicalSubnet_def)

lemma SubnetTopic_canonical: "SubnetTopic base (canonicalSubnet s) = SubnetTopic base s"
  by (simp add: SubnetTopic_def canonicalSubnet_def)

lemma SubnetTopic_inj: "SubnetTopic base a = SubnetTopic base b \<Longrightarrow> canonicalSubnet a = canonicalSubnet b"
  by (auto simp: SubnetTopic_def canonicalSubnet_def split: if_splits)

lemma subnet_loop_spec:
  "distinct subnets \<Longrightarrow> distinct (subnet_loop l (set subnets) subnets) \<and>
     set (subnet_loop l (set subnets) subnets) = set subnets \<union> canonicalSubnet ` set l"
proof (induction l arbitrary: subnets)
  case (Cons s l)
  show ?case
  proof (cases "canonicalSubnet s \<in> set subnets")
    case True
    with Cons show ?thesis by (auto simp: Let_def insert_absorb)
  next
    case False
    then have "distinct (subnets @ [canonicalSubnet s])" using Cons.prems by simp
    from Cons.IH [OF this] False show ?thesis by (simp add: Let_def)
  qed
qed simp

lemma joined_subnets_spec:
  "distinct (joined_subnets opts)"
  "set (joined_subnets opts) = insert (canonicalSubnet (opt_Subnet opts)) (canonicalSubnet ` set (BridgeSubnets opts))"
  using subnet_loop_spec [of "[canonicalSubnet (opt_Subnet opts)]" "BridgeSubnets opts"]
  by (simp_all add: joined_subnets_def Let_def)

lemma joined_canonical: "s \<in> set (joined_subnets opts) \<Longrightarrow> canonicalSubnet s = s"
  by (auto simp: joined_subnets_spec)

lemma join_loop_topics:
  "join_loop su base subnets topics = Inr topics' \<Longrightarrow>
     topics' = topics @ map (\<lambda>cs. (cs, SubnetTopic base cs)) subnets"
  by (induction subnets arbitrary: topics) (fastforce simp: Let_def split: option.splits)+

lemma transport_New_topics:
  assumes "transport_New su opts = Inr n"
  shows "tr_topics n = map (\<lambda>cs. (cs, SubnetTopic (if opt_Topic opts = '''' then DefaultTopic else opt_Topic opts) cs))
    (joined_subnets opts)" and "su_host su = Inr (tr_self n)"
  using assms by (auto simp: transport_New_def Let_def dest: join_loop_topics split: sum.splits option.splits)

section \<open>Bootstrap peers are retried\<close>

definition recovers :: "(string \<Rightarrow> bool) \<Rightarrow> (string \<Rightarrow> error option) \<Rightarrow> string set \<Rightarrow> string \<Rightarrow> bool" where
  "recovers conn dial down p \<longleftrightarrow> (conn p \<and> p \<in> down) \<or> (\<not> conn p \<and> dial p = None)"

text \<open>What a tick does for one peer.\<close>

definition peer_down :: "string \<Rightarrow> (string \<Rightarrow> bool) \<Rightarrow> (string \<Rightarrow> error option) \<Rightarrow> string \<Rightarrow> bool \<Rightarrow> bool" where
  "peer_down self conn dial p d \<longleftrightarrow> (if p = self then d else \<not> conn p \<and> dial p \<noteq> None)"

definition peer_calls ::
  "string \<Rightarrow> (string \<Rightarrow> bool) \<Rightarrow> (string \<Rightarrow> error option) \<Rightarrow> string set \<Rightarrow> string \<Rightarrow> net_call list" where
  "peer_calls self conn dial down p =
     (if p = self then []
      else if conn p then [Protect p]
      else [ClearBackoff p, Connect p] @
        (if dial p = None then [Protect p] else if p \<notin> down then [LogUnreachable p] else []))"

lemma keep_loop_step:
  "keep_loop self conn dial (p # ps) (down, r, calls) =
     keep_loop self conn dial ps
       (if peer_down self conn dial p (p \<in> down) then insert p down else down - {p},
        r \<or> (p \<noteq> self \<and> recovers conn dial down p), calls @ peer_calls self conn dial down p)"
  by (cases "dial p") (auto simp: peer_down_def peer_calls_def recovers_def Let_def insert_absorb)

lemma peer_calls_cong: "(p \<in> d) = (p \<in> d') \<Longrightarrow> peer_calls self conn dial d p = peer_calls self conn dial d' p"
  by (simp add: peer_calls_def)

lemma keep_loop_spec:
  assumes "distinct ps"
  shows "keep_loop self conn dial ps (down, r, calls) =
    ({p. if p \<in> set ps then peer_down self conn dial p (p \<in> down) else p \<in> down},
     r \<or> (\<exists>p \<in> set ps. p \<noteq> self \<and> recovers conn dial down p),
     calls @ concat (map (peer_calls self conn dial down) ps))"
  using assms
proof (induction ps arbitrary: down r calls)
  case (Cons p ps)
  let ?d = "if peer_down self conn dial p (p \<in> down) then insert p down else down - {p}"
  have same: "(q \<in> ?d) = (q \<in> down)" if "q \<in> set ps" for q using that Cons.prems by auto
  have c: "map (peer_calls self conn dial ?d) ps = map (peer_calls self conn dial down) ps"
    using same by (intro map_cong refl peer_calls_cong)
  have r: "(\<exists>q \<in> set ps. q \<noteq> self \<and> recovers conn dial ?d q) \<longleftrightarrow> (\<exists>q \<in> set ps. q \<noteq> self \<and> recovers conn dial down q)"
    using same by (simp add: recovers_def cong: bex_cong)
  have e: "{q. if q \<in> set ps then peer_down self conn dial q (q \<in> ?d) else q \<in> ?d} =
      {q. if q \<in> set (p # ps) then peer_down self conn dial q (q \<in> down) else q \<in> down}"
    using same Cons.prems by auto
  have "distinct ps" using Cons.prems by simp
  note ih = Cons.IH [OF this, of ?d "r \<or> (p \<noteq> self \<and> recovers conn dial down p)"
      "calls @ peer_calls self conn dial down p", unfolded c r e]
  show ?case unfolding keep_loop_step ih by auto
qed simp

lemma peer_calls_mem:
  "Connect q \<in> set (peer_calls self conn dial down p) \<longleftrightarrow> q = p \<and> p \<noteq> self \<and> \<not> conn p"
  "LogUnreachable q \<in> set (peer_calls self conn dial down p) \<longleftrightarrow>
     q = p \<and> p \<noteq> self \<and> \<not> conn p \<and> dial p \<noteq> None \<and> p \<notin> down"
  "Refresh \<notin> set (peer_calls self conn dial down p)"
  by (auto simp: peer_calls_def)

lemma keep_tick_eq:
  assumes "distinct peers"
  shows "keep_tick self conn dial peers down =
    ({p. if p \<in> set peers then peer_down self conn dial p (p \<in> down) else p \<in> down},
     concat (map (peer_calls self conn dial down) peers) @
       (if \<exists>p \<in> set peers. p \<noteq> self \<and> recovers conn dial down p then [Refresh] else []))"
  by (simp add: keep_tick_def keep_loop_spec [OF assms])

lemma keep_tick_spec:
  assumes "distinct peers" "keep_tick self conn dial peers down = (down', calls)"
  shows "p \<in> down' \<longleftrightarrow> (if p \<in> set peers then peer_down self conn dial p (p \<in> down) else p \<in> down)"
    and "Connect p \<in> set calls \<longleftrightarrow> p \<in> set peers \<and> p \<noteq> self \<and> \<not> conn p"
    and "LogUnreachable p \<in> set calls \<longleftrightarrow>
      p \<in> set peers \<and> p \<noteq> self \<and> \<not> conn p \<and> dial p \<noteq> None \<and> p \<notin> down"
    and "Refresh \<in> set calls \<longleftrightarrow> (\<exists>p \<in> set peers. p \<noteq> self \<and> recovers conn dial down p)"
  using assms(2) by (auto simp: keep_tick_eq [OF assms(1)] peer_calls_mem)

text \<open>The ticks of a node's life; \<open>conn i\<close> and \<open>dial i\<close> are the network at tick \<open>i\<close>.\<close>

fun keep_run ::
  "string \<Rightarrow> (nat \<Rightarrow> string \<Rightarrow> bool) \<Rightarrow> (nat \<Rightarrow> string \<Rightarrow> error option) \<Rightarrow> string list \<Rightarrow> nat \<Rightarrow> string set \<times> net_call list" where
  "keep_run self conn dial peers 0 = keep_tick self (conn 0) (dial 0) peers {}"
| "keep_run self conn dial peers (Suc i) =
     keep_tick self (conn (Suc i)) (dial (Suc i)) peers (fst (keep_run self conn dial peers i))"

lemma keep_run_tick:
  "keep_run self conn dial peers i =
     keep_tick self (conn i) (dial i) peers (if i = 0 then {} else fst (keep_run self conn dial peers (i - 1)))"
  by (cases i) simp_all

lemma keep_run_down:
  "distinct peers \<Longrightarrow> p \<in> fst (keep_run self conn dial peers i) \<longleftrightarrow>
     p \<in> set peers \<and> p \<noteq> self \<and> \<not> conn i p \<and> dial i p \<noteq> None"
proof (induction i)
  case 0
  then show ?case using keep_tick_spec(1) [OF 0 prod.collapse [symmetric]] by (simp add: peer_down_def)
next
  case (Suc i)
  then show ?case using keep_tick_spec(1) [OF Suc.prems prod.collapse [symmetric]] by (simp add: peer_down_def)
qed

section \<open>Properties\<close>

text \<open>
  \<open>New\<close>, \<open>Subnets\<close> and \<open>Publish\<close>: a node that starts is joined to its home subnet and to
  each bridge subnet exactly once, under canonical names with pairwise different topics; a
  publication to a joined subnet goes to that subnet's own topic, one to any other subnet is an
  error and puts nothing on the wire.
\<close>

theorem subnets_joined_once:
  assumes "transport_New su opts = Inr n"
  shows "distinct (Subnets n) \<and> distinct (map snd (tr_topics n)) \<and>
    set (Subnets n) = insert (canonicalSubnet (opt_Subnet opts)) (canonicalSubnet ` set (BridgeSubnets opts)) \<and>
    (case Publish encode pub n e s of
       (r, None) \<Rightarrow> r \<noteq> None
     | (r, Some (topic, data)) \<Rightarrow> canonicalSubnet s \<in> set (Subnets n) \<and> encode e = Inr data \<and>
         topic = SubnetTopic (if opt_Topic opts = '''' then DefaultTopic else opt_Topic opts) s) \<and>
    (canonicalSubnet s \<notin> set (Subnets n) \<longrightarrow> snd (Publish encode pub n e s) = None)"
proof -
  let ?base = "if opt_Topic opts = '''' then DefaultTopic else opt_Topic opts"
  note t = transport_New_topics(1) [OF assms]
  have keys: "Subnets n = joined_subnets opts" by (simp add: Subnets_def t comp_def)
  have "inj_on (SubnetTopic ?base) (set (joined_subnets opts))"
    by (rule inj_onI) (metis SubnetTopic_inj joined_canonical)
  then have d: "distinct (map snd (tr_topics n))"
    using joined_subnets_spec(1) by (simp add: t comp_def distinct_map)
  have m: "map_of (tr_topics n) x = (if x \<in> set (Subnets n) then Some (SubnetTopic ?base x) else None)" for x
    unfolding keys t by (simp add: map_of_map_restrict)
  have p: "case Publish encode pub n e s of
       (r, None) \<Rightarrow> r \<noteq> None
     | (r, Some (topic, data)) \<Rightarrow> canonicalSubnet s \<in> set (Subnets n) \<and> encode e = Inr data \<and>
         topic = SubnetTopic ?base s"
    by (simp add: Publish_def m SubnetTopic_canonical split: sum.split)
  have "canonicalSubnet s \<notin> set (Subnets n) \<longrightarrow> snd (Publish encode pub n e s) = None"
    by (simp add: Publish_def m)
  with d p show ?thesis using joined_subnets_spec keys by simp
qed

definition home_options :: Options where
  "home_options = \<lparr>ListenAddrs = [], opt_BootstrapPeers = [], opt_Mode = ModeLeaf, has_PrivKey = False,
     opt_Topic = '''', opt_Subnet = ''default'', BridgeSubnets = ['''', ''blue'', ''default'', ''blue'']\<rparr>"

definition quiet_startup :: startup where
  "quiet_startup = \<lparr>su_host = Inr ''me'', su_dht = None, su_pubsub = None, su_join = \<lambda>_. None,
     su_subscribe = \<lambda>_. None\<rparr>"

theorem subnets_joined_once_witness:
  "\<exists>n. transport_New quiet_startup home_options = Inr n \<and> set (Subnets n) = {'''', ''blue''} \<and>
    snd (Publish (\<lambda>_. Inr ''data'') (\<lambda>_ _. None) n zero_Event ''red'') = None"
proof -
  obtain n where n: "transport_New quiet_startup home_options = Inr n"
    by (simp add: transport_New_def quiet_startup_def home_options_def joined_subnets_def canonicalSubnet_def Let_def)
  from subnets_joined_once [OF n, where encode = "\<lambda>_. Inr ''data''" and pub = "\<lambda>_ _. None" and e = zero_Event
      and s = "''red''"] n
  show ?thesis by (auto simp: home_options_def canonicalSubnet_def)
qed

text \<open>
  C30. \<open>KeepBootstrapPeers\<close> never gives up: at every tick, however many came before, each
  configured peer other than the node itself that is not connected is dialled; it is counted as
  down exactly after the ticks in which that failed, its outage is logged only at the tick that
  begins it, and the DHT is refreshed exactly at the ticks in which some peer came back.
\<close>

theorem bootstrap_peers_retried:
  assumes "distinct peers" "p \<in> set peers" "p \<noteq> self"
  shows "(\<not> conn i p \<longrightarrow> Connect p \<in> set (snd (keep_run self conn dial peers i))) \<and>
    (p \<in> fst (keep_run self conn dial peers i) \<longleftrightarrow> \<not> conn i p \<and> dial i p \<noteq> None) \<and>
    (LogUnreachable p \<in> set (snd (keep_run self conn dial peers i)) \<longleftrightarrow>
       p \<in> fst (keep_run self conn dial peers i) \<and> (i = 0 \<or> p \<notin> fst (keep_run self conn dial peers (i - 1)))) \<and>
    (Refresh \<in> set (snd (keep_run self conn dial peers i)) \<longleftrightarrow>
       (\<exists>q \<in> set peers. q \<noteq> self \<and>
          (if conn i q then i \<noteq> 0 \<and> q \<in> fst (keep_run self conn dial peers (i - 1)) else dial i q = None)))"
proof -
  let ?prev = "if i = 0 then {} else fst (keep_run self conn dial peers (i - 1))"
  have k: "keep_tick self (conn i) (dial i) peers ?prev =
      (fst (keep_run self conn dial peers i), snd (keep_run self conn dial peers i))"
    by (simp only: keep_run_tick [of self conn dial peers i] prod.collapse)
  show ?thesis
    using assms(2,3) keep_run_down [OF assms(1), of p self conn dial i] keep_tick_spec(2,3) [OF assms(1) k, of p]
      keep_tick_spec(4) [OF assms(1) k]
    by (auto simp: recovers_def split: if_splits)
qed

theorem bootstrap_peers_retried_witness:
  "Connect ''hub'' \<in> set (snd (keep_run ''me'' (\<lambda>_ _. False) (\<lambda>_ _. Some (Fault ''refused'')) [''hub''] 1000))"
  using bootstrap_peers_retried [of "[''hub'']" "''hub''" "''me''" "\<lambda>_ _. False" 1000 "\<lambda>_ _. Some (Fault ''refused'')"]
  by (simp del: keep_run.simps)

end
