(* ===== verification/State_Logic.thy ===== *)
theory State_Logic
  imports Go_Prelude "HOL-Library.State_Monad"
begin

text \<open>
  The state monad the node's handlers are written in, so that they read like the source, and the
  rules that prove what a handler keeps: \<open>triple P m Q\<close> for a precondition and a postcondition,
  \<open>preserves I m\<close> for an invariant. The rules follow the syntax of a handler and are collected in
  \<open>triple_rules\<close> and \<open>preserves_rules\<close>.
\<close>

named_theorems triple_rules \<open>pre- and postconditions, one rule per construct\<close>
named_theorems preserves_rules \<open>invariants, one rule per construct\<close>

definition exec :: "('s, 'a) state \<Rightarrow> 's \<Rightarrow> 's" where
  "exec m s = snd (run_state m s)"

definition reads :: "('s \<Rightarrow> 'a) \<Rightarrow> ('s, 'a) state" where
  "reads f = State (\<lambda>s. (f s, s))"

definition modify :: "('s \<Rightarrow> 's) \<Rightarrow> ('s, unit) state" where
  "modify f = State (\<lambda>s. ((), f s))"

definition skip :: "('s, unit) state" where
  "skip = State_Monad.return ()"

definition unless :: "bool \<Rightarrow> ('s, unit) state \<Rightarrow> ('s, unit) state" where
  "unless c m = (if c then skip else m)"

text \<open>A Go \<open>for\<close> loop over a slice, with the continuation of its body.\<close>

fun for_each :: "'a list \<Rightarrow> ('a \<Rightarrow> ('s, unit) state) \<Rightarrow> ('s, unit) state" where
  "for_each [] f = skip"
| "for_each (x # xs) f = State_Monad.bind (f x) (\<lambda>_. for_each xs f)"

lemma run_state_simps [simp]:
  "run_state (reads f) s = (f s, s)" "run_state (modify g) s = ((), g s)" "run_state skip s = ((), s)"
  by (simp_all add: reads_def modify_def skip_def)

lemma exec_simps [simp]:
  "exec (State_Monad.bind m f) s = exec (f (fst (run_state m s))) (exec m s)"
  "exec (State_Monad.return x) s = s" "exec (reads h) s = s" "exec (modify g) s = g s" "exec skip s = s"
  by (simp_all add: exec_def case_prod_beta)

lemma unless_simps [simp]: "unless True m = skip" "unless False m = m"
  by (simp_all add: unless_def)

section \<open>Pre- and postconditions\<close>

definition triple :: "('s \<Rightarrow> bool) \<Rightarrow> ('s, 'a) state \<Rightarrow> ('a \<Rightarrow> 's \<Rightarrow> bool) \<Rightarrow> bool" where
  "triple P m Q \<longleftrightarrow> (\<forall>s. P s \<longrightarrow> Q (fst (run_state m s)) (exec m s))"

lemma tripleI: "(\<And>s. P s \<Longrightarrow> Q (fst (run_state m s)) (exec m s)) \<Longrightarrow> triple P m Q"
  by (simp add: triple_def)

lemma tripleD: "triple P m Q \<Longrightarrow> P s \<Longrightarrow> Q (fst (run_state m s)) (exec m s)"
  by (simp add: triple_def)

lemma triple_bind [triple_rules]:
  "triple P m R \<Longrightarrow> (\<And>x. triple (R x) (f x) Q) \<Longrightarrow> triple P (State_Monad.bind m f) Q"
  by (simp add: triple_def case_prod_beta exec_def)

lemma triple_if [triple_rules]:
  "(c \<Longrightarrow> triple P a Q) \<Longrightarrow> (\<not> c \<Longrightarrow> triple P b Q) \<Longrightarrow> triple P (if c then a else b) Q"
  by simp

lemma triple_return: "(\<And>s. P s \<Longrightarrow> Q x s) \<Longrightarrow> triple P (State_Monad.return x) Q"
  by (simp add: triple_def)

lemma triple_post: "triple P m Q \<Longrightarrow> (\<And>x s. Q x s \<Longrightarrow> Q' x s) \<Longrightarrow> triple P m Q'"
  by (simp add: triple_def)

lemma triple_pre: "triple P m Q \<Longrightarrow> (\<And>s. P' s \<Longrightarrow> P s) \<Longrightarrow> triple P' m Q"
  by (simp add: triple_def)

section \<open>Invariants\<close>

definition preserves :: "('s \<Rightarrow> bool) \<Rightarrow> ('s, 'a) state \<Rightarrow> bool" where
  "preserves I m \<longleftrightarrow> (\<forall>s. I s \<longrightarrow> I (exec m s))"

lemma preservesI: "(\<And>s. I s \<Longrightarrow> I (exec m s)) \<Longrightarrow> preserves I m"
  by (simp add: preserves_def)

lemma preservesD: "preserves I m \<Longrightarrow> I s \<Longrightarrow> I (exec m s)"
  by (simp add: preserves_def)

lemma preserves_triple: "preserves I m \<longleftrightarrow> triple I m (\<lambda>_. I)"
  by (simp add: preserves_def triple_def)

lemma preserves_basic [preserves_rules]:
  "preserves I (State_Monad.return x)" "preserves I (reads f)" "preserves I skip"
  by (simp_all add: preserves_def)

lemma preserves_bind [preserves_rules]:
  "preserves I m \<Longrightarrow> (\<And>x. preserves I (f x)) \<Longrightarrow> preserves I (State_Monad.bind m f)"
  by (simp add: preserves_def)

lemma preserves_if [preserves_rules]:
  "(c \<Longrightarrow> preserves I a) \<Longrightarrow> (\<not> c \<Longrightarrow> preserves I b) \<Longrightarrow> preserves I (if c then a else b)"
  by simp

lemma preserves_unless [preserves_rules]:
  "(\<not> c \<Longrightarrow> preserves I m) \<Longrightarrow> preserves I (unless c m)"
  by (auto simp: unless_def preserves_def)

lemma preserves_option [preserves_rules]:
  "(x = None \<Longrightarrow> preserves I a) \<Longrightarrow> (\<And>y. x = Some y \<Longrightarrow> preserves I (f y))
     \<Longrightarrow> preserves I (case x of None \<Rightarrow> a | Some y \<Rightarrow> f y)"
  by (cases x) simp_all

lemma preserves_sum [preserves_rules]:
  "(\<And>y. x = Inl y \<Longrightarrow> preserves I (f y)) \<Longrightarrow> (\<And>y. x = Inr y \<Longrightarrow> preserves I (g y))
     \<Longrightarrow> preserves I (case x of Inl y \<Rightarrow> f y | Inr y \<Rightarrow> g y)"
  by (cases x) simp_all

lemma preserves_prod [preserves_rules]:
  "(\<And>y z. x = (y, z) \<Longrightarrow> preserves I (f y z)) \<Longrightarrow> preserves I (case x of (y, z) \<Rightarrow> f y z)"
  by (cases x) simp

lemma preserves_for_each [preserves_rules]:
  "(\<And>x. x \<in> set xs \<Longrightarrow> preserves I (f x)) \<Longrightarrow> preserves I (for_each xs f)"
  by (induction xs) (auto intro!: preserves_rules)

lemma preserves_modify: "(\<And>s. I s \<Longrightarrow> I (g s)) \<Longrightarrow> preserves I (modify g)"
  by (simp add: preserves_def)

text \<open>A part of the state that does not influence the rest of a computation.\<close>

definition ignores :: "('s \<Rightarrow> 's) \<Rightarrow> ('s, 'a) state \<Rightarrow> bool" where
  "ignores u m \<longleftrightarrow> (\<forall>s. run_state m (u s) = (fst (run_state m s), u (exec m s)))"

named_theorems ignores_rules \<open>independence of a part of the state, one rule per construct\<close>

lemma ignores_bind [ignores_rules]:
  "ignores u m \<Longrightarrow> (\<And>x. ignores u (f x)) \<Longrightarrow> ignores u (State_Monad.bind m f)"
  by (simp add: ignores_def case_prod_beta exec_def)

lemma ignores_basic [ignores_rules]: "ignores u (State_Monad.return x)" "ignores u skip"
  by (simp_all add: ignores_def)

lemma ignores_if [ignores_rules]: "ignores u a \<Longrightarrow> ignores u b \<Longrightarrow> ignores u (if c then a else b)"
  by simp

lemma ignores_unless [ignores_rules]: "ignores u m \<Longrightarrow> ignores u (unless c m)"
  by (cases c) (simp_all add: ignores_rules)

lemma ignores_option [ignores_rules]:
  "ignores u a \<Longrightarrow> (\<And>y. ignores u (f y)) \<Longrightarrow> ignores u (case x of None \<Rightarrow> a | Some y \<Rightarrow> f y)"
  by (cases x) simp_all

lemma ignores_sum [ignores_rules]:
  "(\<And>y. ignores u (f y)) \<Longrightarrow> (\<And>y. ignores u (g y)) \<Longrightarrow> ignores u (case x of Inl y \<Rightarrow> f y | Inr y \<Rightarrow> g y)"
  by (cases x) simp_all

lemma ignores_prod [ignores_rules]:
  "(\<And>y z. ignores u (f y z)) \<Longrightarrow> ignores u (case x of (y, z) \<Rightarrow> f y z)"
  by (cases x) simp

lemma ignores_exec: "ignores u m \<Longrightarrow> exec m (u s) = u (exec m s)"
  by (simp add: ignores_def exec_def)

end
