(* ===== verification/Node.thy ===== *)
theory Node
  imports Governor Caches Rules Allowlists Enforce Trust Observability Repquery Transport State_Logic
begin

text \<open>
  The composition root, \<open>internal/node/node.go\<close>: the handlers of the event loop, composed of the
  other components as the code composes them. \<open>Node\<close> holds what is fixed once the daemon runs,
  \<open>node_state\<close> what the handlers change; each handler is a state transformer written in the order
  of the source, an early return being the branch that does nothing more.

  What the handlers do to the outside is recorded in \<open>st_out\<close>: the calls on the firewall sink
  (whether or not they succeed), the messages handed to gossipsub, the announcements to API
  subscribers. Log lines are left out.
\<close>

section \<open>State\<close>

definition maxOriginTraceLen :: nat where
  "maxOriginTraceLen = 8"

definition canonicalSubnet :: "string \<Rightarrow> string" where
  "canonicalSubnet s = (if s = '''' \<or> s = ''default'' then '''' else s)"

datatype effect =
  Blocked string
| BlockedFor string duration
| Unblocked string
| Published Event string
| Announced string real string string

record 'sk Node =
  nd_cfg :: Config
  nd_transport :: "Transport option"
  nd_rep :: Engine
  nd_neverblock :: NeverBlockList
  nd_whitelist :: WhitelistStore
  nd_selfID :: string
  nd_vouch :: "PeerCert option"
  nd_identityKey :: "'sk option"

record ('db, 'bf, 'k) node_state =
  st_store :: "('db, 'bf) BadgerStore"
  st_trust :: TrustStore
  st_rules :: RuleSet
  st_burst :: BurstStore
  st_obs :: "Observer option"
  st_dedup :: dedupCache
  st_gov :: Governor
  st_querier :: "Querier option"
  st_materialised :: "string set"
  st_disputed :: "string set"
  st_sink :: 'k
  st_out :: "effect list"

text \<open>
  What the code relies on: the database, the cryptography, libp2p, JSON, and the firewall sink, a
  value of the interface \<open>enforce.Sink\<close> over its own state.
\<close>

record 'k sink_ops =
  sink_Block :: "time \<Rightarrow> 'k \<Rightarrow> string \<Rightarrow> error option \<times> 'k"
  sink_BlockFor :: "time \<Rightarrow> 'k \<Rightarrow> string \<Rightarrow> duration \<Rightarrow> error option \<times> 'k"
  sink_Unblock :: "time \<Rightarrow> 'k \<Rightarrow> string \<Rightarrow> error option \<times> 'k"

record ('db, 'bf, 'sk, 'pid, 'pk, 'k) deps =
  dp_backend :: "('db, 'bf) backend"
  dp_ed :: ed25519
  dp_json :: trust_json
  dp_p2p :: "('sk, 'pid, 'pk) libp2p"
  dp_sink :: "'k sink_ops"

text \<open>
  The world during one step: one reading of the clock, the files as they are, whether the
  observability database accepts writes, the outcome of encoding and publishing a message, and
  the answers of the aggregators to a federated query.
\<close>

record world =
  w_now :: time
  w_trust :: trust_files
  w_rules :: rule_file
  w_db :: bool
  w_encode :: "Event \<Rightarrow> error + bytes"
  w_gossip :: "string \<Rightarrow> bytes \<Rightarrow> error option"
  w_answers :: "(error + EvidenceAggregate) list"

section \<open>Calls on the components\<close>

definition charge :: "world \<Rightarrow> (('db, 'bf, 'k) node_state, unit) state" where
  "charge w = modify (\<lambda>s. s\<lparr>st_gov := Charge (st_gov s) (w_now w)\<rparr>)"

definition shed :: "world \<Rightarrow> (('db, 'bf, 'k) node_state, bool) state" where
  "shed w = State (\<lambda>s. let (over, g) = Shed (st_gov s) (w_now w) in (over, s\<lparr>st_gov := g\<rparr>))"

definition rate :: "world \<Rightarrow> (('db, 'bf, 'k) node_state, real) state" where
  "rate w = State (\<lambda>s. let (r, g) = Rate (st_gov s) (w_now w) in (r, s\<lparr>st_gov := g\<rparr>))"

text \<open>The observer is nil-safe.\<close>

definition observe :: "(Observer \<Rightarrow> Observer) \<Rightarrow> (('db, 'bf, 'k) node_state, unit) state" where
  "observe f = modify (\<lambda>s. s\<lparr>st_obs := map_option f (st_obs s)\<rparr>)"

definition emit :: "effect \<Rightarrow> (('db, 'bf, 'k) node_state, unit) state" where
  "emit x = modify (\<lambda>s. s\<lparr>st_out := st_out s @ [x]\<rparr>)"

definition is_blocked ::
  "('db, 'bf, 'sk, 'pid, 'pk, 'k) deps \<Rightarrow> world \<Rightarrow> string \<Rightarrow> (('db, 'bf, 'k) node_state, bool) state" where
  "is_blocked D w p = State (\<lambda>s.
     let (b, ts) = IsBlocked (dp_ed D) (dp_json D) (w_trust w) (w_now w) (st_trust s) p in (b, s\<lparr>st_trust := ts\<rparr>))"

definition resolve ::
  "('db, 'bf, 'sk, 'pid, 'pk, 'k) deps \<Rightarrow> world \<Rightarrow> string
     \<Rightarrow> (('db, 'bf, 'k) node_state, real \<times> string \<times> bool) state" where
  "resolve D w p = State (\<lambda>s.
     let (r, ts) = Resolve (dp_ed D) (dp_json D) (w_trust w) (w_now w) (st_trust s) p in (r, s\<lparr>st_trust := ts\<rparr>))"

text \<open>\<open>AddCert\<close>, whose error is only logged.\<close>

definition add_cert ::
  "('db, 'bf, 'sk, 'pid, 'pk, 'k) deps \<Rightarrow> world \<Rightarrow> PeerCert \<Rightarrow> (('db, 'bf, 'k) node_state, unit) state" where
  "add_cert D w c = modify (\<lambda>s. s\<lparr>st_trust := snd (AddCert (dp_ed D) (st_trust s) c (w_now w))\<rparr>)"

definition seen :: "world \<Rightarrow> Event \<Rightarrow> (('db, 'bf, 'k) node_state, bool) state" where
  "seen w e = State (\<lambda>s.
     let (b, d) = Seen (st_dedup s) (dedupKey (ReporterID e) (IP e) (Reason e) (Timestamp e)) (w_now w)
     in (b, s\<lparr>st_dedup := d\<rparr>))"

text \<open>The engine's operations answer whether they succeeded; a failing one changes nothing.\<close>

definition record_report ::
  "('db, 'bf, 'sk, 'pid, 'pk, 'k) deps \<Rightarrow> world \<Rightarrow> 'sk Node \<Rightarrow> string \<Rightarrow> string \<Rightarrow> string \<Rightarrow> real \<Rightarrow> string
     \<Rightarrow> string \<Rightarrow> bool \<Rightarrow> (('db, 'bf, 'k) node_state, bool) state" where
  "record_report D w n ip reason rid weight grp subnet anchored = State (\<lambda>s.
     case Record (dp_backend D) (nd_rep n) (st_store s) (w_now w) ip reason rid weight grp subnet anchored of
       Inl _ \<Rightarrow> (False, s) | Inr (_, bs) \<Rightarrow> (True, s\<lparr>st_store := bs\<rparr>))"

definition record_dispute ::
  "('db, 'bf, 'sk, 'pid, 'pk, 'k) deps \<Rightarrow> world \<Rightarrow> 'sk Node \<Rightarrow> string \<Rightarrow> string \<Rightarrow> real \<Rightarrow> string \<Rightarrow> bool
     \<Rightarrow> (('db, 'bf, 'k) node_state, nat option) state" where
  "record_dispute D w n ip rid weight subnet anchored = State (\<lambda>s.
     case RecordDispute (dp_backend D) (nd_rep n) (st_store s) (w_now w) ip rid weight subnet anchored of
       Inl _ \<Rightarrow> (None, s) | Inr ((_, k), bs) \<Rightarrow> (Some k, s\<lparr>st_store := bs\<rparr>))"

text \<open>\<open>rec, _ := GetRecord\<close>: the zero record after an error.\<close>

definition get_record ::
  "('db, 'bf, 'sk, 'pid, 'pk, 'k) deps \<Rightarrow> world \<Rightarrow> string \<Rightarrow> (('db, 'bf, 'k) node_state, ScoreRecord) state" where
  "get_record D w ip = reads (\<lambda>s.
     case GetRecord (dp_backend D) (st_store s) (w_now w) ip of Inl _ \<Rightarrow> zero_rec | Inr rec \<Rightarrow> rec)"

definition burst_add :: "world \<Rightarrow> Event \<Rightarrow> (('db, 'bf, 'k) node_state, unit) state" where
  "burst_add w e = modify (\<lambda>s. s\<lparr>st_burst := burst_Record (st_burst s) (IP e) (Reason e) (w_now w)\<rparr>)"

definition evaluate :: "world \<Rightarrow> Event \<Rightarrow> ScoreRecord \<Rightarrow> (('db, 'bf, 'k) node_state, Action \<times> string) state" where
  "evaluate w e rec = State (\<lambda>s.
     let (r, rs, b) = Evaluate (w_rules w) (st_rules s) e rec (st_burst s) (w_now w)
     in (r, s\<lparr>st_rules := rs, st_burst := b\<rparr>))"

text \<open>Calls on the sink answer whether they succeeded.\<close>

definition sink_call ::
  "('k \<Rightarrow> error option \<times> 'k) \<Rightarrow> effect \<Rightarrow> (('db, 'bf, 'k) node_state, bool) state" where
  "sink_call f x = State (\<lambda>s.
     let (r, k) = f (st_sink s) in (r = None, s\<lparr>st_sink := k, st_out := st_out s @ [x]\<rparr>))"

definition sink_block ::
  "('db, 'bf, 'sk, 'pid, 'pk, 'k) deps \<Rightarrow> world \<Rightarrow> string \<Rightarrow> (('db, 'bf, 'k) node_state, bool) state" where
  "sink_block D w ip = sink_call (\<lambda>k. sink_Block (dp_sink D) (w_now w) k ip) (Blocked ip)"

definition sink_block_for ::
  "('db, 'bf, 'sk, 'pid, 'pk, 'k) deps \<Rightarrow> world \<Rightarrow> string \<Rightarrow> duration
     \<Rightarrow> (('db, 'bf, 'k) node_state, bool) state" where
  "sink_block_for D w ip ttl = sink_call (\<lambda>k. sink_BlockFor (dp_sink D) (w_now w) k ip ttl) (BlockedFor ip ttl)"

definition sink_unblock ::
  "('db, 'bf, 'sk, 'pid, 'pk, 'k) deps \<Rightarrow> world \<Rightarrow> string \<Rightarrow> (('db, 'bf, 'k) node_state, bool) state" where
  "sink_unblock D w ip = sink_call (\<lambda>k. sink_Unblock (dp_sink D) (w_now w) k ip) (Unblocked ip)"

text \<open>\<open>transport.Publish\<close> answers whether it succeeded; a message reached gossipsub in either case
  when it was encoded.\<close>

definition publish :: "world \<Rightarrow> Transport \<Rightarrow> Event \<Rightarrow> string \<Rightarrow> (('db, 'bf, 'k) node_state, bool) state" where
  "publish w t e subnet =
     (case Publish (w_encode w) (w_gossip w) t e subnet of
        (r, None) \<Rightarrow> State_Monad.return (r = None)
      | (r, Some _) \<Rightarrow> do { emit (Published e subnet); State_Monad.return (r = None) })"

section \<open>Acting on a decision\<close>

definition action_text :: "Action \<Rightarrow> string" where
  "action_text a =
     (case a of ActionBlock \<Rightarrow> ''block'' | ActionWatch \<Rightarrow> ''watch'' | ActionIgnore \<Rightarrow> ''ignore''
      | ActionNone \<Rightarrow> '''' | ActionUnknown t \<Rightarrow> t)"

text \<open>The tail both handlers share: act, record the event, announce it.\<close>

definition act_on ::
  "('db, 'bf, 'sk, 'pid, 'pk, 'k) deps \<Rightarrow> world \<Rightarrow> Event \<Rightarrow> ScoreRecord \<Rightarrow> Action \<Rightarrow> string
     \<Rightarrow> (('db, 'bf, 'k) node_state, unit) state" where
  "act_on D w e rec action rule =
     do {
       unless (action \<noteq> ActionBlock) (do {
         done \<leftarrow> sink_block D w (IP e);
         unless (\<not> done) (observe (\<lambda>ob.
           RecordBlock (w_db w) ob (w_now w) (IP e) rule (Score rec) (FirstSeen rec) (nat (Corroboration rec))))
       });
       observe (\<lambda>ob. RecordEvent (w_db w) ob (w_now w) e (Score rec) rule (action_text action));
       emit (Announced (IP e) (Score rec) (Reason e) (ReporterID e))
     }"

section \<open>Local events\<close>

text \<open>The fields a node writes into its own observation, and the signature if it can sign.\<close>

definition stamp_local :: "('db, 'bf, 'sk, 'pid, 'pk, 'k) deps \<Rightarrow> 'sk Node \<Rightarrow> Event \<Rightarrow> Event" where
  "stamp_local D n e =
     (let e = e\<lparr>ReporterID := nd_selfID n, Vouch := nd_vouch n, SubnetID := FederationSubnet (nd_cfg n)\<rparr>;
          e = (if nd_selfID n \<noteq> '''' then e\<lparr>OriginTrace := [nd_selfID n]\<rparr> else e)
      in (case nd_identityKey n of
            None \<Rightarrow> e
          | Some k \<Rightarrow> (case SignEvent (dp_p2p D) e k of Inl _ \<Rightarrow> e | Inr e' \<Rightarrow> e')))"

definition local_report ::
  "('db, 'bf, 'sk, 'pid, 'pk, 'k) deps \<Rightarrow> world \<Rightarrow> 'sk Node \<Rightarrow> Event \<Rightarrow> (('db, 'bf, 'k) node_state, unit) state" where
  "local_report D w n e =
     do {
       _ \<leftarrow> seen w e;
       ok \<leftarrow> record_report D w n (IP e) (Reason e) (nd_selfID n) 1 (nd_selfID n) '''' True;
       unless (\<not> ok) (do {
         burst_add w e;
         rec \<leftarrow> get_record D w (IP e);
         (action, rule) \<leftarrow> evaluate w e rec;
         act_on D w e rec action rule;
         (case nd_transport n of
            None \<Rightarrow> skip
          | Some t \<Rightarrow> do {
              sent \<leftarrow> publish w t e (FederationSubnet (nd_cfg n));
              unless (\<not> sent) (observe (\<lambda>ob. RecordFederated ob ''out''))
            })
       })
     }"

definition processLocal ::
  "('db, 'bf, 'sk, 'pid, 'pk, 'k) deps \<Rightarrow> world \<Rightarrow> 'sk Node \<Rightarrow> Event \<Rightarrow> (('db, 'bf, 'k) node_state, unit) state" where
  "processLocal D w n e =
     do {
       charge w;
       (case NormalizeIP (IP e) (EffectiveIPv6Prefix (Reputation (nd_cfg n))) of
          Inl _ \<Rightarrow> skip
        | Inr key \<Rightarrow>
            if nbl_Contains (nd_neverblock n) key then skip
            else if wl_Contains (nd_whitelist n) key then skip
            else local_report D w n (stamp_local D n (e\<lparr>IP := key\<rparr>)))
     }"

section \<open>Remote events\<close>

definition maybeUnblockDisputed ::
  "('db, 'bf, 'sk, 'pid, 'pk, 'k) deps \<Rightarrow> world \<Rightarrow> 'sk Node \<Rightarrow> string \<Rightarrow> nat
     \<Rightarrow> (('db, 'bf, 'k) node_state, unit) state" where
  "maybeUnblockDisputed D w n ip disputeSubnets =
     unless (int disputeSubnets < DisputeUnblockMinSubnets (nd_cfg n)) (do {
       wasMaterialised \<leftarrow> reads (\<lambda>s. ip \<in> st_materialised s);
       modify (\<lambda>s. s\<lparr>st_disputed := insert ip (st_disputed s), st_materialised := st_materialised s - {ip}\<rparr>);
       unless (\<not> wasMaterialised) (do {
         done \<leftarrow> sink_unblock D w ip;
         unless (\<not> done) (observe (\<lambda>ob. RecordUnblock (w_db w) ob (w_now w) ip))
       })
     })"

definition processDispute ::
  "('db, 'bf, 'sk, 'pid, 'pk, 'k) deps \<Rightarrow> world \<Rightarrow> 'sk Node \<Rightarrow> Event \<Rightarrow> (('db, 'bf, 'k) node_state, unit) state" where
  "processDispute D w n e =
     do {
       dup \<leftarrow> seen w e;
       unless dup (do {
         (case Vouch e of
            None \<Rightarrow> skip
          | Some c \<Rightarrow> unless (PeerID c \<noteq> ReporterID e) (add_cert D w c));
         (weight, _, anchored) \<leftarrow> resolve D w (ReporterID e);
         r \<leftarrow> record_dispute D w n (IP e) (ReporterID e) weight (SubnetID e) anchored;
         (case r of None \<Rightarrow> skip | Some k \<Rightarrow> maybeUnblockDisputed D w n (IP e) k)
       })
     }"

text \<open>Re-emission by a bridge: the event as it was received, with this node appended to its trace.\<close>

definition reemitted :: "'sk Node \<Rightarrow> Event \<Rightarrow> Event" where
  "reemitted n e = e\<lparr>OriginTrace := OriginTrace e @ [nd_selfID n]\<rparr>"

definition reemitIfBridge ::
  "world \<Rightarrow> 'sk Node \<Rightarrow> ReceivedEvent \<Rightarrow> (('db, 'bf, 'k) node_state, unit) state" where
  "reemitIfBridge w n re =
     do {
       over \<leftarrow> shed w;
       if over then observe (\<lambda>ob. RecordShed ob ''bridge_reemit'')
       else (case nd_transport n of
          None \<Rightarrow> skip
        | Some t \<Rightarrow>
            if nd_selfID n = '''' then skip
            else if length (EffectiveBridgeSubnets (nd_cfg n)) = 0 then skip
            else if nd_selfID n \<in> set (OriginTrace (re_Event re)) then skip
            else if length (OriginTrace (re_Event re)) \<ge> maxOriginTraceLen then skip
            else for_each (Subnets t) (\<lambda>sn.
              unless (sn = Subnet re) (do { _ \<leftarrow> publish w t (reemitted n (re_Event re)) sn; skip })))
     }"

text \<open>The federation discount and the downgrade of a block nobody anchored backs.\<close>

definition discounted :: "Config \<Rightarrow> string \<Rightarrow> bool \<Rightarrow> real \<Rightarrow> real" where
  "discounted cfg subnet anchored weight =
     (if \<not> anchored \<and> canonicalSubnet subnet \<noteq> canonicalSubnet (FederationSubnet cfg)
      then (let discount = FederationDiscount (Trust cfg);
                discount = (if discount \<le> 0 \<or> discount > 1 then 1 / 2 else discount)
            in weight * discount)
      else weight)"

definition downgrade :: "Action \<Rightarrow> ScoreRecord \<Rightarrow> Action" where
  "downgrade action rec = (if action = ActionBlock \<and> length (Groups rec) = 0 then ActionWatch else action)"

text \<open>A report that passed the guards, \<open>e\<close> being the received event under its normalised key.\<close>

definition remote_report ::
  "('db, 'bf, 'sk, 'pid, 'pk, 'k) deps \<Rightarrow> world \<Rightarrow> 'sk Node \<Rightarrow> ReceivedEvent \<Rightarrow> Event
     \<Rightarrow> (('db, 'bf, 'k) node_state, unit) state" where
  "remote_report D w n re e =
     do {
       (case Vouch e of
          None \<Rightarrow> skip
        | Some c \<Rightarrow> unless (PeerID c \<noteq> ReporterID e) (add_cert D w c));
       dup \<leftarrow> seen w e;
       unless dup (do {
         (weight, grp, anchored) \<leftarrow> resolve D w (ReporterID e);
         ok \<leftarrow> record_report D w n (IP e) (Reason e) (ReporterID e)
           (discounted (nd_cfg n) (SubnetID e) anchored weight) grp (SubnetID e) anchored;
         unless (\<not> ok) (do {
           unless (\<not> anchored) (burst_add w e);
           rec \<leftarrow> get_record D w (IP e);
           (action, rule) \<leftarrow> evaluate w e rec;
           act_on D w e rec (downgrade action rec) rule;
           reemitIfBridge w n re
         })
       })
     }"

definition relayed_ok :: "ReceivedEvent \<Rightarrow> bool" where
  "relayed_ok re \<longleftrightarrow>
     (let e = re_Event re
      in ReporterID e = From re \<or>
         length (Signature e) \<noteq> 0 \<and> \<not> (length (OriginTrace e) = 0 \<or> last (OriginTrace e) \<noteq> From re))"

definition ProcessRemote ::
  "('db, 'bf, 'sk, 'pid, 'pk, 'k) deps \<Rightarrow> world \<Rightarrow> 'sk Node \<Rightarrow> ReceivedEvent
     \<Rightarrow> (('db, 'bf, 'k) node_state, unit) state" where
  "ProcessRemote D w n re =
     (let e = re_Event re
      in if From re = '''' then skip
         else do {
           charge w;
           over \<leftarrow> shed w;
           if over then observe (\<lambda>ob. RecordShed ob ''remote_event'')
           else if \<not> relayed_ok re then skip
           else do {
             bl \<leftarrow> is_blocked D w (From re);
             if bl then skip
             else if length (Signature e) > 0 \<and> VerifyEventSig (dp_p2p D) e \<noteq> None then skip
             else (case NormalizeIP (IP e) (EffectiveIPv6Prefix (Reputation (nd_cfg n))) of
                Inl _ \<Rightarrow> skip
              | Inr key \<Rightarrow>
                  if Kind e = ''vote'' then processDispute D w n (e\<lparr>IP := key\<rparr>)
                  else if nd_selfID n \<noteq> '''' \<and> nd_selfID n \<in> set (OriginTrace e) then skip
                  else if length (OriginTrace e) > maxOriginTraceLen then skip
                  else if nbl_Contains (nd_neverblock n) key then skip
                  else if wl_Contains (nd_whitelist n) key then skip
                  else remote_report D w n re (e\<lparr>IP := key\<rparr>))
           }
         })"

section \<open>Votes of this node\<close>

definition shared_vote :: "world \<Rightarrow> 'sk Node \<Rightarrow> string \<Rightarrow> Event" where
  "shared_vote w n ipOrRange =
     zero_Event\<lparr>IP := ipOrRange, Kind := ''vote'', ReporterID := nd_selfID n,
       SubnetID := FederationSubnet (nd_cfg n), Timestamp := w_now w\<rparr>"

definition publishSharedVotes ::
  "('db, 'bf, 'sk, 'pid, 'pk, 'k) deps \<Rightarrow> world \<Rightarrow> 'sk Node \<Rightarrow> (('db, 'bf, 'k) node_state, unit) state" where
  "publishSharedVotes D w n =
     (case (nd_transport n, nd_identityKey n) of
        (Some t, Some k) \<Rightarrow>
          for_each (wl_List (nd_whitelist n)) (\<lambda>entry.
            unless (Scope entry \<noteq> ''shared-vote'')
              (case SignEvent (dp_p2p D) (shared_vote w n (IPOrRange entry)) k of
                 Inl _ \<Rightarrow> skip
               | Inr v \<Rightarrow> do {
                   _ \<leftarrow> publish w t v (FederationSubnet (nd_cfg n));
                   (weight, _, anchored) \<leftarrow> resolve D w (nd_selfID n);
                   _ \<leftarrow> record_dispute D w n (IPOrRange entry) (nd_selfID n) weight
                     (FederationSubnet (nd_cfg n)) anchored;
                   skip
                 }))
      | _ \<Rightarrow> skip)"

section \<open>Decay\<close>

definition decay_one ::
  "('db, 'bf, 'sk, 'pid, 'pk, 'k) deps \<Rightarrow> world \<Rightarrow> 'sk Node \<Rightarrow> string \<Rightarrow> (('db, 'bf, 'k) node_state, unit) state" where
  "decay_one D w n ip =
     do {
       r \<leftarrow> State (\<lambda>s. case Decay (dp_backend D) (nd_rep n) (st_store s) (w_now w) ip of
         Inl _ \<Rightarrow> (None, s) | Inr (x, bs) \<Rightarrow> (Some x, s\<lparr>st_store := bs\<rparr>));
       (case r of
          None \<Rightarrow> skip
        | Some score \<Rightarrow>
            unless (\<not> score < UnblockThreshold (Reputation (nd_cfg n))) (do {
              done \<leftarrow> sink_unblock D w ip;
              unless (\<not> done) (observe (\<lambda>ob. RecordUnblock (w_db w) ob (w_now w) ip))
            }))
     }"

definition runDecay ::
  "('db, 'bf, 'sk, 'pid, 'pk, 'k) deps \<Rightarrow> world \<Rightarrow> 'sk Node \<Rightarrow> (('db, 'bf, 'k) node_state, unit) state" where
  "runDecay D w n = modify (\<lambda>s.
     snd (ScanScores (dp_backend D) (st_store s) (w_now w) (\<lambda>ip _ s. (None, exec (decay_one D w n ip) s)) s))"

section \<open>Federated queries\<close>

text \<open>
  \<open>materialiseFederated\<close> holds \<open>matMu\<close> twice, around the test and around the update; the two
  sections and the sink call between them are \<open>materialise_check\<close> and \<open>materialise_commit\<close>.
\<close>

definition materialise_gate :: "'sk Node \<Rightarrow> string \<Rightarrow> ScoreRecord \<Rightarrow> int \<Rightarrow> bool" where
  "materialise_gate n ip rec subnets \<longleftrightarrow>
     \<not> \<not> FederationMaterialize (nd_cfg n) \<and>
     \<not> (nbl_Contains (nd_neverblock n) ip \<or> wl_Contains (nd_whitelist n) ip) \<and>
     \<not> (Score rec < FederationBlockThreshold (nd_cfg n) \<or> subnets < FederationBlockMinSubnets (nd_cfg n))"

definition materialise_commit ::
  "('db, 'bf, 'sk, 'pid, 'pk, 'k) deps \<Rightarrow> world \<Rightarrow> 'sk Node \<Rightarrow> string \<Rightarrow> ScoreRecord
     \<Rightarrow> (('db, 'bf, 'k) node_state, unit) state" where
  "materialise_commit D w n ip rec =
     do {
       done \<leftarrow> sink_block_for D w ip (EffectiveFederationBlockTTL (nd_cfg n));
       unless (\<not> done) (do {
         modify (\<lambda>s. s\<lparr>st_materialised := insert ip (st_materialised s)\<rparr>);
         observe (\<lambda>ob. RecordBlock (w_db w) ob (w_now w) ip ''federated-materialise'' (Score rec) (FirstSeen rec)
           (nat (Corroboration rec)))
       })
     }"

definition materialiseFederated ::
  "('db, 'bf, 'sk, 'pid, 'pk, 'k) deps \<Rightarrow> world \<Rightarrow> 'sk Node \<Rightarrow> string \<Rightarrow> ScoreRecord \<Rightarrow> int
     \<Rightarrow> (('db, 'bf, 'k) node_state, unit) state" where
  "materialiseFederated D w n ip rec subnets =
     unless (\<not> materialise_gate n ip rec subnets) (do {
       suppressed \<leftarrow> reads (\<lambda>s. ip \<in> st_disputed s);
       unless suppressed (materialise_commit D w n ip rec)
     })"

text \<open>The closure given to \<open>SetShed\<close>, and the querier as a step of the node's state.\<close>

definition resolver_shed :: "world \<Rightarrow> (('db, 'bf, 'k) node_state, bool) state" where
  "resolver_shed w =
     do { over \<leftarrow> shed w; unless (\<not> over) (observe (\<lambda>ob. RecordShed ob ''federated_query''));
          State_Monad.return over }"

definition node_query ::
  "world \<Rightarrow> ('db, 'bf, 'k) node_state \<Rightarrow> string \<Rightarrow> (ScoreRecord \<times> int \<times> bool) \<times> ('db, 'bf, 'k) node_state" where
  "node_query w s ip =
     (case st_querier s of
        None \<Rightarrow> ((zero_rec, 0, False), s)
      | Some q \<Rightarrow> (let (r, q') = Query q (w_now w) (w_answers w) ip in (r, s\<lparr>st_querier := Some q'\<rparr>)))"

text \<open>The resolver as \<open>New\<close> wires it, and a lookup through it by the API or the DNSBL.\<close>

definition node_resolver ::
  "('db, 'bf, 'sk, 'pid, 'pk, 'k) deps \<Rightarrow> world \<Rightarrow> 'sk Node \<Rightarrow> ('db, 'bf, 'k) node_state Resolver" where
  "node_resolver D w n =
     (let r = NewResolver (\<lambda>s ip. GetScore (dp_backend D) (st_store s) (w_now w) ip) (Some (node_query w)) None None;
          r = (if FederationMaterialize (nd_cfg n)
               then SetMaterialiser r (Some (\<lambda>s ip rec subnets. exec (materialiseFederated D w n ip rec subnets) s))
               else r)
      in SetShed r (Some (run_state (resolver_shed w))))"

definition point_lookup ::
  "('db, 'bf, 'sk, 'pid, 'pk, 'k) deps \<Rightarrow> world \<Rightarrow> 'sk Node \<Rightarrow> string
     \<Rightarrow> (('db, 'bf, 'k) node_state, error + ScoreRecord) state" where
  "point_lookup D w n ip = State (\<lambda>s.
     (case st_querier s of
        None \<Rightarrow> (GetScore (dp_backend D) (st_store s) (w_now w) ip, s)
      | Some _ \<Rightarrow> resolver_GetScore (node_resolver D w n) s ip))"

section \<open>Construction\<close>

text \<open>The firewall backend and the event sources a configuration asks for.\<close>

datatype sink_choice = UseNftables NftablesSink | UseCrowdSec CrowdSecSink | UseIpset IpsetSink

definition node_halfLife :: "Config \<Rightarrow> duration" where
  "node_halfLife cfg =
     (if HalfLife (Reputation cfg) \<le> 0 then 7 * 24 * hour else HalfLife (Reputation cfg))"

definition choose_sink :: "Config \<Rightarrow> sink_choice" where
  "choose_sink cfg =
     (if Backend (Enforce cfg) = ''nftables'' then
        UseNftables (NewNftables (SetName (Enforce cfg)) (NftHook (Enforce cfg)))
      else if Backend (Enforce cfg) = ''crowdsec'' then
        UseCrowdSec (Enforce.NewCrowdSec (Enforce cfg) (node_halfLife cfg))
      else UseIpset (NewIpset (SetName (Enforce cfg)) (EffectiveChains (Enforce cfg))))"

datatype source_kind = SrcHoneypot | SrcOpenCanary | SrcCrowdSec | SrcMailcow | SrcSpamtrap | SrcFail2Ban

definition enabled_sources :: "Config \<Rightarrow> source_kind list" where
  "enabled_sources cfg =
     (let c = Ingest cfg in
      (if tail_Enabled (Honeypot c) then [SrcHoneypot] else []) @
      (if tail_Enabled (OpenCanary c) then [SrcOpenCanary] else []) @
      (if cs_Enabled (CrowdSec c) then [SrcCrowdSec] else []) @
      (if mc_Enabled (MailcowLogs c) then [SrcMailcow] else []) @
      (if tail_Enabled (Spamtrap c) then [SrcSpamtrap] else []) @
      (if f2b_Enabled (Fail2Ban c) then [SrcFail2Ban] else []))"

text \<open>A node vouches only with a valid certificate for its own peer ID.\<close>

definition own_vouch :: "ed25519 \<Rightarrow> time \<Rightarrow> string \<Rightarrow> error + (error + PeerCert) \<Rightarrow> PeerCert option" where
  "own_vouch C now selfID data =
     (case data of
        Inl _ \<Rightarrow> None
      | Inr (Inl _) \<Rightarrow> None
      | Inr (Inr cert) \<Rightarrow>
          if VerifyCert C cert now \<noteq> None then None
          else if selfID \<noteq> '''' \<and> PeerID cert = selfID then Some cert
          else None)"

definition parseAggregators :: "(string \<Rightarrow> error + 'info) \<Rightarrow> string list \<Rightarrow> 'info list" where
  "parseAggregators AddrInfoFromString addrs =
     concat (map (\<lambda>a. case AddrInfoFromString a of Inl _ \<Rightarrow> [] | Inr info \<Rightarrow> [info]) addrs)"

definition new_querier ::
  "(string \<Rightarrow> error + 'info) \<Rightarrow> Config \<Rightarrow> Transport option \<Rightarrow> Querier option" where
  "new_querier AddrInfoFromString cfg t =
     (if t \<noteq> None \<and> length (FederationAggregators cfg) > 0 then
        (if length (parseAggregators AddrInfoFromString (FederationAggregators cfg)) = 0 then None
         else Some (NewQuerier (EffectiveQueryCacheTTL cfg)
           \<lparr>rq_halfLife = node_halfLife cfg, rq_strangerCap = StrangerScoreCap (Trust cfg),
            rq_federationDiscount = FederationDiscount (Trust cfg),
            rq_diversityRepeat = EffectiveDiversityRepeatFactor cfg,
            rq_disputeWeight = EffectiveDisputeWeight cfg\<rparr>))
      else None)"

text \<open>What the disk answers while a node is built.\<close>

record ('sk, 'info) new_inputs =
  ni_now :: time
  ni_whitelist :: file_read
  ni_trust :: trust_files
  ni_rules :: rule_file
  ni_cert :: "error + (error + PeerCert)"
  ni_key :: "error + 'sk"
  ni_prom :: "error option"
  ni_sq :: "error option"
  ni_addr :: "string \<Rightarrow> error + 'info"

definition New ::
  "('db, 'bf, 'sk, 'pid, 'pk, 'k) deps \<Rightarrow> ('sk, 'info) new_inputs \<Rightarrow> 'k \<Rightarrow> Config \<Rightarrow> Transport option
     \<Rightarrow> error + 'sk Node \<times> ('db, 'bf, 'k) node_state" where
  "New D I k cfg t =
     (case Open (dp_backend D) (ni_now I) (store_Dir cfg) of
        Inl e \<Rightarrow> Inl (Wrap ''node: open store'' e)
      | Inr s \<Rightarrow>
          (let eng = \<lparr>eng_halfLife = node_halfLife cfg, eng_strangerCap = StrangerScoreCap (Trust cfg),
                 eng_diversityRepeat = EffectiveDiversityRepeatFactor cfg,
                 eng_disputeWeight = EffectiveDisputeWeight cfg\<rparr>;
               nbl = NewNeverBlockList (ExtraWhitelist (Enforce cfg))
           in (case LoadWhitelist (ni_whitelist I) (WhitelistFile cfg) of
                 Inl e \<Rightarrow> Inl (Wrap ''node: load whitelist'' e)
               | Inr whl \<Rightarrow>
                   (let self = (case t of None \<Rightarrow> '''' | Some tr \<Rightarrow> tr_self tr);
                        ts = NewStore (dp_ed D) (dp_json D) (ni_trust I) (ni_now I) (TrustAnchorsFile cfg)
                          (TrustCertsFile cfg) (TrustBlockedPeersFile cfg) (StrangerWeight (Trust cfg));
                        vouch = own_vouch (dp_ed D) (ni_now I) self (ni_cert I)
                    in (case (case t of None \<Rightarrow> Inr None
                              | Some _ \<Rightarrow> (case ni_key I of
                                    Inl e \<Rightarrow> Inl (Wrap ''node: load identity key for signing'' e)
                                  | Inr key \<Rightarrow> Inr (Some key))) of
                          Inl e \<Rightarrow> Inl e
                        | Inr key \<Rightarrow>
                            (case new_observer (ni_prom I) (ni_sq I) (Observability cfg) (Reputation cfg) of
                               Inl e \<Rightarrow> Inl (Wrap ''node: observability'' e)
                             | Inr ob \<Rightarrow> Inr
                                (\<lparr>nd_cfg = cfg, nd_transport = t, nd_rep = eng, nd_neverblock = nbl,
                                  nd_whitelist = whl, nd_selfID = self, nd_vouch = vouch, nd_identityKey = key\<rparr>,
                                 \<lparr>st_store = s, st_trust = ts,
                                  st_rules = Rules.Load (ni_rules I) (RulesFilePath cfg)
                                    (BlockThreshold (Reputation cfg)) (StrangerScoreCap (Trust cfg)),
                                  st_burst = NewBurstStore, st_obs = ob, st_dedup = newDedupCache 100000 (10 * minute),
                                  st_gov = NewGovernor (MaxEventsPerSec cfg),
                                  st_querier = new_querier (ni_addr I) cfg t, st_materialised = {},
                                  st_disputed = {}, st_sink = k, st_out = []\<rparr>)))))))"

section \<open>The event loop\<close>

text \<open>
  \<open>Run\<close> first publishes the shared votes of a node with a transport and then serves, in any order,
  local events, remote events, decay ticks, the ticks that refresh the gauges, and lookups by the
  API and the DNSBL. The loop handles one event at a time; the lookups and the gauge ticks run on
  other goroutines, and each is taken as one step here.
\<close>

definition handle_remote ::
  "('db, 'bf, 'sk, 'pid, 'pk, 'k) deps \<Rightarrow> world \<Rightarrow> 'sk Node \<Rightarrow> ReceivedEvent
     \<Rightarrow> (('db, 'bf, 'k) node_state, unit) state" where
  "handle_remote D w n re =
     do { ProcessRemote D w n re; observe (\<lambda>ob. RecordFederated ob ''in'') }"

definition gauge_tick :: "world \<Rightarrow> nat \<Rightarrow> (('db, 'bf, 'k) node_state, unit) state" where
  "gauge_tick w peers =
     do {
       observe (\<lambda>ob. UpdatePeers ob peers);
       r \<leftarrow> rate w;
       observe (\<lambda>ob. SetProcessingRate ob r);
       over \<leftarrow> shed w;
       observe (\<lambda>ob. SetShedMode ob over)
     }"

datatype node_event =
  Startup | LocalEvent Event | RemoteEvent ReceivedEvent | DecayTick | GaugeTick nat | Lookup string

definition run_start ::
  "('db, 'bf, 'sk, 'pid, 'pk, 'k) deps \<Rightarrow> world \<Rightarrow> 'sk Node \<Rightarrow> (('db, 'bf, 'k) node_state, unit) state" where
  "run_start D w n = unless (nd_transport n = None) (publishSharedVotes D w n)"

definition handle ::
  "('db, 'bf, 'sk, 'pid, 'pk, 'k) deps \<Rightarrow> world \<Rightarrow> 'sk Node \<Rightarrow> node_event \<Rightarrow> (('db, 'bf, 'k) node_state, unit) state" where
  "handle D w n ev =
     (case ev of
        Startup \<Rightarrow> run_start D w n
      | LocalEvent e \<Rightarrow> processLocal D w n e
      | RemoteEvent re \<Rightarrow> handle_remote D w n re
      | DecayTick \<Rightarrow> runDecay D w n
      | GaugeTick peers \<Rightarrow> gauge_tick w peers
      | Lookup ip \<Rightarrow> do { _ \<leftarrow> point_lookup D w n ip; skip })"

inductive node_run ::
  "('db, 'bf, 'sk, 'pid, 'pk, 'k) deps \<Rightarrow> 'sk Node \<Rightarrow> ('db, 'bf, 'k) node_state
     \<Rightarrow> (world \<times> node_event) list \<Rightarrow> ('db, 'bf, 'k) node_state \<Rightarrow> bool"
  for D :: "('db, 'bf, 'sk, 'pid, 'pk, 'k) deps" and n :: "'sk Node" and s0 :: "('db, 'bf, 'k) node_state" where
  run_begin: "node_run D n s0 [(w, Startup)] (exec (handle D w n Startup) s0)"
| run_event: "node_run D n s0 evs s \<Longrightarrow> ev \<noteq> Startup \<Longrightarrow> node_run D n s0 (evs @ [(w, ev)]) (exec (handle D w n ev) s)"

end
