(* ===== verification/Node_Safety.thy ===== *)
theory Node_Safety
  imports Node
begin

text \<open>
  What the node never does, whatever happens to it: it never asks the firewall to block an address
  its allow lists contain, peers nobody anchored can neither block an address nor lift a score
  above their cap, and votes can only lift a block the node took over from the federation. The
  invariants follow the handlers by the rules of \<open>State_Logic\<close>.
\<close>

section \<open>Invariants over the effects\<close>

lemmas call_defs = charge_def shed_def rate_def observe_def emit_def is_blocked_def resolve_def add_cert_def
  seen_def record_report_def record_dispute_def get_record_def burst_add_def evaluate_def sink_call_def

lemmas sink_defs = sink_block_def sink_block_for_def sink_unblock_def

definition effects_in :: "(effect \<Rightarrow> bool) \<Rightarrow> ('db, 'bf, 'k) node_state \<Rightarrow> bool" where
  "effects_in Q s \<longleftrightarrow> (\<forall>x \<in> set (st_out s). Q x)"

lemma effects_in_calls [preserves_rules]:
  "preserves (effects_in Q) (charge w)" "preserves (effects_in Q) (shed w)" "preserves (effects_in Q) (rate w)"
  "preserves (effects_in Q) (observe f)" "preserves (effects_in Q) (is_blocked D w p)"
  "preserves (effects_in Q) (resolve D w p)" "preserves (effects_in Q) (add_cert D w c)"
  "preserves (effects_in Q) (seen w e)" "preserves (effects_in Q) (get_record D w ip)"
  "preserves (effects_in Q) (burst_add w e)" "preserves (effects_in Q) (evaluate w e rec)"
  "preserves (effects_in Q) (record_report D w n ip reason rid weight grp subnet anchored)"
  "preserves (effects_in Q) (record_dispute D w n ip rid weight subnet anchored)"
  by (simp_all add: preserves_def effects_in_def call_defs exec_def Let_def split: prod.split sum.split)

lemma effects_in_emit [preserves_rules]: "Q x \<Longrightarrow> preserves (effects_in Q) (emit x)"
  by (simp add: preserves_def effects_in_def emit_def)

lemma effects_in_sink [preserves_rules]: "Q x \<Longrightarrow> preserves (effects_in Q) (sink_call f x)"
  by (simp add: preserves_def effects_in_def sink_call_def exec_def Let_def split: prod.split)

lemma effects_in_publish [preserves_rules]:
  "Q (Published e subnet) \<Longrightarrow> preserves (effects_in Q) (publish w t e subnet)"
  unfolding publish_def by (intro preserves_rules)

text \<open>Updates that leave the effects alone.\<close>

lemma effects_in_modify: "(\<And>s. st_out (g s) = st_out s) \<Longrightarrow> preserves (effects_in Q) (modify g)"
  by (simp add: preserves_def effects_in_def)

section \<open>Allow lists\<close>

definition allow_listed :: "'sk Node \<Rightarrow> string \<Rightarrow> bool" where
  "allow_listed n ip \<longleftrightarrow> nbl_Contains (nd_neverblock n) ip \<or> wl_Contains (nd_whitelist n) ip"

text \<open>The blocks a node may ask for.\<close>

fun blockable :: "'sk Node \<Rightarrow> effect \<Rightarrow> bool" where
  "blockable n (Blocked ip) = (\<not> allow_listed n ip)"
| "blockable n (BlockedFor ip ttl) =
     (\<not> allow_listed n ip \<and> FederationMaterialize (nd_cfg n) \<and> ttl = EffectiveFederationBlockTTL (nd_cfg n))"
| "blockable n _ = True"

lemma stamp_local_IP [simp]: "IP (stamp_local D n e) = IP e"
  by (simp add: stamp_local_def SignEvent_def Let_def split: option.split sum.split)

lemma act_on_blockable [preserves_rules]:
  "\<not> allow_listed n (IP e) \<Longrightarrow> preserves (effects_in (blockable n)) (act_on D w e rec action rule)"
  unfolding act_on_def sink_defs by (intro preserves_rules) simp_all

lemma reemit_blockable [preserves_rules]: "preserves (effects_in (blockable n)) (reemitIfBridge w m re)"
  unfolding reemitIfBridge_def by (intro preserves_rules) simp_all

lemma local_blockable: "preserves (effects_in (blockable n)) (processLocal D w n e)"
  unfolding processLocal_def local_report_def
  by (intro preserves_rules) (simp_all add: allow_listed_def)

lemma dispute_blockable [preserves_rules]: "preserves (effects_in (blockable n)) (processDispute D w m e)"
  unfolding processDispute_def maybeUnblockDisputed_def sink_defs
  by (intro preserves_rules effects_in_modify) simp_all

lemma remote_blockable: "preserves (effects_in (blockable n)) (ProcessRemote D w n re)"
  unfolding ProcessRemote_def remote_report_def Let_def
  by (intro preserves_rules) (simp_all add: allow_listed_def)

text \<open>A scan keeps what its callback keeps, a lookup what the query and the materialiser keep.\<close>

lemma scan_items_keeps:
  "(\<And>ip rec s. I s \<Longrightarrow> I (snd (fn ip rec s))) \<Longrightarrow> I s \<Longrightarrow> I (snd (scan_items fn items s))"
  by (induction fn items s rule: scan_items.induct) (auto split: prod.split option.split, metis snd_conv, metis snd_conv)

lemma preserves_runDecay:
  assumes "\<And>ip. preserves I (decay_one D w n ip)"
  shows "preserves I (runDecay D w n)"
proof -
  have "I (snd (scan_items (\<lambda>ip _ s. (None, exec (decay_one D w n ip) s)) items s))" if "I s" for items s
    by (rule scan_items_keeps) (use preservesD [OF assms] that in simp_all)
  then show ?thesis by (simp add: runDecay_def preserves_def ScanScores_def)
qed

lemma node_resolver_simps [simp]:
  "rs_local (node_resolver D w n) = (\<lambda>s ip. GetScore (dp_backend D) (st_store s) (w_now w) ip)"
  "rs_q (node_resolver D w n) = Some (node_query w)"
  "rs_shed (node_resolver D w n) = Some (run_state (resolver_shed w))"
  "onFederated (node_resolver D w n) =
     (if FederationMaterialize (nd_cfg n)
      then Some (\<lambda>s ip rec subnets. exec (materialiseFederated D w n ip rec subnets) s) else None)"
  by (simp_all add: node_resolver_def NewResolver_def SetMaterialiser_def SetShed_def Let_def)

lemma preserves_lookup:
  assumes "preserves I (resolver_shed w)" and "\<And>s ip. I s \<Longrightarrow> I (snd (node_query w s ip))"
    and "\<And>rec subnets. preserves I (materialiseFederated D w n ip rec subnets)"
  shows "preserves I (point_lookup D w n ip)"
proof (rule preservesI)
  fix s :: "('a, 'b, 'c) node_state"
  assume s: "I s"
  note sh = preservesD [OF assms(1) s] and mat = preservesD [OF assms(3)]
  have "I (snd (resolver_GetScore (node_resolver D w n) s ip))"
    using s sh mat assms(2)
    by (auto simp: resolver_GetScore_def exec_def split: sum.split prod.split) (metis snd_conv)+
  with s show "I (exec (point_lookup D w n ip) s)"
    by (simp add: point_lookup_def exec_def split: option.split)
qed

lemma node_query_frame [simp]:
  "st_out (snd (node_query w s ip)) = st_out s" "st_store (snd (node_query w s ip)) = st_store s"
  "st_trust (snd (node_query w s ip)) = st_trust s"
  "st_materialised (snd (node_query w s ip)) = st_materialised s"
  "st_disputed (snd (node_query w s ip)) = st_disputed s"
  by (simp_all add: node_query_def Let_def split: option.split prod.split)

lemma materialise_blockable [preserves_rules]:
  "preserves (effects_in (blockable n)) (materialiseFederated D w n ip rec subnets)"
  unfolding materialiseFederated_def materialise_commit_def sink_defs
  by (intro preserves_rules effects_in_modify) (auto simp: materialise_gate_def allow_listed_def)

lemma shed_blockable: "preserves (effects_in Q) (resolver_shed w)"
  unfolding resolver_shed_def by (intro preserves_rules)

lemma votes_blockable: "preserves (effects_in (blockable n)) (run_start D w m)"
  unfolding run_start_def publishSharedVotes_def by (intro preserves_rules) simp_all

lemma decay_blockable: "preserves (effects_in (blockable n)) (decay_one D w m ip)"
  unfolding decay_one_def sink_defs
  by (intro preserves_rules)
    (simp_all add: preserves_def effects_in_def exec_def split: sum.split prod.split)

lemma handle_blockable: "preserves (effects_in (blockable n)) (handle D w n ev)"
proof (cases ev)
  case Startup
  then show ?thesis by (simp add: handle_def votes_blockable)
next
  case (LocalEvent e)
  then show ?thesis by (simp add: handle_def local_blockable)
next
  case (RemoteEvent re)
  then show ?thesis by (simp add: handle_def handle_remote_def) (intro preserves_rules remote_blockable)
next
  case DecayTick
  then show ?thesis by (simp add: handle_def preserves_runDecay decay_blockable)
next
  case (GaugeTick p)
  then show ?thesis by (simp add: handle_def gauge_tick_def) (intro preserves_rules)
next
  case (Lookup ip)
  have "preserves (effects_in (blockable n)) (point_lookup D w n ip)"
    by (rule preserves_lookup) (simp_all add: shed_blockable materialise_blockable effects_in_def)
  with Lookup show ?thesis by (simp add: handle_def) (intro preserves_rules)
qed

text \<open>An invariant of the handlers is an invariant of every run.\<close>

lemma node_run_invariant:
  assumes "node_run D n s0 evs s" and "\<And>w ev. (w, ev) \<in> set evs \<Longrightarrow> preserves I (handle D w n ev)" and "I s0"
  shows "I s"
  using assms by (induction rule: node_run.induct) (simp_all add: preserves_def)

section \<open>A swarm of strangers\<close>

lemma stranger_rec_ApplyDispute:
  assumes "stranger_rec cap rec" "0 \<le> obs_Trust obs" "0 \<le> dw" "0 \<le> dr"
  shows "stranger_rec cap (ApplyDispute rec obs now h dw cap dr)"
proof -
  from assms(1) have ok: "rec_ok cap rec" and s: "Score rec \<le> StrangerContrib rec" "Groups rec = []"
    by (simp_all add: stranger_rec_def)
  note nn = rec_okD(1) [OF ok]
  have "decayed rec now h - disp_reduction rec obs now h dw cap dr \<le> StrangerContrib rec"
    using decayed_le [OF nn, of now h] disp_reduction_bounds(1) [OF nn assms(2-4), of now h cap] s(1) by linarith
  with ApplyDispute_rec_ok [OF ok assms(2-4)] s nn show ?thesis
    by (simp add: stranger_rec_def ApplyDispute_fields)
qed

lemma stranger_rec_decayed:
  assumes "stranger_rec cap rec"
  shows "stranger_rec cap (rec\<lparr>Score := DecayScore (Score rec) t now h\<rparr>)"
proof -
  from assms have ok: "rec_ok cap rec" and s: "Score rec \<le> StrangerContrib rec" "Groups rec = []"
    by (simp_all add: stranger_rec_def)
  note le = DecayScore_le [OF rec_okD(1) [OF ok], of t now h]
  have "DecayScore (Score rec) t now h \<le> 100" using le rec_okD(2) [OF ok] by linarith
  with ok s le DecayScore_nonneg [OF rec_okD(1) [OF ok]] show ?thesis
    by (simp add: stranger_rec_def rec_ok_Score_update)
qed

lemma stranger_recD:
  assumes "stranger_rec cap rec"
  shows "Score rec \<le> cap \<and> Groups rec = [] \<and> Corroboration rec = 0"
proof -
  from assms have ok: "rec_ok cap rec" and s: "Score rec \<le> StrangerContrib rec" "Groups rec = []"
    by (simp_all add: stranger_rec_def)
  with rec_okD(3) [OF ok] show ?thesis by (simp add: rec_ok_def)
qed

context badger_backend
begin

text \<open>Reports and disputes of strangers, and decay, keep every stored record a stranger's record.\<close>

lemma strangers_Record:
  assumes "store_inv L view (stranger_rec (eng_strangerCap e)) s" "engine_ok e" "0 \<le> trust"
    and "Record L e s now ip reason rid trust grp subnet False = Inr (x, s')"
  shows "store_inv L view (stranger_rec (eng_strangerCap e)) s'"
proof (rule Record_effect [OF assms(4)])
  fix rec rec'
  assume get: "GetScore L s now ip = Inr rec"
    and rec': "rec' = Accumulate rec \<lparr>obs_Reason = reason, obs_ReporterID = rid, obs_Group = grp,
           obs_Trust = trust, obs_Anchored = False, obs_Subnet = subnet\<rparr>
           now (eng_halfLife e) (eng_strangerCap e) (eng_diversityRepeat e)"
    and put: "PutScore L s now ip rec' (3 * eng_halfLife e) = Inr s'"
  have "stranger_rec (eng_strangerCap e) rec"
    by (rule store_inv_get [OF assms(1) _ get]) (use assms(2) in \<open>simp add: engine_ok_def\<close>)
  then have "stranger_rec (eng_strangerCap e) rec'"
    unfolding rec' using assms(2,3) by (intro stranger_rec_Accumulate) (simp_all add: engine_ok_def)
  with assms(1) put show ?thesis unfolding store_inv_iff by (metis all_stored_put)
qed

lemma strangers_RecordDispute:
  assumes "store_inv L view (stranger_rec (eng_strangerCap e)) s" "engine_ok e" "0 \<le> trust"
    and "RecordDispute L e s now ip rid trust subnet anchored = Inr ((x, k), s')"
  shows "store_inv L view (stranger_rec (eng_strangerCap e)) s'"
proof (rule RecordDispute_effect [OF assms(4)])
  fix rec rec'
  assume get: "GetScore L s now ip = Inr rec"
    and rec': "rec' = ApplyDispute rec \<lparr>obs_Reason = '''', obs_ReporterID = rid, obs_Group = '''',
           obs_Trust = trust, obs_Anchored = anchored, obs_Subnet = subnet\<rparr>
           now (eng_halfLife e) (eng_disputeWeight e) (eng_strangerCap e) (eng_diversityRepeat e)"
    and put: "PutScore L s now ip rec' (3 * eng_halfLife e) = Inr s'"
  have "stranger_rec (eng_strangerCap e) rec"
    by (rule store_inv_get [OF assms(1) _ get]) (use assms(2) in \<open>simp add: engine_ok_def\<close>)
  then have "stranger_rec (eng_strangerCap e) rec'"
    unfolding rec' using assms(2,3) by (intro stranger_rec_ApplyDispute) (simp_all add: engine_ok_def)
  with assms(1) put show ?thesis unfolding store_inv_iff by (metis all_stored_put)
qed

lemma strangers_Decay:
  assumes "store_inv L view (stranger_rec (eng_strangerCap e)) s" "engine_ok e"
    and "Decay L e s now ip = Inr (x, s')"
  shows "store_inv L view (stranger_rec (eng_strangerCap e)) s'"
proof -
  from assms(3) obtain rec where get: "GetScore L s now ip = Inr rec"
    by (auto simp: Decay_def split: sum.splits)
  show ?thesis
  proof (cases "LastSeen rec = 0")
    case True
    with assms(1,3) get show ?thesis by (simp add: Decay_def IsZero_def)
  next
    case False
    have "stranger_rec (eng_strangerCap e) rec"
      by (rule store_inv_get [OF assms(1) _ get]) (use assms(2) in \<open>simp add: engine_ok_def\<close>)
    from stranger_rec_decayed [OF this] Decay_effect(1) [OF assms(3) get False] assms(1)
    show ?thesis unfolding store_inv_iff by (metis all_stored_put)
  qed
qed

end

text \<open>The state of a node that has only ever heard strangers, and a disk without anchors.\<close>

definition no_anchors :: "('db, 'bf, 'sk, 'pid, 'pk, 'k) deps \<Rightarrow> world \<Rightarrow> bool" where
  "no_anchors D w \<longleftrightarrow> (case LoadAnchors (dp_json D) (af_read (w_trust w)) of Inl _ \<Rightarrow> True | Inr xs \<Rightarrow> xs = [])"

definition strangers_only ::
  "('db, 'bf, 'sk, 'pid, 'pk, 'k) deps \<Rightarrow> ('db \<Rightarrow> string \<rightharpoonup> ScoreRecord \<times> time) \<Rightarrow> 'sk Node
     \<Rightarrow> ('db, 'bf, 'k) node_state \<Rightarrow> bool" where
  "strangers_only D view n s \<longleftrightarrow>
     store_inv (dp_backend D) view (stranger_rec (eng_strangerCap (nd_rep n))) (st_store s) \<and>
     anchors (st_trust s) = Map.empty \<and> 0 \<le> strangerWeight (st_trust s) \<and>
     (\<forall>ip. Blocked ip \<notin> set (st_out s))"

lemma maybeReload_no_anchors:
  assumes "no_anchors D w" "anchors ts = Map.empty"
  shows "anchors (Trust.maybeReload C (dp_json D) (w_trust w) now ts) = Map.empty"
proof -
  have "anchors (reload_anchors (dp_json D) (w_trust w) (ts\<lparr>lastCheck := now\<rparr>)) = Map.empty"
    using assms by (auto simp: reload_anchors_def no_anchors_def split: sum.splits prod.split)
  with assms(2) show ?thesis by (simp add: Trust.maybeReload_def Let_def frame_simps)
qed

lemma strangers_frame [preserves_rules]:
  "preserves (strangers_only D view n) (charge w)" "preserves (strangers_only D view n) (shed w)"
  "preserves (strangers_only D view n) (rate w)" "preserves (strangers_only D view n) (observe f)"
  "preserves (strangers_only D view n) (seen w e)" "preserves (strangers_only D view n) (get_record D w ip)"
  "preserves (strangers_only D view n) (burst_add w e)" "preserves (strangers_only D view n) (evaluate w e rec)"
  "preserves (strangers_only D view n) (add_cert D w c)"
  by (simp_all add: preserves_def strangers_only_def call_defs exec_def Let_def frame_simps split: prod.split)

lemma strangers_effects [preserves_rules]:
  "(\<And>ip. x \<noteq> Blocked ip) \<Longrightarrow> preserves (strangers_only D view n) (emit x)"
  "(\<And>ip. x \<noteq> Blocked ip) \<Longrightarrow> preserves (strangers_only D view n) (sink_call f x)"
  by (auto simp: preserves_def strangers_only_def call_defs exec_def Let_def split: prod.split)

lemma strangers_publish [preserves_rules]: "preserves (strangers_only D view n) (publish w t e subnet)"
  unfolding publish_def by (intro preserves_rules) simp_all

text \<open>Nobody resolves to an anchor, and what strangers report keeps the records strangers' records.\<close>

lemma strangers_resolve:
  assumes "no_anchors D w"
  shows "triple (strangers_only D view n) (resolve D w p)
    (\<lambda>(weight, grp, anchored) s. strangers_only D view n s \<and> \<not> anchored \<and> 0 \<le> weight)"
  using maybeReload_no_anchors [OF assms]
  by (auto simp: triple_def strangers_only_def resolve_def Resolve_def exec_def Let_def resolve_in_no_anchors
      frame_simps)

lemma strangers_is_blocked [preserves_rules]:
  "no_anchors D w \<Longrightarrow> preserves (strangers_only D view n) (is_blocked D w p)"
  by (simp add: preserves_def strangers_only_def is_blocked_def IsBlocked_def exec_def Let_def
      maybeReload_no_anchors frame_simps)

lemma strangers_get:
  assumes "badger_backend (dp_backend D) view" "0 \<le> eng_strangerCap (nd_rep n)"
  shows "triple (strangers_only D view n) (get_record D w ip) (\<lambda>rec s. strangers_only D view n s \<and> Groups rec = [])"
proof (rule tripleI)
  fix s
  assume s: "strangers_only D view n s"
  then have inv: "store_inv (dp_backend D) view (stranger_rec (eng_strangerCap (nd_rep n))) (st_store s)"
    by (simp add: strangers_only_def)
  have "Groups r = []" if "GetScore (dp_backend D) (st_store s) (w_now w) ip = Inr r" for r
    using badger_backend.store_inv_get [OF assms(1) inv _ that] assms(2) by (simp add: stranger_rec_def)
  with s show "strangers_only D view n (exec (get_record D w ip) s) \<and> Groups (fst (run_state (get_record D w ip) s)) = []"
    by (simp add: get_record_def GetRecord_def split: sum.split)
qed

lemma strangers_record:
  assumes "badger_backend (dp_backend D) view" "engine_ok (nd_rep n)" "0 \<le> weight"
  shows "preserves (strangers_only D view n) (record_report D w n ip reason rid weight grp subnet False)"
proof (rule preservesI)
  fix s
  assume s: "strangers_only D view n s"
  then show "strangers_only D view n (exec (record_report D w n ip reason rid weight grp subnet False) s)"
    using badger_backend.strangers_Record [OF assms(1) _ assms(2,3)]
    by (cases "Record (dp_backend D) (nd_rep n) (st_store s) (w_now w) ip reason rid weight grp subnet False")
      (auto simp: strangers_only_def record_report_def exec_def)
qed

lemma strangers_dispute:
  assumes "badger_backend (dp_backend D) view" "engine_ok (nd_rep n)" "0 \<le> weight"
  shows "preserves (strangers_only D view n) (record_dispute D w n ip rid weight subnet anchored)"
proof (rule preservesI)
  fix s
  assume s: "strangers_only D view n s"
  then show "strangers_only D view n (exec (record_dispute D w n ip rid weight subnet anchored) s)"
    using badger_backend.strangers_RecordDispute [OF assms(1) _ assms(2,3)]
    by (cases "RecordDispute (dp_backend D) (nd_rep n) (st_store s) (w_now w) ip rid weight subnet anchored")
      (auto simp: strangers_only_def record_dispute_def exec_def)
qed

lemma discounted_nonneg: "0 \<le> weight \<Longrightarrow> 0 \<le> discounted cfg subnet anchored weight"
  by (simp add: discounted_def Let_def)

lemma strangers_act [preserves_rules]:
  "action \<noteq> ActionBlock \<Longrightarrow> preserves (strangers_only D view n) (act_on D w e rec action rule)"
  unfolding act_on_def by (intro preserves_rules) simp_all

lemma downgrade_strangers: "Groups rec = [] \<Longrightarrow> downgrade action rec \<noteq> ActionBlock"
  by (simp add: downgrade_def)

lemma strangers_reemit [preserves_rules]: "preserves (strangers_only D view n) (reemitIfBridge w m re)"
  unfolding reemitIfBridge_def by (intro preserves_rules)

text \<open>A bind whose first part also yields a fact about its result.\<close>

lemma preserves_bind_fact:
  "triple I m (\<lambda>x s. I s \<and> P x) \<Longrightarrow> (\<And>x. P x \<Longrightarrow> preserves I (f x)) \<Longrightarrow> preserves I (State_Monad.bind m f)"
  by (simp add: preserves_def triple_def)

lemma strangers_bind_resolve:
  assumes "no_anchors D w"
    and "\<And>weight grp. 0 \<le> weight \<Longrightarrow> preserves (strangers_only D view n) (f (weight, grp, False))"
  shows "preserves (strangers_only D view n) (State_Monad.bind (resolve D w p) f)"
  by (rule preserves_bind_fact [OF triple_post [OF strangers_resolve [OF assms(1)]],
      where P = "\<lambda>(weight, grp, anchored). \<not> anchored \<and> 0 \<le> weight"]) (auto simp: assms(2))

lemma strangers_bind_get:
  assumes "badger_backend (dp_backend D) view" "engine_ok (nd_rep n)"
    and "\<And>rec. Groups rec = [] \<Longrightarrow> preserves (strangers_only D view n) (f rec)"
  shows "preserves (strangers_only D view n) (State_Monad.bind (get_record D w ip) f)"
proof -
  have "0 \<le> eng_strangerCap (nd_rep n)" using assms(2) by (simp add: engine_ok_def)
  from preserves_bind_fact [OF strangers_get [OF assms(1) this] assms(3)] show ?thesis .
qed

lemma strangers_report:
  assumes "badger_backend (dp_backend D) view" "engine_ok (nd_rep n)" "no_anchors D w"
  shows "preserves (strangers_only D view n) (remote_report D w n re e)"
  unfolding remote_report_def
  by (intro preserves_bind preserves_option preserves_unless preserves_basic strangers_frame
      strangers_bind_resolve [OF assms(3)], simp only: prod.case,
     intro strangers_bind_get [OF assms(1,2)] preserves_rules strangers_record [OF assms(1,2)] discounted_nonneg)
    (simp_all add: downgrade_strangers)

lemma strangers_unblock [preserves_rules]: "preserves (strangers_only D view n) (maybeUnblockDisputed D w m ip k)"
  unfolding maybeUnblockDisputed_def sink_defs
  by (intro preserves_rules preserves_modify) (simp_all add: strangers_only_def)

lemma strangers_votes:
  assumes "badger_backend (dp_backend D) view" "engine_ok (nd_rep n)" "no_anchors D w"
  shows "preserves (strangers_only D view n) (processDispute D w n e)"
  unfolding processDispute_def
  by (intro preserves_bind preserves_option preserves_unless preserves_basic strangers_frame
      strangers_bind_resolve [OF assms(3)], simp only: prod.case,
     intro preserves_rules strangers_dispute [OF assms(1,2)])

lemma strangers_remote:
  assumes "badger_backend (dp_backend D) view" "engine_ok (nd_rep n)" "no_anchors D w"
  shows "preserves (strangers_only D view n) (ProcessRemote D w n re)"
  unfolding ProcessRemote_def Let_def
  by (intro preserves_rules strangers_report strangers_votes strangers_is_blocked assms)

lemma strangers_start:
  assumes "badger_backend (dp_backend D) view" "engine_ok (nd_rep n)" "no_anchors D w"
  shows "preserves (strangers_only D view n) (run_start D w n)"
proof -
  have own: "preserves (strangers_only D view n) (do {
      (weight, _, anchored) \<leftarrow> resolve D w p; _ \<leftarrow> record_dispute D w n ip p weight subnet anchored; skip })"
    for p ip subnet
    by (intro strangers_bind_resolve [OF assms(3)], simp only: prod.case)
      (intro preserves_rules strangers_dispute [OF assms(1,2)])
  show ?thesis
    unfolding run_start_def publishSharedVotes_def by (intro own preserves_rules)
qed

lemma strangers_decay:
  assumes "badger_backend (dp_backend D) view" "engine_ok (nd_rep n)"
  shows "preserves (strangers_only D view n) (decay_one D w n ip)"
proof -
  let ?m = "State (\<lambda>s. case Decay (dp_backend D) (nd_rep n) (st_store s) (w_now w) ip of
      Inl _ \<Rightarrow> (None, s) | Inr (x, bs) \<Rightarrow> (Some x, s\<lparr>st_store := bs\<rparr>))"
  have "preserves (strangers_only D view n) ?m"
  proof (rule preservesI)
    fix s
    assume s: "strangers_only D view n s"
    then show "strangers_only D view n (exec ?m s)"
      using badger_backend.strangers_Decay [OF assms(1) _ assms(2)]
      by (cases "Decay (dp_backend D) (nd_rep n) (st_store s) (w_now w) ip")
        (auto simp: strangers_only_def exec_def)
  qed
  then show ?thesis unfolding decay_one_def sink_defs by (intro preserves_rules) simp_all
qed

lemma strangers_handle:
  assumes "badger_backend (dp_backend D) view" "engine_ok (nd_rep n)" "no_anchors D w"
    and "\<And>e. ev \<noteq> LocalEvent e"
  shows "preserves (strangers_only D view n) (handle D w n ev)"
proof (cases ev)
  case (Lookup ip)
  have "preserves (strangers_only D view n) (materialiseFederated D w n ip rec subnets)" for ip rec subnets
    unfolding materialiseFederated_def materialise_commit_def sink_defs
    by (intro preserves_rules preserves_modify) (simp_all add: strangers_only_def)
  moreover have "preserves (strangers_only D view n) (resolver_shed w)"
    unfolding resolver_shed_def by (intro preserves_rules)
  ultimately have "preserves (strangers_only D view n) (point_lookup D w n ip)"
    by (intro preserves_lookup) (simp_all add: strangers_only_def)
  with Lookup show ?thesis by (simp add: handle_def) (intro preserves_rules)
next
  case Startup
  then show ?thesis using strangers_start [OF assms(1-3)] by (simp add: handle_def)
next
  case (RemoteEvent re)
  then show ?thesis
    using strangers_remote [OF assms(1-3)] by (simp add: handle_def handle_remote_def preserves_rules)
next
  case DecayTick
  then show ?thesis by (simp add: handle_def preserves_runDecay strangers_decay [OF assms(1,2)])
next
  case (GaugeTick p)
  then show ?thesis by (simp add: handle_def gauge_tick_def) (intro preserves_rules)
qed (use assms(4) in simp)

text \<open>A node as \<open>New\<close> builds it.\<close>

lemma New_node:
  assumes "New D I k cfg t = Inr (n, s)"
  shows "nd_cfg n = cfg" "nd_transport n = t" "nd_neverblock n = NewNeverBlockList (ExtraWhitelist (Enforce cfg))"
    and "LoadWhitelist (ni_whitelist I) (WhitelistFile cfg) = Inr (nd_whitelist n)"
    and "eng_strangerCap (nd_rep n) = StrangerScoreCap (Trust cfg)"
    and "0 \<le> StrangerScoreCap (Trust cfg) \<Longrightarrow> engine_ok (nd_rep n)"
    and "st_out s = []" "st_materialised s = {}" "st_disputed s = {}"
    and "Open (dp_backend D) (ni_now I) (store_Dir cfg) = Inr (st_store s)"
    and "st_trust s = NewStore (dp_ed D) (dp_json D) (ni_trust I) (ni_now I) (TrustAnchorsFile cfg)
      (TrustCertsFile cfg) (TrustBlockedPeersFile cfg) (StrangerWeight (Trust cfg))"
  using assms EffectiveDiversity_range [of cfg] EffectiveDisputeWeight_pos [of cfg]
  by (auto simp: New_def Let_def engine_ok_def split: sum.splits option.splits)

section \<open>An example node\<close>

text \<open>A node on the in-memory store, with a firewall that is the list of denied addresses.\<close>

definition list_sink :: "string list sink_ops" where
  "list_sink = \<lparr>sink_Block = \<lambda>_ k ip. (None, ip # k), sink_BlockFor = \<lambda>_ k ip _. (None, ip # k),
     sink_Unblock = \<lambda>_ k ip. (None, removeAll ip k)\<rparr>"

definition ex_deps :: "(mem_db, string list, string, string, string, string list) deps" where
  "ex_deps = \<lparr>dp_backend = mem_backend, dp_ed = plain_ed25519, dp_json = plain_json, dp_p2p = plain_libp2p,
     dp_sink = list_sink\<rparr>"

definition no_files :: trust_files where
  "no_files = \<lparr>af_stat = None, af_read = Inl ErrNotExist, cf_stat = None, cf_read = Inl ErrNotExist,
     bf_stat = None, bf_read = Inl ErrNotExist\<rparr>"

definition ex_world :: "time \<Rightarrow> world" where
  "ex_world now = \<lparr>w_now = now, w_trust = no_files, w_rules = no_file, w_db = True,
     w_encode = \<lambda>_. Inr ''json'', w_gossip = \<lambda>_ _. None, w_answers = []\<rparr>"

definition ex_inputs :: "(string, string) new_inputs" where
  "ex_inputs = \<lparr>ni_now = 1, ni_whitelist = NotExist, ni_trust = no_files, ni_rules = no_file,
     ni_cert = Inl ErrNotExist, ni_key = Inr ''me'', ni_prom = None, ni_sq = None, ni_addr = Inr\<rparr>"

definition ex_transport :: Transport where
  "ex_transport = \<lparr>tr_self = ''12D3me'', tr_topics = [('''', DefaultTopic), (''blue'', ''federloom/events/v2/blue'')]\<rparr>"

lemma ex_node:
  "\<exists>n s0. New ex_deps ex_inputs [] Defaults (Some ex_transport) = Inr (n, s0) \<and> st_store s0 = mem_empty"
  by (simp add: New_def ex_deps_def ex_inputs_def Open_def mem_backend_def mem_items_def ScanScores_def Let_def
      LoadWhitelist_def new_observer_def Defaults_def mem_empty_def)

section \<open>Properties\<close>

text \<open>
  Whatever a node that \<open>New\<close> built goes through (local and remote events, votes, decay,
  federated lookups), it never asks the firewall to block, for good or for a time, an address its
  never-block list or its whitelist contains; and the never-block list contains the key of every
  private, loopback, carrier, link-local and multicast IPv4 address, however it is spelled.
\<close>

theorem allow_listed_never_blocked:
  assumes "New D I k cfg t = Inr (n, s0)" "node_run D n s0 evs s"
  shows "(\<forall>ip. nbl_Contains (NewNeverBlockList (ExtraWhitelist (Enforce cfg))) ip \<or> wl_Contains (nd_whitelist n) ip
      \<longrightarrow> Blocked ip \<notin> set (st_out s) \<and> (\<forall>ttl. BlockedFor ip ttl \<notin> set (st_out s))) \<and>
    (\<forall>spelling os key. KeyAddr spelling = Some (V4 os) \<and> private_v4 os \<and>
      NormalizeIP spelling (EffectiveIPv6Prefix (Reputation cfg)) = Inr key
      \<longrightarrow> Blocked key \<notin> set (st_out s) \<and> (\<forall>ttl. BlockedFor key ttl \<notin> set (st_out s)))"
proof -
  note n = New_node [OF assms(1)]
  have "effects_in (blockable n) s"
    by (rule node_run_invariant [OF assms(2) handle_blockable]) (simp add: effects_in_def n)
  then have b: "\<And>x. x \<in> set (st_out s) \<Longrightarrow> blockable n x" by (simp add: effects_in_def)
  have free: "Blocked ip \<notin> set (st_out s) \<and> (\<forall>ttl. BlockedFor ip ttl \<notin> set (st_out s))" if "allow_listed n ip" for ip
    using b [of "Blocked ip"] b [of "BlockedFor ip _"] that by auto
  let ?p = "nat (EffectiveIPv6Prefix (Reputation cfg))"
  have p: "1 \<le> ?p" "?p \<le> 128" "int ?p = EffectiveIPv6Prefix (Reputation cfg)"
    using EffectiveIPv6Prefix_range [of "Reputation cfg"] by auto
  have "allow_listed n key" if "KeyAddr sp = Some (V4 os)" "private_v4 os"
      "NormalizeIP sp (EffectiveIPv6Prefix (Reputation cfg)) = Inr key" for sp os key
    using private_v4_contained [OF that(1,2) p(1,2)] that(3) p(3) by (simp add: allow_listed_def n)
  with free show ?thesis by (auto simp: allow_listed_def n)
qed

text \<open>
  C2. A swarm of strangers cannot block. While no anchors are configured and the node reports
  nothing itself, no sequence of remote reports and votes, with any signatures, vouches, subnets,
  rules and timing, makes the node block an address by its score, and no stored score exceeds the
  stranger cap. \<open>view\<close> is the content of a database that behaves as BadgerDB documents.
\<close>

theorem strangers_never_block:
  assumes "badger_backend (dp_backend D) view" "New D I k cfg t = Inr (n, s0)" "node_run D n s0 evs s"
    and "0 \<le> StrangerScoreCap (Trust cfg)" "0 \<le> StrangerWeight (Trust cfg)"
    and "\<forall>ip rec x. view (db (st_store s0)) ip = Some (rec, x) \<longrightarrow> stranger_rec (StrangerScoreCap (Trust cfg)) rec"
    and "\<forall>ip. view (db (st_store s0)) ip \<noteq> None \<longrightarrow> bf_test (dp_backend D) (bloom (st_store s0)) ip"
    and "case LoadAnchors (dp_json D) (af_read (ni_trust I)) of Inl _ \<Rightarrow> True | Inr xs \<Rightarrow> xs = []"
    and "\<forall>(w, ev) \<in> set evs. no_anchors D w \<and> (\<forall>e. ev \<noteq> LocalEvent e)"
  shows "(\<forall>ip. Blocked ip \<notin> set (st_out s)) \<and>
    (\<forall>ip now rec. GetRecord (dp_backend D) (st_store s) now ip = Inr rec
      \<longrightarrow> Score rec \<le> StrangerScoreCap (Trust cfg) \<and> Groups rec = [] \<and> Corroboration rec = 0)"
proof -
  note n = New_node [OF assms(2)]
  have ok: "engine_ok (nd_rep n)" by (rule n(6) [OF assms(4)])
  have "anchors (st_trust s0) = Map.empty" "strangerWeight (st_trust s0) = StrangerWeight (Trust cfg)"
    using assms(8)
    by (auto simp: n NewStore_def Trust.maybeReload_def Let_def frame_simps reload_anchors_def
        split: sum.splits prod.split)
  then have start: "strangers_only D view n s0"
    using assms(5,6,7) by (auto simp: strangers_only_def store_inv_def n)
  have "strangers_only D view n s"
  proof (rule node_run_invariant [where I = "strangers_only D view n", OF assms(3) _ start])
    fix w ev
    assume "(w, ev) \<in> set evs"
    with assms(9) show "preserves (strangers_only D view n) (handle D w n ev)"
      by (intro strangers_handle [OF assms(1) ok]) auto
  qed
  then have inv: "store_inv (dp_backend D) view (stranger_rec (StrangerScoreCap (Trust cfg))) (st_store s)"
    and out: "\<forall>ip. Blocked ip \<notin> set (st_out s)" by (simp_all add: strangers_only_def n)
  have "stranger_rec (StrangerScoreCap (Trust cfg)) rec" if "GetRecord (dp_backend D) (st_store s) now ip = Inr rec" for ip now rec
    by (rule badger_backend.store_inv_get [OF assms(1) inv _ that [unfolded GetRecord_def]])
      (simp add: assms(4))
  then show ?thesis using out stranger_recD by blast
qed

theorem strangers_never_block_witness:
  "\<exists>n s0 s. New ex_deps ex_inputs [] Defaults (Some ex_transport) = Inr (n, s0) \<and>
    node_run ex_deps n s0 [(ex_world 5, Startup),
      (ex_world 6, RemoteEvent \<lparr>re_Event = ssh_event\<lparr>ReporterID := ''eve''\<rparr>, From = ''eve'', Subnet = ''''\<rparr>)] s \<and>
    (\<forall>ip. Blocked ip \<notin> set (st_out s))"
proof -
  obtain n s0 where n: "New ex_deps ex_inputs [] Defaults (Some ex_transport) = Inr (n, s0)"
    and s0: "st_store s0 = mem_empty" using ex_node by blast
  let ?ev = "RemoteEvent \<lparr>re_Event = ssh_event\<lparr>ReporterID := ''eve''\<rparr>, From = ''eve'', Subnet = ''''\<rparr>"
  let ?s = "exec (handle ex_deps (ex_world 6) n ?ev) (exec (handle ex_deps (ex_world 5) n Startup) s0)"
  have run: "node_run ex_deps n s0 [(ex_world 5, Startup), (ex_world 6, ?ev)] ?s"
    using node_run.run_event [OF node_run.run_begin, of ?ev] by simp
  have b: "badger_backend (dp_backend ex_deps) map_of"
    by (simp add: ex_deps_def mem.badger_backend_axioms)
  have "\<forall>ip. Blocked ip \<notin> set (st_out ?s)"
    by (rule strangers_never_block [OF b n run, THEN conjunct1])
      (simp_all add: s0 mem_empty_def Defaults_def ex_inputs_def ex_world_def no_files_def no_anchors_def
        LoadAnchors_def load_list_def IsNotExist_def)
  with n run show ?thesis by blast
qed

end
