(* ===== verification/Node_Exchange.thy ===== *)
theory Node_Exchange
  imports Node_Safety
begin

text \<open>
  How the node deals with its peers: which messages it lets in and under whose name they count,
  what votes can undo, that its own observations do not depend on the load, and that re-emission
  between bridges ends.
\<close>

section \<open>Admission\<close>

text \<open>The parts of the state that only an admitted message changes.\<close>

definition same_records :: "('db, 'bf, 'k) node_state \<Rightarrow> ('db, 'bf, 'k) node_state \<Rightarrow> bool" where
  "same_records s s' \<longleftrightarrow>
     st_store s' = st_store s \<and> st_burst s' = st_burst s \<and> st_dedup s' = st_dedup s \<and>
     st_materialised s' = st_materialised s \<and> st_disputed s' = st_disputed s \<and>
     st_sink s' = st_sink s \<and> st_out s' = st_out s"

lemma same_records_refl [simp]: "same_records s s"
  by (simp add: same_records_def)

lemma same_records_calls [preserves_rules]:
  "preserves (same_records s0) (charge w)" "preserves (same_records s0) (shed w)"
  "preserves (same_records s0) (observe f)" "preserves (same_records s0) (is_blocked D w p)"
  "preserves (same_records s0) (resolve D w p)" "preserves (same_records s0) (add_cert D w c)"
  by (simp_all add: preserves_def same_records_def call_defs exec_def Let_def split: prod.split)

text \<open>What the code knows when it has let a message in, \<open>key\<close> being the address it is about.\<close>

definition peer_blocked ::
  "('db, 'bf, 'sk, 'pid, 'pk, 'k) deps \<Rightarrow> world \<Rightarrow> ('db, 'bf, 'k) node_state \<Rightarrow> string \<Rightarrow> bool" where
  "peer_blocked D w s p = fst (IsBlocked (dp_ed D) (dp_json D) (w_trust w) (w_now w) (st_trust s) p)"

definition over_budget :: "world \<Rightarrow> ('db, 'bf, 'k) node_state \<Rightarrow> bool" where
  "over_budget w s = fst (Shed (Charge (st_gov s) (w_now w)) (w_now w))"

definition authentic :: "('db, 'bf, 'sk, 'pid, 'pk, 'k) deps \<Rightarrow> ReceivedEvent \<Rightarrow> bool" where
  "authentic D re \<longleftrightarrow>
     (let e = re_Event re
      in From re \<noteq> '''' \<and>
         (ReporterID e = From re \<or> Signature e \<noteq> [] \<and> OriginTrace e \<noteq> [] \<and> last (OriginTrace e) = From re) \<and>
         (Signature e \<noteq> [] \<longrightarrow> VerifyEventSig (dp_p2p D) e = None))"

definition admissible :: "'sk Node \<Rightarrow> Event \<Rightarrow> string \<Rightarrow> bool" where
  "admissible n e key \<longleftrightarrow>
     NormalizeIP (IP e) (EffectiveIPv6Prefix (Reputation (nd_cfg n))) = Inr key \<and>
     (Kind e = ''vote'' \<or>
       \<not> allow_listed n key \<and> \<not> (nd_selfID n \<noteq> '''' \<and> nd_selfID n \<in> set (OriginTrace e)) \<and>
       length (OriginTrace e) \<le> maxOriginTraceLen)"

definition admitted_body ::
  "('db, 'bf, 'sk, 'pid, 'pk, 'k) deps \<Rightarrow> world \<Rightarrow> 'sk Node \<Rightarrow> ReceivedEvent \<Rightarrow> string
     \<Rightarrow> (('db, 'bf, 'k) node_state, unit) state" where
  "admitted_body D w n re key =
     (let e = re_Event re
      in if Kind e = ''vote'' then processDispute D w n (e\<lparr>IP := key\<rparr>)
         else remote_report D w n re (e\<lparr>IP := key\<rparr>))"

text \<open>What the guards read: the load and the blocked peers as the handler finds them.\<close>

lemma guard_values:
  "fst (run_state (shed w) (exec (charge w) s)) = over_budget w s"
  "fst (run_state (is_blocked D w p) (exec (shed w) (exec (charge w) s))) = peer_blocked D w s p"
  by (simp add: shed_def charge_def over_budget_def Let_def split: prod.split)
    (simp add: shed_def charge_def is_blocked_def peer_blocked_def exec_def Let_def case_prod_beta)

lemma guards_same:
  "same_records s (exec (shed w) (exec (charge w) s))"
  "same_records s (exec (is_blocked D w p) (exec (shed w) (exec (charge w) s)))"
  "same_records s (exec (observe f) (exec (shed w) (exec (charge w) s)))"
proof -
  show s1: "same_records s (exec (shed w) (exec (charge w) s))"
    by (rule preservesD [OF same_records_calls(2) preservesD [OF same_records_calls(1) same_records_refl]])
  show "same_records s (exec (is_blocked D w p) (exec (shed w) (exec (charge w) s)))"
    by (rule preservesD [OF same_records_calls(4) s1])
  show "same_records s (exec (observe f) (exec (shed w) (exec (charge w) s)))"
    by (rule preservesD [OF same_records_calls(3) s1])
qed

lemma authentic_iff:
  "authentic D re \<longleftrightarrow> From re \<noteq> '''' \<and> relayed_ok re \<and>
     \<not> (length (Signature (re_Event re)) > 0 \<and> VerifyEventSig (dp_p2p D) (re_Event re) \<noteq> None)"
  by (auto simp: authentic_def relayed_ok_def Let_def)

lemma ProcessRemote_admits:
  assumes "authentic D re" "\<not> over_budget w s" "\<not> peer_blocked D w s (From re)" "admissible n (re_Event re) key"
  shows "exec (ProcessRemote D w n re) s =
    exec (admitted_body D w n re key) (exec (is_blocked D w (From re)) (exec (shed w) (exec (charge w) s)))"
  using assms
  by (auto simp: ProcessRemote_def admitted_body_def admissible_def allow_listed_def authentic_iff Let_def guard_values)

lemma ProcessRemote_drops:
  assumes "\<not> (authentic D re \<and> \<not> over_budget w s \<and> \<not> peer_blocked D w s (From re) \<and>
    (\<exists>key. admissible n (re_Event re) key))"
  shows "same_records s (exec (ProcessRemote D w n re) s)"
  using assms
  by (auto simp: ProcessRemote_def admissible_def allow_listed_def authentic_iff Let_def guard_values guards_same
      split: sum.split)

text \<open>A message is dropped without a trace in the records, or it passed every guard.\<close>

lemma ProcessRemote_cases:
  obtains (dropped) "same_records s (exec (ProcessRemote D w n re) s)"
  | (admitted) key s1 where "authentic D re" "\<not> over_budget w s" "\<not> peer_blocked D w s (From re)"
      "admissible n (re_Event re) key" "same_records s s1"
      "exec (ProcessRemote D w n re) s = exec (admitted_body D w n re key) s1"
  using ProcessRemote_admits ProcessRemote_drops guards_same(2) by metis

section \<open>Attribution\<close>

text \<open>A predicate on the score store and the trust store, which most of a handler leaves alone.\<close>

definition books :: "(('db, 'bf) BadgerStore \<Rightarrow> TrustStore \<Rightarrow> bool) \<Rightarrow> ('db, 'bf, 'k) node_state \<Rightarrow> bool" where
  "books X s \<longleftrightarrow> X (st_store s) (st_trust s)"

lemma books_calls [preserves_rules]:
  "preserves (books X) (shed w)" "preserves (books X) (observe g)" "preserves (books X) (emit x)"
  "preserves (books X) (seen w e)" "preserves (books X) (get_record D w ip)" "preserves (books X) (burst_add w e)"
  "preserves (books X) (evaluate w e rec)" "preserves (books X) (sink_call f x)"
  "preserves (books (\<lambda>st _. Y st)) (add_cert D w c)" "preserves (books (\<lambda>st _. Y st)) (resolve D w p)"
  by (simp_all add: preserves_def books_def call_defs exec_def Let_def split: prod.split)

lemma books_publish [preserves_rules]: "preserves (books X) (publish w t e subnet)"
  unfolding publish_def by (intro preserves_rules)

lemma books_tail [preserves_rules]:
  "preserves (books X) (act_on D w e rec action rule)" "preserves (books X) (reemitIfBridge w n re)"
  "preserves (books X) (maybeUnblockDisputed D w n ip k)"
proof -
  show "preserves (books X) (act_on D w e rec action rule)"
    unfolding act_on_def sink_defs by (intro preserves_rules)
  show "preserves (books X) (reemitIfBridge w n re)"
    unfolding reemitIfBridge_def by (intro preserves_rules)
  show "preserves (books X) (maybeUnblockDisputed D w n ip k)"
    unfolding maybeUnblockDisputed_def sink_defs by (intro preserves_rules preserves_modify) (simp add: books_def)
qed

text \<open>What an admitted message does to the scores: one report or dispute in its reporter's name.\<close>

definition attributed ::
  "('db, 'bf, 'sk, 'pid, 'pk, 'k) deps \<Rightarrow> world \<Rightarrow> 'sk Node \<Rightarrow> Event \<Rightarrow> ('db, 'bf) BadgerStore
     \<Rightarrow> ('db, 'bf) BadgerStore \<Rightarrow> TrustStore \<Rightarrow> bool" where
  "attributed D w n e b st ts \<longleftrightarrow>
     (case resolve_in ts (w_now w) (ReporterID e) of
        (weight, grp, anchored) \<Rightarrow>
          if Kind e = ''vote''
          then \<exists>r. RecordDispute (dp_backend D) (nd_rep n) b (w_now w) (IP e) (ReporterID e) weight
                 (SubnetID e) anchored = Inr (r, st)
          else \<exists>x. Record (dp_backend D) (nd_rep n) b (w_now w) (IP e) (Reason e) (ReporterID e)
                 (discounted (nd_cfg n) (SubnetID e) anchored weight) grp (SubnetID e) anchored = Inr (x, st))"

lemma resolve_books:
  "triple (books (\<lambda>st _. st = b)) (resolve D w p)
     (\<lambda>r. books (\<lambda>st ts. st = b \<and> resolve_in ts (w_now w) p = r))"
  by (simp add: triple_def books_def resolve_def Resolve_def exec_def Let_def)

lemma record_books:
  assumes "Kind e \<noteq> ''vote''"
  shows "triple (books (\<lambda>st ts. st = b \<and> resolve_in ts (w_now w) (ReporterID e) = (weight, grp, anchored)))
    (record_report D w n (IP e) (Reason e) (ReporterID e) (discounted (nd_cfg n) (SubnetID e) anchored weight) grp
      (SubnetID e) anchored)
    (\<lambda>_. books (\<lambda>st ts. st = b \<or> attributed D w n e b st ts))"
  using assms by (auto simp: triple_def books_def record_report_def attributed_def exec_def split: sum.split)

lemma dispute_books:
  assumes "Kind e = ''vote''"
  shows "triple (books (\<lambda>st ts. st = b \<and> resolve_in ts (w_now w) (ReporterID e) = (weight, grp, anchored)))
    (record_dispute D w n (IP e) (ReporterID e) weight (SubnetID e) anchored)
    (\<lambda>_. books (\<lambda>st ts. st = b \<or> attributed D w n e b st ts))"
  using assms by (auto simp: triple_def books_def record_dispute_def attributed_def exec_def split: sum.split)

lemma triple_prod:
  "(\<And>y z. x = (y, z) \<Longrightarrow> triple P (f y z) Q) \<Longrightarrow> triple P (case x of (y, z) \<Rightarrow> f y z) Q"
  by (cases x) simp

lemma triple_unless: "(\<not> c \<Longrightarrow> triple P m Q) \<Longrightarrow> (\<And>s. c \<Longrightarrow> P s \<Longrightarrow> Q () s) \<Longrightarrow> triple P (unless c m) Q"
  by (cases c) (simp_all add: triple_def)

lemma report_attributed:
  assumes "Kind e \<noteq> ''vote''"
  shows "triple (books (\<lambda>st _. st = b)) (remote_report D w n re e)
    (\<lambda>_. books (\<lambda>st ts. st = b \<or> attributed D w n e b st ts))"
proof -
  have body: "triple (books (\<lambda>st _. st = b)) (do {
         (weight, grp, anchored) \<leftarrow> resolve D w (ReporterID e);
         ok \<leftarrow> record_report D w n (IP e) (Reason e) (ReporterID e)
           (discounted (nd_cfg n) (SubnetID e) anchored weight) grp (SubnetID e) anchored;
         unless (\<not> ok) (do {
           unless (\<not> anchored) (burst_add w e);
           rec \<leftarrow> get_record D w (IP e);
           (action, rule) \<leftarrow> evaluate w e rec;
           act_on D w e rec (downgrade action rec) rule;
           reemitIfBridge w n re
         })
       }) (\<lambda>_. books (\<lambda>st ts. st = b \<or> attributed D w n e b st ts))"
    by (intro triple_bind [OF resolve_books] triple_prod) 
      (hypsubst, rule triple_bind [OF record_books [OF assms]],
       unfold preserves_triple [symmetric], intro preserves_rules)
  show ?thesis
    unfolding remote_report_def
    by (intro triple_bind [where R = "\<lambda>_. books (\<lambda>st _. st = b)"] triple_unless body)
      (auto simp: books_def preserves_triple [symmetric] intro!: preserves_rules)
qed

lemma vote_attributed:
  assumes "Kind e = ''vote''"
  shows "triple (books (\<lambda>st _. st = b)) (processDispute D w n e)
    (\<lambda>_. books (\<lambda>st ts. st = b \<or> attributed D w n e b st ts))"
proof -
  have body: "triple (books (\<lambda>st _. st = b)) (do {
         (weight, _, anchored) \<leftarrow> resolve D w (ReporterID e);
         r \<leftarrow> record_dispute D w n (IP e) (ReporterID e) weight (SubnetID e) anchored;
         (case r of None \<Rightarrow> skip | Some k \<Rightarrow> maybeUnblockDisputed D w n (IP e) k)
       }) (\<lambda>_. books (\<lambda>st ts. st = b \<or> attributed D w n e b st ts))"
    by (intro triple_bind [OF resolve_books] triple_prod) 
      (hypsubst, rule triple_bind [OF dispute_books [OF assms]],
       unfold preserves_triple [symmetric], intro preserves_rules)
  show ?thesis
    unfolding processDispute_def
    by (intro triple_bind [where R = "\<lambda>_. books (\<lambda>st _. st = b)"] triple_unless body)
      (auto simp: books_def preserves_triple [symmetric] intro!: preserves_rules)
qed

text \<open>A duplicate changes no score.\<close>

lemma vouch_frame:
  "st_dedup (exec (case v of None \<Rightarrow> skip | Some c \<Rightarrow> unless (b c) (add_cert D w c)) s) = st_dedup s"
  "st_store (exec (case v of None \<Rightarrow> skip | Some c \<Rightarrow> unless (b c) (add_cert D w c)) s) = st_store s"
  by (auto simp: unless_def add_cert_def split: option.split)

definition duplicate :: "world \<Rightarrow> ('db, 'bf, 'k) node_state \<Rightarrow> Event \<Rightarrow> bool" where
  "duplicate w s e = fst (Seen (st_dedup s) (dedupKey (ReporterID e) (IP e) (Reason e) (Timestamp e)) (w_now w))"

lemma seen_duplicate: "fst (run_state (seen w e) s) = duplicate w s e"
  by (simp add: seen_def duplicate_def Let_def case_prod_beta)

lemma seen_frame: "st_store (exec (seen w e) s) = st_store s"
  by (simp add: seen_def exec_def Let_def case_prod_beta)

lemma duplicate_dropped:
  assumes "duplicate w s ((re_Event re)\<lparr>IP := key\<rparr>)"
  shows "st_store (exec (admitted_body D w n re key) s) = st_store s"
proof (cases "Kind (re_Event re) = ''vote''")
  case True
  with assms show ?thesis
    by (simp add: admitted_body_def Let_def processDispute_def seen_duplicate seen_frame)
next
  case False
  let ?e = "(re_Event re)\<lparr>IP := key\<rparr>"
  have "duplicate w (exec (case Vouch ?e of None \<Rightarrow> skip
      | Some c \<Rightarrow> unless (PeerID c \<noteq> ReporterID ?e) (add_cert D w c)) s) ?e"
    using assms by (simp only: duplicate_def vouch_frame)
  with False show ?thesis
    by (simp add: admitted_body_def Let_def remote_report_def seen_duplicate seen_frame vouch_frame)
qed

section \<open>Votes and local blocks\<close>

text \<open>
  Against the state \<open>s0\<close> a handler starts in: nothing disputed is blocked again, and unless
  \<open>lifts\<close> only blocks the node materialised are lifted.
\<close>

definition dispute_inv ::
  "bool \<Rightarrow> ('db, 'bf, 'k) node_state \<Rightarrow> ('db, 'bf, 'k) node_state \<Rightarrow> bool" where
  "dispute_inv lifts s0 s \<longleftrightarrow>
     (\<exists>es. st_out s = st_out s0 @ es \<and> (\<forall>ip ttl. BlockedFor ip ttl \<in> set es \<longrightarrow> ip \<notin> st_disputed s0) \<and>
        (\<forall>ip. Unblocked ip \<in> set es \<longrightarrow> lifts \<or> ip \<in> st_materialised s0)) \<and>
     st_disputed s0 \<subseteq> st_disputed s \<and> (lifts \<or> st_materialised s \<subseteq> st_materialised s0) \<and>
     st_materialised s \<inter> st_disputed s = {}"

lemma dispute_inv_calls [preserves_rules]:
  "preserves (dispute_inv l s0) (charge w)" "preserves (dispute_inv l s0) (shed w)"
  "preserves (dispute_inv l s0) (rate w)" "preserves (dispute_inv l s0) (observe f)"
  "preserves (dispute_inv l s0) (is_blocked D w p)" "preserves (dispute_inv l s0) (resolve D w p)"
  "preserves (dispute_inv l s0) (add_cert D w c)" "preserves (dispute_inv l s0) (seen w e)"
  "preserves (dispute_inv l s0) (get_record D w ip)" "preserves (dispute_inv l s0) (burst_add w e)"
  "preserves (dispute_inv l s0) (evaluate w e rec)"
  "preserves (dispute_inv l s0) (record_report D w n ip reason rid weight grp subnet anchored)"
  "preserves (dispute_inv l s0) (record_dispute D w n ip rid weight subnet anchored)"
  by (simp_all add: preserves_def dispute_inv_def call_defs exec_def Let_def split: prod.split sum.split)

text \<open>One more effect.\<close>

definition new_ok :: "bool \<Rightarrow> ('db, 'bf, 'k) node_state \<Rightarrow> effect \<Rightarrow> bool" where
  "new_ok l s0 x \<longleftrightarrow>
     (\<forall>ip ttl. x = BlockedFor ip ttl \<longrightarrow> ip \<notin> st_disputed s0) \<and>
     (\<forall>ip. x = Unblocked ip \<longrightarrow> l \<or> ip \<in> st_materialised s0)"

lemma dispute_inv_effect:
  assumes "dispute_inv l s0 s" "new_ok l s0 x" "st_out s' = st_out s @ [x]"
    "st_disputed s' = st_disputed s" "st_materialised s' = st_materialised s"
  shows "dispute_inv l s0 s'"
proof -
  from assms(1) obtain es where "st_out s = st_out s0 @ es"
    "\<forall>ip ttl. BlockedFor ip ttl \<in> set es \<longrightarrow> ip \<notin> st_disputed s0"
    "\<forall>ip. Unblocked ip \<in> set es \<longrightarrow> l \<or> ip \<in> st_materialised s0" by (auto simp: dispute_inv_def)
  with assms show ?thesis
    unfolding dispute_inv_def new_ok_def by (intro conjI exI [of _ "es @ [x]"]) auto
qed

lemma dispute_inv_emit [preserves_rules]: "new_ok l s0 x \<Longrightarrow> preserves (dispute_inv l s0) (emit x)"
  by (rule preservesI) (simp add: emit_def dispute_inv_effect)

lemma dispute_inv_sink [preserves_rules]: "new_ok l s0 x \<Longrightarrow> preserves (dispute_inv l s0) (sink_call f x)"
  by (rule preservesI) (auto simp: sink_call_def exec_def Let_def intro: dispute_inv_effect split: prod.split)

lemma new_ok_plain [simp]: "new_ok l s0 (Blocked ip)" "new_ok l s0 (Published e sn)"
  "new_ok l s0 (Announced ip x r p)" "new_ok True s0 (Unblocked ip)"
  by (simp_all add: new_ok_def)

lemma dispute_inv_publish [preserves_rules]: "preserves (dispute_inv l s0) (publish w t e subnet)"
  unfolding publish_def by (intro preserves_rules) simp_all

lemma dispute_inv_tail [preserves_rules]:
  "preserves (dispute_inv l s0) (act_on D w e rec action rule)" "preserves (dispute_inv l s0) (reemitIfBridge w n re)"
proof -
  show "preserves (dispute_inv l s0) (act_on D w e rec action rule)"
    unfolding act_on_def sink_defs by (intro preserves_rules) simp_all
  show "preserves (dispute_inv l s0) (reemitIfBridge w n re)"
    unfolding reemitIfBridge_def by (intro preserves_rules)
qed

lemma dispute_inv_unblock [preserves_rules]:
  "preserves (dispute_inv l s0) (maybeUnblockDisputed D w n ip k)"
proof (rule preservesI)
  fix s
  assume s: "dispute_inv l s0 s"
  let ?s = "s\<lparr>st_disputed := insert ip (st_disputed s), st_materialised := st_materialised s - {ip}\<rparr>"
  have s': "dispute_inv l s0 ?s" using s by (auto simp: dispute_inv_def)
  have new: "new_ok l s0 (Unblocked ip)" if "ip \<in> st_materialised s"
    using s that by (auto simp: dispute_inv_def new_ok_def)
  have "dispute_inv l s0 (exec (do { done \<leftarrow> sink_unblock D w ip;
      unless (\<not> done) (observe (\<lambda>ob. RecordUnblock (w_db w) ob (w_now w) ip)) }) ?s)" if "ip \<in> st_materialised s"
    using new [OF that] by (intro preservesD [where I = "dispute_inv l s0", OF _ s'] preserves_bind) (auto simp: sink_defs intro!: preserves_rules)
  with s s' show "dispute_inv l s0 (exec (maybeUnblockDisputed D w n ip k) s)"
    by (auto simp: maybeUnblockDisputed_def unless_def)
qed

lemma dispute_inv_remote [preserves_rules]: "preserves (dispute_inv l s0) (ProcessRemote D w n re)"
  unfolding ProcessRemote_def remote_report_def processDispute_def Let_def by (intro preserves_rules)

lemma dispute_inv_materialise [preserves_rules]:
  "preserves (dispute_inv True s0) (materialiseFederated D w n ip rec subnets)"
proof (rule preservesI)
  fix s
  assume s: "dispute_inv True s0 s"
  show "dispute_inv True s0 (exec (materialiseFederated D w n ip rec subnets) s)"
  proof (cases "ip \<in> st_disputed s \<or> \<not> materialise_gate n ip rec subnets")
    case True
    with s show ?thesis by (auto simp: materialiseFederated_def unless_def)
  next
    case False
    let ?ttl = "EffectiveFederationBlockTTL (nd_cfg n)"
    let ?s1 = "exec (sink_block_for D w ip ?ttl) s"
    from s False have "new_ok True s0 (BlockedFor ip ?ttl)" by (auto simp: new_ok_def dispute_inv_def)
    then have s1: "dispute_inv True s0 ?s1"
      by (intro preservesD [where I = "dispute_inv True s0", OF _ s]) (auto simp: sink_defs intro!: preserves_rules)
    have "st_disputed ?s1 = st_disputed s"
      by (simp add: sink_defs sink_call_def exec_def Let_def split: prod.split)
    with s1 False have "dispute_inv True s0 (?s1\<lparr>st_materialised := insert ip (st_materialised ?s1)\<rparr>)"
      by (auto simp: dispute_inv_def)
    from preservesD [OF dispute_inv_calls(4) this] s1 False show ?thesis
      by (simp add: materialiseFederated_def materialise_commit_def unless_def)
  qed
qed

lemma dispute_inv_decay: "preserves (dispute_inv True s0) (decay_one D w n ip)"
  unfolding decay_one_def sink_defs
  by (intro preserves_rules)
    (simp_all add: preserves_def dispute_inv_def exec_def split: sum.split prod.split)

lemma dispute_inv_local: "preserves (dispute_inv l s0) (processLocal D w n e)"
  unfolding processLocal_def local_report_def by (intro preserves_rules)

lemma dispute_inv_handle:
  "preserves (dispute_inv (\<forall>re. ev \<noteq> RemoteEvent re) s0) (handle D w n ev)"
proof (cases ev)
  case Startup
  then show ?thesis
    by (simp add: handle_def run_start_def publishSharedVotes_def) (intro preserves_rules)
next
  case (LocalEvent e)
  then show ?thesis by (simp add: handle_def dispute_inv_local)
next
  case (RemoteEvent re)
  then show ?thesis by (simp add: handle_def handle_remote_def) (intro preserves_rules)
next
  case DecayTick
  then show ?thesis by (simp add: handle_def preserves_runDecay dispute_inv_decay)
next
  case (GaugeTick p)
  then show ?thesis by (simp add: handle_def gauge_tick_def) (intro preserves_rules)
next
  case (Lookup ip)
  have "preserves (dispute_inv True s0) (resolver_shed w)"
    unfolding resolver_shed_def by (intro preserves_rules)
  then have "preserves (dispute_inv True s0) (point_lookup D w n ip)"
    by (rule preserves_lookup) (simp_all add: dispute_inv_materialise dispute_inv_def)
  with Lookup show ?thesis by (simp add: handle_def) (intro preserves_rules)
qed

lemma dispute_inv_start: "st_materialised s \<inter> st_disputed s = {} \<Longrightarrow> dispute_inv l s s"
  and dispute_inv_disjoint: "dispute_inv l s0 s \<Longrightarrow> st_materialised s \<inter> st_disputed s = {}"
  by (simp_all add: dispute_inv_def)

lemma run_disjoint:
  assumes "node_run D n s0 evs s" "st_materialised s0 \<inter> st_disputed s0 = {}"
  shows "st_materialised s \<inter> st_disputed s = {}"
proof (rule node_run_invariant [where I = "\<lambda>s. st_materialised s \<inter> st_disputed s = {}", OF assms(1) _ assms(2)])
  fix w ev
  show "preserves (\<lambda>s. st_materialised s \<inter> st_disputed s = {}) (handle D w n ev)"
    by (rule preservesI, rule dispute_inv_disjoint, rule preservesD [OF dispute_inv_handle dispute_inv_start])
qed

section \<open>Local processing and the governor\<close>

abbreviation set_gov :: "Governor \<Rightarrow> ('db, 'bf, 'k) node_state \<Rightarrow> ('db, 'bf, 'k) node_state" where
  "set_gov g \<equiv> (\<lambda>s. s\<lparr>st_gov := g\<rparr>)"

lemma ignores_gov [ignores_rules]:
  "ignores (set_gov g) (observe f)" "ignores (set_gov g) (emit x)" "ignores (set_gov g) (seen w e)"
  "ignores (set_gov g) (get_record D w ip)" "ignores (set_gov g) (burst_add w e)"
  "ignores (set_gov g) (evaluate w e rec)" "ignores (set_gov g) (sink_call h x)"
  "ignores (set_gov g) (record_report D w n ip reason rid weight grp subnet anchored)"
  by (simp_all add: ignores_def call_defs exec_def Let_def split: prod.split sum.split)

lemma ignores_gov_publish [ignores_rules]: "ignores (set_gov g) (publish w t e subnet)"
  unfolding publish_def by (intro ignores_rules)

lemma local_report_ignores: "ignores (set_gov g) (local_report D w n e)"
  unfolding local_report_def act_on_def sink_defs by (intro ignores_rules)

section \<open>Re-emission\<close>

text \<open>The messages a handler sends are the \<open>Published\<close> effects it adds.\<close>

definition sent_ok :: "('db, 'bf, 'k) node_state \<Rightarrow> (Event \<Rightarrow> string \<Rightarrow> bool) \<Rightarrow> ('db, 'bf, 'k) node_state \<Rightarrow> bool" where
  "sent_ok s0 Q s \<longleftrightarrow>
     (\<exists>es. st_out s = st_out s0 @ es \<and> (\<forall>e sn. Published e sn \<in> set es \<longrightarrow> Q e sn))"

lemma sent_ok_calls [preserves_rules]:
  "preserves (sent_ok s0 Q) (charge w)" "preserves (sent_ok s0 Q) (shed w)"
  "preserves (sent_ok s0 Q) (observe f)" "preserves (sent_ok s0 Q) (is_blocked D w p)"
  "preserves (sent_ok s0 Q) (resolve D w p)" "preserves (sent_ok s0 Q) (add_cert D w c)"
  "preserves (sent_ok s0 Q) (seen w e)" "preserves (sent_ok s0 Q) (get_record D w ip)"
  "preserves (sent_ok s0 Q) (burst_add w e)" "preserves (sent_ok s0 Q) (evaluate w e rec)"
  "preserves (sent_ok s0 Q) (record_report D w n ip reason rid weight grp subnet anchored)"
  "preserves (sent_ok s0 Q) (record_dispute D w n ip rid weight subnet anchored)"
  by (simp_all add: preserves_def sent_ok_def call_defs exec_def Let_def split: prod.split sum.split)

lemma sent_ok_effect:
  assumes "sent_ok s0 Q s" "\<And>e sn. x = Published e sn \<Longrightarrow> Q e sn" "st_out s' = st_out s @ [x]"
  shows "sent_ok s0 Q s'"
proof -
  from assms(1) obtain es where "st_out s = st_out s0 @ es" "\<forall>e sn. Published e sn \<in> set es \<longrightarrow> Q e sn"
    by (auto simp: sent_ok_def)
  with assms(2,3) show ?thesis unfolding sent_ok_def by (intro exI [of _ "es @ [x]"]) auto
qed

lemma sent_ok_emit [preserves_rules]:
  "(\<And>e sn. x = Published e sn \<Longrightarrow> Q e sn) \<Longrightarrow> preserves (sent_ok s0 Q) (emit x)"
  "(\<And>e sn. x = Published e sn \<Longrightarrow> Q e sn) \<Longrightarrow> preserves (sent_ok s0 Q) (sink_call f x)"
proof -
  assume x: "\<And>e sn. x = Published e sn \<Longrightarrow> Q e sn"
  show "preserves (sent_ok s0 Q) (emit x)"
    by (rule preservesI, rule sent_ok_effect [OF _ x]) (simp_all add: emit_def)
  show "preserves (sent_ok s0 Q) (sink_call f x)"
    by (rule preservesI, rule sent_ok_effect [OF _ x])
      (simp_all add: sink_call_def exec_def Let_def split: prod.split)
qed

lemma sent_ok_publish [preserves_rules]:
  "Q e subnet \<Longrightarrow> preserves (sent_ok s0 Q) (publish w t e subnet)"
  unfolding publish_def by (intro preserves_rules) auto

text \<open>A message a bridge may re-emit, and what it sends.\<close>

definition relay_ok :: "'sk Node \<Rightarrow> ReceivedEvent \<Rightarrow> Event \<Rightarrow> string \<Rightarrow> bool" where
  "relay_ok n re e sn \<longleftrightarrow>
     e = reemitted n (re_Event re) \<and> sn \<noteq> Subnet re \<and> nd_selfID n \<noteq> '''' \<and>
     nd_selfID n \<notin> set (OriginTrace (re_Event re)) \<and> length (OriginTrace (re_Event re)) < maxOriginTraceLen \<and>
     EffectiveBridgeSubnets (nd_cfg n) \<noteq> [] \<and>
     (\<exists>t. nd_transport n = Some t \<and> sn \<in> set (Subnets t))"

lemma reemit_sent: "preserves (sent_ok s0 (relay_ok n re)) (reemitIfBridge w n re)"
  unfolding reemitIfBridge_def by (intro preserves_rules) (auto simp: relay_ok_def)

lemma remote_sent: "preserves (sent_ok s0 (relay_ok n re)) (ProcessRemote D w n re)"
  unfolding ProcessRemote_def remote_report_def processDispute_def maybeUnblockDisputed_def act_on_def Let_def sink_defs
  by (intro reemit_sent preserves_rules preserves_modify) (simp_all add: sent_ok_def)

text \<open>
  A path of re-emissions: every node on it received the message its predecessor sent, whatever
  the nodes' states, subnets and clocks, and sent it on.
\<close>

inductive relay_path ::
  "('db, 'bf, 'sk, 'pid, 'pk, 'k) deps \<Rightarrow> ReceivedEvent \<Rightarrow> 'sk Node list \<Rightarrow> bool"
  for D :: "('db, 'bf, 'sk, 'pid, 'pk, 'k) deps" where
  path_end: "relay_path D re []"
| path_hop: "st_out (exec (ProcessRemote D w n re) s) = st_out s @ es \<Longrightarrow>
     Published (re_Event re') (Subnet re') \<in> set es \<Longrightarrow> relay_path D re' ns \<Longrightarrow> relay_path D re (n # ns)"

inductive_cases relay_path_hopE: "relay_path D re (n # ns)"

lemma relay_hop:
  assumes "st_out (exec (ProcessRemote D w n re) s) = st_out s @ es" "Published e sn \<in> set es"
  shows "relay_ok n re e sn"
  using preservesD [OF remote_sent, of s n re s D w] assms by (auto simp: sent_ok_def)

lemma relay_path_bound:
  "relay_path D re ns \<Longrightarrow> length (OriginTrace (re_Event re)) \<le> maxOriginTraceLen \<Longrightarrow>
     length ns + length (OriginTrace (re_Event re)) \<le> maxOriginTraceLen \<and> distinct (map nd_selfID ns) \<and>
     nd_selfID ` set ns \<inter> set (OriginTrace (re_Event re)) = {}"
proof (induction rule: relay_path.induct)
  case (path_hop w n re s es re' ns)
  from relay_hop [OF path_hop.hyps(1,2)]
  have t: "OriginTrace (re_Event re') = OriginTrace (re_Event re) @ [nd_selfID n]"
    "nd_selfID n \<notin> set (OriginTrace (re_Event re))" "length (OriginTrace (re_Event re)) < maxOriginTraceLen"
    by (simp_all add: relay_ok_def reemitted_def)
  with path_hop.IH have "length ns + length (OriginTrace (re_Event re)) < maxOriginTraceLen"
    "distinct (map nd_selfID ns)" "nd_selfID ` set ns \<inter> insert (nd_selfID n) (set (OriginTrace (re_Event re))) = {}"
    by auto
  with t(2) show ?case by auto
qed simp

section \<open>Votes\<close>

text \<open>\<open>Seen\<close> on a key the cache does not hold.\<close>

lemma fresh_not_duplicate:
  "map_of (dd_seen (st_dedup s)) (dedupKey (ReporterID e) (IP e) (Reason e) (Timestamp e)) = None
     \<Longrightarrow> \<not> duplicate w s e"
  by (simp add: duplicate_def Seen_def Let_def)

lemma vote_verifies: "Kind e = ''vote'' \<Longrightarrow> VerifyEventSig P (e\<lparr>Reason := r\<rparr>) = VerifyEventSig P e"
  by (rule VerifyEventSig_cong) (simp_all add: signedMessage_def voteMessage_def)

lemma dispute_counts:
  assumes "Kind e = ''vote''"
    and "\<And>weight anchored. \<exists>y. RecordDispute (dp_backend D) (nd_rep n) b (w_now w) (IP e) (ReporterID e) weight
      (SubnetID e) anchored = Inr y"
  shows "triple (books (\<lambda>st ts. st = b \<and> resolve_in ts (w_now w) (ReporterID e) = (weight, grp, anchored)))
    (record_dispute D w n (IP e) (ReporterID e) weight (SubnetID e) anchored)
    (\<lambda>_. books (\<lambda>st ts. attributed D w n e b st ts))"
proof -
  obtain x k st where "RecordDispute (dp_backend D) (nd_rep n) b (w_now w) (IP e) (ReporterID e) weight
      (SubnetID e) anchored = Inr ((x, k), st)" using assms(2) [of weight anchored] by (metis prod.collapse)
  with assms(1) show ?thesis
    by (auto simp: triple_def books_def record_dispute_def attributed_def exec_def)
qed

lemma vote_counts:
  assumes "Kind e = ''vote''" "\<not> duplicate w s e"
    and "\<And>weight anchored. \<exists>y. RecordDispute (dp_backend D) (nd_rep n) (st_store s) (w_now w) (IP e) (ReporterID e)
      weight (SubnetID e) anchored = Inr y"
  shows "attributed D w n e (st_store s) (st_store (exec (processDispute D w n e) s))
    (st_trust (exec (processDispute D w n e) s))"
proof -
  let ?b = "st_store s"
  let ?I = "books (\<lambda>st _. st = ?b)"
  have body: "triple ?I (do {
         (weight, _, anchored) \<leftarrow> resolve D w (ReporterID e);
         r \<leftarrow> record_dispute D w n (IP e) (ReporterID e) weight (SubnetID e) anchored;
         (case r of None \<Rightarrow> skip | Some k \<Rightarrow> maybeUnblockDisputed D w n (IP e) k)
       }) (\<lambda>_. books (attributed D w n e ?b))"
    by (intro triple_bind [OF resolve_books] triple_prod)
      (hypsubst, rule triple_bind [OF dispute_counts [OF assms(1,3)]],
       unfold preserves_triple [symmetric], intro preserves_rules)
  have "triple ?I (case Vouch e of None \<Rightarrow> skip | Some c \<Rightarrow> unless (PeerID c \<noteq> ReporterID e) (add_cert D w c))
      (\<lambda>_. ?I)"
    unfolding preserves_triple [symmetric] by (intro preserves_rules)
  note all = triple_bind [OF this body]
  have "?I (exec (seen w e) s)" by (simp add: books_def seen_frame)
  from tripleD [OF all this] assms(2)
  have "books (attributed D w n e ?b) (exec (processDispute D w n e) s)"
    by (simp add: processDispute_def seen_duplicate)
  then show ?thesis by (simp add: books_def)
qed

text \<open>The same of a report.\<close>

lemma record_counts:
  assumes "Kind e \<noteq> ''vote''"
    and "\<And>weight grp anchored. \<exists>y. Record (dp_backend D) (nd_rep n) b (w_now w) (IP e) (Reason e) (ReporterID e)
      weight grp (SubnetID e) anchored = Inr y"
  shows "triple (books (\<lambda>st ts. st = b \<and> resolve_in ts (w_now w) (ReporterID e) = (weight, grp, anchored)))
    (record_report D w n (IP e) (Reason e) (ReporterID e) (discounted (nd_cfg n) (SubnetID e) anchored weight) grp
      (SubnetID e) anchored)
    (\<lambda>_. books (\<lambda>st ts. attributed D w n e b st ts))"
proof -
  obtain x st where "Record (dp_backend D) (nd_rep n) b (w_now w) (IP e) (Reason e) (ReporterID e)
      (discounted (nd_cfg n) (SubnetID e) anchored weight) grp (SubnetID e) anchored = Inr (x, st)"
    using assms(2) by (metis prod.collapse)
  with assms(1) show ?thesis
    by (auto simp: triple_def books_def record_report_def attributed_def exec_def)
qed

lemma report_counts:
  assumes "Kind e \<noteq> ''vote''" "\<not> duplicate w s e"
    and "\<And>weight grp anchored. \<exists>y. Record (dp_backend D) (nd_rep n) (st_store s) (w_now w) (IP e) (Reason e)
      (ReporterID e) weight grp (SubnetID e) anchored = Inr y"
  shows "attributed D w n e (st_store s) (st_store (exec (remote_report D w n re e) s))
    (st_trust (exec (remote_report D w n re e) s))"
proof -
  let ?b = "st_store s"
  have body: "triple (books (\<lambda>st _. st = ?b)) (do {
         (weight, grp, anchored) \<leftarrow> resolve D w (ReporterID e);
         ok \<leftarrow> record_report D w n (IP e) (Reason e) (ReporterID e)
           (discounted (nd_cfg n) (SubnetID e) anchored weight) grp (SubnetID e) anchored;
         unless (\<not> ok) (do {
           unless (\<not> anchored) (burst_add w e);
           rec \<leftarrow> get_record D w (IP e);
           (action, rule) \<leftarrow> evaluate w e rec;
           act_on D w e rec (downgrade action rec) rule;
           reemitIfBridge w n re
         })
       }) (\<lambda>_. books (attributed D w n e ?b))"
    by (intro triple_bind [OF resolve_books] triple_prod)
      (hypsubst, rule triple_bind [OF record_counts [OF assms(1,3)]],
       unfold preserves_triple [symmetric], intro preserves_rules)
  let ?v = "case Vouch e of None \<Rightarrow> skip | Some c \<Rightarrow> unless (PeerID c \<noteq> ReporterID e) (add_cert D w c)"
  have "\<not> duplicate w (exec ?v s) e" using assms(2) by (simp only: duplicate_def vouch_frame not_False_eq_True)
  moreover have "books (\<lambda>st _. st = ?b) (exec (seen w e) (exec ?v s))" by (simp only: books_def seen_frame vouch_frame)
  ultimately have "books (attributed D w n e ?b) (exec (remote_report D w n re e) s)"
    using tripleD [OF body] by (simp add: remote_report_def seen_duplicate)
  then show ?thesis by (simp add: books_def)
qed

section \<open>An example bridge\<close>

definition ex_bridge :: "string Node" where
  "ex_bridge = \<lparr>nd_cfg = Defaults\<lparr>FederationBridgeSubnets := [''blue'']\<rparr>, nd_transport = Some ex_transport,
     nd_rep = example_engine, nd_neverblock = \<lparr>prefixes = []\<rparr>, nd_whitelist = \<lparr>wl_path = '''', wl_entries = []\<rparr>,
     nd_selfID = ''12D3me'', nd_vouch = None, nd_identityKey = Some ''me''\<rparr>"

definition ex_state :: "(mem_db, string list, string list) node_state" where
  "ex_state = \<lparr>st_store = mem_empty, st_trust = ana_store, st_rules = example_rules [],
     st_burst = NewBurstStore, st_obs = None, st_dedup = newDedupCache 100 minute, st_gov = NewGovernor 0,
     st_querier = None, st_materialised = {}, st_disputed = {}, st_sink = [], st_out = []\<rparr>"

definition eve_message :: "string \<Rightarrow> ReceivedEvent" where
  "eve_message kind = \<lparr>re_Event = ssh_event\<lparr>IP := ''10.0.0.0'', ReporterID := ''eve'', Kind := kind\<rparr>,
     From = ''eve'', Subnet = ''''\<rparr>"

abbreviation eve_report :: ReceivedEvent where
  "eve_report \<equiv> eve_message ''''"

lemma ex_prefix: "EffectiveIPv6Prefix (Reputation Defaults) = 64"
  by (simp add: EffectiveIPv6Prefix_def Defaults_def)

text \<open>The governor of the example is off.\<close>

lemma gov_off: "maxPerSec g \<le> 0 \<Longrightarrow> Shed g t = (False, g)" "maxPerSec g \<le> 0 \<Longrightarrow> Charge g t = g"
  by (simp_all add: Shed_def Charge_def)

lemma ex_guards:
  "authentic ex_deps (eve_message kind)" "\<not> over_budget (ex_world 30) ex_state"
  "\<not> peer_blocked ex_deps (ex_world 30) ex_state p" "admissible ex_bridge (re_Event (eve_message kind)) ''10.0.0.0''"
proof -
  show "authentic ex_deps (eve_message kind)"
    by (simp add: authentic_def eve_message_def ssh_event_def zero_Event_def Let_def)
  show "\<not> over_budget (ex_world 30) ex_state"
    by (simp add: over_budget_def ex_state_def NewGovernor_def gov_off)
  have "Trust.maybeReload plain_ed25519 plain_json no_files 30 ana_store = ana_store"
    by (rule no_reload_at_30) (simp_all add: ana_store_fields)
  then show "\<not> peer_blocked ex_deps (ex_world 30) ex_state p"
    by (simp add: peer_blocked_def IsBlocked_def ex_deps_def ex_world_def ex_state_def Let_def ana_store_blocked)
  show "admissible ex_bridge (re_Event (eve_message kind)) ''10.0.0.0''"
    by (simp add: admissible_def ex_bridge_def eve_message_def ssh_event_def zero_Event_def ex_prefix private_example
        allow_listed_def nbl_Contains_def wl_Contains_def)
qed

text \<open>An admitted report of a bridge whose governor is off ends in its re-emission.\<close>

definition idle :: "('db, 'bf, 'k) node_state \<Rightarrow> ('db, 'bf, 'k) node_state \<Rightarrow> bool" where
  "idle s0 s \<longleftrightarrow> maxPerSec (st_gov s) \<le> 0 \<and> (\<exists>es. st_out s = st_out s0 @ es)"

lemma idle_calls [preserves_rules]:
  "preserves (idle s0) (observe g)" "preserves (idle s0) (emit x)" "preserves (idle s0) (seen w e)"
  "preserves (idle s0) (get_record D w ip)" "preserves (idle s0) (burst_add w e)"
  "preserves (idle s0) (evaluate w e rec)" "preserves (idle s0) (sink_call f x)"
  "preserves (idle s0) (add_cert D w c)" "preserves (idle s0) (resolve D w p)"
  "preserves (idle s0) (is_blocked D w p)"
  by (auto simp: preserves_def idle_def call_defs exec_def Let_def split: prod.split)

lemma idle_publish [preserves_rules]: "preserves (idle s0) (publish w t e subnet)"
  unfolding publish_def by (intro preserves_rules)

lemma idle_act [preserves_rules]: "preserves (idle s0) (act_on D w e rec action rule)"
  unfolding act_on_def sink_defs by (intro preserves_rules)

lemma idle_record:
  "triple (idle s0) (record_report ex_deps w n ip reason rid weight grp subnet anchored) (\<lambda>done s. idle s0 s \<and> done)"
proof (rule tripleI)
  fix s
  assume s: "idle s0 s"
  obtain x st where "Record mem_backend (nd_rep n) (st_store s) (w_now w) ip reason rid weight grp subnet anchored
      = Inr (x, st)" using mem_Record by blast
  with s show "idle s0 (exec (record_report ex_deps w n ip reason rid weight grp subnet anchored) s) \<and>
      fst (run_state (record_report ex_deps w n ip reason rid weight grp subnet anchored) s)"
    by (simp add: record_report_def ex_deps_def exec_def idle_def)
qed

definition has_sent :: "('db, 'bf, 'k) node_state \<Rightarrow> Event \<Rightarrow> string \<Rightarrow> ('db, 'bf, 'k) node_state \<Rightarrow> bool" where
  "has_sent s0 e sn s \<longleftrightarrow> (\<exists>es. st_out s = st_out s0 @ es \<and> Published e sn \<in> set es)"

lemma ex_reemits:
  assumes "idle s0 s"
  shows "has_sent s0 (reemitted ex_bridge (re_Event eve_report)) ''blue'' (exec (reemitIfBridge (ex_world 30) ex_bridge eve_report) s)"
proof -
  from assms obtain es where "st_out s = st_out s0 @ es" "maxPerSec (st_gov s) \<le> 0" by (auto simp: idle_def)
  then show ?thesis
    by (simp add: has_sent_def reemitIfBridge_def shed_def gov_off exec_def ex_bridge_def ex_transport_def eve_message_def
        ssh_event_def zero_Event_def EffectiveBridgeSubnets_def canon_def Defaults_def maxOriginTraceLen_def
        Subnets_def publish_def Publish_def Transport.canonicalSubnet_def ex_world_def emit_def unless_def)
qed

lemma ex_report_reemits:
  assumes "idle s0 s" "dd_seen (st_dedup s) = []"
  shows "has_sent s0 (reemitted ex_bridge (re_Event eve_report)) ''blue''
    (exec (admitted_body ex_deps (ex_world 30) ex_bridge eve_report ''10.0.0.0'') s)"
proof -
  let ?e = "(re_Event eve_report)\<lparr>IP := ''10.0.0.0''\<rparr>" and ?w = "ex_world 30"
  let ?Q = "has_sent s0 (reemitted ex_bridge (re_Event eve_report)) ''blue''"
  have v: "Vouch ?e = None" "Kind (re_Event eve_report) \<noteq> ''vote''"
    by (simp_all add: eve_message_def ssh_event_def zero_Event_def)
  have reemits: "triple (idle s0) (reemitIfBridge ?w ex_bridge eve_report) (\<lambda>_. ?Q)"
    by (rule tripleI) (rule ex_reemits)
  have tail: "triple (idle s0) (do {
           unless (\<not> anchored) (burst_add ?w ?e);
           rec \<leftarrow> get_record ex_deps ?w (IP ?e);
           (action, rule) \<leftarrow> evaluate ?w ?e rec;
           act_on ex_deps ?w ?e rec (downgrade action rec) rule;
           reemitIfBridge ?w ex_bridge eve_report
         }) (\<lambda>_. ?Q)" for anchored
    by (intro triple_bind [where R = "\<lambda>_. idle s0"] triple_prod reemits)
      (simp_all only: preserves_triple [symmetric], (intro preserves_rules)+)
  have rest: "triple (\<lambda>s. idle s0 s \<and> ok) (unless (\<not> ok) (do {
           unless (\<not> anchored) (burst_add ?w ?e);
           rec \<leftarrow> get_record ex_deps ?w (IP ?e);
           (action, rule) \<leftarrow> evaluate ?w ?e rec;
           act_on ex_deps ?w ?e rec (downgrade action rec) rule;
           reemitIfBridge ?w ex_bridge eve_report
         })) (\<lambda>_. ?Q)" for ok anchored
    by (rule triple_unless, rule triple_pre [OF tail]) simp_all
  have body: "triple (idle s0) (do {
         (weight, grp, anchored) \<leftarrow> resolve ex_deps ?w (ReporterID ?e);
         ok \<leftarrow> record_report ex_deps ?w ex_bridge (IP ?e) (Reason ?e) (ReporterID ?e)
           (discounted (nd_cfg ex_bridge) (SubnetID ?e) anchored weight) grp (SubnetID ?e) anchored;
         unless (\<not> ok) (do {
           unless (\<not> anchored) (burst_add ?w ?e);
           rec \<leftarrow> get_record ex_deps ?w (IP ?e);
           (action, rule) \<leftarrow> evaluate ?w ?e rec;
           act_on ex_deps ?w ?e rec (downgrade action rec) rule;
           reemitIfBridge ?w ex_bridge eve_report
         })
       }) (\<lambda>_. ?Q)"
  proof (rule triple_bind)
    show "triple (idle s0) (resolve ex_deps ?w (ReporterID ?e)) (\<lambda>_. idle s0)"
      unfolding preserves_triple [symmetric] by (intro preserves_rules)
  qed (intro triple_prod triple_bind [OF idle_record] rest)
  have "\<not> duplicate ?w s ?e" by (rule fresh_not_duplicate) (simp add: assms(2))
  moreover have "idle s0 (exec (seen ?w ?e) s)" by (rule preservesD [OF idle_calls(3) assms(1)])
  ultimately show ?thesis
    using tripleD [OF body] v
    by (simp add: admitted_body_def Let_def remote_report_def seen_duplicate del: exec_simps(1))
       (simp add: seen_duplicate exec_simps(1))
qed

section \<open>Properties\<close>

text \<open>
  C4. A message from the swarm changes a score only when it is authentic (its publisher is its
  reporter, or it is signed by its reporter and its publisher is the last hop of its trace, and
  any signature verifies), its publisher is not blocked, the node is not over its budget, its
  address is valid and for a report not allow-listed, the trace of a report is short and free of
  this node, and it is no duplicate; and then it counts once, in its reporter's name, with the
  weight, group and anchoring the trust store gives that reporter.
\<close>

theorem remote_scores_authenticated:
  assumes "st_store (exec (ProcessRemote D w n re) s) \<noteq> st_store s"
  shows "authentic D re \<and> \<not> over_budget w s \<and> \<not> peer_blocked D w s (From re) \<and>
    (\<exists>key. admissible n (re_Event re) key \<and> \<not> duplicate w s ((re_Event re)\<lparr>IP := key\<rparr>) \<and>
      attributed D w n ((re_Event re)\<lparr>IP := key\<rparr>) (st_store s) (st_store (exec (ProcessRemote D w n re) s))
        (st_trust (exec (ProcessRemote D w n re) s)))"
proof (cases rule: ProcessRemote_cases [of s D w n re])
  case dropped
  with assms show ?thesis by (simp add: same_records_def)
next
  case (admitted key s1)
  let ?e = "(re_Event re)\<lparr>IP := key\<rparr>" and ?s = "exec (admitted_body D w n re key) s1"
  have s1: "st_store s1 = st_store s" "st_dedup s1 = st_dedup s" using admitted(5) by (simp_all add: same_records_def)
  have dup: "\<not> duplicate w s ?e"
    using duplicate_dropped [where w = w and s = s1 and re = re and key = key and D = D and n = n] assms admitted(6) s1 by (auto simp: duplicate_def)
  have "books (\<lambda>st ts. st = st_store s \<or> attributed D w n ?e (st_store s) st ts) ?s"
  proof (cases "Kind (re_Event re) = ''vote''")
    case True
    with tripleD [OF vote_attributed, of ?e "st_store s" s1 D w n] s1(1) show ?thesis
      by (simp add: admitted_body_def Let_def books_def)
  next
    case False
    with tripleD [OF report_attributed, of ?e "st_store s" s1 D w n re] s1(1) show ?thesis
      by (simp add: admitted_body_def Let_def books_def)
  qed
  with assms admitted dup show ?thesis by (auto simp: books_def)
qed

lemma ex_entry:
  "idle ex_state (exec (is_blocked ex_deps w p) (exec (shed w) (exec (charge w) ex_state)))"
  "st_dedup (exec (is_blocked ex_deps w p) (exec (shed w) (exec (charge w) ex_state))) = newDedupCache 100 minute"
  using guards_same(2) [of ex_state ex_deps w p]
  by (simp_all add: idle_def same_records_def is_blocked_def shed_def charge_def exec_def gov_off ex_state_def
      NewGovernor_def Let_def case_prod_beta)

theorem remote_scores_authenticated_witness:
  "st_store (exec (ProcessRemote ex_deps (ex_world 30) ex_bridge (eve_message ''vote'')) ex_state) \<noteq> st_store ex_state \<and>
    \<not> duplicate (ex_world 30) ex_state (re_Event (eve_message ''vote''))"
proof -
  let ?w = "ex_world 30" and ?re = "eve_message ''vote''"
  let ?e = "(re_Event ?re)\<lparr>IP := ''10.0.0.0''\<rparr>"
  let ?s1 = "exec (is_blocked ex_deps ?w (From ?re)) (exec (shed ?w) (exec (charge ?w) ex_state))"
  have k: "Kind ?e = ''vote''" "?e = re_Event ?re" by (simp_all add: eve_message_def)
  have s1: "st_store ?s1 = mem_empty" using guards_same(2) [of ex_state ex_deps ?w "From ?re"]
    by (simp add: same_records_def ex_state_def)
  have fresh: "\<not> duplicate ?w s ?e" if "st_dedup s = newDedupCache 100 minute" for s :: "(mem_db, string list, string list) node_state"
    by (rule fresh_not_duplicate) (simp add: that newDedupCache_def)
  have up: "\<exists>y. RecordDispute mem_backend (nd_rep ex_bridge) mem_empty now ip rid weight sn anchored = Inr y
      \<and> snd y \<noteq> mem_empty" for now ip rid weight sn anchored
    by (simp add: RecordDispute_def mem_empty_def GetScore_def MightContain_def PutScore_def
        mem_backend_def bloom_Add_def Let_def)
  have L: "dp_backend ex_deps = mem_backend" by (simp add: ex_deps_def)
  have up': "\<exists>y. RecordDispute (dp_backend ex_deps) (nd_rep ex_bridge) (st_store ?s1) (w_now ?w) (IP ?e)
      (ReporterID ?e) weight (SubnetID ?e) anchored = Inr y" for weight anchored
    unfolding s1 L using up by blast
  have "attributed ex_deps ?w ex_bridge ?e mem_empty (st_store (exec (processDispute ex_deps ?w ex_bridge ?e) ?s1))
      (st_trust (exec (processDispute ex_deps ?w ex_bridge ?e) ?s1))"
    by (rule vote_counts [OF k(1) fresh [OF ex_entry(2)] up', unfolded s1])
  then obtain weight anchored y where "RecordDispute mem_backend (nd_rep ex_bridge) mem_empty (w_now ?w) (IP ?e)
      (ReporterID ?e) weight (SubnetID ?e) anchored = Inr (y, st_store (exec (processDispute ex_deps ?w ex_bridge ?e) ?s1))"
    unfolding attributed_def L using k(1) by (auto split: prod.splits)
  with up [of "w_now ?w" "IP ?e" "ReporterID ?e" weight "SubnetID ?e" anchored]
  have "st_store (exec (processDispute ex_deps ?w ex_bridge ?e) ?s1) \<noteq> mem_empty" by auto
  then have "st_store (exec (ProcessRemote ex_deps ?w ex_bridge ?re) ex_state) \<noteq> st_store ex_state"
    unfolding ProcessRemote_admits [OF ex_guards] using k by (simp add: admitted_body_def Let_def ex_state_def)
  from remote_scores_authenticated [OF this] this show ?thesis using fresh [of ex_state] k(2) by (simp add: ex_state_def)
qed



text \<open>
  C10. Local protection is never shed: the load meter influences nothing a node does with its own
  observations. Whatever the governor's state, the same records, blocks and messages result; the
  event is only charged.
\<close>

theorem local_processing_never_shed:
  "exec (processLocal D w n e) (s\<lparr>st_gov := g\<rparr>) =
     (exec (processLocal D w n e) (s\<lparr>st_gov := g0\<rparr>))\<lparr>st_gov := Charge g (w_now w)\<rparr>"
proof (cases "\<exists>key. NormalizeIP (IP e) (EffectiveIPv6Prefix (Reputation (nd_cfg n))) = Inr key \<and> \<not> allow_listed n key")
  case True
  then obtain key where key: "NormalizeIP (IP e) (EffectiveIPv6Prefix (Reputation (nd_cfg n))) = Inr key"
    "\<not> allow_listed n key" by blast
  have run: "exec (processLocal D w n e) s' =
      exec (local_report D w n (stamp_local D n (e\<lparr>IP := key\<rparr>))) (exec (charge w) s')" for s'
    using key by (simp add: processLocal_def allow_listed_def)
  note ig = ignores_exec [OF local_report_ignores [of _ D w n "stamp_local D n (e\<lparr>IP := key\<rparr>)"], of _ s]
  show ?thesis unfolding run by (simp add: charge_def ig)
next
  case False
  then show ?thesis
    by (cases "NormalizeIP (IP e) (EffectiveIPv6Prefix (Reputation (nd_cfg n)))")
      (auto simp: processLocal_def allow_listed_def charge_def)
qed

text \<open>
  C11. Re-emission ends: a message travels over at most eight hops in all, whatever the topology of
  bridges and the states of the nodes; no node re-emits it twice on one path, none that its trace
  already names re-emits it, and it never goes back to the subnet it came from.
\<close>

theorem reemission_terminates:
  assumes "relay_path D re ns" "length (OriginTrace (re_Event re)) \<le> maxOriginTraceLen"
  shows "length ns \<le> maxOriginTraceLen - length (OriginTrace (re_Event re)) \<and> distinct (map nd_selfID ns) \<and>
    nd_selfID ` set ns \<inter> set (OriginTrace (re_Event re)) = {} \<and>
    (\<forall>w n s es e sn. st_out (exec (ProcessRemote D w n re) s) = st_out s @ es \<and> Published e sn \<in> set es
      \<longrightarrow> sn \<noteq> Subnet re \<and> Signature e = Signature (re_Event re) \<and>
        OriginTrace e = OriginTrace (re_Event re) @ [nd_selfID n])"
  using relay_path_bound [OF assms] relay_hop [of D _ _ re]
  by (fastforce simp: relay_ok_def reemitted_def)

theorem reemission_terminates_witness:
  "relay_path ex_deps eve_report [ex_bridge] \<and> length [ex_bridge] \<le> maxOriginTraceLen"
proof -
  let ?out = "\<lparr>re_Event = reemitted ex_bridge (re_Event eve_report), From = ''12D3me'', Subnet = ''blue''\<rparr>"
  have "has_sent ex_state (reemitted ex_bridge (re_Event eve_report)) ''blue''
      (exec (ProcessRemote ex_deps (ex_world 30) ex_bridge eve_report) ex_state)"
    unfolding ProcessRemote_admits [OF ex_guards]
    by (rule ex_report_reemits) (simp_all add: ex_entry newDedupCache_def)
  then obtain es where "st_out (exec (ProcessRemote ex_deps (ex_world 30) ex_bridge eve_report) ex_state) = st_out ex_state @ es"
    "Published (re_Event ?out) (Subnet ?out) \<in> set es" by (auto simp: has_sent_def)
  then have p: "relay_path ex_deps eve_report [ex_bridge]" using path_end by (rule path_hop)
  have t: "OriginTrace (re_Event eve_report) = []" by (simp add: eve_message_def ssh_event_def zero_Event_def)
  from reemission_terminates [OF p] have "length [ex_bridge] \<le> maxOriginTraceLen" by (simp add: t)
  with p show ?thesis by blast
qed

text \<open>
  C12. A vote can be counted again: the reason of a vote is not signed but is part of the key that
  recognises duplicates. A copy of a vote with another reason verifies as the original does, is
  not recognised, and is counted once more in the original reporter's name, whatever the node has
  already seen of the original.
\<close>

theorem altered_vote_counts_again:
  assumes "Kind e = ''vote''" "VerifyEventSig (dp_p2p D) e = None" "r \<noteq> Reason e"
    and "map_of (dd_seen (st_dedup s)) (dedupKey (ReporterID e) (IP e) r (Timestamp e)) = None"
    and "\<And>weight anchored. \<exists>y. RecordDispute (dp_backend D) (nd_rep n) (st_store s) (w_now w) (IP e) (ReporterID e)
      weight (SubnetID e) anchored = Inr y"
  shows "VerifyEventSig (dp_p2p D) (e\<lparr>Reason := r\<rparr>) = None \<and>
    dedupKey (ReporterID e) (IP e) r (Timestamp e) \<noteq> dedupKey (ReporterID e) (IP e) (Reason e) (Timestamp e) \<and>
    attributed D w n e (st_store s) (st_store (exec (processDispute D w n (e\<lparr>Reason := r\<rparr>)) s))
      (st_trust (exec (processDispute D w n (e\<lparr>Reason := r\<rparr>)) s))"
proof -
  let ?e = "e\<lparr>Reason := r\<rparr>"
  have fresh: "\<not> duplicate w s ?e" by (rule fresh_not_duplicate) (simp add: assms(4))
  have up: "\<exists>y. RecordDispute (dp_backend D) (nd_rep n) (st_store s) (w_now w) (IP ?e) (ReporterID ?e)
      weight (SubnetID ?e) anchored = Inr y" for weight anchored using assms(5) by simp
  have "attributed D w n ?e (st_store s) (st_store (exec (processDispute D w n ?e) s))
      (st_trust (exec (processDispute D w n ?e) s))"
    by (rule vote_counts [OF _ fresh up]) (simp add: assms(1))
  then have "attributed D w n e (st_store s) (st_store (exec (processDispute D w n ?e) s))
      (st_trust (exec (processDispute D w n ?e) s))" using assms(1) by (simp add: attributed_def)
  then show ?thesis using assms(1-3) by (simp add: dedupKey_def vote_verifies [OF assms(1)])
qed

theorem altered_vote_counts_again_witness:
  "\<exists>e. Kind e = ''vote'' \<and> VerifyEventSig (dp_p2p ex_deps) e = None \<and>
    attributed ex_deps (ex_world 30) ex_bridge e (st_store ex_state)
      (st_store (exec (processDispute ex_deps (ex_world 30) ex_bridge (e\<lparr>Reason := ''x''\<rparr>)) ex_state))
      (st_trust (exec (processDispute ex_deps (ex_world 30) ex_bridge (e\<lparr>Reason := ''x''\<rparr>)) ex_state))"
proof -
  let ?v = "zero_Event\<lparr>IP := ''10.0.0.0'', Kind := ''vote'', ReporterID := ''12D3ana''\<rparr>"
  let ?e = "?v\<lparr>Signature := CHR ''s'' # ''ana'' @ signedMessage ?v\<rparr>"
  have k: "Kind ?e = ''vote''" by simp
  have sig: "VerifyEventSig (dp_p2p ex_deps) ?e = None"
    by (simp add: VerifyEventSig_def ex_deps_def plain_libp2p_def HasPrefix_def TrimPrefix_def signedMessage_Signature)
  have r: "''x'' \<noteq> Reason ?e" by (simp add: zero_Event_def)
  have fresh: "map_of (dd_seen (st_dedup ex_state)) (dedupKey (ReporterID ?e) (IP ?e) ''x'' (Timestamp ?e)) = None"
    by (simp add: ex_state_def newDedupCache_def)
  have up: "\<exists>y. RecordDispute (dp_backend ex_deps) (nd_rep ex_bridge) (st_store ex_state) (w_now (ex_world 30)) (IP ?e)
      (ReporterID ?e) weight (SubnetID ?e) anchored = Inr y" for weight anchored
    by (simp add: ex_deps_def RecordDispute_def ex_state_def mem_empty_def GetScore_def MightContain_def PutScore_def
        mem_backend_def bloom_Add_def Let_def)
  from altered_vote_counts_again [OF k sig r fresh up] k sig show ?thesis by blast
qed

end
