(* ===== verification/Network.thy ===== *)
theory Network
  imports Node_Exchange
begin

text \<open>
  A network of nodes: each runs the event loop of \<open>Node\<close>, and what it receives comes from the
  others or from anybody else who can reach the swarm. The network may delay, drop, repeat and
  forge; it cannot publish under another node's peer ID, nor sign with its key.
\<close>

section \<open>Keys and the separator of signed messages\<close>

lemma takeWhile_split:
  assumes "x \<in> set s"
  obtains r where "s = takeWhile (\<lambda>c. c \<noteq> x) s @ x # r"
proof -
  have "\<exists>r. s = takeWhile (\<lambda>c. c \<noteq> x) s @ x # r" using assms by (induction s) auto
  with that show ?thesis by blast
qed

lemma takeWhile_mono_append: "set (takeWhile P a) \<subseteq> set (takeWhile P (a @ b))"
  by (induction a) auto

lemma ParseAddr_bar:
  assumes "ParseAddr s = Some a" "CHR ''%'' \<notin> set (takeWhile (\<lambda>c. c \<noteq> CHR ''|'') s)"
  shows "CHR ''|'' \<notin> set s"
proof
  assume "CHR ''|'' \<in> set s"
  then obtain r where s: "s = takeWhile (\<lambda>c. c \<noteq> CHR ''|'') s @ CHR ''|'' # r" by (rule takeWhile_split)
  have "takeWhile (\<lambda>c. c \<noteq> CHR ''%'') (p @ CHR ''|'' # r) = p @ CHR ''|'' # takeWhile (\<lambda>c. c \<noteq> CHR ''%'') r"
    if "CHR ''%'' \<notin> set p" for p
    using that by (subst takeWhile_append2) auto
  from this [OF assms(2)] s have "CHR ''|'' \<in> set (takeWhile (\<lambda>c. c \<noteq> CHR ''%'') s)" by (metis in_set_conv_decomp)
  with ParseAddr_ok(3) [OF assms(1), of "CHR ''|''"] show False by simp
qed

lemma bar_no_digit: "\<not> is_digit CHR ''|''" "\<not> is_digit CHR ''%''"
  by (simp_all add: is_digit_def dec_digits_def)

text \<open>A text with a key holds no bar, unless it has an IPv6 zone before the bar.\<close>

lemma NormalizeIP_bar:
  assumes "NormalizeIP s n = Inr k" "CHR ''%'' \<notin> set (takeWhile (\<lambda>c. c \<noteq> CHR ''|'') s)"
  shows "CHR ''|'' \<notin> set s"
proof (cases "ParseAddr s")
  case (Some a)
  with assms(2) show ?thesis by (intro ParseAddr_bar)
next
  case None
  let ?t = "takeWhile (\<lambda>c. c \<noteq> CHR ''/'') (rev s)"
  obtain p where "ParsePrefix s = Some p"
    using assms(1) None by (auto simp: NormalizeIP_def split: option.splits)
  then obtain a n where a: "ParseAddr (take (length s - length ?t - 1) s) = Some a" "parse_bits (rev ?t) = Some n"
    and "CHR ''/'' \<in> set (rev s)"
    unfolding ParsePrefix_def Let_def by (auto split: if_splits option.splits)
  then obtain q where q: "rev s = ?t @ CHR ''/'' # q" by (metis takeWhile_split)
  define h where "h = rev q"
  have s: "s = h @ CHR ''/'' # rev ?t"
    using q unfolding h_def by (metis append.assoc append_Cons append_Nil rev.simps(2) rev_append rev_rev_ident)
  then have "take (length s - length ?t - 1) s = h"
    by (metis add_diff_cancel_right' append_eq_conv_conj diff_diff_left length_Cons length_append length_rev plus_1_eq_Suc add.commute)
  with a(1) have h: "ParseAddr h = Some a" by simp
  have "CHR ''|'' \<notin> set h"
  proof
    assume bar: "CHR ''|'' \<in> set h"
    then have "takeWhile (\<lambda>c. c \<noteq> CHR ''|'') s = takeWhile (\<lambda>c. c \<noteq> CHR ''|'') h"
      by (subst s, intro takeWhile_append1 [where x = "CHR ''|''"]) simp_all
    with assms(2) bar ParseAddr_bar [OF h] show False by simp
  qed
  moreover have "CHR ''|'' \<notin> set (rev ?t)"
  proof -
    have "list_all is_digit b" if "parse_bits b = Some n" for b
      using that by (simp add: parse_bits_def split: if_splits)
    from this [OF a(2)] bar_no_digit show ?thesis unfolding list_all_iff by blast
  qed
  ultimately show ?thesis by (subst s) simp
qed

lemma foreign_before: "x \<notin> set s \<Longrightarrow> takeWhile (\<lambda>c. c \<noteq> x) s = s"
  by (auto simp: takeWhile_eq_all_conv)

text \<open>Keys hold neither.\<close>

lemma key_of_plain:
  assumes "addr_ok a" "n \<le> 128"
  shows "CHR ''%'' \<notin> set (key_of a n) \<and> CHR ''|'' \<notin> set (key_of a n)"
proof (cases a)
  case (V4 os)
  then have "is_digit c \<or> c = CHR ''.''" if "c \<in> set (key_of a n)" for c
    using IPv4_text_chars [of os c] assms(1) that by (simp add: key_of_def addr_ok_def)
  then show ?thesis by (auto simp: is_digit_def dec_digits_def)
next
  case (V6 gs z)
  have ok: "addr_ok (mask_addr n a)" using assms(1) by (rule mask_addr_ok)
  let ?t = "IPv6_text (mask_units 16 n gs)"
  have m: "mask_addr n a = V6 (mask_units 16 n gs) ''''" by (simp add: V6)
  have "CHR ''%'' \<notin> set ?t" using IPv6_text_form [of "mask_units 16 n gs"] ok by (simp add: m addr_ok_def)
  moreover from this have "CHR ''|'' \<notin> set ?t"
    using ParseAddr_String [OF ok] ParseAddr_ok(3) [of ?t "mask_addr n a" "CHR ''|''"]
    by (simp add: m foreign_before)
  moreover have "CHR ''%'' \<notin> set (dec_text n) \<and> CHR ''|'' \<notin> set (dec_text n)"
    using dec_text_digit [of n] assms(2) bar_no_digit by fastforce
  ultimately show ?thesis by (simp add: key_of_def V6 prefix_String_def)
qed

lemma NormalizeIP_plain:
  assumes "1 \<le> n" "n \<le> 128" "NormalizeIP s (int n) = Inr k"
  shows "CHR ''%'' \<notin> set k \<and> CHR ''|'' \<notin> set k" "NormalizeIP k (int n) = Inr k"
  using NormalizeIP_key [OF assms] key_of_plain [OF _ assms(2)] NormalizeIP_idempotent [OF assms] by auto

text \<open>
  One signature covers one address: if a text that has a key is signed with the same bytes as a
  key, it is that key. Neither a zone nor a bar in the reason can shift the fields.
\<close>

lemma eventMessage_IP:
  assumes "eventMessage e = eventMessage e0" "NormalizeIP (IP e) n = Inr k"
    and "CHR ''%'' \<notin> set (IP e0)" "CHR ''|'' \<notin> set (IP e0)"
  shows "IP e = IP e0"
proof -
  define rest where
    "rest e = Reason e @ ''|'' @ RFC3339Nano (Timestamp e) @ ''|'' @ ReporterID e @ ''|'' @ SubnetID e" for e :: Event
  have "eventMessage e = ''federloom-event-v2|'' @ (IP e @ CHR ''|'' # rest e)" for e :: Event
    by (simp add: eventMessage_def rest_def)
  with assms(1) have xy: "IP e @ CHR ''|'' # rest e = IP e0 @ CHR ''|'' # rest e0" by (metis same_append_eq)
  let ?tw = "takeWhile (\<lambda>c. c \<noteq> CHR ''|'')"
  have e0: "?tw (IP e0 @ CHR ''|'' # rest e0) = IP e0"
    using assms(4) by (subst takeWhile_append2) auto
  have "CHR ''|'' \<notin> set (IP e)"
  proof (rule NormalizeIP_bar [OF assms(2)], rule notI)
    assume "CHR ''%'' \<in> set (?tw (IP e))"
    moreover have "set (?tw (IP e)) \<subseteq> set (?tw (IP e @ CHR ''|'' # rest e))"
      by (rule takeWhile_mono_append)
    ultimately show False using xy e0 assms(3) by (metis subsetD)
  qed
  then have "?tw (IP e @ CHR ''|'' # rest e) = IP e" by (subst takeWhile_append2) auto
  with xy e0 show ?thesis by simp
qed

section \<open>Names in the records\<close>

text \<open>
  Every reporter a record names may be named for its key: \<open>X key reporter\<close>.
\<close>

definition rec_names ::
  "('db, 'bf) backend \<Rightarrow> ('db \<Rightarrow> string \<rightharpoonup> ScoreRecord \<times> time) \<Rightarrow> (string \<Rightarrow> string \<Rightarrow> bool)
     \<Rightarrow> ('db, 'bf) BadgerStore \<Rightarrow> bool" where
  "rec_names L view X s \<longleftrightarrow>
     (\<forall>k. view (db s) k \<noteq> None \<longrightarrow> bf_test L (bloom s) k) \<and>
     (\<forall>k r t. view (db s) k = Some (r, t) \<longrightarrow> (\<forall>p \<in> set (ReporterIDs r). X k p))"

lemma rec_names_mono: "rec_names L view X s \<Longrightarrow> (\<And>k p. X k p \<Longrightarrow> X' k p) \<Longrightarrow> rec_names L view X' s"
  unfolding rec_names_def by blast

lemma Accumulate_names:
  "set (ReporterIDs (Accumulate rec obs now h cap dr)) = insert (obs_ReporterID obs) (set (ReporterIDs rec))"
  by (simp add: Accumulate_def Let_def containsString_def) auto

lemma ApplyDispute_names: "ReporterIDs (ApplyDispute rec obs now h dw cap dr) = ReporterIDs rec"
  by (simp add: ApplyDispute_def Let_def)

context badger_backend
begin

lemma rec_names_get:
  assumes "rec_names L view X s" "GetScore L s now k = Inr r" "p \<in> set (ReporterIDs r)"
  shows "X k p"
proof -
  have "bloom_covers s" using assms(1) by (simp add: rec_names_def bloom_covers_def)
  from GetScore_correct [OF this assms(2)] assms(3) obtain t where "view (db s) k = Some (r, t)"
    by (auto simp: live_def zero_rec_def split: option.splits if_splits)
  with assms(1,3) show ?thesis unfolding rec_names_def by blast
qed

lemma rec_names_put:
  assumes "rec_names L view X s" "PutScore L s now k r ttl = Inr s'" "\<forall>p \<in> set (ReporterIDs r). X k p"
  shows "rec_names L view X s'"
proof -
  have "bloom_covers s" using assms(1) by (simp add: rec_names_def bloom_covers_def)
  from PutScore_bloom [OF this assms(2)] have "\<forall>k. view (db s') k \<noteq> None \<longrightarrow> bf_test L (bloom s') k"
    by (simp add: bloom_covers_def)
  then show ?thesis
    using assms(1,3) PutScore_view [OF assms(2)] by (auto simp: rec_names_def split: if_splits)
qed

lemma rec_names_Record:
  assumes "rec_names L view X s" "Record L e s now ip reason rid trust grp subnet anchored = Inr (x, s')" "X ip rid"
  shows "rec_names L view X s'"
proof (rule Record_effect [OF assms(2)])
  fix rec rec'
  assume "GetScore L s now ip = Inr rec"
    and rec': "rec' = Accumulate rec \<lparr>obs_Reason = reason, obs_ReporterID = rid, obs_Group = grp,
           obs_Trust = trust, obs_Anchored = anchored, obs_Subnet = subnet\<rparr>
           now (eng_halfLife e) (eng_strangerCap e) (eng_diversityRepeat e)"
    and put: "PutScore L s now ip rec' (3 * eng_halfLife e) = Inr s'"
  then have "\<forall>p \<in> set (ReporterIDs rec'). X ip p"
    using rec_names_get [OF assms(1)] assms(3) by (simp add: Accumulate_names)
  then show ?thesis by (rule rec_names_put [OF assms(1) put])
qed

lemma rec_names_RecordDispute:
  assumes "rec_names L view X s" "RecordDispute L e s now ip rid trust subnet anchored = Inr ((x, n), s')"
  shows "rec_names L view X s'"
proof (rule RecordDispute_effect [OF assms(2)])
  fix rec rec'
  assume "GetScore L s now ip = Inr rec"
    and rec': "rec' = ApplyDispute rec \<lparr>obs_Reason = '''', obs_ReporterID = rid, obs_Group = '''',
           obs_Trust = trust, obs_Anchored = anchored, obs_Subnet = subnet\<rparr>
           now (eng_halfLife e) (eng_disputeWeight e) (eng_strangerCap e) (eng_diversityRepeat e)"
    and put: "PutScore L s now ip rec' (3 * eng_halfLife e) = Inr s'"
  then have "\<forall>p \<in> set (ReporterIDs rec'). X ip p"
    using rec_names_get [OF assms(1)] by (simp add: ApplyDispute_names)
  then show ?thesis by (rule rec_names_put [OF assms(1) put])
qed

lemma rec_names_Decay:
  assumes "rec_names L view X s" "Decay L e s now ip = Inr (x, s')"
  shows "rec_names L view X s'"
proof -
  from assms(2) obtain rec where get: "GetScore L s now ip = Inr rec"
    by (auto simp: Decay_def split: sum.splits)
  show ?thesis
  proof (cases "LastSeen rec = 0")
    case True
    with assms get show ?thesis by (simp add: Decay_def IsZero_def)
  next
    case False
    from Decay_effect(1) [OF assms(2) get False] show ?thesis
      by (rule rec_names_put [OF assms(1)]) (use rec_names_get [OF assms(1) get] in simp)
  qed
qed

end

section \<open>What a handler may write and send\<close>

abbreviation names_ok ::
  "('db, 'bf, 'sk, 'pid, 'pk, 'k) deps \<Rightarrow> ('db \<Rightarrow> string \<rightharpoonup> ScoreRecord \<times> time) \<Rightarrow> (string \<Rightarrow> string \<Rightarrow> bool)
     \<Rightarrow> ('db, 'bf, 'k) node_state \<Rightarrow> bool" where
  "names_ok D view X \<equiv> books (\<lambda>st _. rec_names (dp_backend D) view X st)"

fun sends :: "(Event \<Rightarrow> bool) \<Rightarrow> effect \<Rightarrow> bool" where
  "sends Y (Published e sn) = Y e"
| "sends Y _ = True"

lemma books_meter [preserves_rules]:
  "preserves (books X) (charge w)" "preserves (books X) (rate w)"
  "preserves (books (\<lambda>st _. Y st)) (is_blocked D w p)"
  by (simp_all add: preserves_def books_def call_defs exec_def Let_def split: prod.split)

lemma names_record:
  assumes "badger_backend (dp_backend D) view" "X ip rid"
  shows "preserves (names_ok D view X) (record_report D w n ip reason rid weight grp subnet anchored)"
  using badger_backend.rec_names_Record [where X = X and ip = ip and rid = rid, OF assms(1) _ _ assms(2)]
  by (auto simp: preserves_def books_def record_report_def exec_def split: sum.split)

lemma names_dispute:
  assumes "badger_backend (dp_backend D) view"
  shows "preserves (names_ok D view X) (record_dispute D w n ip rid weight subnet anchored)"
  using badger_backend.rec_names_RecordDispute [OF assms]
  by (auto simp: preserves_def books_def record_dispute_def exec_def split: sum.split)

lemma names_local:
  assumes "badger_backend (dp_backend D) view"
    and "\<And>key. NormalizeIP (IP e) (EffectiveIPv6Prefix (Reputation (nd_cfg n))) = Inr key
      \<Longrightarrow> \<not> allow_listed n key \<Longrightarrow> X key (nd_selfID n)"
  shows "preserves (names_ok D view X) (processLocal D w n e)"
  unfolding processLocal_def local_report_def
  by (intro names_record [OF assms(1)] preserves_rules) (simp add: assms(2) allow_listed_def)

lemma names_report:
  assumes "badger_backend (dp_backend D) view" "X (IP e) (ReporterID e)"
  shows "preserves (names_ok D view X) (remote_report D w n re e)"
  unfolding remote_report_def by (intro names_record [where X = X, OF assms(1)] preserves_rules) (rule assms(2))

lemma names_votes:
  assumes "badger_backend (dp_backend D) view"
  shows "preserves (names_ok D view X) (processDispute D w n e)" "preserves (names_ok D view X) (run_start D w n)"
  unfolding processDispute_def run_start_def publishSharedVotes_def
  by (intro names_dispute [OF assms] preserves_rules)+

lemma names_decay:
  assumes "badger_backend (dp_backend D) view"
  shows "preserves (names_ok D view X) (decay_one D w n ip)"
proof -
  have "preserves (names_ok D view X) (State (\<lambda>s. case Decay (dp_backend D) (nd_rep n) (st_store s) (w_now w) ip of
      Inl _ \<Rightarrow> (None, s) | Inr (x, bs) \<Rightarrow> (Some x, s\<lparr>st_store := bs\<rparr>)))"
    using badger_backend.rec_names_Decay [OF assms]
    by (auto simp: preserves_def books_def exec_def split: sum.split)
  then show ?thesis unfolding decay_one_def sink_defs by (intro preserves_rules)
qed

text \<open>An admitted message, and what it may name and send on.\<close>

definition accepted ::
  "('db, 'bf, 'sk, 'pid, 'pk, 'k) deps \<Rightarrow> 'sk Node \<Rightarrow> ReceivedEvent \<Rightarrow> string \<Rightarrow> bool" where
  "accepted D n re key \<longleftrightarrow> authentic D re \<and> admissible n (re_Event re) key \<and> Kind (re_Event re) \<noteq> ''vote''"

lemma remote_names:
  assumes "badger_backend (dp_backend D) view" "names_ok D view X s"
    and "\<And>key. accepted D n re key \<Longrightarrow> X key (ReporterID (re_Event re))"
  shows "names_ok D view X (exec (ProcessRemote D w n re) s)"
proof (cases rule: ProcessRemote_cases [of s D w n re])
  case dropped
  with assms(2) show ?thesis by (simp add: same_records_def books_def)
next
  case (admitted key s1)
  have s1: "names_ok D view X s1" using assms(2) admitted(5) by (simp add: same_records_def books_def)
  have "names_ok D view X (exec (admitted_body D w n re key) s1)"
  proof (cases "Kind (re_Event re) = ''vote''")
    case True
    with preservesD [OF names_votes(1) [OF assms(1)] s1] show ?thesis by (simp add: admitted_body_def Let_def)
  next
    case False
    with admitted(1,4) have "X key (ReporterID (re_Event re))" by (intro assms(3)) (simp add: accepted_def)
    from preservesD [OF names_report [OF assms(1)] s1] this False show ?thesis
      by (simp add: admitted_body_def Let_def)
  qed
  with admitted(6) show ?thesis by simp
qed

lemma remote_sends:
  assumes "effects_in (sends Y) s" and "\<And>key. accepted D n re key \<Longrightarrow> Y (reemitted n (re_Event re))"
  shows "effects_in (sends Y) (exec (ProcessRemote D w n re) s)"
proof (cases rule: ProcessRemote_cases [of s D w n re])
  case dropped
  with assms(1) show ?thesis by (simp add: same_records_def effects_in_def)
next
  case (admitted key s1)
  have s1: "effects_in (sends Y) s1" using assms(1) admitted(5) by (simp add: same_records_def effects_in_def)
  have "effects_in (sends Y) (exec (admitted_body D w n re key) s1)"
  proof (cases "Kind (re_Event re) = ''vote''")
    case True
    have "preserves (effects_in (sends Y)) (processDispute D w n ((re_Event re)\<lparr>IP := key\<rparr>))"
      unfolding processDispute_def maybeUnblockDisputed_def sink_defs
      by (intro preserves_rules effects_in_modify) simp_all
    from preservesD [OF this s1] True show ?thesis by (simp add: admitted_body_def Let_def)
  next
    case False
    with admitted(1,4) have "Y (reemitted n (re_Event re))" by (intro assms(2)) (simp add: accepted_def)
    then have "preserves (effects_in (sends Y)) (remote_report D w n re ((re_Event re)\<lparr>IP := key\<rparr>))"
      unfolding remote_report_def act_on_def reemitIfBridge_def sink_defs by (intro preserves_rules) simp_all
    from preservesD [OF this s1] False show ?thesis by (simp add: admitted_body_def Let_def)
  qed
  with admitted(6) show ?thesis by simp
qed

lemma local_sends:
  assumes "\<And>key. NormalizeIP (IP e) (EffectiveIPv6Prefix (Reputation (nd_cfg n))) = Inr key
      \<Longrightarrow> \<not> allow_listed n key \<Longrightarrow> Y (stamp_local D n (e\<lparr>IP := key\<rparr>))"
  shows "preserves (effects_in (sends Y)) (processLocal D w n e)"
  unfolding processLocal_def local_report_def act_on_def sink_defs
  by (intro preserves_rules) (simp_all add: assms allow_listed_def)

lemma SignEvent_frame: "SignEvent P e k = Inr v \<Longrightarrow> Kind v = Kind e \<and> ReporterID v = ReporterID e \<and> IP v = IP e"
  by (auto simp: SignEvent_def split: sum.splits)

lemma start_sends:
  assumes "\<And>e. Kind e = ''vote'' \<Longrightarrow> Y e"
  shows "preserves (effects_in (sends Y)) (run_start D w n)"
  unfolding run_start_def publishSharedVotes_def
  by (intro preserves_rules) (auto dest!: SignEvent_frame intro!: assms simp: shared_vote_def)

text \<open>One event of the loop: what it must justify depends on the event.\<close>

definition justified ::
  "('db, 'bf, 'sk, 'pid, 'pk, 'k) deps \<Rightarrow> 'sk Node \<Rightarrow> (string \<Rightarrow> string \<Rightarrow> bool) \<Rightarrow> (Event \<Rightarrow> bool) \<Rightarrow> node_event \<Rightarrow> bool" where
  "justified D n X Y ev \<longleftrightarrow>
     (case ev of
        LocalEvent e \<Rightarrow> (\<forall>key. NormalizeIP (IP e) (EffectiveIPv6Prefix (Reputation (nd_cfg n))) = Inr key \<longrightarrow>
          \<not> allow_listed n key \<longrightarrow> X key (nd_selfID n) \<and> Y (stamp_local D n (e\<lparr>IP := key\<rparr>)))
      | RemoteEvent re \<Rightarrow> (\<forall>key. accepted D n re key \<longrightarrow>
          X key (ReporterID (re_Event re)) \<and> Y (reemitted n (re_Event re)))
      | Startup \<Rightarrow> (\<forall>e. Kind e = ''vote'' \<longrightarrow> Y e)
      | _ \<Rightarrow> True)"

lemma handle_names:
  assumes "badger_backend (dp_backend D) view" "justified D n X Y ev"
  shows "preserves (names_ok D view X) (handle D w n ev)"
proof (cases ev)
  case Startup
  then show ?thesis using names_votes(2) [OF assms(1)] by (simp add: handle_def)
next
  case (LocalEvent e)
  then show ?thesis using assms by (auto simp: handle_def justified_def intro!: names_local)
next
  case (RemoteEvent re)
  then have "preserves (names_ok D view X) (ProcessRemote D w n re)"
    using assms by (auto simp: justified_def intro!: preservesI remote_names)
  with RemoteEvent show ?thesis by (simp add: handle_def handle_remote_def) (intro preserves_rules)
next
  case DecayTick
  then show ?thesis by (simp add: handle_def preserves_runDecay names_decay [OF assms(1)])
next
  case (GaugeTick p)
  then show ?thesis by (simp add: handle_def gauge_tick_def) (intro preserves_rules)
next
  case (Lookup ip)
  have "preserves (names_ok D view X) (materialiseFederated D w n ip rec subnets)" for ip rec subnets
    unfolding materialiseFederated_def materialise_commit_def sink_defs
    by (intro preserves_rules preserves_modify) (simp add: books_def)
  moreover have "preserves (names_ok D view X) (resolver_shed w)"
    unfolding resolver_shed_def by (intro preserves_rules)
  ultimately have "preserves (names_ok D view X) (point_lookup D w n ip)"
    by (intro preserves_lookup) (simp_all add: books_def)
  with Lookup show ?thesis by (simp add: handle_def) (intro preserves_rules)
qed

lemma handle_sends:
  assumes "justified D n X Y ev"
  shows "preserves (effects_in (sends Y)) (handle D w n ev)"
proof (cases ev)
  case Startup
  then show ?thesis using assms by (simp add: handle_def justified_def start_sends)
next
  case (LocalEvent e)
  then show ?thesis using assms by (auto simp: handle_def justified_def intro!: local_sends)
next
  case (RemoteEvent re)
  then have "preserves (effects_in (sends Y)) (ProcessRemote D w n re)"
    using assms by (auto simp: justified_def intro!: preservesI remote_sends)
  with RemoteEvent show ?thesis by (simp add: handle_def handle_remote_def) (intro preserves_rules)
next
  case DecayTick
  have "preserves (effects_in (sends Y)) (decay_one D w n ip)" for ip
    unfolding decay_one_def sink_defs
    by (intro preserves_rules)
      (simp_all add: preserves_def effects_in_def exec_def split: sum.split prod.split)
  with DecayTick show ?thesis by (simp add: handle_def preserves_runDecay)
next
  case (GaugeTick p)
  then show ?thesis by (simp add: handle_def gauge_tick_def) (intro preserves_rules)
next
  case (Lookup ip)
  have "preserves (effects_in (sends Y)) (materialiseFederated D w n ip rec subnets)" for ip rec subnets
    unfolding materialiseFederated_def materialise_commit_def sink_defs
    by (intro preserves_rules effects_in_modify) simp_all
  then have "preserves (effects_in (sends Y)) (point_lookup D w n ip)"
    by (intro preserves_lookup shed_blockable) (simp_all add: effects_in_def)
  with Lookup show ?thesis by (simp add: handle_def) (intro preserves_rules)
qed

section \<open>The network\<close>

text \<open>
  What a node itself reported: a local event for the key that its own lists do not exempt; and the
  bytes it signed.
\<close>

definition own_report :: "'sk Node \<Rightarrow> (world \<times> node_event) list \<Rightarrow> string \<Rightarrow> bool" where
  "own_report n h k \<longleftrightarrow>
     (\<exists>w e. (w, LocalEvent e) \<in> set h \<and> NormalizeIP (IP e) (EffectiveIPv6Prefix (Reputation (nd_cfg n))) = Inr k \<and>
        \<not> allow_listed n k)"

definition has_signed ::
  "('db, 'bf, 'sk, 'pid, 'pk, 'k) deps \<Rightarrow> 'sk Node \<Rightarrow> (world \<times> node_event) list \<Rightarrow> bytes \<Rightarrow> bool" where
  "has_signed D n h m \<longleftrightarrow>
     (\<exists>w e k. (w, LocalEvent e) \<in> set h \<and> NormalizeIP (IP e) (EffectiveIPv6Prefix (Reputation (nd_cfg n))) = Inr k \<and>
        \<not> allow_listed n k \<and> m = signedMessage (stamp_local D n (e\<lparr>IP := k\<rparr>))) \<or>
     (\<exists>w r. (w, Startup) \<in> set h \<and> m = signedMessage (shared_vote w n r))"

text \<open>
  What the swarm may hand to node \<open>i\<close>. gossipsub drops messages whose publisher did not sign them,
  so a message published by a node of the network is one that node published; and an event whose
  signature verifies under a node's peer ID carries bytes that node signed. Nothing else is
  promised: senders outside the network publish what they like, under any reporter, trace,
  subnet and vouch, and every message may be delayed, lost or repeated.
\<close>

definition deliverable ::
  "('i \<Rightarrow> ('db, 'bf, 'sk, 'pid, 'pk, 'k) deps) \<Rightarrow> ('i \<Rightarrow> 'sk Node) \<Rightarrow> ('i \<Rightarrow> (world \<times> node_event) list)
     \<Rightarrow> ('i \<Rightarrow> ('db, 'bf, 'k) node_state) \<Rightarrow> 'i \<Rightarrow> ReceivedEvent \<Rightarrow> bool" where
  "deliverable D N h s i re \<longleftrightarrow>
     (\<forall>j. From re = nd_selfID (N j) \<longrightarrow> (\<exists>sn. Published (re_Event re) sn \<in> set (st_out (s j)))) \<and>
     (\<forall>j. ReporterID (re_Event re) = nd_selfID (N j) \<and> VerifyEventSig (dp_p2p (D i)) (re_Event re) = None
        \<longrightarrow> has_signed (D j) (N j) (h j) (signedMessage (re_Event re)))"

text \<open>
  Runs: any node takes any event at any time, its first one being its start. \<open>h\<close> is what each node
  went through.
\<close>

inductive net_run ::
  "('i \<Rightarrow> ('db, 'bf, 'sk, 'pid, 'pk, 'k) deps) \<Rightarrow> ('i \<Rightarrow> 'sk Node) \<Rightarrow> ('i \<Rightarrow> ('db, 'bf, 'k) node_state)
     \<Rightarrow> ('i \<Rightarrow> (world \<times> node_event) list) \<Rightarrow> ('i \<Rightarrow> ('db, 'bf, 'k) node_state) \<Rightarrow> bool"
  for D :: "'i \<Rightarrow> ('db, 'bf, 'sk, 'pid, 'pk, 'k) deps" and N :: "'i \<Rightarrow> 'sk Node"
    and s0 :: "'i \<Rightarrow> ('db, 'bf, 'k) node_state" where
  net_begin: "net_run D N s0 (\<lambda>_. []) s0"
| net_event: "net_run D N s0 h s \<Longrightarrow> ev = Startup \<longleftrightarrow> h i = [] \<Longrightarrow>
     (\<And>re. ev = RemoteEvent re \<Longrightarrow> deliverable D N h s i re) \<Longrightarrow>
     net_run D N s0 (h(i := h i @ [(w, ev)])) (s(i := exec (handle (D i) w (N i) ev) (s i)))"

section \<open>Every name is earned\<close>

definition net_names ::
  "('i \<Rightarrow> 'sk Node) \<Rightarrow> ('i \<Rightarrow> (world \<times> node_event) list) \<Rightarrow> 'i \<Rightarrow> string \<Rightarrow> string \<Rightarrow> bool" where
  "net_names N h i key p \<longleftrightarrow>
     (\<forall>j. p = nd_selfID (N j) \<longrightarrow>
        (\<exists>k. own_report (N j) (h j) k \<and> NormalizeIP k (EffectiveIPv6Prefix (Reputation (nd_cfg (N i)))) = Inr key))"

definition net_sends :: "('i \<Rightarrow> 'sk Node) \<Rightarrow> ('i \<Rightarrow> (world \<times> node_event) list) \<Rightarrow> Event \<Rightarrow> bool" where
  "net_sends N h e \<longleftrightarrow>
     Kind e = ''vote'' \<or> (\<forall>j. ReporterID e = nd_selfID (N j) \<longrightarrow> own_report (N j) (h j) (IP e))"

definition net_inv ::
  "('i \<Rightarrow> ('db, 'bf, 'sk, 'pid, 'pk, 'k) deps) \<Rightarrow> ('i \<Rightarrow> 'db \<Rightarrow> string \<rightharpoonup> ScoreRecord \<times> time) \<Rightarrow> ('i \<Rightarrow> 'sk Node)
     \<Rightarrow> ('i \<Rightarrow> (world \<times> node_event) list) \<Rightarrow> ('i \<Rightarrow> ('db, 'bf, 'k) node_state) \<Rightarrow> bool" where
  "net_inv D view N h s \<longleftrightarrow>
     (\<forall>i. names_ok (D i) (view i) (net_names N h i) (s i) \<and> effects_in (sends (net_sends N h)) (s i))"

lemma own_report_mono: "own_report n h k \<Longrightarrow> set h \<subseteq> set h' \<Longrightarrow> own_report n h' k"
  unfolding own_report_def by blast

lemma own_report_plain:
  assumes "own_report n h k"
  shows "CHR ''%'' \<notin> set k" "CHR ''|'' \<notin> set k"
    "NormalizeIP k (EffectiveIPv6Prefix (Reputation (nd_cfg n))) = Inr k"
proof -
  let ?p = "nat (EffectiveIPv6Prefix (Reputation (nd_cfg n)))"
  have p: "1 \<le> ?p" "?p \<le> 128" "int ?p = EffectiveIPv6Prefix (Reputation (nd_cfg n))"
    using EffectiveIPv6Prefix_range [of "Reputation (nd_cfg n)"] by auto
  from assms obtain e :: Event where "NormalizeIP (IP e) (int ?p) = Inr k"
    unfolding own_report_def p(3) by blast
  from NormalizeIP_plain [OF p(1,2) this] p(3)
  show "CHR ''%'' \<notin> set k" "CHR ''|'' \<notin> set k"
    "NormalizeIP k (EffectiveIPv6Prefix (Reputation (nd_cfg n))) = Inr k" by simp_all
qed

lemma net_inv_mono:
  assumes "net_inv D view N h s" "\<And>i. set (h i) \<subseteq> set (h' i)"
  shows "net_inv D view N h' s"
proof -
  note own = own_report_mono [OF _ assms(2)]
  have "net_names N h' i k p" if "net_names N h i k p" for i k p
    using that own unfolding net_names_def by blast
  moreover have "sends (net_sends N h') x" if "sends (net_sends N h) x" for x
    using that own by (cases x) (auto simp: net_sends_def)
  ultimately show ?thesis
    using assms(1) unfolding net_inv_def books_def effects_in_def by (blast intro: rec_names_mono)
qed

lemma stamp_local_ReporterID [simp]: "ReporterID (stamp_local D n e) = nd_selfID n"
  by (simp add: stamp_local_def SignEvent_def Let_def split: option.split sum.split)

text \<open>An accepted report in the name of a node repeats a report of that node.\<close>

lemma accepted_own:
  assumes "net_inv D view N h s" "deliverable D N h s i re" "accepted (D i) (N i) re key"
    and "ReporterID (re_Event re) = nd_selfID (N j)"
  shows "own_report (N j) (h j) (IP (re_Event re))"
proof (cases "Signature (re_Event re) = []")
  case True
  with assms(3,4) have "From re = nd_selfID (N j)" by (auto simp: accepted_def authentic_def Let_def)
  with assms(2) obtain sn where "Published (re_Event re) sn \<in> set (st_out (s j))"
    by (auto simp: deliverable_def)
  with assms(1) have "sends (net_sends N h) (Published (re_Event re) sn)" unfolding net_inv_def effects_in_def by blast
  then have "net_sends N h (re_Event re)" by simp
  with assms(3,4) show ?thesis by (auto simp: net_sends_def accepted_def)
next
  case False
  let ?e = "re_Event re" and ?p = "EffectiveIPv6Prefix (Reputation (nd_cfg (N j)))"
  have e: "signedMessage ?e = eventMessage ?e" using assms(3) by (simp add: accepted_def signedMessage_def)
  from False assms have "has_signed (D j) (N j) (h j) (eventMessage ?e)"
    by (auto simp: deliverable_def accepted_def authentic_def Let_def e)
  moreover have "eventMessage ?e \<noteq> signedMessage (shared_vote w (N j) r)" for w r
    using messages_disjoint(1) by (simp add: signedMessage_def shared_vote_def)
  ultimately obtain w e k where own: "(w, LocalEvent e) \<in> set (h j)" "NormalizeIP (IP e) ?p = Inr k"
      "\<not> allow_listed (N j) k" and m: "eventMessage ?e = signedMessage (stamp_local (D j) (N j) (e\<lparr>IP := k\<rparr>))"
    unfolding has_signed_def by blast
  let ?own = "stamp_local (D j) (N j) (e\<lparr>IP := k\<rparr>)"
  have k: "own_report (N j) (h j) k" using own unfolding own_report_def by blast
  have "eventMessage ?e = eventMessage ?own"
    using m messages_disjoint(1) by (simp add: signedMessage_def split: if_splits)
  moreover have "NormalizeIP (IP ?e) (EffectiveIPv6Prefix (Reputation (nd_cfg (N i)))) = Inr key"
    using assms(3) by (simp add: accepted_def admissible_def)
  ultimately have "IP ?e = IP ?own" using own_report_plain [OF k] by (intro eventMessage_IP) simp_all
  with k show ?thesis by simp
qed

lemma net_inv_event:
  assumes inv: "net_inv D view N h s" and badger: "\<And>i. badger_backend (dp_backend (D i)) (view i)"
    and ids: "inj (\<lambda>i. nd_selfID (N i))" and ev: "\<And>re. ev = RemoteEvent re \<Longrightarrow> deliverable D N h s i re"
  shows "net_inv D view N (h(i := h i @ [(w, ev)])) (s(i := exec (handle (D i) w (N i) ev) (s i)))"
proof -
  let ?h = "h(i := h i @ [(w, ev)])" and ?X = "net_names N (h(i := h i @ [(w, ev)])) i"
    and ?Y = "net_sends N (h(i := h i @ [(w, ev)]))"
  have grows: "set (h j) \<subseteq> set (?h j)" for j by auto
  have inv': "net_inv D view N ?h s" by (rule net_inv_mono [OF inv grows])
  have "justified (D i) (N i) ?X ?Y ev"
  proof (cases ev)
    case (LocalEvent e)
    have "?X k (nd_selfID (N i)) \<and> ?Y (stamp_local (D i) (N i) (e\<lparr>IP := k\<rparr>))"
      if "NormalizeIP (IP e) (EffectiveIPv6Prefix (Reputation (nd_cfg (N i)))) = Inr k" "\<not> allow_listed (N i) k" for k
    proof -
      have own: "own_report (N i) (?h i) k" using that LocalEvent unfolding own_report_def by auto
      moreover have "j = i" if "nd_selfID (N i) = nd_selfID (N j)" for j using ids that by (auto dest: injD)
      ultimately show ?thesis
        using own_report_plain(3) [OF own] unfolding net_names_def net_sends_def by auto
    qed
    with LocalEvent show ?thesis by (simp add: justified_def)
  next
    case (RemoteEvent re)
    have "?X k (ReporterID (re_Event re)) \<and> ?Y (reemitted (N i) (re_Event re))" if "accepted (D i) (N i) re k" for k
    proof -
      have own: "own_report (N j) (?h j) (IP (re_Event re))" if "ReporterID (re_Event re) = nd_selfID (N j)" for j
        using accepted_own [OF inv ev [OF RemoteEvent] \<open>accepted (D i) (N i) re k\<close> that] grows
        by (rule own_report_mono)
      moreover have "NormalizeIP (IP (re_Event re)) (EffectiveIPv6Prefix (Reputation (nd_cfg (N i)))) = Inr k"
        using that by (simp add: accepted_def admissible_def)
      ultimately show ?thesis
        by (auto simp: net_names_def net_sends_def reemitted_def simp del: fun_upd_apply)
    qed
    with RemoteEvent show ?thesis by (simp add: justified_def)
  qed (simp_all add: justified_def net_sends_def)
  note just = preservesD [OF handle_names [OF badger this]] preservesD [OF handle_sends [OF this]]
  show ?thesis
    using inv' just unfolding net_inv_def by (simp del: fun_upd_apply add: fun_upd_def)
qed

lemma net_inv_run:
  assumes "net_run D N s0 h s" "net_inv D view N (\<lambda>_. []) s0" "\<And>i. badger_backend (dp_backend (D i)) (view i)"
    and "inj (\<lambda>i. nd_selfID (N i))"
  shows "net_inv D view N h s"
  using assms(1)
proof (induction rule: net_run.induct)
  case (net_event h s ev i w)
  from net_event.IH net_event.hyps(3) show ?case by (rule net_inv_event [OF _ assms(3,4)])
qed (rule assms(2))

section \<open>An example network\<close>

text \<open>Ana and Bob run nodes; Eve relays.\<close>

definition net_node :: "bool \<Rightarrow> string Node" where
  "net_node b = (if b then ex_bridge\<lparr>nd_selfID := ''12D3ana'', nd_identityKey := Some ''ana''\<rparr>
     else ex_bridge\<lparr>nd_selfID := ''12D3bob'', nd_identityKey := Some ''bob''\<rparr>)"

definition ana_saw :: Event where
  "ana_saw = zero_Event\<lparr>IP := ''10.0.0.0'', Reason := ''ssh-bruteforce'', Timestamp := 20\<rparr>"

definition eve_relays :: ReceivedEvent where
  "eve_relays = \<lparr>re_Event = (stamp_local ex_deps (net_node True) ana_saw)\<lparr>OriginTrace := [''12D3ana'', ''eve'']\<rparr>,
     From = ''eve'', Subnet = ''''\<rparr>"

lemma ana_stamped:
  "stamp_local ex_deps (net_node True) ana_saw =
     ana_saw\<lparr>ReporterID := ''12D3ana'', OriginTrace := [''12D3ana''],
       Signature := ''sana'' @ eventMessage (ana_saw\<lparr>ReporterID := ''12D3ana''\<rparr>)\<rparr>"
  by (simp add: stamp_local_def net_node_def ex_bridge_def ana_saw_def zero_Event_def Defaults_def SignEvent_def
      ex_deps_def plain_libp2p_def signedMessage_def eventMessage_def)

lemma eve_relays_authentic: "authentic ex_deps eve_relays"
  unfolding authentic_def eve_relays_def ana_stamped
  by (simp add: VerifyEventSig_def ex_deps_def plain_libp2p_def ana_saw_def zero_Event_def HasPrefix_def
      TrimPrefix_def signedMessage_def eventMessage_def)

text \<open>A new report that the engine can store is counted.\<close>

lemma bob_guards:
  "\<not> over_budget (ex_world 30) ex_state" "\<not> peer_blocked ex_deps (ex_world 30) ex_state ''eve''"
  "admissible (net_node False) (re_Event eve_relays) ''10.0.0.0''"
proof -
  show "\<not> over_budget (ex_world 30) ex_state" by (rule ex_guards(2))
  show "\<not> peer_blocked ex_deps (ex_world 30) ex_state ''eve''" by (rule ex_guards(3))
  show "admissible (net_node False) (re_Event eve_relays) ''10.0.0.0''"
    unfolding eve_relays_def ana_stamped
    by (simp add: admissible_def net_node_def ex_bridge_def ana_saw_def zero_Event_def ex_prefix private_example
        allow_listed_def nbl_Contains_def wl_Contains_def maxOriginTraceLen_def EffectiveIPv6Prefix_def Defaults_def)
qed

lemma bob_starts: "exec (handle ex_deps w (net_node b) Startup) ex_state = ex_state"
  by (simp add: handle_def run_start_def publishSharedVotes_def net_node_def ex_bridge_def wl_List_def unless_def)

lemma net_node_prefix: "EffectiveIPv6Prefix (Reputation (nd_cfg (net_node b))) = EffectiveIPv6Prefix (Reputation Defaults)"
  by (simp add: net_node_def ex_bridge_def Defaults_def EffectiveIPv6Prefix_def)

lemma eve_delivers:
  assumes "(w, LocalEvent ana_saw) \<in> set (h True)"
  shows "deliverable (\<lambda>_. ex_deps) net_node h s i eve_relays"
proof -
  have ip: "NormalizeIP (IP ana_saw) (EffectiveIPv6Prefix (Reputation (nd_cfg (net_node True)))) = Inr ''10.0.0.0''"
    by (simp add: net_node_prefix ana_saw_def zero_Event_def private_example ex_prefix)
  have allow: "\<not> allow_listed (net_node True) ''10.0.0.0''"
    by (simp add: net_node_def ex_bridge_def allow_listed_def nbl_Contains_def wl_Contains_def private_example)
  have m: "signedMessage (re_Event eve_relays) = signedMessage (stamp_local ex_deps (net_node True) (ana_saw\<lparr>IP := ''10.0.0.0''\<rparr>))"
  proof -
    have "ana_saw\<lparr>IP := ''10.0.0.0''\<rparr> = ana_saw" by (simp add: ana_saw_def)
    then show ?thesis by (simp add: eve_relays_def signedMessage_def voteMessage_def eventMessage_def)
  qed
  have "has_signed ex_deps (net_node True) (h True) (signedMessage (re_Event eve_relays))"
    unfolding has_signed_def using assms ip allow m by blast
  moreover have "From eve_relays \<noteq> nd_selfID (net_node j)" for j by (simp add: eve_relays_def net_node_def)
  moreover have "j = True" if "ReporterID (re_Event eve_relays) = nd_selfID (net_node j)" for j
    using that by (cases j) (simp_all add: eve_relays_def net_node_def)
  ultimately show ?thesis unfolding deliverable_def by blast
qed

text \<open>Bob counts what Eve relays in Ana's name.\<close>

lemma bob_names_ana:
  "\<exists>r. GetScore mem_backend (st_store (exec (handle ex_deps (ex_world 30) (net_node False) (RemoteEvent eve_relays)) ex_state))
     30 ''10.0.0.0'' = Inr r \<and> ''12D3ana'' \<in> set (ReporterIDs r)"
proof -
  let ?w = "ex_world 30" and ?n = "net_node False"
  let ?e = "(re_Event eve_relays)\<lparr>IP := ''10.0.0.0''\<rparr>"
  let ?s1 = "exec (is_blocked ex_deps ?w (From eve_relays)) (exec (shed ?w) (exec (charge ?w) ex_state))"
  let ?s2 = "exec (remote_report ex_deps ?w ?n eve_relays ?e) ?s1"
  have L: "dp_backend ex_deps = mem_backend" and now: "w_now ?w = 30" by (simp_all add: ex_deps_def ex_world_def)
  have e: "Kind ?e \<noteq> ''vote''" "Vouch ?e = None" "IP ?e = ''10.0.0.0''" "ReporterID ?e = ''12D3ana''"
    unfolding eve_relays_def ana_stamped by (simp_all add: ana_saw_def zero_Event_def)
  have s1: "st_store ?s1 = mem_empty" "st_dedup ?s1 = newDedupCache 100 minute"
    using guards_same(2) [of ex_state ex_deps ?w "From eve_relays"] by (simp_all add: same_records_def ex_state_def)
  have fresh: "\<not> duplicate ?w ?s1 ?e" by (rule fresh_not_duplicate) (simp only: s1, simp add: newDedupCache_def)
  have "attributed ex_deps ?w ?n ?e (st_store ?s1) (st_store ?s2) (st_trust ?s2)"
    by (rule report_counts [OF e(1) fresh]) (simp only: L, metis mem_Record)
  then obtain weight grp anchored x where rec: "Record mem_backend (nd_rep ?n) mem_empty 30 ''10.0.0.0'' (Reason ?e)
      ''12D3ana'' weight grp (SubnetID ?e) anchored = Inr (x, st_store ?s2)"
    unfolding attributed_def s1 L now e(3,4) using e(1) by (auto split: prod.splits)
  have "exec (handle ex_deps ?w ?n (RemoteEvent eve_relays)) ex_state
      = exec (observe (\<lambda>ob. RecordFederated ob ''in'')) ?s2"
    using ProcessRemote_admits [OF eve_relays_authentic bob_guards(1) _ bob_guards(3)] bob_guards(2) e(1)
    by (simp add: handle_def handle_remote_def admitted_body_def Let_def eve_relays_def)
  then have s: "st_store (exec (handle ex_deps ?w ?n (RemoteEvent eve_relays)) ex_state) = st_store ?s2"
    by (simp add: observe_def)
  have half: "0 < eng_halfLife (nd_rep ?n)" by (simp add: net_node_def ex_bridge_def example_engine_def go_simps)
  obtain r where r: "GetScore mem_backend (st_store ?s2) 30 ''10.0.0.0'' = Inr r" using mem_GetScore by blast
  obtain r0 where "GetScore mem_backend mem_empty 30 ''10.0.0.0'' = Inr r0" using mem_GetScore by blast
  from mem.Record_then_get [OF mem_empty_ok this rec _ r [folded GetRecord_def]] half
  have "''12D3ana'' \<in> set (ReporterIDs r)" by (simp add: Accumulate_names)
  with r s show ?thesis by auto
qed

section \<open>Property\<close>

text \<open>
  C3. Nobody is framed. In a network of any number of nodes, with anybody else publishing, relaying
  and replaying what they like, a node's record names another node (or itself) as reporter of a
  key only if that node itself handled a local event for that address which its own lists do not
  exempt. gossipsub and Ed25519 are assumed to keep publishers and signers apart
  (\<open>deliverable\<close>); \<open>view\<close> is the content of each node's database.
\<close>

theorem nobody_framed:
  assumes "net_run D N s0 h s" "\<forall>i. badger_backend (dp_backend (D i)) (view i)" "inj (\<lambda>i. nd_selfID (N i))"
    and "\<forall>i. st_out (s0 i) = [] \<and>
      (\<forall>k. view i (db (st_store (s0 i))) k \<noteq> None \<longrightarrow> bf_test (dp_backend (D i)) (bloom (st_store (s0 i))) k) \<and>
      (\<forall>k r t j. view i (db (st_store (s0 i))) k = Some (r, t) \<longrightarrow> nd_selfID (N j) \<notin> set (ReporterIDs r))"
    and "GetScore (dp_backend (D i)) (st_store (s i)) now key = Inr r" "nd_selfID (N j) \<in> set (ReporterIDs r)"
  shows "\<exists>w e k. (w, LocalEvent e) \<in> set (h j) \<and>
    NormalizeIP (IP e) (EffectiveIPv6Prefix (Reputation (nd_cfg (N j)))) = Inr k \<and>
    \<not> nbl_Contains (nd_neverblock (N j)) k \<and> \<not> wl_Contains (nd_whitelist (N j)) k \<and>
    NormalizeIP k (EffectiveIPv6Prefix (Reputation (nd_cfg (N i)))) = Inr key"
proof -
  have "rec_names (dp_backend (D i)) (view i) (net_names N (\<lambda>_. []) i) (st_store (s0 i))" for i
    using assms(4) unfolding rec_names_def net_names_def by blast
  with assms(4) have "net_inv D view N (\<lambda>_. []) s0" by (simp add: net_inv_def books_def effects_in_def)
  from net_inv_run [OF assms(1) this _ assms(3)] assms(2) have inv: "net_inv D view N h s" by blast
  then have names: "rec_names (dp_backend (D i)) (view i) (net_names N h i) (st_store (s i))"
    by (simp add: net_inv_def books_def)
  have "net_names N h i key (nd_selfID (N j))"
    using badger_backend.rec_names_get [OF _ names assms(5,6)] assms(2) by blast
  then show ?thesis unfolding net_names_def own_report_def allow_listed_def by blast
qed

theorem nobody_framed_witness:
  "\<exists>h s r. net_run (\<lambda>_. ex_deps) net_node (\<lambda>_. ex_state) h s \<and>
    GetScore mem_backend (st_store (s False)) 30 ''10.0.0.0'' = Inr r \<and> ''12D3ana'' \<in> set (ReporterIDs r) \<and>
    (\<exists>w e k. (w, LocalEvent e) \<in> set (h True) \<and>
      NormalizeIP k (EffectiveIPv6Prefix (Reputation Defaults)) = Inr ''10.0.0.0'')"
proof -
  let ?D = "\<lambda>_ :: bool. ex_deps" and ?s0 = "\<lambda>_ :: bool. ex_state" and ?w = "ex_world 30"
  define s1 where "s1 = ?s0(True := exec (handle ex_deps ?w (net_node True) (LocalEvent ana_saw)) ex_state)"
  define h1 where "h1 = (\<lambda>b. if b then [(?w, Startup), (?w, LocalEvent ana_saw)] else [(?w, Startup)])"
  define s2 where "s2 = s1(False := exec (handle ex_deps ?w (net_node False) (RemoteEvent eve_relays)) ex_state)"
  let ?h2 = "h1(False := h1 False @ [(?w, RemoteEvent eve_relays)])"
  have start: "net_run ?D net_node ?s0 (\<lambda>_. [(?w, Startup)]) ?s0"
  proof -
    have "net_run ?D net_node ?s0 ((\<lambda>_. [])(True := [(?w, Startup)])) ?s0"
      using net_run.net_event [OF net_run.net_begin, where ev = Startup and i = True and w = ?w and D = ?D and N = net_node and s0 = ?s0]
      by (simp add: bob_starts fun_upd_idem)
    from net_run.net_event [OF this, where ev = Startup and i = False and w = ?w] show ?thesis
      by (simp add: bob_starts fun_upd_idem fun_upd_def if_distrib cong: if_cong)
  qed
  have run1: "net_run ?D net_node ?s0 h1 s1"
    using net_run.net_event [OF start, where ev = "LocalEvent ana_saw" and i = True and w = ?w]
    by (simp add: s1_def h1_def fun_upd_def if_distrib cong: if_cong)
  have "deliverable ?D net_node h1 s1 False eve_relays" by (rule eve_delivers) (simp add: h1_def)
  then have run2: "net_run ?D net_node ?s0 ?h2 s2"
    using net_run.net_event [OF run1, where ev = "RemoteEvent eve_relays" and i = False and w = ?w]
    by (simp add: s2_def s1_def h1_def)
  obtain r where r: "GetScore mem_backend (st_store (s2 False)) 30 ''10.0.0.0'' = Inr r" "''12D3ana'' \<in> set (ReporterIDs r)"
    using bob_names_ana by (auto simp: s2_def)
  have "\<exists>w e k. (w, LocalEvent e) \<in> set (?h2 True) \<and>
    NormalizeIP (IP e) (EffectiveIPv6Prefix (Reputation (nd_cfg (net_node True)))) = Inr k \<and>
    \<not> nbl_Contains (nd_neverblock (net_node True)) k \<and> \<not> wl_Contains (nd_whitelist (net_node True)) k \<and>
    NormalizeIP k (EffectiveIPv6Prefix (Reputation (nd_cfg (net_node False)))) = Inr ''10.0.0.0''"
    by (rule nobody_framed [OF run2, where view = "\<lambda>_. map_of" and now = 30 and r = r])
      (use r in \<open>simp_all add: net_node_def inj_def ex_state_def mem_empty_def ex_deps_def mem.badger_backend_axioms\<close>)
  then have "\<exists>w e k. (w, LocalEvent e) \<in> set (?h2 True) \<and>
      NormalizeIP k (EffectiveIPv6Prefix (Reputation Defaults)) = Inr ''10.0.0.0''"
    by (auto simp: net_node_prefix)
  with run2 r show ?thesis by blast
qed

end
