(* ===== verification/Firewall.thy ===== *)
theory Firewall
  imports Node_Exchange
begin

text \<open>
  The node and its firewall together: \<open>internal/node/node.go\<close> over the interface
  \<open>internal/enforce/plugin.go\<close>. Whatever the handlers do, the state of the firewall is the one that
  the recorded calls lead to, so that what \<open>Node_Safety\<close> shows of the calls becomes a statement about
  the addresses the firewall denies, for every sink that keeps the contract \<open>deny_sink\<close>.
\<close>

section \<open>The calls a node made, replayed on the firewall\<close>

inductive replayed :: "'k sink_ops \<Rightarrow> 'k \<Rightarrow> effect list \<Rightarrow> 'k \<Rightarrow> bool" for S k0 where
  replay_nil: "replayed S k0 [] k0"
| replay_block: "replayed S k0 es k \<Longrightarrow> sink_Block S now k ip = (r, k') \<Longrightarrow> replayed S k0 (es @ [Blocked ip]) k'"
| replay_block_for: "replayed S k0 es k \<Longrightarrow> sink_BlockFor S now k ip ttl = (r, k')
    \<Longrightarrow> replayed S k0 (es @ [BlockedFor ip ttl]) k'"
| replay_unblock: "replayed S k0 es k \<Longrightarrow> sink_Unblock S now k ip = (r, k') \<Longrightarrow> replayed S k0 (es @ [Unblocked ip]) k'"
| replay_published: "replayed S k0 es k \<Longrightarrow> replayed S k0 (es @ [Published e subnet]) k"
| replay_announced: "replayed S k0 es k \<Longrightarrow> replayed S k0 (es @ [Announced ip score reason rid]) k"

definition traced ::
  "('db, 'bf, 'sk, 'pid, 'pk, 'k) deps \<Rightarrow> 'k \<Rightarrow> ('db, 'bf, 'k) node_state \<Rightarrow> bool" where
  "traced D k0 s \<longleftrightarrow> replayed (dp_sink D) k0 (st_out s) (st_sink s)"

text \<open>Only the three calls on the sink touch the firewall, and each records itself.\<close>

lemma traced_calls [preserves_rules]:
  "preserves (traced D k0) (charge w)" "preserves (traced D k0) (shed w)" "preserves (traced D k0) (rate w)"
  "preserves (traced D k0) (observe f)" "preserves (traced D k0) (is_blocked D' w p)"
  "preserves (traced D k0) (resolve D' w p)" "preserves (traced D k0) (add_cert D' w c)"
  "preserves (traced D k0) (seen w e)" "preserves (traced D k0) (get_record D' w ip)"
  "preserves (traced D k0) (burst_add w e)" "preserves (traced D k0) (evaluate w e rec)"
  "preserves (traced D k0) (record_report D' w n ip reason rid weight grp subnet anchored)"
  "preserves (traced D k0) (record_dispute D' w n ip rid weight subnet anchored)"
  by (simp_all add: preserves_def traced_def call_defs exec_def Let_def split: prod.split sum.split)

lemma traced_emit [preserves_rules]:
  "preserves (traced D k0) (emit (Published e subnet))" "preserves (traced D k0) (emit (Announced ip score reason rid))"
  by (simp_all add: preserves_def traced_def emit_def replay_published replay_announced)

lemma traced_sink [preserves_rules]:
  "preserves (traced D k0) (sink_block D w ip)" "preserves (traced D k0) (sink_block_for D w ip ttl)"
  "preserves (traced D k0) (sink_unblock D w ip)"
  by (auto simp: preserves_def traced_def sink_defs sink_call_def exec_def Let_def split: prod.split
      intro: replayed.intros)

lemma traced_publish [preserves_rules]: "preserves (traced D k0) (publish w t e subnet)"
  unfolding publish_def by (intro preserves_rules)

lemma traced_modify: "(\<And>s. st_out (g s) = st_out s \<and> st_sink (g s) = st_sink s) \<Longrightarrow> preserves (traced D k0) (modify g)"
  by (simp add: preserves_def traced_def)

lemma traced_local: "preserves (traced D k0) (processLocal D w n e)"
  unfolding processLocal_def local_report_def act_on_def by (intro preserves_rules)

lemma traced_remote: "preserves (traced D k0) (ProcessRemote D w n re)"
  unfolding ProcessRemote_def remote_report_def act_on_def reemitIfBridge_def processDispute_def
    maybeUnblockDisputed_def Let_def
  by (intro preserves_rules traced_modify) simp_all

lemma traced_start: "preserves (traced D k0) (run_start D w n)"
  unfolding run_start_def publishSharedVotes_def by (intro preserves_rules)

lemma traced_decay: "preserves (traced D k0) (decay_one D w n ip)"
  unfolding decay_one_def
  by (intro preserves_rules) (simp_all add: preserves_def traced_def exec_def split: sum.split)

lemma traced_materialise: "preserves (traced D k0) (materialiseFederated D w n ip rec subnets)"
  unfolding materialiseFederated_def materialise_commit_def by (intro preserves_rules traced_modify) simp_all

lemma node_query_sink: "st_sink (snd (node_query w s ip)) = st_sink s"
  by (simp add: node_query_def Let_def split: option.split prod.split)

lemma traced_lookup: "preserves (traced D k0) (point_lookup D w n ip)"
proof (rule preserves_lookup)
  show "preserves (traced D k0) (resolver_shed w)" unfolding resolver_shed_def by (intro preserves_rules)
qed (simp_all add: traced_materialise traced_def node_query_sink)

lemma handle_traced: "preserves (traced D k0) (handle D w n ev)"
proof (cases ev)
  case (Lookup ip)
  then show ?thesis using traced_lookup by (simp add: handle_def) (intro preserves_rules)
next
  case (RemoteEvent re)
  then show ?thesis by (simp add: handle_def handle_remote_def) (intro preserves_rules traced_remote)
next
  case (GaugeTick p)
  then show ?thesis by (simp add: handle_def gauge_tick_def) (intro preserves_rules)
qed (simp_all add: handle_def traced_start traced_local preserves_runDecay traced_decay)

lemma node_run_traced:
  assumes "New D I k cfg t = Inr (n, s0)" "node_run D n s0 evs s"
  shows "replayed (dp_sink D) k (st_out s) (st_sink s)"
proof -
  have "st_out s0 = []" "st_sink s0 = k"
    using assms(1) by (auto simp: New_def Let_def split: sum.splits option.splits)
  then have "traced D k s0" by (simp add: traced_def replay_nil)
  from node_run_invariant [OF assms(2) handle_traced this] show ?thesis by (simp add: traced_def)
qed

section \<open>What the firewall denies\<close>

text \<open>At every reading of the clock the operations keep the contract of a sink.\<close>

definition lawful_sink :: "'k sink_ops \<Rightarrow> ('k \<Rightarrow> string \<Rightarrow> bool) \<Rightarrow> bool" where
  "lawful_sink S denied \<longleftrightarrow> (\<forall>now. deny_sink (sink_Block S now) (sink_BlockFor S now) (sink_Unblock S now) denied)"

lemma lawful_frame:
  assumes "lawful_sink S denied"
  shows "sink_Block S now k ip = (r, k') \<Longrightarrow> j \<noteq> ip \<Longrightarrow> denied k' j = denied k j"
    and "sink_BlockFor S now k ip ttl = (r, k') \<Longrightarrow> j \<noteq> ip \<Longrightarrow> denied k' j = denied k j"
    and "sink_Unblock S now k ip = (r, k') \<Longrightarrow> j \<noteq> ip \<Longrightarrow> denied k' j = denied k j"
    and "sink_Unblock S now k ip = (None, k') \<Longrightarrow> \<not> denied k' ip"
    and "sink_Unblock S now k ip = (r, k') \<Longrightarrow> denied k' ip \<Longrightarrow> denied k ip"
  using assms deny_sink.block_other deny_sink.blockFor_other deny_sink.unblock_other deny_sink.unblock_allows
    deny_sink.unblock_keeps
  unfolding lawful_sink_def by metis+

text \<open>An address is denied only if it was before or the node asked for it.\<close>

lemma replayed_denied:
  assumes "lawful_sink S denied" "replayed S k0 es k" "denied k ip" "\<not> denied k0 ip"
  shows "Blocked ip \<in> set es \<or> (\<exists>ttl. BlockedFor ip ttl \<in> set es)"
  using assms(2,3)
proof (induction rule: replayed.induct)
  case (replay_unblock es k now j r k')
  have "denied k ip" using lawful_frame(3,5) [OF assms(1) replay_unblock.hyps(2)] replay_unblock.prems by (cases "ip = j") auto
  with replay_unblock.IH show ?case by auto
next
  case (replay_block es k now j r k')
  then show ?case using lawful_frame(1) [OF assms(1) replay_block.hyps(2)] by (cases "ip = j") auto
next
  case (replay_block_for es k now j ttl r k')
  then show ?case using lawful_frame(2) [OF assms(1) replay_block_for.hyps(2)] by (cases "ip = j") auto
qed (use assms(4) in auto)

text \<open>An address no call names keeps its state.\<close>

fun names_address :: "string \<Rightarrow> effect \<Rightarrow> bool" where
  "names_address ip (Blocked a) \<longleftrightarrow> a = ip"
| "names_address ip (BlockedFor a ttl) \<longleftrightarrow> a = ip"
| "names_address ip (Unblocked a) \<longleftrightarrow> a = ip"
| "names_address ip _ \<longleftrightarrow> False"

lemma replayed_frame:
  assumes "lawful_sink S denied" "replayed S k0 es k" "\<not> list_ex (names_address ip) es"
  shows "denied k ip = denied k0 ip"
  using assms(2,3) lawful_frame [OF assms(1)] by (induction rule: replayed.induct) auto

section \<open>One pass of decay\<close>

text \<open>
  A pass over a database whose every operation succeeds, with a firewall that lifts every block it
  is asked to lift. What the pass makes of a record, and when it lifts a block.
\<close>

definition nothing_fails :: "('db, 'bf, 'sk, 'pid, 'pk, 'k) deps \<Rightarrow> bool" where
  "nothing_fails D \<longleftrightarrow>
     (\<forall>d now ip e. db_get (dp_backend D) d now ip \<noteq> Inl e) \<and>
     (\<forall>d now ip rec ttl e. db_set (dp_backend D) d now ip rec ttl \<noteq> Inl e) \<and>
     (\<forall>d now ip e. (ip, Inl e) \<notin> set (db_items (dp_backend D) d now)) \<and>
     (\<forall>now k ip. fst (sink_Unblock (dp_sink D) now k ip) = None)"

definition decayed_score :: "Engine \<Rightarrow> time \<Rightarrow> ScoreRecord \<Rightarrow> real" where
  "decayed_score e now rec =
     (if LastSeen rec = 0 then 0 else DecayScore (Score rec) (LastSeen rec) now (eng_halfLife e))"

fun entry_after :: "Engine \<Rightarrow> time \<Rightarrow> (ScoreRecord \<times> time) option \<Rightarrow> ScoreRecord option \<Rightarrow> (ScoreRecord \<times> time) option" where
  "entry_after e now old None = old"
| "entry_after e now old (Some rec) =
     (if LastSeen rec = 0 then old else Some (rec\<lparr>Score := decayed_score e now rec\<rparr>, now + 3 * eng_halfLife e))"

fun falls_below :: "'sk Node \<Rightarrow> time \<Rightarrow> ScoreRecord option \<Rightarrow> bool" where
  "falls_below n now None \<longleftrightarrow> False"
| "falls_below n now (Some rec) \<longleftrightarrow> decayed_score (nd_rep n) now rec < UnblockThreshold (Reputation (nd_cfg n))"

lemma store_succeeds:
  assumes "nothing_fails D"
  shows "\<exists>rec. GetScore (dp_backend D) bs now ip = Inr rec" and "\<exists>bs'. PutScore (dp_backend D) bs now ip rec ttl = Inr bs'"
proof -
  obtain x d where "db_get (dp_backend D) (db bs) now ip = Inr x" "db_set (dp_backend D) (db bs) now ip rec ttl = Inr d"
    using assms unfolding nothing_fails_def by (metis sum.exhaust)
  then show "\<exists>rec. GetScore (dp_backend D) bs now ip = Inr rec" "\<exists>bs'. PutScore (dp_backend D) bs now ip rec ttl = Inr bs'"
    by (cases x, simp_all add: GetScore_def PutScore_def)
qed

text \<open>The engine's \<open>Decay\<close> on a record the store holds.\<close>

lemma Decay_live:
  assumes B: "badger_backend (dp_backend D) view" and cov: "badger_backend.bloom_covers (dp_backend D) view bs"
    and fine: "nothing_fails D" and rec: "live (view (db bs)) now ip = Some rec"
  obtains bs' where "Decay (dp_backend D) e bs now ip = Inr (decayed_score e now rec, bs')"
    and "badger_backend.bloom_covers (dp_backend D) view bs'"
    and "view (db bs') = (view (db bs)) (ip := entry_after e now (view (db bs) ip) (Some rec))"
proof -
  obtain r where r: "GetScore (dp_backend D) bs now ip = Inr r" using store_succeeds(1) [OF fine] by blast
  from badger_backend.GetScore_correct [OF B cov r] rec r have get: "GetScore (dp_backend D) bs now ip = Inr rec" by simp
  show thesis
  proof (cases "LastSeen rec = 0")
    case True
    then show thesis using get cov by (intro that [of bs]) (simp_all add: Decay_def decayed_score_def go_simps)
  next
    case False
    let ?rec = "rec\<lparr>Score := decayed_score e now rec\<rparr>"
    obtain bs' where put: "PutScore (dp_backend D) bs now ip ?rec (3 * eng_halfLife e) = Inr bs'"
      using store_succeeds(2) [OF fine] by blast
    have "Decay (dp_backend D) e bs now ip = Inr (decayed_score e now rec, bs')"
      using get put False by (simp add: Decay_def decayed_score_def go_simps)
    then show thesis
      using badger_backend.PutScore_bloom [OF B cov put] badger_backend.PutScore_view [OF B put] False
      by (intro that [of bs']) simp_all
  qed
qed

text \<open>One item of the scan.\<close>

lemma unblock_effect:
  assumes "lawful_sink (dp_sink D) denied" "nothing_fails D"
  shows "denied (st_sink (exec (sink_unblock D w ip) s)) j = (denied (st_sink s) j \<and> j \<noteq> ip)"
    and "st_store (exec (sink_unblock D w ip) s) = st_store s"
    and "st_materialised (exec (sink_unblock D w ip) s) = st_materialised s"
    and "fst (run_state (sink_unblock D w ip) s)"
proof -
  obtain k where k: "sink_Unblock (dp_sink D) (w_now w) (st_sink s) ip = (None, k)"
    using assms(2) by (metis nothing_fails_def prod.collapse)
  then show "denied (st_sink (exec (sink_unblock D w ip) s)) j = (denied (st_sink s) j \<and> j \<noteq> ip)"
    using lawful_frame(3,4) [OF assms(1) k] by (cases "j = ip") (simp_all add: sink_defs sink_call_def exec_def)
  from k show "st_store (exec (sink_unblock D w ip) s) = st_store s"
    "st_materialised (exec (sink_unblock D w ip) s) = st_materialised s"
    "fst (run_state (sink_unblock D w ip) s)"
    by (simp_all add: sink_defs sink_call_def exec_def)
qed

lemma observe_frame [simp]:
  "st_store (exec (observe f) s) = st_store s" "st_sink (exec (observe f) s) = st_sink s"
  "st_materialised (exec (observe f) s) = st_materialised s"
  by (simp_all add: observe_def)

lemma decay_one_effect:
  assumes B: "badger_backend (dp_backend D) view" and cov: "badger_backend.bloom_covers (dp_backend D) view (st_store s)"
    and law: "lawful_sink (dp_sink D) denied" and fine: "nothing_fails D"
    and rec: "live (view (db (st_store s))) (w_now w) ip = Some rec"
    and s': "s' = exec (decay_one D w n ip) s"
  shows "badger_backend.bloom_covers (dp_backend D) view (st_store s') \<and> st_materialised s' = st_materialised s \<and>
    view (db (st_store s')) = (view (db (st_store s)))
      (ip := entry_after (nd_rep n) (w_now w) (view (db (st_store s)) ip) (Some rec)) \<and>
    (\<forall>j. denied (st_sink s') j = (denied (st_sink s) j \<and> \<not> (j = ip \<and> falls_below n (w_now w) (Some rec))))"
proof -
  obtain bs where D: "Decay (dp_backend D) (nd_rep n) (st_store s) (w_now w) ip =
      Inr (decayed_score (nd_rep n) (w_now w) rec, bs)"
    and bs: "badger_backend.bloom_covers (dp_backend D) view bs"
      "view (db bs) = (view (db (st_store s)))
        (ip := entry_after (nd_rep n) (w_now w) (view (db (st_store s)) ip) (Some rec))"
    by (rule Decay_live [OF B cov fine rec])
  have "s' = (if falls_below n (w_now w) (Some rec)
      then exec (do { done \<leftarrow> sink_unblock D w ip;
        unless (\<not> done) (observe (\<lambda>ob. RecordUnblock (w_db w) ob (w_now w) ip)) }) (s\<lparr>st_store := bs\<rparr>)
      else s\<lparr>st_store := bs\<rparr>)"
    by (simp add: s' decay_one_def D exec_def unless_def)
  then show ?thesis
    using bs unblock_effect [OF law fine] by (auto simp del: falls_below.simps)
qed

text \<open>A scan over the items, one per address, that the store held when it began.\<close>

abbreviation decay_item where
  "decay_item D w n \<equiv> \<lambda>ip _ s. (None, exec (decay_one D w n ip) s)"

lemma scan_decay_effect:
  assumes B: "badger_backend (dp_backend D) view" and law: "lawful_sink (dp_sink D) denied" and fine: "nothing_fails D"
    and "badger_backend.bloom_covers (dp_backend D) view (st_store s)" and "distinct (keys recs)"
    and "\<And>ip rec. (ip, rec) \<in> set recs \<Longrightarrow> live (view (db (st_store s))) (w_now w) ip = Some rec"
    and "s' = snd (scan_items (decay_item D w n) (map (\<lambda>(ip, rec). (ip, Inr rec)) recs) s)"
  shows "badger_backend.bloom_covers (dp_backend D) view (st_store s') \<and> st_materialised s' = st_materialised s \<and>
    view (db (st_store s')) = (\<lambda>ip. entry_after (nd_rep n) (w_now w) (view (db (st_store s)) ip) (map_of recs ip)) \<and>
    (\<forall>ip. denied (st_sink s') ip = (denied (st_sink s) ip \<and> \<not> falls_below n (w_now w) (map_of recs ip)))"
  using assms(4-)
proof (induction recs arbitrary: s)
  case Nil
  then show ?case by simp
next
  case (Cons p recs)
  obtain ip rec where p: "p = (ip, rec)" by fastforce
  let ?s = "exec (decay_one D w n ip) s"
  have now: "live (view (db (st_store s))) (w_now w) ip = Some rec" using Cons.prems(3) p by simp
  note one = decay_one_effect [OF B Cons.prems(1) law fine now refl, of n]
  have new: "ip \<notin> fst ` set recs" using Cons.prems(2) p by simp
  then have "live (view (db (st_store ?s))) (w_now w) j = Some r" if "(j, r) \<in> set recs" for j r
  proof -
    have "j \<noteq> ip" using that new by force
    with one Cons.prems(3) [of j r] that show ?thesis by (simp add: live_def)
  qed
  from Cons.IH [OF _ _ this] one Cons.prems(2,4) p
  have ih: "badger_backend.bloom_covers (dp_backend D) view (st_store s') \<and> st_materialised s' = st_materialised ?s \<and>
    view (db (st_store s')) = (\<lambda>j. entry_after (nd_rep n) (w_now w) (view (db (st_store ?s)) j) (map_of recs j)) \<and>
    (\<forall>j. denied (st_sink s') j = (denied (st_sink ?s) j \<and> \<not> falls_below n (w_now w) (map_of recs j)))"
    by simp
  have gone: "map_of recs ip = None" using new by (simp add: map_of_eq_None_iff)
  from one ih gone show ?case
    by (auto simp: p fun_eq_iff simp del: falls_below.simps(2) entry_after.simps(2))
qed

text \<open>The items are the records that have not expired.\<close>

lemma items_are_live:
  assumes B: "badger_backend (dp_backend D) view" and fine: "nothing_fails D"
  obtains recs where "db_items (dp_backend D) d now = map (\<lambda>(ip, rec). (ip, Inr rec)) recs"
    and "distinct (keys recs)" and "map_of recs = live (view d) now"
proof
  let ?items = "db_items (dp_backend D) d now"
  let ?recs = "map (\<lambda>(ip, x). (ip, projr x)) ?items"
  have ok: "\<exists>rec. x = Inr rec" if "(ip, x) \<in> set ?items" for ip x
    using fine that by (cases x) (auto simp: nothing_fails_def)
  show items: "?items = map (\<lambda>(ip, rec). (ip, Inr rec)) ?recs"
    by (rule sym, simp, rule map_idI) (use ok in \<open>fastforce simp: case_prod_beta\<close>)
  have "keys ?recs = keys ?items" by (simp add: case_prod_beta comp_def)
  then show dist: "distinct (keys ?recs)" by (simp only: badger_backend.backend_items_distinct [OF B])
  have mem: "(ip, rec) \<in> set ?recs \<Longrightarrow> live (view d) now ip = Some rec" for ip rec
    using badger_backend.backend_items [OF B] ok by fastforce
  show "map_of ?recs = live (view d) now"
  proof
    fix ip
    show "map_of ?recs ip = live (view d) now ip"
    proof (cases "map_of ?recs ip")
      case None
      then have "ip \<notin> fst ` set ?items" by (auto simp: map_of_eq_None_iff image_iff)
      with None show ?thesis using badger_backend.backend_items_all [OF B] by metis
    next
      case (Some rec)
      with mem [OF map_of_SomeD [OF Some]] show ?thesis by simp
    qed
  qed
qed

lemma runDecay_effect:
  assumes B: "badger_backend (dp_backend D) view" and law: "lawful_sink (dp_sink D) denied" and fine: "nothing_fails D"
    and cov: "badger_backend.bloom_covers (dp_backend D) view (st_store s)"
    and s': "s' = exec (runDecay D w n) s"
  shows "badger_backend.bloom_covers (dp_backend D) view (st_store s') \<and> st_materialised s' = st_materialised s \<and>
    view (db (st_store s')) = (\<lambda>ip. entry_after (nd_rep n) (w_now w) (view (db (st_store s)) ip)
      (live (view (db (st_store s))) (w_now w) ip)) \<and>
    (\<forall>ip. denied (st_sink s') ip = (denied (st_sink s) ip \<and>
      \<not> falls_below n (w_now w) (live (view (db (st_store s))) (w_now w) ip)))"
proof -
  obtain recs where recs: "db_items (dp_backend D) (db (st_store s)) (w_now w) = map (\<lambda>(ip, rec). (ip, Inr rec)) recs"
    "distinct (keys recs)" "map_of recs = live (view (db (st_store s))) (w_now w)"
    by (rule items_are_live [OF B fine])
  have "live (view (db (st_store s))) (w_now w) ip = Some rec" if "(ip, rec) \<in> set recs" for ip rec
    using that recs(2,3) by (metis map_of_is_SomeI)
  from scan_decay_effect [OF B law fine cov recs(2) this, of s'] recs(1,3) show ?thesis
    by (simp add: s' runDecay_def ScanScores_def)
qed

text \<open>
  Passes one after another, each before the lease the last one gave has run out.
\<close>

definition decay_passes ::
  "('db, 'bf, 'sk, 'pid, 'pk, 'k) deps \<Rightarrow> 'sk Node \<Rightarrow> world list \<Rightarrow> ('db, 'bf, 'k) node_state \<Rightarrow> ('db, 'bf, 'k) node_state" where
  "decay_passes D n ws s = fold (\<lambda>w s. exec (handle D w n DecayTick) s) ws s"

fun timely :: "duration \<Rightarrow> time \<Rightarrow> world list \<Rightarrow> bool" where
  "timely lease till [] \<longleftrightarrow> True"
| "timely lease till (w # ws) \<longleftrightarrow> w_now w < till \<and> timely lease (w_now w + lease) ws"

lemma decay_passes_keep:
  assumes B: "badger_backend (dp_backend D) view" and law: "lawful_sink (dp_sink D) denied" and fine: "nothing_fails D"
    and "badger_backend.bloom_covers (dp_backend D) view (st_store s)"
    and "view (db (st_store s)) ip = Some (rec, till)" "LastSeen rec \<noteq> 0" "timely (3 * eng_halfLife (nd_rep n)) till ws"
  shows "\<exists>score. view (db (st_store (decay_passes D n ws s))) ip =
    Some (rec\<lparr>Score := score\<rparr>, last (till # map (\<lambda>w. w_now w + 3 * eng_halfLife (nd_rep n)) ws))"
  using assms(4-)
proof (induction ws arbitrary: s rec till)
  case Nil
  then show ?case by (auto simp: decay_passes_def intro: exI [of _ "Score rec"])
next
  case (Cons w ws)
  let ?s = "exec (runDecay D w n) s" and ?rec = "rec\<lparr>Score := decayed_score (nd_rep n) (w_now w) rec\<rparr>"
  note one = runDecay_effect [OF B law fine Cons.prems(1) refl, of w n]
  from Cons.prems have "view (db (st_store ?s)) ip = Some (?rec, w_now w + 3 * eng_halfLife (nd_rep n))"
    using one by (simp add: live_def)
  from Cons.IH [OF _ this] one Cons.prems(3,4)
  show ?case by (auto simp: decay_passes_def handle_def)
qed

section \<open>A report of a stranger\<close>

lemma Record_succeeds:
  assumes "nothing_fails D"
  shows "\<exists>y. Record (dp_backend D) e bs now ip reason rid trust grp subnet anchored = Inr y"
proof -
  obtain r where r: "GetScore (dp_backend D) bs now ip = Inr r" using store_succeeds(1) [OF assms] by blast
  have "\<exists>bs'. PutScore (dp_backend D) bs now ip (Accumulate r \<lparr>obs_Reason = reason, obs_ReporterID = rid,
      obs_Group = grp, obs_Trust = trust, obs_Anchored = anchored, obs_Subnet = subnet\<rparr>
      now (eng_halfLife e) (eng_strangerCap e) (eng_diversityRepeat e)) (3 * eng_halfLife e) = Inr bs'"
    by (rule store_succeeds(2) [OF assms])
  with r show ?thesis by (auto simp: Record_def Let_def)
qed

text \<open>The record it leaves: below the stranger cap when the node knew nothing of the address.\<close>

lemma stranger_report_record:
  assumes B: "badger_backend (dp_backend D) view" and cov: "badger_backend.bloom_covers (dp_backend D) view b"
    and ok: "engine_ok (nd_rep n)" and weight: "resolve_in ts (w_now w) (ReporterID e) = (weight, grp, False)" "0 \<le> weight"
    and new: "live (view (db b)) (w_now w) (IP e) = None" and kind: "Kind e \<noteq> ''vote''"
    and att: "attributed D w n e b b' ts"
  obtains rec where "view (db b') (IP e) = Some (rec, w_now w + 3 * eng_halfLife (nd_rep n))"
    and "LastSeen rec = w_now w" and "0 \<le> Score rec" and "Score rec \<le> eng_strangerCap (nd_rep n)"
    and "badger_backend.bloom_covers (dp_backend D) view b'"
proof -
  from att weight(1) kind obtain x where "Record (dp_backend D) (nd_rep n) b (w_now w) (IP e) (Reason e) (ReporterID e)
      (discounted (nd_cfg n) (SubnetID e) False weight) grp (SubnetID e) False = Inr (x, b')"
    by (auto simp: attributed_def)
  from badger_backend.Record_effect [OF B this] obtain r rec where get: "GetScore (dp_backend D) b (w_now w) (IP e) = Inr r"
    and rec: "rec = Accumulate r \<lparr>obs_Reason = Reason e, obs_ReporterID = ReporterID e, obs_Group = grp,
        obs_Trust = discounted (nd_cfg n) (SubnetID e) False weight, obs_Anchored = False, obs_Subnet = SubnetID e\<rparr>
        (w_now w) (eng_halfLife (nd_rep n)) (eng_strangerCap (nd_rep n)) (eng_diversityRepeat (nd_rep n))"
    and put: "PutScore (dp_backend D) b (w_now w) (IP e) rec (3 * eng_halfLife (nd_rep n)) = Inr b'" by metis
  have "r = zero_rec" using badger_backend.GetScore_correct [OF B cov get] new by simp
  then have st: "stranger_rec (eng_strangerCap (nd_rep n)) rec"
    unfolding rec using ok weight(2) by (intro stranger_rec_Accumulate) (simp_all add: engine_ok_def discounted_nonneg)
  then have "0 \<le> Score rec" using rec_okD(1) by (auto simp: stranger_rec_def)
  then show thesis
    using that [of rec] stranger_recD [OF st] badger_backend.PutScore_view [OF B put]
      badger_backend.PutScore_bloom [OF B cov put] rec by (simp add: Accumulate_fields)
qed

section \<open>The command sinks as the node's firewall\<close>

definition ipset_sink :: "'k runner \<Rightarrow> IpsetSink \<Rightarrow> 'k sink_ops" where
  "ipset_sink run s = \<lparr>sink_Block = \<lambda>_. ipset_Block run s, sink_BlockFor = \<lambda>_. ipset_BlockFor run s,
     sink_Unblock = \<lambda>_. ipset_Unblock run s\<rparr>"

definition nft_sink :: "'k runner \<Rightarrow> NftablesSink \<Rightarrow> 'k sink_ops" where
  "nft_sink run s = \<lparr>sink_Block = \<lambda>_. nft_Block run s, sink_BlockFor = \<lambda>_. nft_BlockFor run s,
     sink_Unblock = \<lambda>_. nft_Unblock run s\<rparr>"

context ipset_tool
begin

lemma ipset_lawful: "lawful_sink (ipset_sink run s) (\<lambda>k ip. member k (ipSet s ip) ip)"
  by (simp add: lawful_sink_def ipset_sink_def ipset.deny_sink_axioms)

end

context nft_tool
begin

lemma nft_lawful: "lawful_sink (nft_sink run s) (\<lambda>k ip. member k (nftSet s ip) ip)"
  by (simp add: lawful_sink_def nft_sink_def nft.deny_sink_axioms)

end

section \<open>Properties\<close>


text \<open>A node on the in-memory store, with ipset on the example kernel as its firewall.\<close>

definition kernel_deps :: "(mem_db, string list, string, string, string, kernel) deps" where
  "kernel_deps = \<lparr>dp_backend = mem_backend, dp_ed = plain_ed25519, dp_json = plain_json, dp_p2p = plain_libp2p,
     dp_sink = ipset_sink kernel_run (NewIpset '''' [])\<rparr>"

lemma kernel_node:
  "\<exists>n s0. New kernel_deps ex_inputs empty_kernel Defaults (Some ex_transport) = Inr (n, s0)"
  by (simp add: New_def kernel_deps_def ex_inputs_def Open_def mem_backend_def mem_items_def ScanScores_def Let_def
      LoadWhitelist_def new_observer_def Defaults_def)


text \<open>
  C8. A pass of decay, exactly. On a database whose operations succeed, with a firewall that keeps
  its contract and lifts what it is asked to lift, the pass gives every record that has not expired
  its decayed score and a new lease of three half-lives, leaves every other entry as it was, and
  afterwards an address is denied if and only if it was denied before and no unexpired record puts
  its decayed score below the threshold. So it lifts blocks taken over from the federation like the
  node's own, leaves the set of those unchanged, and never lifts the block of an address whose
  record has expired.
\<close>

theorem decay_tick_exact:
  assumes "badger_backend (dp_backend D) view" "lawful_sink (dp_sink D) denied" "nothing_fails D"
    and "\<forall>ip. view (db (st_store s)) ip \<noteq> None \<longrightarrow> bf_test (dp_backend D) (bloom (st_store s)) ip"
    and "s' = exec (handle D w n DecayTick) s"
    and "before = view (db (st_store s))"
  shows "(\<forall>ip. denied (st_sink s') ip \<longleftrightarrow> denied (st_sink s) ip \<and> \<not> falls_below n (w_now w) (live before (w_now w) ip)) \<and>
    view (db (st_store s')) = (\<lambda>ip. entry_after (nd_rep n) (w_now w) (before ip) (live before (w_now w) ip)) \<and>
    st_materialised s' = st_materialised s"
proof -
  have "badger_backend.bloom_covers (dp_backend D) view (st_store s)"
    using assms(4) by (simp add: badger_backend.bloom_covers_def [OF assms(1)])
  from runDecay_effect [OF assms(1-3) this, of s' w n] assms(5,6) show ?thesis by (simp add: handle_def)
qed

lemma ex_nothing_fails: "nothing_fails ex_deps"
  by (auto simp: nothing_fails_def ex_deps_def mem_backend_def mem_items_def list_sink_def)

lemma list_sink_lawful: "lawful_sink (dp_sink ex_deps) (\<lambda>k ip. ip \<in> set k)"
  by (auto simp: lawful_sink_def ex_deps_def list_sink_def intro!: deny_sink.intro)

lemma ex_badger: "badger_backend (dp_backend ex_deps) map_of"
  by (simp add: ex_deps_def mem.badger_backend_axioms)

text \<open>
  Two addresses are denied; the one with a record of a low score comes free, the one whose record
  expired an instant ago stays denied for good.
\<close>

theorem decay_tick_exact_witness:
  "let bs = \<lparr>db = [(''192.0.2.1'', zero_rec, 100), (''192.0.2.2'', zero_rec, 30)], bloom = [''192.0.2.1'', ''192.0.2.2'']\<rparr>;
       s = ex_state\<lparr>st_store := bs, st_sink := [''192.0.2.1'', ''192.0.2.2''], st_materialised := {''192.0.2.1''}\<rparr>;
       s' = exec (handle ex_deps (ex_world 30) ex_bridge DecayTick) s
   in ''192.0.2.1'' \<notin> set (st_sink s') \<and> ''192.0.2.2'' \<in> set (st_sink s') \<and> ''192.0.2.1'' \<in> st_materialised s'"
proof -
  let ?bs = "\<lparr>db = [(''192.0.2.1'', zero_rec, 100), (''192.0.2.2'', zero_rec, 30)],
      bloom = [''192.0.2.1'', ''192.0.2.2'']\<rparr> :: (mem_db, string list) BadgerStore"
  let ?s = "ex_state\<lparr>st_store := ?bs, st_sink := [''192.0.2.1'', ''192.0.2.2''], st_materialised := {''192.0.2.1''}\<rparr>"
  have cov: "\<forall>ip. map_of (db (st_store ?s)) ip \<noteq> None \<longrightarrow> bf_test (dp_backend ex_deps) (bloom (st_store ?s)) ip"
    by (simp add: ex_deps_def mem_backend_def)
  show ?thesis
    using decay_tick_exact [OF ex_badger list_sink_lawful ex_nothing_fails cov refl refl, of "ex_world 30" ex_bridge]
    by (simp add: Let_def live_def ex_world_def decayed_score_def zero_rec_def ex_bridge_def Defaults_def)
qed

text \<open>
  C9. Decay deletes nothing. A record lives three half-lives, and every pass over it starts them
  anew: as long as a pass comes before the lease of the last one has run out (the daemon makes one
  every hour, a lease is weeks), the record of an address nobody reports any more stays in the
  store for any number of passes, with its reporters, reasons and times, only its score changed.
\<close>

theorem decay_never_deletes:
  assumes "badger_backend (dp_backend D) view" "lawful_sink (dp_sink D) denied" "nothing_fails D"
    and "\<forall>ip. view (db (st_store s)) ip \<noteq> None \<longrightarrow> bf_test (dp_backend D) (bloom (st_store s)) ip"
    and "view (db (st_store s)) ip = Some (rec, till)" "LastSeen rec \<noteq> 0"
    and "timely (3 * eng_halfLife (nd_rep n)) till ws"
  shows "\<exists>score. view (db (st_store (decay_passes D n ws s))) ip =
    Some (rec\<lparr>Score := score\<rparr>, last (till # map (\<lambda>w. w_now w + 3 * eng_halfLife (nd_rep n)) ws))"
proof -
  have "badger_backend.bloom_covers (dp_backend D) view (st_store s)"
    using assms(4) by (simp add: badger_backend.bloom_covers_def [OF assms(1)])
  then show ?thesis by (rule decay_passes_keep [OF assms(1-3) _ assms(5-7)])
qed

text \<open>A thousand passes, an hour apart.\<close>

lemma hourly_timely:
  assumes "hour < lease" "t < till" "\<And>i. w_now (f i) = i"
  shows "timely lease till (map (\<lambda>i. f (t + int i * hour)) [0..<k])"
  using assms(2)
proof (induction k arbitrary: t till)
  case (Suc k)
  have "map (\<lambda>i. f (t + int i * hour)) [0..<Suc k] = f t # map (\<lambda>i. f ((t + hour) + int i * hour)) [0..<k]"
    by (simp add: upt_conv_Cons map_Suc_upt [symmetric] algebra_simps del: upt_Suc)
  moreover have "timely lease (t + lease) (map (\<lambda>i. f ((t + hour) + int i * hour)) [0..<k])"
    using assms(1) by (intro Suc.IH) simp
  ultimately show ?case using Suc.prems assms(3) by simp
qed simp

theorem decay_never_deletes_witness:
  "let rec = zero_rec\<lparr>LastSeen := 5, ReporterIDs := [''eve'']\<rparr>;
       s = ex_state\<lparr>st_store := \<lparr>db = [(''192.0.2.1'', rec, 100)], bloom = [''192.0.2.1'']\<rparr>\<rparr>;
       s' = decay_passes ex_deps ex_bridge (map (\<lambda>i. ex_world (30 + int i * hour)) [0..<1000]) s
   in \<exists>score lease. map_of (db (st_store s')) ''192.0.2.1'' = Some (rec\<lparr>Score := score\<rparr>, lease)"
proof -
  let ?rec = "zero_rec\<lparr>LastSeen := 5, ReporterIDs := [''eve'']\<rparr>"
  let ?s = "ex_state\<lparr>st_store := \<lparr>db = [(''192.0.2.1'', ?rec, 100)], bloom = [''192.0.2.1'']\<rparr>\<rparr>"
  have cov: "\<forall>ip. map_of (db (st_store ?s)) ip \<noteq> None \<longrightarrow> bf_test (dp_backend ex_deps) (bloom (st_store ?s)) ip"
    by (simp add: ex_deps_def mem_backend_def)
  have "timely (3 * eng_halfLife (nd_rep ex_bridge)) 100 (map (\<lambda>i. ex_world (30 + int i * hour)) [0..<1000])"
    by (rule hourly_timely) (simp_all add: ex_bridge_def example_engine_def ex_world_def go_simps)
  from decay_never_deletes [OF ex_badger list_sink_lawful ex_nothing_fails cov _ _ this, of "''192.0.2.1''" ?rec]
  show ?thesis by (auto simp: Let_def)
qed

text \<open>
  C7. One report of a stranger undoes a block taken over from the federation. The node knows
  nothing of an address (that is why it asked the federation and blocked the address on its
  verdict); a peer without an anchor reports that address. The report is counted, the record stays
  under the stranger cap, and the next pass of decay within three half-lives lifts the block,
  whatever the rest of the federation thinks of the address and whoever asked for the block.
\<close>

theorem stranger_report_lifts_block:
  assumes "badger_backend (dp_backend D) view" "lawful_sink (dp_sink D) denied" "nothing_fails D"
    and "\<forall>ip. view (db (st_store s)) ip \<noteq> None \<longrightarrow> bf_test (dp_backend D) (bloom (st_store s)) ip"
    and "engine_ok (nd_rep n)" "eng_strangerCap (nd_rep n) < UnblockThreshold (Reputation (nd_cfg n))"
    and "authentic D re" "\<not> over_budget w s" "\<not> peer_blocked D w s (From re)" "admissible n (re_Event re) ip"
    and "Kind (re_Event re) \<noteq> ''vote''" "\<not> duplicate w s ((re_Event re)\<lparr>IP := ip\<rparr>)"
    and "live (view (db (st_store s))) (w_now w) ip = None"
    and "s1 = exec (handle D w n (RemoteEvent re)) s"
    and "resolve_in (st_trust s1) (w_now w) (ReporterID (re_Event re)) = (weight, grp, False)" "0 \<le> weight"
    and "w_now w \<le> w_now w'" "w_now w' < w_now w + 3 * eng_halfLife (nd_rep n)"
  shows "\<not> denied (st_sink (exec (handle D w' n DecayTick) s1)) ip \<and>
    (\<exists>rec. live (view (db (st_store s1))) (w_now w') ip = Some rec \<and> LastSeen rec = w_now w \<and>
      Score rec \<le> eng_strangerCap (nd_rep n))"
proof -
  note B = assms(1)
  have cov: "badger_backend.bloom_covers (dp_backend D) view (st_store s)"
    using assms(4) by (simp add: badger_backend.bloom_covers_def [OF B])
  let ?e = "(re_Event re)\<lparr>IP := ip\<rparr>"
  let ?g = "exec (is_blocked D w (From re)) (exec (shed w) (exec (charge w) s))"
  have g: "st_store ?g = st_store s" "st_dedup ?g = st_dedup s"
    using guards_same(2) [of s D w "From re"] by (simp_all add: same_records_def)
  have s1: "s1 = exec (observe (\<lambda>ob. RecordFederated ob ''in'')) (exec (remote_report D w n re ?e) ?g)"
    using ProcessRemote_admits [OF assms(7-10)] assms(11,14)
    by (simp add: handle_def handle_remote_def admitted_body_def Let_def)
  have "\<not> duplicate w ?g ?e" using assms(12) g(2) by (simp add: duplicate_def)
  from report_counts [OF _ this Record_succeeds [OF assms(3)], of n re] assms(11) g(1)
  have "attributed D w n ?e (st_store s) (st_store s1) (st_trust s1)" by (simp add: s1 observe_def)
  then obtain rec where rec: "view (db (st_store s1)) (IP ?e) = Some (rec, w_now w + 3 * eng_halfLife (nd_rep n))"
    "LastSeen rec = w_now w" "0 \<le> Score rec" "Score rec \<le> eng_strangerCap (nd_rep n)"
    and cov1: "badger_backend.bloom_covers (dp_backend D) view (st_store s1)"
    by (rule stranger_report_record [OF B cov assms(5), rotated 4]) (use assms(11,13,15,16) in simp_all)
  have now: "live (view (db (st_store s1))) (w_now w') ip = Some rec"
    using rec(1) assms(18) by (simp add: live_def)
  have "decayed_score (nd_rep n) (w_now w') rec \<le> eng_strangerCap (nd_rep n)"
    using DecayScore_le [OF rec(3), of "LastSeen rec" "w_now w'" "eng_halfLife (nd_rep n)"] rec(4) assms(5)
    by (auto simp: decayed_score_def engine_ok_def)
  with assms(6) now have "falls_below n (w_now w') (live (view (db (st_store s1))) (w_now w') ip)" by simp
  with runDecay_effect [OF B assms(2,3) cov1 refl, of w' n] now rec(2,4) show ?thesis
    by (simp add: handle_def)
qed

text \<open>In the example the trust store does not change: nothing is due to be read again.\<close>

definition trust_still :: "('db, 'bf, 'k) node_state \<Rightarrow> bool" where
  "trust_still s \<longleftrightarrow> st_trust s = ana_store"

lemma trust_still_calls [preserves_rules]:
  "preserves trust_still (charge w)" "preserves trust_still (shed w)" "preserves trust_still (observe f)"
  "preserves trust_still (emit x)" "preserves trust_still (seen w e)" "preserves trust_still (get_record D w ip)"
  "preserves trust_still (burst_add w e)" "preserves trust_still (evaluate w e rec)"
  "preserves trust_still (sink_call g x)"
  "preserves trust_still (record_report D w n ip reason rid weight grp subnet anchored)"
  by (simp_all add: preserves_def trust_still_def call_defs exec_def Let_def split: prod.split sum.split)

lemma trust_still_reads [preserves_rules]:
  "preserves trust_still (is_blocked ex_deps (ex_world 30) p)" "preserves trust_still (resolve ex_deps (ex_world 30) p)"
proof -
  have "Trust.maybeReload plain_ed25519 plain_json no_files 30 ana_store = ana_store"
    by (rule no_reload_at_30) (simp_all add: ana_store_fields)
  then show "preserves trust_still (is_blocked ex_deps (ex_world 30) p)"
      "preserves trust_still (resolve ex_deps (ex_world 30) p)"
    by (simp_all add: preserves_def trust_still_def is_blocked_def resolve_def IsBlocked_def Resolve_def exec_def
        ex_deps_def ex_world_def Let_def)
qed

lemma ex_trust_still:
  assumes "trust_still s"
  shows "trust_still (exec (handle ex_deps (ex_world 30) ex_bridge (RemoteEvent eve_report)) s)"
proof -
  have p: "preserves trust_still (publish w t e subnet)" for w t e subnet
    unfolding publish_def by (intro preserves_rules)
  have v: "Vouch ((re_Event eve_report)\<lparr>IP := key\<rparr>) = None" "Kind (re_Event eve_report) \<noteq> ''vote''" for key
    by (simp_all add: eve_message_def ssh_event_def zero_Event_def)
  have "preserves trust_still (remote_report ex_deps (ex_world 30) ex_bridge eve_report ((re_Event eve_report)\<lparr>IP := key\<rparr>))" for key
    unfolding remote_report_def act_on_def reemitIfBridge_def sink_defs v(1) option.case
    by (intro preserves_rules p)
  then have "preserves trust_still (handle ex_deps (ex_world 30) ex_bridge (RemoteEvent eve_report))"
    by (simp only: handle_def handle_remote_def ProcessRemote_def Let_def node_event.case v(2) if_False)
      (intro preserves_rules)
  then show ?thesis using assms by (rule preservesD)
qed

theorem stranger_report_lifts_block_witness:
  "let s = ex_state\<lparr>st_sink := [''10.0.0.0''], st_materialised := {''10.0.0.0''}\<rparr>;
       s1 = exec (handle ex_deps (ex_world 30) ex_bridge (RemoteEvent eve_report)) s
   in ''10.0.0.0'' \<in> set (st_sink s) \<and> ''10.0.0.0'' \<notin> set (st_sink (exec (handle ex_deps (ex_world hour) ex_bridge DecayTick) s1))"
proof -
  let ?s = "ex_state\<lparr>st_sink := [''10.0.0.0''], st_materialised := {''10.0.0.0''}\<rparr>"
  let ?s1 = "exec (handle ex_deps (ex_world 30) ex_bridge (RemoteEvent eve_report)) ?s"
  have cov: "\<forall>ip. map_of (db (st_store ?s)) ip \<noteq> None \<longrightarrow> bf_test (dp_backend ex_deps) (bloom (st_store ?s)) ip"
    by (simp add: ex_state_def mem_empty_def)
  have "trust_still ?s1" by (rule ex_trust_still) (simp add: trust_still_def ex_state_def)
  then have r: "resolve_in (st_trust ?s1) (w_now (ex_world 30)) (ReporterID (re_Event eve_report)) = (1 / 10, '''', False)"
    by (simp add: trust_still_def eve_message_def ana_store_fields resolve_in_def)
  have eng: "engine_ok (nd_rep ex_bridge)" "eng_strangerCap (nd_rep ex_bridge) < UnblockThreshold (Reputation (nd_cfg ex_bridge))"
    by (simp_all add: ex_bridge_def example_engine_def engine_ok_def Defaults_def)
  have guards: "\<not> over_budget (ex_world 30) ?s" "\<not> peer_blocked ex_deps (ex_world 30) ?s p" for p
    using ex_guards(2,3) by (simp_all add: over_budget_def peer_blocked_def)
  have fresh: "\<not> duplicate (ex_world 30) ?s ((re_Event eve_report)\<lparr>IP := ''10.0.0.0''\<rparr>)"
    by (rule fresh_not_duplicate) (simp add: ex_state_def newDedupCache_def)
  have "''10.0.0.0'' \<notin> set (st_sink (exec (handle ex_deps (ex_world hour) ex_bridge DecayTick) ?s1))"
    by (rule stranger_report_lifts_block [OF ex_badger list_sink_lawful ex_nothing_fails cov eng ex_guards(1) guards
          ex_guards(4) _ fresh _ refl r, THEN conjunct1])
      (simp_all add: eve_message_def ssh_event_def zero_Event_def ex_state_def mem_empty_def live_def ex_world_def
        ex_bridge_def example_engine_def go_simps)
  then show ?thesis by (simp add: Let_def)
qed

end
