(* ===== verification/Races.thy ===== *)
theory Races
  imports Node_Exchange
begin

text \<open>
  Lookups of the API and the DNSBL run on goroutines of their own: \<open>materialiseFederated\<close> of
  \<open>internal/node/node.go\<close> runs beside the event loop, whose disputes run \<open>maybeUnblockDisputed\<close>. Both take
  \<open>matMu\<close> for the sets \<open>disputed\<close> and \<open>materialised\<close> and release it around the call on the firewall.
  This theory interleaves their critical sections and shows what disputes still guarantee.
\<close>

section \<open>The sections between the locks\<close>

definition mark_disputed :: "string \<Rightarrow> (('db, 'bf, 'k) node_state, bool) state" where
  "mark_disputed ip =
     do {
       wasMaterialised \<leftarrow> reads (\<lambda>s. ip \<in> st_materialised s);
       modify (\<lambda>s. s\<lparr>st_disputed := insert ip (st_disputed s), st_materialised := st_materialised s - {ip}\<rparr>);
       State_Monad.return wasMaterialised
     }"

definition lift_block ::
  "('db, 'bf, 'sk, 'pid, 'pk, 'k) deps \<Rightarrow> world \<Rightarrow> string \<Rightarrow> (('db, 'bf, 'k) node_state, bool) state" where
  "lift_block D w ip =
     do {
       done \<leftarrow> sink_unblock D w ip;
       unless (\<not> done) (observe (\<lambda>ob. RecordUnblock (w_db w) ob (w_now w) ip));
       State_Monad.return done
     }"

definition push_block ::
  "('db, 'bf, 'sk, 'pid, 'pk, 'k) deps \<Rightarrow> world \<Rightarrow> 'sk Node \<Rightarrow> string \<Rightarrow> (('db, 'bf, 'k) node_state, bool) state" where
  "push_block D w n ip = sink_block_for D w ip (EffectiveFederationBlockTTL (nd_cfg n))"

definition note_block ::
  "world \<Rightarrow> string \<Rightarrow> ScoreRecord \<Rightarrow> (('db, 'bf, 'k) node_state, unit) state" where
  "note_block w ip rec =
     do {
       modify (\<lambda>s. s\<lparr>st_materialised := insert ip (st_materialised s)\<rparr>);
       observe (\<lambda>ob. RecordBlock (w_db w) ob (w_now w) ip ''federated-materialise'' (Score rec) (FirstSeen rec)
         (nat (Corroboration rec)))
     }"

text \<open>Run without interruption the sections are the two functions.\<close>

lemma materialise_sections:
  "materialiseFederated D w n ip rec subnets =
     unless (\<not> materialise_gate n ip rec subnets) (do {
       suppressed \<leftarrow> reads (\<lambda>s. ip \<in> st_disputed s);
       unless suppressed (do { done \<leftarrow> push_block D w n ip; unless (\<not> done) (note_block w ip rec) })
     })"
  by (simp add: materialiseFederated_def materialise_commit_def push_block_def note_block_def)

lemma dispute_sections:
  "maybeUnblockDisputed D w n ip k =
     unless (int k < DisputeUnblockMinSubnets (nd_cfg n)) (do {
       wasMaterialised \<leftarrow> mark_disputed ip;
       unless (\<not> wasMaterialised) (do { _ \<leftarrow> lift_block D w ip; State_Monad.return () })
     })"
  unfolding maybeUnblockDisputed_def mark_disputed_def lift_block_def unless_def
  by (auto simp: State_Monad.bind_def State_Monad.return_def fun_eq_iff Let_def split: prod.split)

section \<open>The interleaving\<close>

text \<open>
  A lookup in flight has passed the test of \<open>disputed\<close> or has pushed the block. Beside the node's
  state a race has the lookups in flight, the address the event loop is about to unblock, and for the
  statements below the addresses whose federated block stands at the firewall and those whose
  unblocking failed.
\<close>

datatype lookup = Passed string ScoreRecord | Pushed string ScoreRecord

record ('db, 'bf, 'k) race =
  rc_node :: "('db, 'bf, 'k) node_state"
  rc_flight :: "lookup list"
  rc_lifting :: "string option"
  rc_standing :: "string set"
  rc_stuck :: "string set"

text \<open>
  What the rest of the node does between these sections: it neither disputes nor materialises, and
  asks for no block with a time limit. It may lift blocks, as decay does.
\<close>

definition plain_change :: "('db, 'bf, 'k) node_state \<Rightarrow> ('db, 'bf, 'k) node_state \<Rightarrow> bool" where
  "plain_change s s' \<longleftrightarrow> st_disputed s' = st_disputed s \<and> st_materialised s' = st_materialised s \<and>
     (\<exists>es. st_out s' = st_out s @ es \<and> (\<forall>ip ttl. BlockedFor ip ttl \<notin> set es))"

inductive race_step ::
  "('db, 'bf, 'sk, 'pid, 'pk, 'k) deps \<Rightarrow> 'sk Node \<Rightarrow> ('db, 'bf, 'k) race \<Rightarrow> ('db, 'bf, 'k) race \<Rightarrow> bool"
  for D n where
  race_test: "materialise_gate n ip rec subnets \<Longrightarrow> ip \<notin> st_disputed (rc_node r) \<Longrightarrow>
     race_step D n r (r\<lparr>rc_flight := Passed ip rec # rc_flight r\<rparr>)"
| race_push: "Passed ip rec \<in> set (rc_flight r) \<Longrightarrow> run_state (push_block D w n ip) (rc_node r) = (True, s) \<Longrightarrow>
     race_step D n r (r\<lparr>rc_node := s, rc_flight := Pushed ip rec # remove1 (Passed ip rec) (rc_flight r),
                       rc_standing := insert ip (rc_standing r)\<rparr>)"
| race_push_failed: "Passed ip rec \<in> set (rc_flight r) \<Longrightarrow> run_state (push_block D w n ip) (rc_node r) = (False, s) \<Longrightarrow>
     race_step D n r (r\<lparr>rc_node := s, rc_flight := remove1 (Passed ip rec) (rc_flight r)\<rparr>)"
| race_note: "Pushed ip rec \<in> set (rc_flight r) \<Longrightarrow>
     race_step D n r (r\<lparr>rc_node := exec (note_block w ip rec) (rc_node r),
                       rc_flight := remove1 (Pushed ip rec) (rc_flight r)\<rparr>)"
| race_dispute: "rc_lifting r = None \<Longrightarrow> run_state (mark_disputed ip) (rc_node r) = (was, s) \<Longrightarrow>
     race_step D n r (r\<lparr>rc_node := s, rc_lifting := (if was then Some ip else None)\<rparr>)"
| race_lift: "rc_lifting r = Some ip \<Longrightarrow> run_state (lift_block D w ip) (rc_node r) = (True, s) \<Longrightarrow>
     race_step D n r (r\<lparr>rc_node := s, rc_lifting := None, rc_standing := rc_standing r - {ip}\<rparr>)"
| race_lift_failed: "rc_lifting r = Some ip \<Longrightarrow> run_state (lift_block D w ip) (rc_node r) = (False, s) \<Longrightarrow>
     race_step D n r (r\<lparr>rc_node := s, rc_lifting := None, rc_stuck := insert ip (rc_stuck r)\<rparr>)"
| race_other: "rc_lifting r = None \<Longrightarrow> plain_change (rc_node r) s \<Longrightarrow> up \<subseteq> rc_standing r \<Longrightarrow>
     race_step D n r (r\<lparr>rc_node := s, rc_standing := up\<rparr>)"

text \<open>A node starts with nothing in flight, materialised or disputed.\<close>

definition race_start :: "('db, 'bf, 'k) node_state \<Rightarrow> ('db, 'bf, 'k) race" where
  "race_start s = \<lparr>rc_node = s, rc_flight = [], rc_lifting = None, rc_standing = {}, rc_stuck = {}\<rparr>"

abbreviation race_run where
  "race_run D n \<equiv> (race_step D n)\<^sup>*\<^sup>*"

section \<open>What a section changes\<close>

lemma push_block_run: "run_state (push_block D w n ip) s = (done, s') \<Longrightarrow>
    st_disputed s' = st_disputed s \<and> st_materialised s' = st_materialised s \<and>
    st_out s' = st_out s @ [BlockedFor ip (EffectiveFederationBlockTTL (nd_cfg n))]"
  by (auto simp: push_block_def sink_defs sink_call_def Let_def split: prod.splits)

lemma note_block_run:
  "st_disputed (exec (note_block w ip rec) s) = st_disputed s"
  "st_materialised (exec (note_block w ip rec) s) = insert ip (st_materialised s)"
  "st_out (exec (note_block w ip rec) s) = st_out s"
  by (simp_all add: note_block_def observe_def)

lemma mark_disputed_run: "run_state (mark_disputed ip) s = (was, s') \<Longrightarrow>
    was = (ip \<in> st_materialised s) \<and> st_disputed s' = insert ip (st_disputed s) \<and>
    st_materialised s' = st_materialised s - {ip} \<and> st_out s' = st_out s"
  by (auto simp: mark_disputed_def)

lemma lift_block_run: "run_state (lift_block D w ip) s = (done, s') \<Longrightarrow>
    st_disputed s' = st_disputed s \<and> st_materialised s' = st_materialised s \<and> st_out s' = st_out s @ [Unblocked ip]"
  by (auto simp: lift_block_def sink_defs sink_call_def observe_def unless_def Let_def split: prod.splits if_splits)

lemmas section_runs = push_block_run note_block_run mark_disputed_run lift_block_run

section \<open>What disputes still guarantee\<close>

fun passed_for :: "string \<Rightarrow> lookup \<Rightarrow> bool" where
  "passed_for ip (Passed a rec) \<longleftrightarrow> a = ip"
| "passed_for ip (Pushed a rec) \<longleftrightarrow> False"

fun pushed_for :: "string \<Rightarrow> lookup \<Rightarrow> bool" where
  "pushed_for ip (Passed a rec) \<longleftrightarrow> False"
| "pushed_for ip (Pushed a rec) \<longleftrightarrow> a = ip"

fun timed_block :: "string \<Rightarrow> effect \<Rightarrow> bool" where
  "timed_block ip (BlockedFor a ttl) \<longleftrightarrow> a = ip"
| "timed_block ip _ \<longleftrightarrow> False"

text \<open>Lookups that have yet to push a block of the address, and the blocks with a time limit asked for.\<close>

definition pending :: "string \<Rightarrow> ('db, 'bf, 'k) race \<Rightarrow> nat" where
  "pending ip r = length (filter (passed_for ip) (rc_flight r))"

definition pushes :: "string \<Rightarrow> ('db, 'bf, 'k) race \<Rightarrow> nat" where
  "pushes ip r = length (filter (timed_block ip) (st_out (rc_node r)))"

text \<open>No part of the node is busy with the address.\<close>

definition settled :: "string \<Rightarrow> ('db, 'bf, 'k) race \<Rightarrow> bool" where
  "settled ip r \<longleftrightarrow> pending ip r = 0 \<and> \<not> list_ex (pushed_for ip) (rc_flight r) \<and> rc_lifting r \<noteq> Some ip"

lemma remove1_pending:
  assumes "Passed a rec \<in> set ls"
  shows "length (filter (passed_for ip) ls)
     = length (filter (passed_for ip) (remove1 (Passed a rec) ls)) + (if a = ip then 1 else 0)"
proof -
  have "a = ip \<Longrightarrow> Passed a rec \<in> set (filter (passed_for ip) ls)" using assms by simp
  from length_pos_if_in_set [OF this] assms show ?thesis
    by (auto simp: filter_remove1 length_remove1)
qed

lemma remove1_pushed: "length (filter (passed_for ip) (remove1 (Pushed a rec) ls)) = length (filter (passed_for ip) ls)"
  by (simp add: filter_remove1 length_remove1)

lemma plain_pushes: "plain_change s s' \<Longrightarrow> filter (timed_block ip) (st_out s') = filter (timed_block ip) (st_out s)"
  by (auto simp: plain_change_def filter_empty_conv elim!: timed_block.elims)

text \<open>A dispute stays, and after it only the lookups that had passed the test can still push.\<close>

lemma disputed_step:
  assumes "race_step D n r r'" and "ip \<in> st_disputed (rc_node r)"
  shows "ip \<in> st_disputed (rc_node r') \<and> pushes ip r' + pending ip r' \<le> pushes ip r + pending ip r"
  using assms(1)
proof (cases rule: race_step.cases)
  case (race_push a rec w s)
  then show ?thesis using assms(2) remove1_pending [OF race_push(2), of ip]
    by (auto simp: pushes_def pending_def dest!: push_block_run split: if_splits)
next
  case (race_push_failed a rec w s)
  then show ?thesis using assms(2) remove1_pending [OF race_push_failed(2), of ip]
    by (auto simp: pushes_def pending_def dest!: push_block_run split: if_splits)
next
  case (race_note a rec w)
  then show ?thesis using assms(2) by (simp add: pushes_def pending_def note_block_run remove1_pushed)
next
  case (race_other s up)
  moreover have "st_disputed s = st_disputed (rc_node r)" using race_other(3) by (simp add: plain_change_def)
  ultimately show ?thesis using assms(2) by (simp add: pushes_def pending_def plain_pushes)
qed (use assms(2) in \<open>auto simp: pushes_def pending_def dest!: mark_disputed_run lift_block_run\<close>)

lemma disputed_run:
  "race_run D n r r' \<Longrightarrow> ip \<in> st_disputed (rc_node r) \<Longrightarrow>
     ip \<in> st_disputed (rc_node r') \<and> pushes ip r' + pending ip r' \<le> pushes ip r + pending ip r"
  by (induction rule: rtranclp_induct) (use disputed_step le_trans in blast)+

text \<open>
  A federated block that stands is noted, about to be noted, about to be lifted, or could not be
  lifted: none is forgotten.
\<close>

definition known_blocks :: "('db, 'bf, 'k) race \<Rightarrow> bool" where
  "known_blocks r \<longleftrightarrow> (\<forall>ip \<in> rc_standing r. ip \<in> st_materialised (rc_node r) \<or> list_ex (pushed_for ip) (rc_flight r) \<or>
     rc_lifting r = Some ip \<or> ip \<in> rc_stuck r)"

lemma list_ex_remove1: "list_ex P (remove1 x xs) \<or> \<not> list_ex P xs \<or> P x"
  by (induction xs) auto

lemma list_ex_remove1_other: "\<not> P x \<Longrightarrow> list_ex P (remove1 x xs) = list_ex P xs"
  by (induction xs) auto

lemma known_blocks_step:
  assumes "race_step D n r r'" and "known_blocks r"
  shows "known_blocks r'"
  using assms(1)
proof (cases rule: race_step.cases)
  case (race_note a rec w)
  have "list_ex (pushed_for ip) (remove1 (Pushed a rec) (rc_flight r)) \<or> \<not> list_ex (pushed_for ip) (rc_flight r) \<or> a = ip" for ip
    using list_ex_remove1 [of "pushed_for ip" "Pushed a rec"] by simp
  then show ?thesis using race_note assms(2) by (fastforce simp: known_blocks_def note_block_run)
next
  case (race_other s up)
  then show ?thesis using assms(2) by (auto simp: known_blocks_def plain_change_def)
qed (use assms(2) in \<open>fastforce simp: known_blocks_def list_ex_remove1_other dest!: mark_disputed_run lift_block_run push_block_run\<close>)+

lemma known_blocks_run: "race_run D n r r' \<Longrightarrow> known_blocks r \<Longrightarrow> known_blocks r'"
  by (induction rule: rtranclp_induct) (use known_blocks_step in blast)+

lemma known_blocks_start: "known_blocks (race_start s)"
  by (simp add: known_blocks_def race_start_def)

text \<open>Once settled, a disputed address stays unblocked.\<close>

definition lifted :: "string \<Rightarrow> ('db, 'bf, 'k) race \<Rightarrow> bool" where
  "lifted ip r \<longleftrightarrow> settled ip r \<and> ip \<in> st_disputed (rc_node r) \<and> ip \<notin> st_materialised (rc_node r) \<and> ip \<notin> rc_standing r"

lemma settled_flight: "settled ip r \<Longrightarrow> Passed a rec \<in> set (rc_flight r) \<or> Pushed a rec \<in> set (rc_flight r) \<Longrightarrow> a \<noteq> ip"
  by (auto simp: settled_def pending_def filter_empty_conv list_ex_iff)

lemma lifted_step:
  assumes "race_step D n r r'" and "lifted ip r"
  shows "lifted ip r'"
  using assms(1)
proof (cases rule: race_step.cases)
  case (race_push a rec w s)
  then have "a \<noteq> ip" using assms(2) settled_flight unfolding lifted_def by blast
  with race_push assms(2) show ?thesis
    by (auto simp: lifted_def settled_def pending_def filter_remove1 list_ex_remove1_other dest!: push_block_run)
next
  case (race_push_failed a rec w s)
  with assms(2) show ?thesis
    by (auto simp: lifted_def settled_def pending_def filter_remove1 list_ex_remove1_other dest!: push_block_run)
next
  case (race_note a rec w)
  then have "a \<noteq> ip" using assms(2) settled_flight unfolding lifted_def by blast
  with race_note assms(2) show ?thesis
    by (simp add: lifted_def settled_def pending_def filter_remove1 list_ex_remove1_other note_block_run)
next
  case (race_other s up)
  then show ?thesis using assms(2) by (auto simp: lifted_def settled_def pending_def plain_change_def)
qed (use assms(2) in \<open>auto simp: lifted_def settled_def pending_def dest!: mark_disputed_run lift_block_run split: if_splits\<close>)

lemma lifted_run: "race_run D n r r' \<Longrightarrow> lifted ip r \<Longrightarrow> lifted ip r'"
  by (induction rule: rtranclp_induct) (use lifted_step in blast)+

section \<open>The rest of the node\<close>

lemma plain_refl [simp]: "plain_change s s"
  by (simp add: plain_change_def)

lemma plain_calls [preserves_rules]:
  "preserves (plain_change s0) (charge w)" "preserves (plain_change s0) (shed w)"
  "preserves (plain_change s0) (rate w)" "preserves (plain_change s0) (observe f)"
  "preserves (plain_change s0) (is_blocked D w p)" "preserves (plain_change s0) (resolve D w p)"
  "preserves (plain_change s0) (add_cert D w c)" "preserves (plain_change s0) (seen w e)"
  "preserves (plain_change s0) (get_record D w ip)" "preserves (plain_change s0) (burst_add w e)"
  "preserves (plain_change s0) (evaluate w e rec)"
  "preserves (plain_change s0) (record_report D w n ip reason rid weight grp subnet anchored)"
  "preserves (plain_change s0) (record_dispute D w n ip rid weight subnet anchored)"
  by (simp_all add: preserves_def plain_change_def call_defs exec_def Let_def split: prod.split sum.split)

lemma plain_effect:
  assumes "plain_change s0 s" and "\<forall>ip ttl. x \<noteq> BlockedFor ip ttl" and "st_out s' = st_out s @ [x]"
    and "st_disputed s' = st_disputed s" and "st_materialised s' = st_materialised s"
  shows "plain_change s0 s'"
proof -
  from assms(1) obtain es where "st_out s = st_out s0 @ es" "\<forall>ip ttl. BlockedFor ip ttl \<notin> set es"
    by (auto simp: plain_change_def)
  with assms show ?thesis unfolding plain_change_def by (intro conjI exI [of _ "es @ [x]"]) auto
qed

lemma plain_emit [preserves_rules]: "\<forall>ip ttl. x \<noteq> BlockedFor ip ttl \<Longrightarrow> preserves (plain_change s0) (emit x)"
  by (rule preservesI) (simp add: emit_def plain_effect)

lemma plain_sink [preserves_rules]: "\<forall>ip ttl. x \<noteq> BlockedFor ip ttl \<Longrightarrow> preserves (plain_change s0) (sink_call f x)"
  by (rule preservesI) (simp add: sink_call_def exec_def Let_def plain_effect split: prod.split)

lemma plain_publish [preserves_rules]: "preserves (plain_change s0) (publish w t e subnet)"
  unfolding publish_def by (intro preserves_rules) simp_all

lemma plain_act [preserves_rules]: "preserves (plain_change s0) (act_on D w e rec action rule)"
  unfolding act_on_def sink_defs by (intro preserves_rules) simp_all

lemma plain_reemit [preserves_rules]: "preserves (plain_change s0) (reemitIfBridge w n re)"
  unfolding reemitIfBridge_def by (intro preserves_rules)

lemma plain_decay: "preserves (plain_change s0) (decay_one D w n ip)"
  unfolding decay_one_def sink_defs
  by (intro preserves_rules) (simp_all add: preserves_def plain_change_def exec_def split: sum.split prod.split)

lemma plain_local: "preserves (plain_change s0) (processLocal D w n e)"
  unfolding processLocal_def local_report_def by (intro preserves_rules)

lemma plain_remote: "Kind (re_Event re) \<noteq> ''vote'' \<Longrightarrow> preserves (plain_change s0) (ProcessRemote D w n re)"
  unfolding ProcessRemote_def remote_report_def Let_def if_not_P by (intro preserves_rules)

text \<open>
  Every handler of the event loop but that of a vote is such a change, so \<open>race_other\<close> covers it.
\<close>

lemma handlers_plain:
  "plain_change s (exec (handle D w n Startup) s)"
  "plain_change s (exec (handle D w n (LocalEvent e)) s)"
  "plain_change s (exec (handle D w n DecayTick) s)"
  "plain_change s (exec (handle D w n (GaugeTick p)) s)"
  "Kind (re_Event re) \<noteq> ''vote'' \<Longrightarrow> plain_change s (exec (handle D w n (RemoteEvent re)) s)"
proof -
  note start = preservesD [where I = "plain_change s", OF _ plain_refl]
  show "plain_change s (exec (handle D w n Startup) s)"
    by (rule start, simp add: handle_def run_start_def publishSharedVotes_def, intro preserves_rules)
  show "plain_change s (exec (handle D w n (LocalEvent e)) s)"
    by (rule start) (simp add: handle_def plain_local)
  show "plain_change s (exec (handle D w n DecayTick) s)"
    by (rule start) (simp add: handle_def preserves_runDecay plain_decay)
  show "plain_change s (exec (handle D w n (GaugeTick p)) s)"
    by (rule start, simp add: handle_def gauge_tick_def, intro preserves_rules)
  show "plain_change s (exec (handle D w n (RemoteEvent re)) s)" if "Kind (re_Event re) \<noteq> ''vote''"
    by (rule start, simp add: handle_def handle_remote_def, intro preserves_rules plain_remote that)
qed

section \<open>Property\<close>

text \<open>
  C6. Disputes and federated lookups race, because \<open>matMu\<close> is released around the call on the firewall,
  but they race within bounds. From any start and in any interleaving: after a dispute the firewall is
  asked for at most as many federated blocks of the address as there were lookups past the test, and
  none when there was none. And once an address is disputed and not materialised, no part of the node
  is busy with it and no unblocking of it failed, no federated block of it stands, then and ever after.
\<close>

theorem disputes_race_bounded:
  assumes "race_run D n (race_start s0) r" and "race_run D n r r'" and "ip \<in> st_disputed (rc_node r)"
  shows "pushes ip r' \<le> pushes ip r + pending ip r \<and>
    (settled ip r \<and> ip \<notin> st_materialised (rc_node r) \<and> ip \<notin> rc_stuck r \<longrightarrow> ip \<notin> rc_standing r')"
proof -
  have "ip \<notin> rc_standing r'" if "settled ip r" "ip \<notin> st_materialised (rc_node r)" "ip \<notin> rc_stuck r"
  proof -
    have "lifted ip r"
      using that assms(3) known_blocks_run [OF assms(1) known_blocks_start] by (auto simp: lifted_def known_blocks_def settled_def)
    from lifted_run [OF assms(2) this] show ?thesis by (simp add: lifted_def)
  qed
  with disputed_run [OF assms(2,3)] show ?thesis by auto
qed

text \<open>
  The bound is reached: a lookup passes the test, a dispute comes in, and the block is pushed and
  noted although the address is disputed.
\<close>

definition race_node :: "string Node" where
  "race_node = ex_bridge\<lparr>nd_cfg := Defaults\<lparr>FederationMaterialize := True\<rparr>\<rparr>"

definition bad_record :: ScoreRecord where
  "bad_record = zero_rec\<lparr>Score := 90\<rparr>"

definition raced :: "(mem_db, string list, string list) race" where
  "raced = \<lparr>rc_node = ex_state\<lparr>st_disputed := {''192.0.2.7''}\<rparr>, rc_flight = [Passed ''192.0.2.7'' bad_record],
     rc_lifting = None, rc_standing = {}, rc_stuck = {}\<rparr>"

definition raced_on :: "(mem_db, string list, string list) race" where
  "raced_on = raced\<lparr>rc_node := ex_state\<lparr>st_disputed := {''192.0.2.7''}, st_materialised := {''192.0.2.7''},
       st_sink := [''192.0.2.7''], st_out := [BlockedFor ''192.0.2.7'' hour]\<rparr>,
     rc_flight := [], rc_standing := {''192.0.2.7''}\<rparr>"

lemma raced_run: "race_run ex_deps race_node (race_start ex_state) raced"
proof -
  have gate: "materialise_gate race_node ''192.0.2.7'' bad_record 3"
    by (simp add: materialise_gate_def race_node_def ex_bridge_def bad_record_def Defaults_def nbl_Contains_def
        wl_Contains_def split: option.split)
  let ?r = "(race_start ex_state)\<lparr>rc_flight := [Passed ''192.0.2.7'' bad_record]\<rparr>"
  have "race_step ex_deps race_node (race_start ex_state) ?r"
    using race_test [OF gate, of "race_start ex_state" ex_deps] by (simp add: race_start_def ex_state_def)
  moreover have "race_step ex_deps race_node ?r raced"
    using race_dispute [of ?r "''192.0.2.7''" False "ex_state\<lparr>st_disputed := {''192.0.2.7''}\<rparr>" ex_deps race_node]
    by (simp add: race_start_def ex_state_def mark_disputed_def raced_def)
  ultimately show ?thesis by (meson r_into_rtranclp rtranclp_trans)
qed

lemma raced_on_run: "race_run ex_deps race_node raced raced_on"
proof -
  let ?s = "ex_state\<lparr>st_disputed := {''192.0.2.7''}, st_sink := [''192.0.2.7''], st_out := [BlockedFor ''192.0.2.7'' hour]\<rparr>"
  let ?r = "raced\<lparr>rc_node := ?s, rc_flight := [Pushed ''192.0.2.7'' bad_record], rc_standing := {''192.0.2.7''}\<rparr>"
  have "race_step ex_deps race_node raced ?r"
    using race_push [of "''192.0.2.7''" bad_record raced ex_deps "ex_world 5" race_node ?s]
    by (simp add: raced_def push_block_def sink_defs sink_call_def ex_deps_def list_sink_def ex_state_def race_node_def
        ex_bridge_def EffectiveFederationBlockTTL_def Defaults_def)
  moreover have "race_step ex_deps race_node ?r raced_on"
    using race_note [of "''192.0.2.7''" bad_record ?r ex_deps race_node "ex_world 5"]
    by (simp add: raced_on_def raced_def note_block_def observe_def ex_state_def)
  ultimately show ?thesis by (meson r_into_rtranclp rtranclp_trans)
qed

theorem disputes_race_bounded_witness:
  "pushes ''192.0.2.7'' raced_on \<le> 1 \<and> pushes ''192.0.2.7'' raced_on = 1 \<and>
    ''192.0.2.7'' \<in> st_disputed (rc_node raced_on) \<inter> st_materialised (rc_node raced_on) \<inter> rc_standing raced_on"
  using disputes_race_bounded [OF raced_run raced_on_run, of "''192.0.2.7''"]
  by (simp add: raced_def raced_on_def ex_state_def pushes_def pending_def)

end
