(* ===== verification/Flags.thy ===== *)
theory Flags
  imports Netip "HOL-Library.AList" "HOL-Library.Sublist"
begin

text \<open>
  Command lines and durations as text: the parts of Go's \<open>flag\<close> and \<open>time\<close> packages the two
  commands, the configuration and the rules use. A flag set is the list of its flags with their
  values, at first the defaults; the kind of a flag is the kind of its value.
\<close>

section \<open>Durations\<close>

text \<open>
  \<open>time.ParseDuration\<close>. Its counters are 64-bit words without a sign: \<open>leadingInt\<close> and the
  loop fail above \<open>2 ^ 63\<close>, and the sum of two such numbers wraps around at \<open>2 ^ 64\<close>.
\<close>

definition digit_value :: "char \<Rightarrow> nat" where
  "digit_value c = the (char_digit c)"

fun leadingInt :: "nat \<Rightarrow> string \<Rightarrow> (nat \<times> string) option" where
  "leadingInt x [] = Some (x, [])"
| "leadingInt x (c # s) =
     (if \<not> is_digit c then Some (x, c # s)
      else if x > 2 ^ 63 div 10 then None
      else let x = x * 10 + digit_value c in if x > 2 ^ 63 then None else leadingInt x s)"

text \<open>The digits after the point, as many as fit, with the power of ten that scales them.\<close>

fun leadingFraction :: "nat \<Rightarrow> nat \<Rightarrow> bool \<Rightarrow> string \<Rightarrow> nat \<times> nat \<times> string" where
  "leadingFraction x scale overflow [] = (x, scale, [])"
| "leadingFraction x scale overflow (c # s) =
     (if \<not> is_digit c then (x, scale, c # s)
      else if overflow \<or> x > (2 ^ 63 - 1) div 10 \<or> x * 10 + digit_value c > 2 ^ 63
      then leadingFraction x scale True s
      else leadingFraction (x * 10 + digit_value c) (scale * 10) False s)"

definition unitMap :: "string \<Rightarrow> nat option" where
  "unitMap = map_of
     [(''ns'', 1), (''us'', 1000), ([CHR 0xC2, CHR 0xB5, CHR ''s''], 1000), ([CHR 0xCE, CHR 0xBC, CHR ''s''], 1000),
      (''ms'', 1000000), (''s'', 1000000000), (''m'', 60000000000), (''h'', 3600000000000)]"

lemma leadingInt_length: "leadingInt x s = Some (v, r) \<Longrightarrow> length r \<le> length s"
  by (induction x s rule: leadingInt.induct) (fastforce split: if_splits simp: Let_def)+

lemma leadingFraction_length: "leadingFraction x k b s = (f, k', r) \<Longrightarrow> length r \<le> length s"
  by (induction x k b s rule: leadingFraction.induct) (fastforce split: if_splits)+

definition unit_char :: "char \<Rightarrow> bool" where
  "unit_char c \<longleftrightarrow> c \<noteq> CHR ''.'' \<and> \<not> is_digit c"

text \<open>A number with an optional fraction: its two parts, the scale, and what follows it.\<close>

definition duration_number :: "string \<Rightarrow> (nat \<times> nat \<times> nat \<times> string) option" where
  "duration_number s =
     (case leadingInt 0 s of
        None \<Rightarrow> None
      | Some (v, r) \<Rightarrow>
          let pre = length r \<noteq> length s;
              (f, scale, post, r) =
                (if r \<noteq> '''' \<and> hd r = CHR ''.''
                 then let (f, scale, t) = leadingFraction 0 1 False (tl r) in (f, scale, length t \<noteq> length (tl r), t)
                 else (0, 1, False, r))
          in if \<not> pre \<and> \<not> post then None else Some (v, f, scale, r))"

lemma duration_number_length: "duration_number s = Some (v, f, k, r) \<Longrightarrow> length r \<le> length s"
  by (auto simp: duration_number_def Let_def split: option.splits if_splits prod.splits
      dest!: leadingInt_length leadingFraction_length)

text \<open>One number with its unit, in nanoseconds, and what follows.\<close>

definition duration_item :: "string \<Rightarrow> (nat \<times> string) option" where
  "duration_item s =
     (if hd s \<noteq> CHR ''.'' \<and> \<not> is_digit (hd s) then None
      else (case duration_number s of
              None \<Rightarrow> None
            | Some (v, f, scale, r) \<Rightarrow>
                let u = takeWhile unit_char r
                in if u = '''' then None
                   else (case unitMap u of
                           None \<Rightarrow> None
                         | Some unit \<Rightarrow>
                             if v > 2 ^ 63 div unit then None
                             else let v = v * unit + f * unit div scale
                                  in if v > 2 ^ 63 then None else Some (v, dropWhile unit_char r))))"

lemma dropWhile_shorter: "takeWhile P r \<noteq> [] \<Longrightarrow> length (dropWhile P r) < length r"
  by (cases r) (auto simp: length_dropWhile_le le_imp_less_Suc split: if_splits)

lemma duration_item_length: "duration_item s = Some (v, r) \<Longrightarrow> length r < length s"
  by (auto simp: duration_item_def Let_def split: if_splits option.splits
      dest!: duration_number_length dropWhile_shorter)

function duration_loop :: "nat \<Rightarrow> string \<Rightarrow> nat option" where
  "duration_loop d s =
     (if s = '''' then Some d
      else (case duration_item s of
              None \<Rightarrow> None
            | Some (v, r) \<Rightarrow>
                let d = (d + v) mod 2 ^ 64 in if d > 2 ^ 63 then None else duration_loop d r))"
  by pat_completeness auto

termination
  by (relation "measure (\<lambda>(d, s). length s)") (auto dest: duration_item_length)

declare duration_loop.simps [simp del]

definition ParseDuration :: "string \<Rightarrow> error + duration" where
  "ParseDuration s =
     (let signed = s \<noteq> '''' \<and> (hd s = CHR ''-'' \<or> hd s = CHR ''+''); neg = signed \<and> hd s = CHR ''-'';
          s = (if signed then tl s else s)
      in if s = ''0'' then Inr 0
         else if s = '''' then Inl (Fault ''time: invalid duration'')
         else (case duration_loop 0 s of
                 None \<Rightarrow> Inl (Fault ''time: invalid duration'')
               | Some d \<Rightarrow>
                   if neg then Inr (- int d)
                   else if d > 2 ^ 63 - 1 then Inl (Fault ''time: invalid duration'') else Inr (int d)))"

lemma duration_loop_bound: "duration_loop d s = Some n \<Longrightarrow> d \<le> 2 ^ 63 \<Longrightarrow> n \<le> 2 ^ 63"
proof (induction d s rule: duration_loop.induct)
  case (1 d s)
  from 1(2) show ?case
    using 1(1,3) by (elim duration_loop.elims) (auto simp: Let_def split: if_splits option.splits)
qed

text \<open>Every duration that parses fits 64 bits with a sign.\<close>

lemma ParseDuration_range: "ParseDuration s = Inr d \<Longrightarrow> - (2 ^ 63) \<le> d \<and> d < 2 ^ 63"
  using duration_loop_bound [of 0 "tl s"] duration_loop_bound [of 0 s]
  by (auto simp: ParseDuration_def Let_def split: if_splits option.splits)

text \<open>A whole number of a unit means what it says, as long as it fits.\<close>

lemma leadingInt_append:
  "list_all is_digit s \<Longrightarrow> leadingInt x (s @ t) = (case leadingInt x s of None \<Rightarrow> None | Some (v, _) \<Rightarrow> leadingInt v t)"
  by (induction s arbitrary: x) (simp_all add: Let_def)

lemma digit_value_nth: "d < 10 \<Longrightarrow> digit_value (''0123456789'' ! d) = d \<and> is_digit (''0123456789'' ! d)"
  using char_digit_digit [of d] is_digit_digit [of d]
  by (auto simp: digit_value_def digit_char_def hex_digits_def less_Suc_eq numeral_eq_Suc)

lemma itoa_digits: "list_all is_digit (itoa n)"
proof (induction n rule: itoa.induct)
  case (1 n)
  show ?case using 1 digit_value_nth [of n] digit_value_nth [of "n mod 10"] by (subst itoa.simps) simp
qed

lemma leadingInt_digit: "d < 10 \<Longrightarrow> x * 10 + d \<le> 2 ^ 63 \<Longrightarrow> leadingInt x [''0123456789'' ! d] = Some (x * 10 + d, [])"
  using digit_value_nth [of d] by (simp add: Let_def)

lemma leadingInt_itoa: "n \<le> 2 ^ 63 \<Longrightarrow> leadingInt 0 (itoa n) = Some (n, [])"
proof (induction n rule: itoa.induct)
  case (1 n)
  show ?case
  proof (cases "n < 10")
    case True
    then show ?thesis using leadingInt_digit [of n 0] 1 by (subst itoa.simps) simp
  next
    case False
    have "leadingInt (n div 10) [''0123456789'' ! (n mod 10)] = Some (n, [])"
      using leadingInt_digit [of "n mod 10" "n div 10"] 1(2) by simp
    with False 1 show ?thesis by (subst itoa.simps) (simp add: leadingInt_append itoa_digits)
  qed
qed

lemma itoa_not_Nil [simp]: "itoa n \<noteq> ''''"
  by (subst itoa.simps) simp

definition units :: "string list" where
  "units = [''ns'', ''us'', [CHR 0xC2, CHR 0xB5, CHR ''s''], [CHR 0xCE, CHR 0xBC, CHR ''s''], ''ms'', ''s'', ''m'', ''h'']"

lemma units_known: "w \<in> set units \<Longrightarrow> \<exists>u > 0. unitMap w = Some u"
  by (auto simp: units_def unitMap_def)

lemma units_chars: "w \<in> set units \<Longrightarrow> w \<noteq> '''' \<and> list_all unit_char w"
  by (auto simp: units_def unit_char_def is_digit_def dec_digits_def)

lemma ParseDuration_whole:
  assumes "unitMap w = Some u" and "w \<in> set units" and "n * u < 2 ^ 63"
  shows "ParseDuration (itoa n @ w) = Inr (int (n * u))"
proof -
  obtain c cs where w: "w = c # cs" "unit_char c" "list_all unit_char w" using units_chars [OF assms(2)] by (cases w) auto
  have "u > 0" using units_known [OF assms(2)] assms(1) by auto
  then have "n \<le> n * u" by simp
  then have n: "n \<le> 2 ^ 63" using assms(3) by linarith
  have nu: "n \<le> 2 ^ 63 div u" using assms(3) \<open>u > 0\<close> by (simp add: less_eq_div_iff_mult_less_eq)
  obtain d ds where i: "itoa n = d # ds" "is_digit d" using itoa_digits [of n] by (cases "itoa n") auto
  have "leadingInt 0 (itoa n @ w) = Some (n, w)"
    using w leadingInt_append [OF itoa_digits, of 0 n w] leadingInt_itoa [OF n] by (simp add: unit_char_def)
  then have num: "duration_number (itoa n @ w) = Some (n, 0, 1, w)"
    using w by (simp add: duration_number_def unit_char_def)
  have tw: "takeWhile unit_char w = w" "dropWhile unit_char w = ''''"
    using w(3) by (simp_all add: takeWhile_eq_all_conv dropWhile_eq_Nil_conv list_all_iff)
  have "hd (itoa n @ w) = d" "w \<noteq> ''''" using i(1) w(1) by simp_all
  then have item: "duration_item (itoa n @ w) = Some (n * u, '''')"
    using num nu assms(1,3) i(2) by (simp add: duration_item_def Let_def tw)
  have loop: "duration_loop 0 (itoa n @ w) = Some (n * u)"
    using item assms(3) by (subst duration_loop.simps) (simp add: duration_loop.simps [of _ "''''"])
  have "d \<noteq> CHR ''-''" "d \<noteq> CHR ''+''" using i(2) by (auto simp: is_digit_def dec_digits_def)
  then show ?thesis using loop i assms(3) w(1) by (simp add: ParseDuration_def Let_def)
qed

text \<open>The \<open>UnmarshalYAML\<close> of a duration, in the configuration and in a rule, on the decoded text.\<close>

definition config_UnmarshalYAML :: "error + string \<Rightarrow> error + duration" where
  "config_UnmarshalYAML decoded =
     (case decoded of
        Inl e \<Rightarrow> Inl e
      | Inr s \<Rightarrow> (case ParseDuration s of Inl e \<Rightarrow> Inl (Wrap ''config: parse duration'' e) | Inr d \<Rightarrow> Inr d))"

definition rules_UnmarshalYAML :: "error + string \<Rightarrow> error + duration" where
  "rules_UnmarshalYAML decoded =
     (case decoded of
        Inl e \<Rightarrow> Inl e
      | Inr s \<Rightarrow> (case ParseDuration s of Inl e \<Rightarrow> Inl (Wrap ''rules: parse duration'' e) | Inr d \<Rightarrow> Inr d))"

section \<open>Flags\<close>

datatype flag_value = StringV string | Float64V real | DurationV duration | BoolV bool

type_synonym FlagSet = "(string \<times> flag_value) list"

definition ParseBool :: "string \<Rightarrow> bool option" where
  "ParseBool s =
     (if s \<in> set [''1'', ''t'', ''T'', ''TRUE'', ''true'', ''True''] then Some True
      else if s \<in> set [''0'', ''f'', ''F'', ''FALSE'', ''false'', ''False''] then Some False else None)"

text \<open>\<open>strconv.ParseFloat\<close> is an argument: it rounds, and the model's scores are reals.\<close>

fun set_value :: "(string \<Rightarrow> real option) \<Rightarrow> flag_value \<Rightarrow> string \<Rightarrow> flag_value option" where
  "set_value pf (StringV _) s = Some (StringV s)"
| "set_value pf (Float64V _) s = map_option Float64V (pf s)"
| "set_value pf (DurationV _) s = (case ParseDuration s of Inl _ \<Rightarrow> None | Inr d \<Rightarrow> Some (DurationV d))"
| "set_value pf (BoolV _) s = map_option BoolV (ParseBool s)"

text \<open>
  How \<open>Parse\<close> ends: with the values and the arguments left, with a mistake (the process exits with
  2), or with a call for help (it exits with 0).
\<close>

datatype parsed = Parsed FlagSet "string list" | BadFlag | HelpWanted

definition is_flag :: "string \<Rightarrow> bool" where
  "is_flag s \<longleftrightarrow> length s \<ge> 2 \<and> hd s = CHR ''-''"

text \<open>The name of a flag without its dashes, and the value after an equals sign.\<close>

definition flag_name :: "string \<Rightarrow> string" where
  "flag_name s = (if s ! 1 = CHR ''-'' then drop 2 s else drop 1 s)"

definition split_value :: "string \<Rightarrow> string \<times> string option" where
  "split_value name =
     (let n = takeWhile (\<lambda>c. c \<noteq> CHR ''='') name
      in (n, if n = name then None else Some (drop (length n + 1) name)))"

text \<open>One word: a flag is set, perhaps with the word after it, or the flags end here.\<close>

datatype parse_step = Set FlagSet "string list" | End "string list" | Wrong | Help

definition set_flag :: "(string \<Rightarrow> real option) \<Rightarrow> FlagSet \<Rightarrow> string \<Rightarrow> flag_value \<Rightarrow> string \<Rightarrow> string list \<Rightarrow> parse_step" where
  "set_flag pf fl name v text rest =
     (case set_value pf v text of None \<Rightarrow> Wrong | Some v \<Rightarrow> Set (AList.update name v fl) rest)"

fun is_bool :: "flag_value \<Rightarrow> bool" where
  "is_bool (BoolV _) \<longleftrightarrow> True"
| "is_bool _ \<longleftrightarrow> False"

definition parseOne :: "(string \<Rightarrow> real option) \<Rightarrow> FlagSet \<Rightarrow> string \<Rightarrow> string list \<Rightarrow> parse_step" where
  "parseOne pf fl s args =
     (if \<not> is_flag s then End (s # args)
      else if s = ''--'' then End args
      else let name = flag_name s
        in if hd name = CHR ''-'' \<or> hd name = CHR ''='' then Wrong
           else case split_value name of (name, value) \<Rightarrow>
             (case map_of fl name of
                None \<Rightarrow> if name = ''help'' \<or> name = ''h'' then Help else Wrong
              | Some v \<Rightarrow>
                  (case value of
                     Some t \<Rightarrow> set_flag pf fl name v t args
                   | None \<Rightarrow>
                       if is_bool v then set_flag pf fl name v ''true'' args
                       else (case args of [] \<Rightarrow> Wrong | t # rest \<Rightarrow> set_flag pf fl name v t rest))))"

lemma set_flag_Set: "set_flag pf fl name v t rest = Set fl' r \<longleftrightarrow>
    r = rest \<and> (\<exists>w. set_value pf v t = Some w \<and> fl' = AList.update name w fl)"
  by (auto simp: set_flag_def split: option.splits)

lemma set_flag_not_End [simp]: "set_flag pf fl name v t rest \<noteq> End r"
  by (simp add: set_flag_def split: option.splits)

lemma parseOne_suffix: "parseOne pf fl s args = Set fl' r \<Longrightarrow> suffix r args"
  by (auto simp: parseOne_def Let_def set_flag_Set suffix_Cons split: if_splits option.splits prod.splits list.splits)

function Parse :: "(string \<Rightarrow> real option) \<Rightarrow> FlagSet \<Rightarrow> string list \<Rightarrow> parsed" where
  "Parse pf fl [] = Parsed fl []"
| "Parse pf fl (s # args) =
     (case parseOne pf fl s args of
        Set fl rest \<Rightarrow> Parse pf fl rest
      | End rest \<Rightarrow> Parsed fl rest
      | Wrong \<Rightarrow> BadFlag
      | Help \<Rightarrow> HelpWanted)"
  by pat_completeness auto

termination
  by (relation "measure (\<lambda>(_, _, args). length args)") (auto dest!: parseOne_suffix suffix_length_le)

definition string_flag :: "FlagSet \<Rightarrow> string \<Rightarrow> string" where
  "string_flag fl name = (case map_of fl name of Some (StringV s) \<Rightarrow> s | _ \<Rightarrow> '''')"

definition float_flag :: "FlagSet \<Rightarrow> string \<Rightarrow> real" where
  "float_flag fl name = (case map_of fl name of Some (Float64V r) \<Rightarrow> r | _ \<Rightarrow> 0)"

definition duration_flag :: "FlagSet \<Rightarrow> string \<Rightarrow> duration" where
  "duration_flag fl name = (case map_of fl name of Some (DurationV d) \<Rightarrow> d | _ \<Rightarrow> 0)"

definition bool_flag :: "FlagSet \<Rightarrow> string \<Rightarrow> bool" where
  "bool_flag fl name = (case map_of fl name of Some (BoolV b) \<Rightarrow> b | _ \<Rightarrow> False)"

section \<open>What parsing gives\<close>

lemma parseOne_stops [simp]: "\<not> is_flag s \<Longrightarrow> parseOne pf fl s args = End (s # args)"
  by (simp add: parseOne_def)

text \<open>The arguments left over are the last words of the line.\<close>

lemma parseOne_End: "parseOne pf fl s args = End r \<Longrightarrow> suffix r (s # args)"
  by (auto simp: parseOne_def Let_def suffix_Cons split: if_splits option.splits prod.splits list.splits)

lemma Parse_suffix: "Parse pf fl args = Parsed fl' rest \<Longrightarrow> suffix rest args"
proof (induction pf fl args rule: Parse.induct)
  case (2 pf fl s args)
  show ?case
  proof (cases "parseOne pf fl s args")
    case (Set fl2 r)
    with 2 have "suffix rest r" by simp
    moreover have "suffix r args" using Set by (rule parseOne_suffix)
    ultimately show ?thesis by (meson suffix_ConsI suffix_order.trans)
  next
    case (End r)
    with 2(2) parseOne_End show ?thesis by fastforce
  qed (use 2 in simp_all)
qed simp

text \<open>What follows the flags does not change how they are read.\<close>

lemma parseOne_append: "parseOne pf fl s pre = Set fl' r \<Longrightarrow> parseOne pf fl s (pre @ t) = Set fl' (r @ t)"
  by (cases pre) (auto simp: parseOne_def Let_def set_flag_Set split: if_splits option.splits prod.splits)

lemma parseOne_End_append: "parseOne pf fl s pre = End [] \<Longrightarrow> parseOne pf fl s (pre @ t) = End t"
  by (auto simp: parseOne_def Let_def split: if_splits option.splits prod.splits list.splits)

lemma Parse_append:
  "Parse pf fl pre = Parsed fl' [] \<Longrightarrow> \<not> is_flag a \<Longrightarrow> Parse pf fl (pre @ a # rest) = Parsed fl' (a # rest)"
proof (induction pf fl pre rule: Parse.induct)
  case (2 pf fl s args)
  show ?case
  proof (cases "parseOne pf fl s args")
    case (Set fl2 r)
    with 2 parseOne_append show ?thesis by simp
  next
    case (End r)
    with 2(2,3) show ?thesis using parseOne_End_append [of pf fl s args "a # rest"] by simp
  qed (use 2 in simp_all)
qed simp

text \<open>A flag with its value after an equals sign, with one dash or two, sets that value.\<close>

definition valid_name :: "string \<Rightarrow> bool" where
  "valid_name n \<longleftrightarrow> n \<noteq> '''' \<and> CHR ''='' \<notin> set n \<and> hd n \<noteq> CHR ''-''"

lemma parseOne_assign:
  assumes "valid_name n" and "map_of fl n = Some v" and "set_value pf v t = Some w" and "dashes \<in> {''-'', ''--''}"
  shows "parseOne pf fl (dashes @ n @ CHR ''='' # t) args = Set (AList.update n w fl) args"
proof -
  have "takeWhile (\<lambda>c. c \<noteq> CHR ''='') (n @ CHR ''='' # t) = n"
    using assms(1) by (auto simp: valid_name_def takeWhile_append intro: takeWhile_eq_all_conv [THEN iffD2])
  then have "split_value (n @ CHR ''='' # t) = (n, Some t)" by (simp add: split_value_def Let_def)
  moreover have "hd n \<noteq> CHR ''=''" using assms(1) by (cases n) (auto simp: valid_name_def)
  moreover obtain c cs where "n = c # cs" using assms(1) by (cases n) (auto simp: valid_name_def)
  ultimately show ?thesis
    using assms by (auto simp: parseOne_def is_flag_def flag_name_def Let_def set_flag_Set valid_name_def)
qed

text \<open>The text of a flag is its default, or stands at the end of a word of the line.\<close>

lemma split_value_suffix: "split_value name = (n, Some t) \<Longrightarrow> suffix t name"
  by (auto simp: split_value_def Let_def suffix_drop split: if_splits)

lemma flag_name_suffix: "suffix (flag_name s) s"
  by (simp add: flag_name_def suffix_drop)

lemma string_flag_update:
  "string_flag (AList.update name w fl) n =
     (if n = name then (case w of StringV u \<Rightarrow> u | _ \<Rightarrow> '''') else string_flag fl n)"
  by (simp add: string_flag_def update_conv' split: flag_value.split)

lemma set_flag_text:
  assumes "set_flag pf fl name v t rest = Set fl' r" and "is_bool v \<or> (\<exists>a \<in> A. suffix t a)" and "A \<noteq> {}"
  shows "string_flag fl' n = string_flag fl n \<or> (\<exists>a \<in> A. suffix (string_flag fl' n) a)"
proof -
  obtain w where w: "set_value pf v t = Some w" "fl' = AList.update name w fl" using assms(1) by (auto simp: set_flag_Set)
  have "w = StringV t \<or> string_flag fl' name = ''''"
    using w by (cases v) (auto simp: string_flag_update split: sum.splits)
  then show ?thesis using assms(2,3) w by (cases v) (auto simp: string_flag_update split: flag_value.splits)
qed

lemma parseOne_Set:
  assumes "parseOne pf fl s args = Set fl' r"
  shows "\<exists>name v t rest. set_flag pf fl name v t rest = Set fl' r \<and> (is_bool v \<or> (\<exists>a \<in> set (s # args). suffix t a))"
proof -
  obtain name val where sv: "split_value (flag_name s) = (name, val)" by fastforce
  with assms obtain v where v: "map_of fl name = Some v" and
    c: "(case val of Some t \<Rightarrow> set_flag pf fl name v t args
         | None \<Rightarrow> if is_bool v then set_flag pf fl name v ''true'' args
                   else (case args of [] \<Rightarrow> Wrong | t # rest \<Rightarrow> set_flag pf fl name v t rest)) = Set fl' r"
    by (auto simp: parseOne_def Let_def split: if_splits option.splits)
  show ?thesis
  proof (cases val)
    case None
    then show ?thesis using c by (cases args) (fastforce split: if_splits)+
  next
    case (Some t)
    then have "suffix t s" using split_value_suffix flag_name_suffix sv suffix_order.trans by blast
    with Some c show ?thesis by fastforce
  qed
qed

lemma parseOne_text:
  "parseOne pf fl s args = Set fl' r \<Longrightarrow>
     string_flag fl' n = string_flag fl n \<or> (\<exists>a \<in> set (s # args). suffix (string_flag fl' n) a)"
  using parseOne_Set [of pf fl s args fl' r] set_flag_text [of pf fl _ _ _ _ fl' r "set (s # args)" n] by blast

lemma Parse_text:
  "Parse pf fl args = Parsed fl' rest \<Longrightarrow>
     string_flag fl' n = string_flag fl n \<or> (\<exists>a \<in> set args. suffix (string_flag fl' n) a)"
proof (induction pf fl args rule: Parse.induct)
  case (2 pf fl s args)
  show ?case
  proof (cases "parseOne pf fl s args")
    case (Set fl2 r)
    with 2 have "string_flag fl' n = string_flag fl2 n \<or> (\<exists>a \<in> set r. suffix (string_flag fl' n) a)" by simp
    moreover have "set r \<subseteq> set (s # args)" using parseOne_suffix [OF Set] set_mono_suffix by fastforce
    ultimately show ?thesis using parseOne_text [OF Set, of n] by (metis subsetD)
  qed (use 2 in simp_all)
qed simp

end
