(* ===== verification/Ctl.thy ===== *)
theory Ctl
  imports Trust Allowlists Config
begin

text \<open>
  The administration commands that keep a node's trust files, \<open>cmd/federloomctl\<close>: the trust
  commands (\<open>trust.go\<close>), identities and certificates (\<open>identity.go\<close>), and the whitelist
  (\<open>whitelist.go\<close>). A command gets the values of its flags and its positional arguments, which
  \<open>Cmdline\<close> reads from the words of the line. What it prints is left out, but for the bundle and the certificate.
\<close>

section \<open>The environment of a command\<close>

text \<open>
  The configuration loaded (or the error), the faults of the file system by path, the name
  \<open>os.CreateTemp\<close> picks for a path, the clock, the random source, and the libraries.
\<close>

record ('sk, 'pid, 'pk) ctl_env =
  ce_cfg :: "error + Config"
  ce_faults :: "string \<Rightarrow> os_faults"
  ce_tmp :: "string \<Rightarrow> string"
  ce_now :: time
  ce_rnd :: "error + bytes"
  ce_ed :: ed25519
  ce_json :: trust_json
  ce_enc_cert :: "PeerCert \<Rightarrow> error + string"
  ce_dec_cert :: "string \<Rightarrow> error + PeerCert"
  ce_dec_bundle :: "string \<Rightarrow> error + Bundle"
  ce_p2p :: "('sk, 'pid, 'pk) libp2p"
  ce_codec :: "'sk key_codec"

definition env_read :: "('sk, 'pid, 'pk) ctl_env \<Rightarrow> fs \<Rightarrow> string \<Rightarrow> error + string" where
  "env_read E fs p = ReadFile (ce_faults E p) fs p"

definition load_anchors :: "('sk, 'pid, 'pk) ctl_env \<Rightarrow> fs \<Rightarrow> string \<Rightarrow> error + Anchor list" where
  "load_anchors E fs p = LoadAnchors (ce_json E) (env_read E fs p)"

definition save_anchors :: "('sk, 'pid, 'pk) ctl_env \<Rightarrow> fs \<Rightarrow> string \<Rightarrow> Anchor list \<Rightarrow> error option \<times> fs" where
  "save_anchors E fs p xs = SaveAnchors (ce_json E) (ce_faults E p) fs (ce_tmp E p) p xs"

definition load_certs :: "('sk, 'pid, 'pk) ctl_env \<Rightarrow> fs \<Rightarrow> string \<Rightarrow> error + PeerCert list" where
  "load_certs E fs p = LoadCerts (ce_json E) (env_read E fs p)"

definition save_certs :: "('sk, 'pid, 'pk) ctl_env \<Rightarrow> fs \<Rightarrow> string \<Rightarrow> PeerCert list \<Rightarrow> error option \<times> fs" where
  "save_certs E fs p xs = SaveCerts (ce_json E) (ce_faults E p) fs (ce_tmp E p) p xs"

definition load_person :: "('sk, 'pid, 'pk) ctl_env \<Rightarrow> fs \<Rightarrow> string \<Rightarrow> error + bytes" where
  "load_person E fs p = LoadPersonKey (ce_ed E) (ce_faults E p) fs p"

text \<open>\<open>errors.Is\<close> looks through the wrapped errors.\<close>

fun errors_Is_NotExist :: "error \<Rightarrow> bool" where
  "errors_Is_NotExist (Wrap m e) \<longleftrightarrow> errors_Is_NotExist e"
| "errors_Is_NotExist (Fault m) \<longleftrightarrow> Fault m = ErrNotExist"

definition labelPath :: "string \<Rightarrow> string" where
  "labelPath personKeyFile = personKeyFile @ ''.label''"

definition issuedCertsPath :: "string \<Rightarrow> string" where
  "issuedCertsPath personKeyFile = personKeyFile @ ''.issued.json''"

definition ownPersonPub :: "('sk, 'pid, 'pk) ctl_env \<Rightarrow> fs \<Rightarrow> string \<Rightarrow> error + bytes option" where
  "ownPersonPub E fs p =
     (case load_person E fs p of
        Inl e \<Rightarrow> if errors_Is_NotExist e then Inr None else Inl e
      | Inr priv \<Rightarrow> Inr (Some (PersonPub priv)))"

section \<open>Anchors\<close>

text \<open>The loop that replaces the first anchor of the same Person; \<open>None\<close> when there is none.\<close>

fun replace_anchor :: "Anchor \<Rightarrow> Anchor list \<Rightarrow> Anchor list option" where
  "replace_anchor a [] = None"
| "replace_anchor a (x # xs) =
     (if Person x = Person a then Some (a # xs) else map_option (\<lambda>ys. x # ys) (replace_anchor a xs))"

definition upsertAnchor :: "('sk, 'pid, 'pk) ctl_env \<Rightarrow> Config \<Rightarrow> fs \<Rightarrow> Anchor \<Rightarrow> error option \<times> fs" where
  "upsertAnchor E cfg fs a =
     (let p = TrustAnchorsFile cfg
      in case load_anchors E fs p of
           Inl e \<Rightarrow> (Some e, fs)
         | Inr xs \<Rightarrow>
             (case replace_anchor a xs of
                Some ys \<Rightarrow> save_anchors E fs p ys
              | None \<Rightarrow> save_anchors E fs p (xs @ [a])))"

definition usage :: error where
  "usage = Fault ''usage''"

definition bad_weight :: "real \<Rightarrow> bool" where
  "bad_weight w \<longleftrightarrow> w \<le> 0 \<or> w > 1"

definition trustAdd ::
  "('sk, 'pid, 'pk) ctl_env \<Rightarrow> string \<Rightarrow> real \<Rightarrow> string \<Rightarrow> string list \<Rightarrow> fs \<Rightarrow> error option \<times> fs" where
  "trustAdd E idStr weight label args fs =
     (case args of
        [person] \<Rightarrow>
          (case ce_cfg E of
             Inl e \<Rightarrow> (Some e, fs)
           | Inr cfg \<Rightarrow>
               let weight = (if weight = 0 then AnchorWeight (Trust cfg) else weight)
               in if bad_weight weight then (Some (Fault ''weight out of range''), fs)
                  else case DecodePub idStr of
                      Inl e \<Rightarrow> (Some e, fs)
                    | Inr pub \<Rightarrow>
                        (case ownPersonPub E fs (TrustPersonKeyFile cfg) of
                           Inl e \<Rightarrow> (Some e, fs)
                         | Inr own \<Rightarrow>
                             if own = Some pub then (None, fs)
                             else upsertAnchor E cfg fs
                               \<lparr>Person = person, Label = label, IdentityPubkey = EncodePub pub, anchor_Weight = weight,
                                anchor_ValidUntil = zero_time, anchor_Source = ''self-added''\<rparr>))
      | _ \<Rightarrow> (Some usage, fs))"

text \<open>The loop of \<open>trustSet\<close>: not found, an error, or the updated list.\<close>

fun set_anchor :: "string \<Rightarrow> real \<Rightarrow> string \<Rightarrow> Anchor list \<Rightarrow> (error + Anchor list) option" where
  "set_anchor person weight label [] = None"
| "set_anchor person weight label (a # as) =
     (if Person a = person
      then (if weight \<ge> 0 \<and> bad_weight weight then Some (Inl (Fault ''weight out of range''))
            else let a = (if weight \<ge> 0 then a\<lparr>anchor_Weight := weight\<rparr> else a);
                     a = (if label \<noteq> '''' then a\<lparr>Label := label\<rparr> else a)
                 in Some (Inr (a # as)))
      else map_option (map_sum id (\<lambda>as. a # as)) (set_anchor person weight label as))"

definition trustSet ::
  "('sk, 'pid, 'pk) ctl_env \<Rightarrow> real \<Rightarrow> string \<Rightarrow> string list \<Rightarrow> fs \<Rightarrow> error option \<times> fs" where
  "trustSet E weight label args fs =
     (case args of
        [person] \<Rightarrow>
          (case ce_cfg E of
             Inl e \<Rightarrow> (Some e, fs)
           | Inr cfg \<Rightarrow>
               (case load_anchors E fs (TrustAnchorsFile cfg) of
                  Inl e \<Rightarrow> (Some e, fs)
                | Inr as \<Rightarrow>
                    (case set_anchor person weight label as of
                       None \<Rightarrow> (Some (Fault ''no anchored person''), fs)
                     | Some (Inl e) \<Rightarrow> (Some e, fs)
                     | Some (Inr as) \<Rightarrow> save_anchors E fs (TrustAnchorsFile cfg) as)))
      | _ \<Rightarrow> (Some usage, fs))"

definition trustRemove :: "('sk, 'pid, 'pk) ctl_env \<Rightarrow> string list \<Rightarrow> fs \<Rightarrow> error option \<times> fs" where
  "trustRemove E args fs =
     (case args of
        [person] \<Rightarrow>
          (case ce_cfg E of
             Inl e \<Rightarrow> (Some e, fs)
           | Inr cfg \<Rightarrow>
               (case load_anchors E fs (TrustAnchorsFile cfg) of
                  Inl e \<Rightarrow> (Some e, fs)
                | Inr as \<Rightarrow>
                    let kept = filter (\<lambda>a. Person a \<noteq> person) as
                    in if length kept = length as then (Some (Fault ''no anchored person''), fs)
                       else save_anchors E fs (TrustAnchorsFile cfg) kept))
      | _ \<Rightarrow> (Some usage, fs))"

text \<open>\<open>anchorStatus\<close> and the rows of \<open>trustList\<close>: name, weight, status, fingerprint and label.\<close>

definition anchorStatus :: "Anchor \<Rightarrow> PeerCert list \<Rightarrow> bytes \<Rightarrow> time \<Rightarrow> string" where
  "anchorStatus a cs pubRaw now =
     (if Expired a now then ''EXPIRED''
      else let have_cert = list_ex (\<lambda>c. PersonKey c = pubRaw) cs;
               valid = list_ex (\<lambda>c. PersonKey c = pubRaw \<and> Before now (ValidUntil c)) cs
           in if valid then ''ok'' else if have_cert then ''certs-exp'' else ''no-certs'')"

definition anchor_row ::
  "(bytes \<Rightarrow> bytes) \<Rightarrow> PeerCert list \<Rightarrow> time \<Rightarrow> Anchor \<Rightarrow> string \<times> real \<times> string \<times> string \<times> string" where
  "anchor_row sha cs now a =
     (let (fp, pubRaw) = (case DecodePub (IdentityPubkey a) of Inr pub \<Rightarrow> (Fingerprint sha pub, pub) | Inl _ \<Rightarrow> (''?'', []))
      in (Person a, anchor_Weight a, anchorStatus a cs pubRaw now, fp, Label a))"

definition trustList ::
  "(bytes \<Rightarrow> bytes) \<Rightarrow> ('sk, 'pid, 'pk) ctl_env \<Rightarrow> fs \<Rightarrow> error + (string \<times> real \<times> string \<times> string \<times> string) list" where
  "trustList sha E fs =
     (case ce_cfg E of
        Inl e \<Rightarrow> Inl e
      | Inr cfg \<Rightarrow>
          (case load_anchors E fs (TrustAnchorsFile cfg) of
             Inl e \<Rightarrow> Inl e
           | Inr as \<Rightarrow>
               if length as = 0 then Inr []
               else let cs = (case load_certs E fs (TrustCertsFile cfg) of Inr cs \<Rightarrow> cs | Inl _ \<Rightarrow> [])
                    in Inr (map (anchor_row sha cs (ce_now E)) as)))"

section \<open>Bundles\<close>

definition trustExport :: "('sk, 'pid, 'pk) ctl_env \<Rightarrow> fs \<Rightarrow> error + Bundle" where
  "trustExport E fs =
     (case ce_cfg E of
        Inl e \<Rightarrow> Inl e
      | Inr cfg \<Rightarrow>
          (case load_person E fs (TrustPersonKeyFile cfg) of
             Inl e \<Rightarrow> Inl (Wrap ''no person identity'' e)
           | Inr priv \<Rightarrow>
               let label = (case env_read E fs (labelPath (TrustPersonKeyFile cfg)) of
                              Inr d \<Rightarrow> TrimSpace d | Inl _ \<Rightarrow> '''')
               in (case load_certs E fs (issuedCertsPath (TrustPersonKeyFile cfg)) of
                     Inl e \<Rightarrow> Inl e
                   | Inr cs \<Rightarrow>
                       Inr \<lparr>bundle_Person = label, bundle_Label = label,
                            bundle_IdentityPubkey = EncodePub (PersonPub priv), Certs = cs\<rparr>)))"

text \<open>
  The index \<open>byPeer\<close> of the certificates already cached, the last one of a peer winning, and the
  loop that merges a bundle's certificates. The index is not extended when a certificate is
  appended.
\<close>

fun by_peer :: "nat \<Rightarrow> PeerCert list \<Rightarrow> (string \<rightharpoonup> nat) \<Rightarrow> (string \<rightharpoonup> nat)" where
  "by_peer i [] m = m"
| "by_peer i (c # cs) m = by_peer (i + 1) cs (m(PeerID c \<mapsto> i))"

fun merge_certs ::
  "ed25519 \<Rightarrow> time \<Rightarrow> bytes \<Rightarrow> (string \<rightharpoonup> nat) \<Rightarrow> PeerCert list \<Rightarrow> PeerCert list \<Rightarrow> PeerCert list" where
  "merge_certs C now pub byPeer [] existing = existing"
| "merge_certs C now pub byPeer (c # cs) existing =
     (if PersonKey c \<noteq> pub then merge_certs C now pub byPeer cs existing
      else if VerifyCert C c now \<noteq> None then merge_certs C now pub byPeer cs existing
      else merge_certs C now pub byPeer cs
             (case byPeer (PeerID c) of Some i \<Rightarrow> existing[i := c] | None \<Rightarrow> existing @ [c]))"

text \<open>What import and join share: the merge of the certificates, then the anchor.\<close>

definition import_identity ::
  "('sk, 'pid, 'pk) ctl_env \<Rightarrow> Config \<Rightarrow> fs \<Rightarrow> bytes \<Rightarrow> PeerCert list \<Rightarrow> Anchor \<Rightarrow> error option \<times> fs" where
  "import_identity E cfg fs pub cs a =
     (case load_certs E fs (TrustCertsFile cfg) of
        Inl e \<Rightarrow> (Some e, fs)
      | Inr existing \<Rightarrow>
          (case save_certs E fs (TrustCertsFile cfg)
                  (merge_certs (ce_ed E) (ce_now E) pub (by_peer 0 existing Map.empty) cs existing) of
             (Some e, fs) \<Rightarrow> (Some e, fs)
           | (None, fs) \<Rightarrow> upsertAnchor E cfg fs a))"

definition trustImport ::
  "('sk, 'pid, 'pk) ctl_env \<Rightarrow> string \<Rightarrow> real \<Rightarrow> string list \<Rightarrow> fs \<Rightarrow> error option \<times> fs" where
  "trustImport E as_name weight args fs =
     (case args of
        [f] \<Rightarrow>
          (case ce_cfg E of
             Inl e \<Rightarrow> (Some e, fs)
           | Inr cfg \<Rightarrow>
               (case env_read E fs f of
                  Inl e \<Rightarrow> (Some e, fs)
                | Inr data \<Rightarrow>
                    (case ce_dec_bundle E data of
                       Inl e \<Rightarrow> (Some (Wrap ''parse bundle'' e), fs)
                     | Inr b \<Rightarrow>
                         (case DecodePub (bundle_IdentityPubkey b) of
                            Inl e \<Rightarrow> (Some e, fs)
                          | Inr pub \<Rightarrow>
                              let person = (if as_name = '''' then bundle_Person b else as_name);
                                  w = (if weight = 0 then AnchorWeight (Trust cfg) else weight)
                              in if person = '''' then (Some (Fault ''bundle has no person name''), fs)
                                 else if bad_weight w then (Some (Fault ''weight out of range''), fs)
                                 else import_identity E cfg fs pub (Certs b)
                                   \<lparr>Person = person, Label = bundle_Label b, IdentityPubkey = bundle_IdentityPubkey b,
                                    anchor_Weight = w, anchor_ValidUntil = zero_time, anchor_Source = ''self-added''\<rparr>))))
      | _ \<Rightarrow> (Some usage, fs))"

section \<open>Blocked peers\<close>

definition load_blocked :: "('sk, 'pid, 'pk) ctl_env \<Rightarrow> fs \<Rightarrow> string \<Rightarrow> error + string list" where
  "load_blocked E fs p = LoadBlockedPeers (ce_json E) (env_read E fs p)"

definition save_blocked :: "('sk, 'pid, 'pk) ctl_env \<Rightarrow> fs \<Rightarrow> string \<Rightarrow> string list \<Rightarrow> error option \<times> fs" where
  "save_blocked E fs p xs =
     (case SaveBlockedPeers (ce_json E) (ce_faults E p) fs (ce_tmp E p) p xs of
        (Some e, fs) \<Rightarrow> (Some (Wrap ''save blocked peers'' e), fs)
      | (None, fs) \<Rightarrow> (None, fs))"

definition trustBlock :: "('sk, 'pid, 'pk) ctl_env \<Rightarrow> string list \<Rightarrow> fs \<Rightarrow> error option \<times> fs" where
  "trustBlock E args fs =
     (case args of
        [peerID] \<Rightarrow>
          (case ce_cfg E of
             Inl e \<Rightarrow> (Some e, fs)
           | Inr cfg \<Rightarrow>
               (case load_blocked E fs (TrustBlockedPeersFile cfg) of
                  Inl e \<Rightarrow> (Some (Wrap ''load blocked peers'' e), fs)
                | Inr peers \<Rightarrow>
                    if peerID \<in> set peers then (None, fs)
                    else save_blocked E fs (TrustBlockedPeersFile cfg) (peers @ [peerID])))
      | _ \<Rightarrow> (Some usage, fs))"

definition trustUnblock :: "('sk, 'pid, 'pk) ctl_env \<Rightarrow> string list \<Rightarrow> fs \<Rightarrow> error option \<times> fs" where
  "trustUnblock E args fs =
     (case args of
        [peerID] \<Rightarrow>
          (case ce_cfg E of
             Inl e \<Rightarrow> (Some e, fs)
           | Inr cfg \<Rightarrow>
               (case load_blocked E fs (TrustBlockedPeersFile cfg) of
                  Inl e \<Rightarrow> (Some (Wrap ''load blocked peers'' e), fs)
                | Inr peers \<Rightarrow>
                    let filtered = filter (\<lambda>p. p \<noteq> peerID) peers
                    in if length filtered = length peers then (None, fs)
                       else save_blocked E fs (TrustBlockedPeersFile cfg) filtered))
      | _ \<Rightarrow> (Some usage, fs))"

section \<open>Identities\<close>

definition node_key :: "('sk, 'pid, 'pk) ctl_env \<Rightarrow> fs \<Rightarrow> string \<Rightarrow> (error + 'sk) \<times> fs" where
  "node_key E fs p = LoadOrCreateNodeKey (ce_codec E) (ce_faults E p) fs p"

definition peer_text :: "('sk, 'pid, 'pk) ctl_env \<Rightarrow> 'sk \<Rightarrow> error + string" where
  "peer_text E priv =
     (case IDFromPrivateKey (ce_p2p E) priv of Inl e \<Rightarrow> Inl e | Inr pid \<Rightarrow> Inr (pid_String (ce_p2p E) pid))"

definition writeCert :: "('sk, 'pid, 'pk) ctl_env \<Rightarrow> fs \<Rightarrow> string \<Rightarrow> PeerCert \<Rightarrow> error option \<times> fs" where
  "writeCert E fs path cert =
     (case ce_enc_cert E cert of
        Inl e \<Rightarrow> (Some e, fs)
      | Inr data \<Rightarrow>
          let tmp = path @ ''.tmp''; f = ce_faults E path
          in (case WriteFile f fs tmp data 420 of
                (Some e, fs) \<Rightarrow> (Some e, fs)
              | (None, fs) \<Rightarrow>
                  (case Rename f fs tmp path of
                     (Some e, fs) \<Rightarrow> (Some e, snd (Remove f fs tmp))
                   | (None, fs) \<Rightarrow> (None, fs))))"

fun replace_cert :: "PeerCert \<Rightarrow> PeerCert list \<Rightarrow> PeerCert list option" where
  "replace_cert c [] = None"
| "replace_cert c (x # xs) =
     (if PeerID x = PeerID c then Some (c # xs) else map_option (\<lambda>ys. x # ys) (replace_cert c xs))"

definition appendIssuedCert :: "('sk, 'pid, 'pk) ctl_env \<Rightarrow> fs \<Rightarrow> string \<Rightarrow> PeerCert \<Rightarrow> error option \<times> fs" where
  "appendIssuedCert E fs path cert =
     (case load_certs E fs path of
        Inl e \<Rightarrow> (Some e, fs)
      | Inr cs \<Rightarrow>
          (case replace_cert cert cs of
             Some cs' \<Rightarrow> save_certs E fs path cs'
           | None \<Rightarrow> save_certs E fs path (cs @ [cert])))"

definition write_label :: "('sk, 'pid, 'pk) ctl_env \<Rightarrow> fs \<Rightarrow> string \<Rightarrow> string \<Rightarrow> error option \<times> fs" where
  "write_label E fs p label =
     (case WriteFile (ce_faults E p) fs p (label @ newline) 420 of
        (Some e, fs) \<Rightarrow> (Some (Wrap ''write label'' e), fs)
      | (None, fs) \<Rightarrow> (None, fs))"

text \<open>\<open>identity\<close> without a subcommand prints the node's peer ID.\<close>

definition cmdIdentity :: "('sk, 'pid, 'pk) ctl_env \<Rightarrow> fs \<Rightarrow> (error + string) \<times> fs" where
  "cmdIdentity E fs =
     (case ce_cfg E of
        Inl e \<Rightarrow> (Inl e, fs)
      | Inr cfg \<Rightarrow>
          (case node_key E fs (NodeKeyFile cfg) of
             (Inl e, fs) \<Rightarrow> (Inl e, fs)
           | (Inr priv, fs) \<Rightarrow> (peer_text E priv, fs)))"

text \<open>Certifying this node: the certificate installed, then recorded among those issued.\<close>

definition self_certify ::
  "('sk, 'pid, 'pk) ctl_env \<Rightarrow> Config \<Rightarrow> fs \<Rightarrow> bytes \<Rightarrow> string \<Rightarrow> duration \<Rightarrow> error option \<times> fs" where
  "self_certify E cfg fs priv pid validFor =
     (let cert = IssueCert (ce_ed E) priv pid (Add (ce_now E) validFor)
      in case writeCert E fs (TrustPeerCertFile cfg) cert of
           (Some e, fs) \<Rightarrow> (Some e, fs)
         | (None, fs) \<Rightarrow> appendIssuedCert E fs (issuedCertsPath (TrustPersonKeyFile cfg)) cert)"

definition identityInit ::
  "('sk, 'pid, 'pk) ctl_env \<Rightarrow> string \<Rightarrow> duration \<Rightarrow> fs \<Rightarrow> error option \<times> fs" where
  "identityInit E label validFor fs =
     (case ce_cfg E of
        Inl e \<Rightarrow> (Some e, fs)
      | Inr cfg \<Rightarrow>
          (let p = TrustPersonKeyFile cfg
           in case GeneratePersonKey (ce_ed E) (ce_faults E p) (ce_rnd E) fs p of
                (Inl e, fs) \<Rightarrow> (Some e, fs)
              | (Inr priv, fs) \<Rightarrow>
                  (case (if label \<noteq> '''' then write_label E fs (labelPath p) label else (None, fs)) of
                     (Some e, fs) \<Rightarrow> (Some e, fs)
                   | (None, fs) \<Rightarrow>
                       (case node_key E fs (NodeKeyFile cfg) of
                          (Inl _, fs) \<Rightarrow> (None, fs)
                        | (Inr nodePriv, fs) \<Rightarrow>
                            (case peer_text E nodePriv of
                               Inl e \<Rightarrow> (Some e, fs)
                             | Inr pid \<Rightarrow> self_certify E cfg fs priv pid validFor)))))"

definition identityShow :: "(bytes \<Rightarrow> bytes) \<Rightarrow> ('sk, 'pid, 'pk) ctl_env \<Rightarrow> fs \<Rightarrow> error + string option \<times> string \<times> string" where
  "identityShow sha E fs =
     (case ce_cfg E of
        Inl e \<Rightarrow> Inl e
      | Inr cfg \<Rightarrow>
          (case load_person E fs (TrustPersonKeyFile cfg) of
             Inl e \<Rightarrow> Inl e
           | Inr priv \<Rightarrow>
               Inr (case env_read E fs (labelPath (TrustPersonKeyFile cfg)) of Inr d \<Rightarrow> Some d | Inl _ \<Rightarrow> None,
                    EncodePub (PersonPub priv), Fingerprint sha (PersonPub priv))))"

definition cmdPeerCert ::
  "('sk, 'pid, 'pk) ctl_env \<Rightarrow> duration \<Rightarrow> string list \<Rightarrow> fs \<Rightarrow> (error + string) \<times> fs" where
  "cmdPeerCert E validFor args fs =
     (case args of
        [peerID] \<Rightarrow>
          (case peer_Decode (ce_p2p E) peerID of
             Inl e \<Rightarrow> (Inl (Wrap ''invalid peer ID'' e), fs)
           | Inr _ \<Rightarrow>
               (case ce_cfg E of
                  Inl e \<Rightarrow> (Inl e, fs)
                | Inr cfg \<Rightarrow>
                    (case load_person E fs (TrustPersonKeyFile cfg) of
                       Inl e \<Rightarrow> (Inl e, fs)
                     | Inr priv \<Rightarrow>
                         let cert = IssueCert (ce_ed E) priv peerID (Add (ce_now E) validFor)
                         in (case appendIssuedCert E fs (issuedCertsPath (TrustPersonKeyFile cfg)) cert of
                               (Some e, fs) \<Rightarrow> (Inl e, fs)
                             | (None, fs) \<Rightarrow> (ce_enc_cert E cert, fs)))))
      | _ \<Rightarrow> (Inl usage, fs))"

section \<open>The whitelist\<close>

text \<open>
  \<open>net.ParseIP\<close> and \<open>net.ParseCIDR\<close>: an address without a zone, and such an address with a
  number of bits, leading zeros allowed.
\<close>

definition net_ParseIP :: "string \<Rightarrow> bool" where
  "net_ParseIP s \<longleftrightarrow> (case ParseAddr s of Some a \<Rightarrow> Zone a = '''' | None \<Rightarrow> False)"

definition net_ParseCIDR :: "string \<Rightarrow> bool" where
  "net_ParseCIDR s \<longleftrightarrow>
     (let a = takeWhile (\<lambda>c. c \<noteq> CHR ''/'') s; m = drop (length a + 1) s
      in CHR ''/'' \<in> set s \<and>
         (case ParseAddr a of
            None \<Rightarrow> False
          | Some addr \<Rightarrow> Zone addr = '''' \<and> m \<noteq> '''' \<and> list_all is_digit m \<and> number 10 m \<le> addr_bits addr))"

text \<open>The whitelist commands run on the store and the entries of the file, as the store does.\<close>

definition whitelistAdd ::
  "error + Config \<Rightarrow> file_read \<Rightarrow> save_io \<Rightarrow> string \<Rightarrow> string \<Rightarrow> string list \<Rightarrow> WhitelistEntry list
     \<Rightarrow> error option \<times> WhitelistEntry list" where
  "whitelistAdd loadCfg f io scope source args disk =
     (case args of
        [ipOrRange] \<Rightarrow>
          if \<not> net_ParseIP ipOrRange \<and> \<not> net_ParseCIDR ipOrRange then (Some (Fault ''invalid IP or CIDR''), disk)
          else if scope \<noteq> ''local-only'' \<and> scope \<noteq> ''shared-vote'' then (Some (Fault ''scope''), disk)
          else (case loadCfg of
                  Inl e \<Rightarrow> (Some e, disk)
                | Inr cfg \<Rightarrow>
                    (case LoadWhitelist f (WhitelistFile cfg) of
                       Inl e \<Rightarrow> (Some (Wrap ''load whitelist'' e), disk)
                     | Inr w \<Rightarrow>
                         (case wl_Add io w disk \<lparr>IPOrRange = ipOrRange, Scope = scope, wl_Source = source\<rparr> of
                            (Some e, _, disk) \<Rightarrow> (Some (Wrap ''add to whitelist'' e), disk)
                          | (None, _, disk) \<Rightarrow> (None, disk))))
      | _ \<Rightarrow> (Some usage, disk))"

definition whitelistRemove ::
  "error + Config \<Rightarrow> file_read \<Rightarrow> save_io \<Rightarrow> string list \<Rightarrow> WhitelistEntry list \<Rightarrow> error option \<times> WhitelistEntry list" where
  "whitelistRemove loadCfg f io args disk =
     (case args of
        [ipOrRange] \<Rightarrow>
          (case loadCfg of
             Inl e \<Rightarrow> (Some e, disk)
           | Inr cfg \<Rightarrow>
               (case LoadWhitelist f (WhitelistFile cfg) of
                  Inl e \<Rightarrow> (Some (Wrap ''load whitelist'' e), disk)
                | Inr w \<Rightarrow>
                    (case wl_Remove io w disk ipOrRange of
                       (Some e, _, disk) \<Rightarrow> (Some (Wrap ''remove from whitelist'' e), disk)
                     | (None, _, disk) \<Rightarrow> (None, disk))))
      | _ \<Rightarrow> (Some usage, disk))"

definition whitelistList :: "error + Config \<Rightarrow> file_read \<Rightarrow> error + WhitelistEntry list" where
  "whitelistList loadCfg f =
     (case loadCfg of
        Inl e \<Rightarrow> Inl e
      | Inr cfg \<Rightarrow>
          (case LoadWhitelist f (WhitelistFile cfg) of
             Inl e \<Rightarrow> Inl (Wrap ''load whitelist'' e) | Inr w \<Rightarrow> Inr (wl_List w)))"

end
