(* ===== verification/Ctl_Federation.thy ===== *)
theory Ctl_Federation
  imports Ctl
begin

text \<open>
  Joining a federation: the invitation (\<open>internal/federation/invitation.go\<close>), the commands
  \<open>federation invite\<close> and \<open>federation join\<close> (\<open>cmd/federloomctl/federation.go\<close>), \<open>setup\<close>
  (\<open>setup.go\<close>) and \<open>status\<close> (\<open>status.go\<close>), and every command of the tool as one step on the
  file system (\<open>main.go\<close>). Multiaddrs and JSON are parameters.
\<close>

section \<open>Invitations\<close>

record FedInfo =
  fed_Mode :: string
  BootstrapPeer :: string
  SuggestedWeight :: real

record Invitation =
  inv_Version :: int
  CreatedAt :: time
  InvitedBy :: string
  Federation :: FedInfo
  inv_Trust :: Bundle

text \<open>Multiaddrs, the hash of fingerprints, and the JSON of invitations.\<close>

record fed_lib =
  ma_New :: "string \<Rightarrow> error + string"
  ma_p2p :: "string \<Rightarrow> string"
  ma_Encapsulate :: "string \<Rightarrow> string \<Rightarrow> string"
  fl_sha :: "bytes \<Rightarrow> bytes"
  enc_inv :: "Invitation \<Rightarrow> error + string"
  dec_inv :: "string \<Rightarrow> error + Invitation"

definition NewInvitation ::
  "fed_lib \<Rightarrow> ('sk, 'pid, 'pk) ctl_env \<Rightarrow> Config \<Rightarrow> string \<Rightarrow> string \<Rightarrow> fs \<Rightarrow> (error + Invitation) \<times> fs" where
  "NewInvitation X E cfg label transportAddr fs =
     (case ma_New X transportAddr of
        Inl e \<Rightarrow> (Inl (Wrap ''federation: invalid transport addr'' e), fs)
      | Inr ma \<Rightarrow>
          if ma_p2p X ma \<noteq> '''' then (Inl (Fault ''federation: transportAddr already contains a /p2p/ component''), fs)
          else case node_key E fs (NodeKeyFile cfg) of
              (Inl e, fs) \<Rightarrow> (Inl (Wrap ''federation: load node key'' e), fs)
            | (Inr nodePriv, fs) \<Rightarrow>
                (case peer_text E nodePriv of
                   Inl e \<Rightarrow> (Inl (Wrap ''federation: derive peer ID'' e), fs)
                 | Inr pid \<Rightarrow>
                     (case ma_New X (''/p2p/'' @ pid) of
                        Inl e \<Rightarrow> (Inl (Wrap ''federation: build p2p multiaddr'' e), fs)
                      | Inr p2p \<Rightarrow>
                          (case load_person E fs (TrustPersonKeyFile cfg) of
                             Inl e \<Rightarrow>
                               (Inl (if errors_Is_NotExist e then Fault ''federation: no person identity''
                                     else Wrap ''federation: load person key'' e), fs)
                           | Inr priv \<Rightarrow>
                               (case load_certs E fs (TrustPersonKeyFile cfg @ ''.issued.json'') of
                                  Inl e \<Rightarrow> (Inl (Wrap ''federation: load issued certs'' e), fs)
                                | Inr cs \<Rightarrow>
                                    (Inr \<lparr>inv_Version = 1, CreatedAt = ce_now E,
                                          InvitedBy = Fingerprint (fl_sha X) (PersonPub priv),
                                          Federation = \<lparr>fed_Mode = FederationMode cfg,
                                            BootstrapPeer = ma_Encapsulate X ma p2p,
                                            SuggestedWeight = AnchorWeight (Trust cfg)\<rparr>,
                                          inv_Trust = \<lparr>bundle_Person = label, bundle_Label = label,
                                            bundle_IdentityPubkey = EncodePub (PersonPub priv), Certs = cs\<rparr>\<rparr>, fs))))))"

definition ReadInvitation :: "fed_lib \<Rightarrow> string \<Rightarrow> error + Invitation" where
  "ReadInvitation X data =
     (case dec_inv X data of
        Inl e \<Rightarrow> Inl (Wrap ''federation: decode invitation'' e)
      | Inr iv \<Rightarrow>
          if inv_Version iv \<noteq> 1 then Inl (Fault ''federation: unsupported invitation version'') else Inr iv)"

text \<open>
  \<open>federation invite\<close>: with a file name the invitation is written there, otherwise it is printed,
  which is the text of the result. \<open>os.Create\<close> truncates, with mode \<open>0o666\<close>.
\<close>

definition federationInvite ::
  "fed_lib \<Rightarrow> ('sk, 'pid, 'pk) ctl_env \<Rightarrow> string \<Rightarrow> real \<Rightarrow> string \<Rightarrow> fs \<Rightarrow> (error + string) \<times> fs" where
  "federationInvite X E addr weight out fs =
     (if addr = '''' then (Inl (Fault ''--addr is required''), fs)
      else case ce_cfg E of
          Inl e \<Rightarrow> (Inl e, fs)
        | Inr cfg \<Rightarrow>
            (case env_read E fs (labelPath (TrustPersonKeyFile cfg)) of
               Inl e \<Rightarrow> (Inl (Wrap ''no person identity'' e), fs)
             | Inr labelData \<Rightarrow>
                 (case NewInvitation X E cfg (TrimSpace labelData) addr fs of
                    (Inl e, fs) \<Rightarrow> (Inl (Wrap ''create invitation'' e), fs)
                  | (Inr iv, fs) \<Rightarrow>
                      if weight > 1 then (Inl (Fault ''weight out of range''), fs)
                      else let iv = (if weight > 0
                                 then iv\<lparr>Federation := (Federation iv)\<lparr>SuggestedWeight := weight\<rparr>\<rparr> else iv)
                      in case load_person E fs (TrustPersonKeyFile cfg) of
                          Inl e \<Rightarrow> (Inl e, fs)
                        | Inr _ \<Rightarrow>
                            if out \<noteq> '''' then
                              (case WriteFile (ce_faults E out) fs out '''' 438 of
                                 (Some e, fs) \<Rightarrow> (Inl (Wrap ''create invitation file'' e), fs)
                               | (None, fs) \<Rightarrow>
                                   (case enc_inv X iv of
                                      Inl e \<Rightarrow> (Inl e, fs)
                                    | Inr data \<Rightarrow>
                                        (case WriteOpen (ce_faults E out) fs out data of
                                           (Some e, fs) \<Rightarrow> (Inl e, fs) | (None, fs) \<Rightarrow> (Inr '''', fs))))
                            else (enc_inv X iv, fs))))"

text \<open>
  \<open>federation join\<close>: \<open>answer\<close> is the line the operator types, empty at the end of input. Only
  \<open>yes\<close> imports anything.
\<close>

definition join_weight :: "real \<Rightarrow> Invitation \<Rightarrow> Config \<Rightarrow> real" where
  "join_weight weight iv cfg =
     (let w = weight;
          w = (if w = 0 \<and> SuggestedWeight (Federation iv) > 0 then SuggestedWeight (Federation iv) else w)
      in if w = 0 then AnchorWeight (Trust cfg) else w)"

definition federationJoin ::
  "fed_lib \<Rightarrow> ('sk, 'pid, 'pk) ctl_env \<Rightarrow> string \<Rightarrow> real \<Rightarrow> string list \<Rightarrow> error + string \<Rightarrow> fs \<Rightarrow> error option \<times> fs" where
  "federationJoin X E as_name weight args answer fs =
     (case args of
        [f] \<Rightarrow>
          (case env_read E fs f of
             Inl e \<Rightarrow> (Some (Wrap ''open invitation file'' e), fs)
           | Inr data \<Rightarrow>
               (case ReadInvitation X data of
                  Inl e \<Rightarrow> (Some (Wrap ''read invitation'' e), fs)
                | Inr iv \<Rightarrow>
                    (case ce_cfg E of
                       Inl e \<Rightarrow> (Some e, fs)
                     | Inr cfg \<Rightarrow>
                         (case DecodePub (bundle_IdentityPubkey (inv_Trust iv)) of
                            Inl e \<Rightarrow> (Some (Wrap ''decode identity pubkey'' e), fs)
                          | Inr pub \<Rightarrow>
                              (case answer of
                                 Inl e \<Rightarrow> (Some (Wrap ''read confirmation'' e), fs)
                               | Inr line \<Rightarrow>
                                   if TrimSpace line \<noteq> ''yes'' then (None, fs)
                                   else let person = (if as_name = '''' then InvitedBy iv else as_name);
                                            w = join_weight weight iv cfg
                                   in if person = '''' then (Some (Fault ''bundle has no person name''), fs)
                                      else if bad_weight w then (Some (Fault ''weight out of range''), fs)
                                      else import_identity E cfg fs pub (Certs (inv_Trust iv))
                                        \<lparr>Person = person, Label = bundle_Label (inv_Trust iv),
                                         IdentityPubkey = bundle_IdentityPubkey (inv_Trust iv), anchor_Weight = w,
                                         anchor_ValidUntil = zero_time, anchor_Source = ''federation-join''\<rparr>)))))
      | _ \<Rightarrow> (Some usage, fs))"

section \<open>Setup\<close>

text \<open>
  The identity step: an existing Person key is loaded; a missing one is created under the label of
  the flag or of the prompt, whose line is \<open>prompt\<close>.
\<close>

definition setup_identity ::
  "('sk, 'pid, 'pk) ctl_env \<Rightarrow> Config \<Rightarrow> string \<Rightarrow> error + string \<Rightarrow> fs \<Rightarrow> (error + bytes) \<times> fs" where
  "setup_identity E cfg label prompt fs =
     (let p = TrustPersonKeyFile cfg
      in case load_person E fs p of
           Inr priv \<Rightarrow> (Inr priv, fs)
         | Inl e \<Rightarrow>
             if \<not> errors_Is_NotExist e then (Inl e, fs)
             else case (if label = '''' then map_sum id TrimSpace prompt else Inr label) of
                 Inl e \<Rightarrow> (Inl (Wrap ''read label from stdin'' e), fs)
               | Inr chosen \<Rightarrow>
                   if chosen = '''' then (Inl (Fault ''label is required for a new Person identity''), fs)
                   else case GeneratePersonKey (ce_ed E) (ce_faults E p) (ce_rnd E) fs p of
                       (Inl e, fs) \<Rightarrow> (Inl e, fs)
                     | (Inr priv, fs) \<Rightarrow>
                         (case write_label E fs (labelPath p) chosen of
                            (Some e, fs) \<Rightarrow> (Inl e, fs) | (None, fs) \<Rightarrow> (Inr priv, fs)))"

definition cmdSetup ::
  "('sk, 'pid, 'pk) ctl_env \<Rightarrow> string \<Rightarrow> error + string \<Rightarrow> fs \<Rightarrow> error option \<times> fs" where
  "cmdSetup E label prompt fs =
     (case ce_cfg E of
        Inl e \<Rightarrow> (Some e, fs)
      | Inr cfg \<Rightarrow>
          if (case Stat (ce_faults E (NodeKeyFile cfg)) fs (NodeKeyFile cfg) of Inl e \<Rightarrow> IsNotExist e | Inr _ \<Rightarrow> False)
          then (Some (Fault ''node key not found''), fs)
          else case node_key E fs (NodeKeyFile cfg) of
              (Inl e, fs) \<Rightarrow> (Some e, fs)
            | (Inr nodePriv, fs) \<Rightarrow>
                (case peer_text E nodePriv of
                   Inl e \<Rightarrow> (Some e, fs)
                 | Inr pid \<Rightarrow>
                     (case setup_identity E cfg label prompt fs of
                        (Inl e, fs) \<Rightarrow> (Some e, fs)
                      | (Inr priv, fs) \<Rightarrow>
                          (case env_read E fs (TrustPeerCertFile cfg) of
                             Inr certData \<Rightarrow>
                               (case ce_dec_cert E certData of
                                  Inl e \<Rightarrow> (Some (Wrap ''parse peer cert'' e), fs) | Inr _ \<Rightarrow> (None, fs))
                           | Inl e \<Rightarrow>
                               if errors_Is_NotExist e then self_certify E cfg fs priv pid (365 * 24 * hour)
                               else (Some (Wrap ''read peer cert'' e), fs)))))"

section \<open>Status\<close>

text \<open>The loop over the certificates that stops at the first one of the Person's own.\<close>

fun self_status :: "bytes \<Rightarrow> time \<Rightarrow> PeerCert list \<Rightarrow> string" where
  "self_status pub now [] = ''no-certs''"
| "self_status pub now (c # cs) =
     (if PersonKey c = pub then (if Before now (ValidUntil c) then ''ok'' else ''certs-exp'')
      else self_status pub now cs)"

definition status_label :: "('sk, 'pid, 'pk) ctl_env \<Rightarrow> Config \<Rightarrow> fs \<Rightarrow> string" where
  "status_label E cfg fs =
     (case env_read E fs (labelPath (TrustPersonKeyFile cfg)) of Inr d \<Rightarrow> TrimSpace d | Inl _ \<Rightarrow> ''(no label)'')"

text \<open>The rows of the trust table: the Person's own row, then one per anchor.\<close>

definition status_rows ::
  "(bytes \<Rightarrow> bytes) \<Rightarrow> ('sk, 'pid, 'pk) ctl_env \<Rightarrow> Config \<Rightarrow> fs \<Rightarrow> error + (string \<times> real \<times> string \<times> string \<times> string) list" where
  "status_rows sha E cfg fs =
     (let cs = (case load_certs E fs (TrustCertsFile cfg) of Inr cs \<Rightarrow> cs | Inl _ \<Rightarrow> [])
      in case load_anchors E fs (TrustAnchorsFile cfg) of
           Inl e \<Rightarrow> Inl (Wrap ''load anchors'' e)
         | Inr as \<Rightarrow>
             let self = (case load_person E fs (TrustPersonKeyFile cfg) of
                 Inl _ \<Rightarrow> []
               | Inr priv \<Rightarrow>
                   [(status_label E cfg fs, 1, self_status (PersonPub priv) (ce_now E) cs,
                     Fingerprint sha (PersonPub priv), ''self'')])
             in Inr (self @ map (anchor_row sha cs (ce_now E)) as))"

text \<open>\<open>status\<close>: the node's peer ID, the Person with the days its certificate has left, and the table.\<close>

record status_report =
  st_peer :: "string option"
  st_person :: "(string \<times> string) option"
  st_cert_days :: "int option"
  st_rows :: "(string \<times> real \<times> string \<times> string \<times> string) list"
  st_bootstrap :: "string list"

definition status_node :: "('sk, 'pid, 'pk) ctl_env \<Rightarrow> Config \<Rightarrow> fs \<Rightarrow> (error + string option) \<times> fs" where
  "status_node E cfg fs =
     (if (case Stat (ce_faults E (NodeKeyFile cfg)) fs (NodeKeyFile cfg) of Inl e \<Rightarrow> errors_Is_NotExist e | Inr _ \<Rightarrow> False)
      then (Inr None, fs)
      else case node_key E fs (NodeKeyFile cfg) of
          (Inl e, fs) \<Rightarrow> (Inl (Wrap ''load node key'' e), fs)
        | (Inr nodePriv, fs) \<Rightarrow>
            (case peer_text E nodePriv of
               Inl e \<Rightarrow> (Inl (Wrap ''derive peer ID'' e), fs) | Inr pid \<Rightarrow> (Inr (Some pid), fs)))"

text \<open>Whole days, towards zero.\<close>

definition days_left :: "time \<Rightarrow> PeerCert \<Rightarrow> int" where
  "days_left now cert =
     (let d = Sub (ValidUntil cert) now; day = 24 * hour in if d < 0 then - ((- d) div day) else d div day)"

definition status_cert :: "('sk, 'pid, 'pk) ctl_env \<Rightarrow> Config \<Rightarrow> fs \<Rightarrow> error + int option" where
  "status_cert E cfg fs =
     (case env_read E fs (TrustPeerCertFile cfg) of
        Inl _ \<Rightarrow> Inr None
      | Inr d \<Rightarrow>
          (case ce_dec_cert E d of
             Inl e \<Rightarrow> Inl (Wrap ''parse peer cert'' e) | Inr cert \<Rightarrow> Inr (Some (days_left (ce_now E) cert))))"

definition cmdStatus ::
  "(bytes \<Rightarrow> bytes) \<Rightarrow> ('sk, 'pid, 'pk) ctl_env \<Rightarrow> fs \<Rightarrow> (error + status_report) \<times> fs" where
  "cmdStatus sha E fs =
     (case ce_cfg E of
        Inl e \<Rightarrow> (Inl e, fs)
      | Inr cfg \<Rightarrow>
          (case status_node E cfg fs of
             (Inl e, fs) \<Rightarrow> (Inl e, fs)
           | (Inr peer, fs) \<Rightarrow>
               let person = (case load_person E fs (TrustPersonKeyFile cfg) of
                     Inl _ \<Rightarrow> None
                   | Inr priv \<Rightarrow> Some (status_label E cfg fs, Fingerprint sha (PersonPub priv)))
               in case (if person = None then Inr None else status_cert E cfg fs) of
                    Inl e \<Rightarrow> (Inl e, fs)
                  | Inr days \<Rightarrow>
                      (case status_rows sha E cfg fs of
                         Inl e \<Rightarrow> (Inl e, fs)
                       | Inr rows \<Rightarrow>
                           (Inr \<lparr>st_peer = peer, st_person = person, st_cert_days = days, st_rows = rows,
                                 st_bootstrap = BootstrapPeers cfg\<rparr>, fs))))"

section \<open>The tool\<close>

text \<open>The commands that touch the file system, with their flags.\<close>

datatype ctl_command =
    Setup string "error + string"
  | Status
  | Invite string real string
  | Join string real "string list" "error + string"
  | Identity_show_peer
  | Identity_init string duration
  | Peer_cert duration "string list"
  | Trust_add string real string "string list"
  | Trust_set real string "string list"
  | Trust_remove "string list"
  | Trust_import string real "string list"
  | Trust_block "string list"
  | Trust_unblock "string list"

fun ctl_main :: "fed_lib \<Rightarrow> ('sk, 'pid, 'pk) ctl_env \<Rightarrow> ctl_command \<Rightarrow> fs \<Rightarrow> fs" where
  "ctl_main X E (Setup label prompt) fs = snd (cmdSetup E label prompt fs)"
| "ctl_main X E Status fs = snd (cmdStatus (fl_sha X) E fs)"
| "ctl_main X E (Invite addr weight out) fs = snd (federationInvite X E addr weight out fs)"
| "ctl_main X E (Join as_name weight args answer) fs = snd (federationJoin X E as_name weight args answer fs)"
| "ctl_main X E Identity_show_peer fs = snd (cmdIdentity E fs)"
| "ctl_main X E (Identity_init label validFor) fs = snd (identityInit E label validFor fs)"
| "ctl_main X E (Peer_cert validFor args) fs = snd (cmdPeerCert E validFor args fs)"
| "ctl_main X E (Trust_add i w l args) fs = snd (trustAdd E i w l args fs)"
| "ctl_main X E (Trust_set w l args) fs = snd (trustSet E w l args fs)"
| "ctl_main X E (Trust_remove args) fs = snd (trustRemove E args fs)"
| "ctl_main X E (Trust_import n w args) fs = snd (trustImport E n w args fs)"
| "ctl_main X E (Trust_block args) fs = snd (trustBlock E args fs)"
| "ctl_main X E (Trust_unblock args) fs = snd (trustUnblock E args fs)"

section \<open>The anchors file\<close>

text \<open>
  What the daemon relies on: every anchor weighs in (0,1] and names a key that parses, and a Person
  has one anchor.
\<close>

definition anchor_list_ok :: "Anchor list \<Rightarrow> bool" where
  "anchor_list_ok as \<longleftrightarrow> distinct (map Person as) \<and>
     (\<forall>a \<in> set as. 0 < anchor_Weight a \<and> anchor_Weight a \<le> 1 \<and> \<not> is_err (DecodePub (IdentityPubkey a)))"

definition anchors_file_ok :: "trust_json \<Rightarrow> string \<Rightarrow> fs \<Rightarrow> bool" where
  "anchors_file_ok J p fs \<longleftrightarrow>
     (case fs p of None \<Rightarrow> True | Some x \<Rightarrow> (\<forall>as. dec_anchors J (content x) = Inr as \<longrightarrow> anchor_list_ok as))"

definition json_roundtrips :: "trust_json \<Rightarrow> bool" where
  "json_roundtrips J \<longleftrightarrow> (\<forall>xs d. enc_anchors J xs = Inr d \<longrightarrow> dec_anchors J d = Inr xs)
     \<and> (\<forall>xs d. enc_certs J xs = Inr d \<longrightarrow> dec_certs J d = Inr xs)"

text \<open>The other files of the trust directory, and the temporary names, are not the anchors file.\<close>

definition other_paths :: "('sk, 'pid, 'pk) ctl_env \<Rightarrow> Config \<Rightarrow> string list" where
  "other_paths E cfg =
     [TrustCertsFile cfg, ce_tmp E (TrustCertsFile cfg), NodeKeyFile cfg, NodeKeyFile cfg @ ''.tmp'',
      TrustPersonKeyFile cfg, TrustPersonKeyFile cfg @ ''.tmp'', labelPath (TrustPersonKeyFile cfg),
      TrustPeerCertFile cfg, TrustPeerCertFile cfg @ ''.tmp'', issuedCertsPath (TrustPersonKeyFile cfg),
      ce_tmp E (issuedCertsPath (TrustPersonKeyFile cfg)), TrustBlockedPeersFile cfg,
      ce_tmp E (TrustBlockedPeersFile cfg), ce_tmp E (TrustAnchorsFile cfg)]"

definition anchors_apart :: "('sk, 'pid, 'pk) ctl_env \<Rightarrow> Config \<Rightarrow> bool" where
  "anchors_apart E cfg \<longleftrightarrow> TrustAnchorsFile cfg \<notin> set (other_paths E cfg)"

lemma apart_simps:
  assumes "anchors_apart E cfg"
  shows "TrustAnchorsFile cfg \<noteq> TrustCertsFile cfg" "TrustAnchorsFile cfg \<noteq> ce_tmp E (TrustCertsFile cfg)"
    "TrustAnchorsFile cfg \<noteq> NodeKeyFile cfg" "TrustAnchorsFile cfg \<noteq> NodeKeyFile cfg @ ''.tmp''"
    "TrustAnchorsFile cfg \<noteq> TrustPersonKeyFile cfg" "TrustAnchorsFile cfg \<noteq> TrustPersonKeyFile cfg @ ''.tmp''"
    "TrustAnchorsFile cfg \<noteq> labelPath (TrustPersonKeyFile cfg)"
    "TrustAnchorsFile cfg \<noteq> TrustPeerCertFile cfg" "TrustAnchorsFile cfg \<noteq> TrustPeerCertFile cfg @ ''.tmp''"
    "TrustAnchorsFile cfg \<noteq> issuedCertsPath (TrustPersonKeyFile cfg)"
    "TrustAnchorsFile cfg \<noteq> ce_tmp E (issuedCertsPath (TrustPersonKeyFile cfg))"
    "TrustAnchorsFile cfg \<noteq> TrustBlockedPeersFile cfg" "TrustAnchorsFile cfg \<noteq> ce_tmp E (TrustBlockedPeersFile cfg)"
    "ce_tmp E (TrustAnchorsFile cfg) \<noteq> TrustAnchorsFile cfg"
  using assms unfolding anchors_apart_def other_paths_def by auto

text \<open>What each helper leaves alone.\<close>

lemma save_list_frame: "save_list enc m f fs tmp p xs = (r, fs') \<Longrightarrow> q \<noteq> p \<Longrightarrow> q \<noteq> tmp \<Longrightarrow> fs' q = fs q"
  by (auto simp: save_list_def split: sum.splits dest: saved.others_kept)

lemma save_certs_frame: "save_certs E fs p xs = (r, fs') \<Longrightarrow> q \<noteq> p \<Longrightarrow> q \<noteq> ce_tmp E p \<Longrightarrow> fs' q = fs q"
  unfolding save_certs_def SaveCerts_def by (rule save_list_frame)

lemma save_blocked_frame: "save_blocked E fs p xs = (r, fs') \<Longrightarrow> q \<noteq> p \<Longrightarrow> q \<noteq> ce_tmp E p \<Longrightarrow> fs' q = fs q"
  by (auto simp: save_blocked_def SaveBlockedPeers_def split: prod.splits option.splits dest: save_list_frame)

lemma node_key_frame: "node_key E fs p = (r, fs') \<Longrightarrow> q \<noteq> p \<Longrightarrow> q \<noteq> p @ ''.tmp'' \<Longrightarrow> fs' q = fs q"
  by (auto simp: node_key_def LoadOrCreateNodeKey_def os_defs Let_def split: sum.splits option.splits if_splits)

lemma write_label_frame: "write_label E fs p l = (r, fs') \<Longrightarrow> q \<noteq> p \<Longrightarrow> fs' q = fs q"
  by (auto simp: write_label_def os_defs split: prod.splits option.splits)

lemma writeCert_frame: "writeCert E fs p c = (r, fs') \<Longrightarrow> q \<noteq> p \<Longrightarrow> q \<noteq> p @ ''.tmp'' \<Longrightarrow> fs' q = fs q"
  by (auto simp: writeCert_def os_defs Let_def split: sum.splits option.splits if_splits prod.splits)

lemma appendIssuedCert_frame:
  "appendIssuedCert E fs p c = (r, fs') \<Longrightarrow> q \<noteq> p \<Longrightarrow> q \<noteq> ce_tmp E p \<Longrightarrow> fs' q = fs q"
  by (auto simp: appendIssuedCert_def split: sum.splits option.splits dest: save_certs_frame)

text \<open>The anchors file is none of the paths the helpers are called with.\<close>

lemma kept:
  assumes "anchors_apart E cfg"
  shows "save_certs E fs (TrustCertsFile cfg) xs = (r, fs') \<Longrightarrow> fs' (TrustAnchorsFile cfg) = fs (TrustAnchorsFile cfg)"
    and "node_key E fs (NodeKeyFile cfg) = (k, fs') \<Longrightarrow> fs' (TrustAnchorsFile cfg) = fs (TrustAnchorsFile cfg)"
    and "write_label E fs (labelPath (TrustPersonKeyFile cfg)) l = (r, fs') \<Longrightarrow> fs' (TrustAnchorsFile cfg) = fs (TrustAnchorsFile cfg)"
    and "writeCert E fs (TrustPeerCertFile cfg) c = (r, fs') \<Longrightarrow> fs' (TrustAnchorsFile cfg) = fs (TrustAnchorsFile cfg)"
    and "appendIssuedCert E fs (issuedCertsPath (TrustPersonKeyFile cfg)) c = (r, fs')
      \<Longrightarrow> fs' (TrustAnchorsFile cfg) = fs (TrustAnchorsFile cfg)"
    and "save_blocked E fs (TrustBlockedPeersFile cfg) ps = (r, fs') \<Longrightarrow> fs' (TrustAnchorsFile cfg) = fs (TrustAnchorsFile cfg)"
    and "GeneratePersonKey C f rnd fs (TrustPersonKeyFile cfg) = (b, fs') \<Longrightarrow> fs' (TrustAnchorsFile cfg) = fs (TrustAnchorsFile cfg)"
  using apart_simps [OF assms]
  by (blast intro: save_certs_frame node_key_frame write_label_frame writeCert_frame appendIssuedCert_frame
      save_blocked_frame GeneratePersonKey_others)+

lemma self_certify_kept:
  assumes "anchors_apart E cfg" and "self_certify E cfg fs priv pid v = (r, fs')"
  shows "fs' (TrustAnchorsFile cfg) = fs (TrustAnchorsFile cfg)"
  using assms(2)
  by (auto simp: self_certify_def Let_def split: prod.splits option.splits dest!: kept [OF assms(1)])

lemma kept_snd:
  assumes "anchors_apart E cfg"
  shows "snd (self_certify E cfg fs priv pid v) (TrustAnchorsFile cfg) = fs (TrustAnchorsFile cfg)"
    and "snd (save_blocked E fs (TrustBlockedPeersFile cfg) ps) (TrustAnchorsFile cfg) = fs (TrustAnchorsFile cfg)"
  by (rule self_certify_kept [OF assms, OF prod.collapse [symmetric]] kept [OF assms, OF prod.collapse [symmetric]])+

lemma setup_identity_kept:
  assumes "anchors_apart E cfg" and "setup_identity E cfg label prompt fs = (r, fs')"
  shows "fs' (TrustAnchorsFile cfg) = fs (TrustAnchorsFile cfg)"
  using assms(2)
  by (auto simp: setup_identity_def Let_def split: prod.splits option.splits sum.splits if_splits dest!: kept [OF assms(1)])

lemma NewInvitation_kept:
  assumes "anchors_apart E cfg" and "NewInvitation X E cfg l a fs = (r, fs')"
  shows "fs' (TrustAnchorsFile cfg) = fs (TrustAnchorsFile cfg)"
  using assms(2)
  by (auto simp: NewInvitation_def split: prod.splits sum.splits if_splits dest!: kept [OF assms(1)])

text \<open>Commands that never touch the anchors.\<close>

lemma other_commands_kept:
  assumes "anchors_apart E cfg" and "ce_cfg E = Inr cfg"
  shows "snd (cmdSetup E label prompt fs) (TrustAnchorsFile cfg) = fs (TrustAnchorsFile cfg)"
    and "snd (cmdStatus sha E fs) (TrustAnchorsFile cfg) = fs (TrustAnchorsFile cfg)"
    and "snd (cmdIdentity E fs) (TrustAnchorsFile cfg) = fs (TrustAnchorsFile cfg)"
    and "snd (identityInit E l v fs) (TrustAnchorsFile cfg) = fs (TrustAnchorsFile cfg)"
    and "snd (cmdPeerCert E v args fs) (TrustAnchorsFile cfg) = fs (TrustAnchorsFile cfg)"
    and "snd (trustBlock E args fs) (TrustAnchorsFile cfg) = fs (TrustAnchorsFile cfg)"
    and "snd (trustUnblock E args fs) (TrustAnchorsFile cfg) = fs (TrustAnchorsFile cfg)"
  using assms(2)
  by (auto simp: cmdSetup_def cmdStatus_def status_node_def cmdIdentity_def identityInit_def cmdPeerCert_def
      trustBlock_def trustUnblock_def Let_def
      kept_snd [OF assms(1)]
      split: prod.splits option.splits sum.splits list.splits if_splits
      dest!: kept [OF assms(1)] self_certify_kept [OF assms(1)] setup_identity_kept [OF assms(1)])

section \<open>Commands that change the anchors\<close>

lemma anchor_list_ok_simps [simp]:
  "anchor_list_ok []"
  "anchor_list_ok (a # as) \<longleftrightarrow> 0 < anchor_Weight a \<and> anchor_Weight a \<le> 1 \<and> \<not> is_err (DecodePub (IdentityPubkey a))
     \<and> Person a \<notin> Person ` set as \<and> anchor_list_ok as"
  by (auto simp: anchor_list_ok_def)

lemma anchor_list_ok_filter: "anchor_list_ok as \<Longrightarrow> anchor_list_ok (filter P as)"
  by (induction as) auto

lemma replace_anchor_persons: "replace_anchor a xs = Some ys \<Longrightarrow> map Person ys = map Person xs"
  by (induction xs arbitrary: ys) (auto split: if_splits)

lemma replace_anchor_ok:
  "replace_anchor a xs = Some ys \<Longrightarrow> anchor_list_ok xs \<Longrightarrow> anchor_list_ok [a] \<Longrightarrow> anchor_list_ok ys"
proof (induction xs arbitrary: ys)
  case (Cons x xs)
  show ?case
  proof (cases "Person x = Person a")
    case False
    with Cons.prems obtain zs where zs: "replace_anchor a xs = Some zs" "ys = x # zs" by auto
    have "Person ` set zs = Person ` set xs" using arg_cong [OF replace_anchor_persons [OF zs(1)], of set] by simp
    with zs Cons show ?thesis by auto
  qed (use Cons.prems in auto)
qed simp

lemma replace_anchor_None: "replace_anchor a xs = None \<longleftrightarrow> Person a \<notin> Person ` set xs"
  by (induction xs) auto

lemma set_anchor_ok:
  "set_anchor p w l as = Some (Inr ys) \<Longrightarrow> anchor_list_ok as \<Longrightarrow> anchor_list_ok ys \<and> map Person ys = map Person as"
proof (induction as arbitrary: ys)
  case (Cons a as)
  show ?case
  proof (cases "Person a = p")
    case True
    with Cons.prems show ?thesis by (auto simp: bad_weight_def Let_def split: if_splits)
  next
    case False
    with Cons.prems(1) obtain zs where zs: "set_anchor p w l as = Some (Inr zs)" "ys = a # zs"
      by (cases "set_anchor p w l as"; cases "the (set_anchor p w l as)") auto
    with Cons have z: "anchor_list_ok zs" "map Person zs = map Person as" by simp_all
    have "Person ` set zs = Person ` set as" using arg_cong [OF z(2), of set] by simp
    with z zs Cons show ?thesis by auto
  qed
qed simp

lemma load_anchors_ok:
  "anchors_file_ok (ce_json E) p fs \<Longrightarrow> load_anchors E fs p = Inr as \<Longrightarrow> anchor_list_ok as"
  by (auto simp: load_anchors_def env_read_def LoadAnchors_def load_list_def ReadFile_def anchors_file_ok_def
      split: option.splits sum.splits if_splits)

lemma save_anchors_ok:
  assumes "json_roundtrips (ce_json E)" and "ce_tmp E p \<noteq> p" and "anchors_file_ok (ce_json E) p fs" and "anchor_list_ok xs"
  shows "anchors_file_ok (ce_json E) p (snd (save_anchors E fs p xs))"
proof (cases "enc_anchors (ce_json E) xs")
  case (Inr d)
  obtain r fs' where w: "atomicWrite (ce_faults E p) fs (ce_tmp E p) p d = (r, fs')" by fastforce
  have "dec_anchors (ce_json E) d = Inr xs" using assms(1) Inr by (simp add: json_roundtrips_def)
  then show ?thesis
    using saved.all_or_nothing [OF assms(2) w] assms(3,4) Inr w
    by (auto simp: save_anchors_def SaveAnchors_def save_list_def anchors_file_ok_def split: if_splits)
qed (use assms(3) in \<open>simp add: save_anchors_def SaveAnchors_def save_list_def\<close>)

lemma upsertAnchor_ok:
  assumes "json_roundtrips (ce_json E)" and "anchors_apart E cfg"
    and "anchors_file_ok (ce_json E) (TrustAnchorsFile cfg) fs" and "anchor_list_ok [a]"
  shows "anchors_file_ok (ce_json E) (TrustAnchorsFile cfg) (snd (upsertAnchor E cfg fs a))"
proof (cases "load_anchors E fs (TrustAnchorsFile cfg)")
  case (Inr xs)
  have xs: "anchor_list_ok xs" using load_anchors_ok [OF assms(3) Inr] .
  then have app: "anchor_list_ok (xs @ [a])" if "replace_anchor a xs = None"
    using that assms(4) by (auto simp: replace_anchor_None anchor_list_ok_def)
  note sv = save_anchors_ok [OF assms(1) apart_simps(14) [OF assms(2)] assms(3)]
  show ?thesis
    using Inr sv app replace_anchor_ok [OF _ xs assms(4)]
    by (auto simp: upsertAnchor_def Let_def split: option.splits)
qed (use assms(3) in \<open>simp add: upsertAnchor_def Let_def\<close>)

lemma anchors_file_ok_cong: "fs' p = fs p \<Longrightarrow> anchors_file_ok J p fs' = anchors_file_ok J p fs"
  by (simp add: anchors_file_ok_def)

lemma import_identity_ok:
  assumes "json_roundtrips (ce_json E)" and "anchors_apart E cfg"
    and "anchors_file_ok (ce_json E) (TrustAnchorsFile cfg) fs" and "anchor_list_ok [a]"
  shows "anchors_file_ok (ce_json E) (TrustAnchorsFile cfg) (snd (import_identity E cfg fs pub cs a))"
proof (cases "load_certs E fs (TrustCertsFile cfg)")
  case (Inr ex)
  obtain r fs' where s: "save_certs E fs (TrustCertsFile cfg)
      (merge_certs (ce_ed E) (ce_now E) pub (by_peer 0 ex Map.empty) cs ex) = (r, fs')" by fastforce
  have ok: "anchors_file_ok (ce_json E) (TrustAnchorsFile cfg) fs'"
    using kept(1) [OF assms(2) s] assms(3) by (simp add: anchors_file_ok_def)
  show ?thesis
    using upsertAnchor_ok [OF assms(1,2) ok assms(4)] ok by (simp add: import_identity_def Inr s split: option.split)
qed (use assms(3) in \<open>simp add: import_identity_def\<close>)

lemma anchor_commands_ok:
  assumes "json_roundtrips (ce_json E)" and "anchors_apart E cfg" and "ce_cfg E = Inr cfg"
    and "anchors_file_ok (ce_json E) (TrustAnchorsFile cfg) fs"
  shows "anchors_file_ok (ce_json E) (TrustAnchorsFile cfg) (snd (trustAdd E i w l args fs))"
    and "anchors_file_ok (ce_json E) (TrustAnchorsFile cfg) (snd (trustSet E w l args fs))"
    and "anchors_file_ok (ce_json E) (TrustAnchorsFile cfg) (snd (trustRemove E args fs))"
    and "anchors_file_ok (ce_json E) (TrustAnchorsFile cfg) (snd (trustImport E n w args fs))"
    and "anchors_file_ok (ce_json E) (TrustAnchorsFile cfg) (snd (federationJoin X E n w args ans fs))"
proof -
  note save = save_anchors_ok [OF assms(1) apart_simps(14) [OF assms(2)] assms(4)]
    and load = load_anchors_ok [OF assms(4)]
  show "anchors_file_ok (ce_json E) (TrustAnchorsFile cfg) (snd (trustAdd E i w l args fs))"
    using assms by (auto simp: trustAdd_def Let_def bad_weight_def EncodePub_Decode DecodePub_length
        split: list.splits sum.splits intro!: upsertAnchor_ok)
  show "anchors_file_ok (ce_json E) (TrustAnchorsFile cfg) (snd (trustSet E w l args fs))"
    using assms(3,4) by (auto simp: trustSet_def split: list.splits sum.splits option.splits
        dest!: load set_anchor_ok intro!: save)
  show "anchors_file_ok (ce_json E) (TrustAnchorsFile cfg) (snd (trustRemove E args fs))"
    using assms(3,4) by (auto simp: trustRemove_def Let_def split: list.splits sum.splits
        dest!: load intro!: save anchor_list_ok_filter)
  show "anchors_file_ok (ce_json E) (TrustAnchorsFile cfg) (snd (trustImport E n w args fs))"
    using assms by (auto simp: trustImport_def Let_def bad_weight_def split: list.splits sum.splits
        intro!: import_identity_ok)
  show "anchors_file_ok (ce_json E) (TrustAnchorsFile cfg) (snd (federationJoin X E n w args ans fs))"
    using assms by (auto simp: federationJoin_def Let_def bad_weight_def split: list.splits sum.splits
        intro!: import_identity_ok)
qed

lemma invite_ok:
  assumes "anchors_apart E cfg" and "ce_cfg E = Inr cfg" and "out \<noteq> TrustAnchorsFile cfg"
  shows "snd (federationInvite X E a w out fs) (TrustAnchorsFile cfg) = fs (TrustAnchorsFile cfg)"
  using assms(2,3)
  by (auto simp: federationInvite_def Let_def os_defs split: prod.splits option.splits sum.splits if_splits
      dest!: NewInvitation_kept [OF assms(1)])

text \<open>A command an operator may run: this configuration and format, other files elsewhere.\<close>

fun ctl_allowed :: "trust_json \<Rightarrow> Config \<Rightarrow> ('sk, 'pid, 'pk) ctl_env \<times> ctl_command \<Rightarrow> bool" where
  "ctl_allowed J cfg (E, c) \<longleftrightarrow> ce_cfg E = Inr cfg \<and> ce_json E = J \<and> anchors_apart E cfg \<and>
     (case c of Invite a w out \<Rightarrow> out \<noteq> TrustAnchorsFile cfg | _ \<Rightarrow> True)"

lemma ctl_main_ok:
  assumes "json_roundtrips J" and "ctl_allowed J cfg (E, c)" and "anchors_file_ok J (TrustAnchorsFile cfg) fs"
  shows "anchors_file_ok J (TrustAnchorsFile cfg) (ctl_main X E c fs)"
proof -
  have E: "ce_cfg E = Inr cfg" "ce_json E = J" "anchors_apart E cfg" using assms(2) by simp_all
  note kp = other_commands_kept [OF E(3,1)] and
    ac = anchor_commands_ok [of E cfg fs, unfolded E(2), OF assms(1) E(3,1) assms(3)]
  show ?thesis
    using assms(2,3) ac by (cases c) (auto simp: kp invite_ok [OF E(3,1)] anchors_file_ok_def)
qed

section \<open>What an import brings in\<close>

lemma merge_certs_set:
  "set (merge_certs C now pub m cs ex) \<subseteq> set ex \<union> {c \<in> set cs. PersonKey c = pub \<and> VerifyCert C c now = None}"
proof (induction cs arbitrary: ex)
  case (Cons c cs)
  have "set (case m (PeerID c) of Some i \<Rightarrow> ex[i := c] | None \<Rightarrow> ex @ [c]) \<subseteq> insert c (set ex)"
    using set_update_subset_insert by (fastforce split: option.splits)
  with Cons [of "case m (PeerID c) of Some i \<Rightarrow> ex[i := c] | None \<Rightarrow> ex @ [c]"] Cons [of ex] show ?case
    by auto
qed simp

lemma merge_certs_fresh:
  "merge_certs C now pub Map.empty cs ex = ex @ filter (\<lambda>c. PersonKey c = pub \<and> VerifyCert C c now = None) cs"
  by (induction cs arbitrary: ex) auto

lemma load_after_save_certs:
  assumes "json_roundtrips (ce_json E)" and "ce_tmp E p \<noteq> p" and "save_certs E fs p xs = (None, fs')" and "f_read g = None"
  shows "LoadCerts (ce_json E) (ReadFile g fs' p) = Inr xs"
  using save_load_list [of "enc_certs (ce_json E)" "dec_certs (ce_json E)" "ce_tmp E p" p g] assms
  by (simp add: json_roundtrips_def save_certs_def SaveCerts_def LoadCerts_def)

lemma load_after_save_anchors:
  assumes "json_roundtrips (ce_json E)" and "ce_tmp E p \<noteq> p" and "save_anchors E fs p xs = (None, fs')" and "f_read g = None"
  shows "LoadAnchors (ce_json E) (ReadFile g fs' p) = Inr xs"
  using save_load_list [of "enc_anchors (ce_json E)" "dec_anchors (ce_json E)" "ce_tmp E p" p g] assms
  by (simp add: json_roundtrips_def save_anchors_def SaveAnchors_def LoadAnchors_def)

lemma load_fresh:
  "fs p = None \<Longrightarrow> load_certs E fs p = Inr cs \<Longrightarrow> cs = []"
  "fs p = None \<Longrightarrow> load_anchors E fs p = Inr as \<Longrightarrow> as = []"
  by (auto simp: load_certs_def load_anchors_def LoadCerts_def LoadAnchors_def load_list_def env_read_def ReadFile_def
      split: option.splits sum.splits if_splits)

lemma save_anchors_frame: "save_anchors E fs p xs = (r, fs') \<Longrightarrow> q \<noteq> p \<Longrightarrow> q \<noteq> ce_tmp E p \<Longrightarrow> fs' q = fs q"
  unfolding save_anchors_def SaveAnchors_def by (rule save_list_frame)

lemma upsertAnchor_frame:
  "upsertAnchor E cfg fs a = (r, fs') \<Longrightarrow> q \<noteq> TrustAnchorsFile cfg \<Longrightarrow> q \<noteq> ce_tmp E (TrustAnchorsFile cfg) \<Longrightarrow> fs' q = fs q"
  by (auto simp: upsertAnchor_def Let_def split: sum.splits option.splits intro: save_anchors_frame)

text \<open>The files of a trust directory without an anchor or a certificate, after a first import.\<close>

lemma first_import:
  assumes "json_roundtrips (ce_json E)" and "anchors_apart E cfg"
    and "TrustCertsFile cfg \<noteq> ce_tmp E (TrustCertsFile cfg)" and "TrustCertsFile cfg \<noteq> ce_tmp E (TrustAnchorsFile cfg)"
    and "fs (TrustAnchorsFile cfg) = None" and "fs (TrustCertsFile cfg) = None"
    and "import_identity E cfg fs pub cs a = (None, fs')" and "f_read g = None"
  shows "LoadCerts (ce_json E) (ReadFile g fs' (TrustCertsFile cfg))
      = Inr (filter (\<lambda>c. PersonKey c = pub \<and> VerifyCert (ce_ed E) c (ce_now E) = None) cs)"
    and "LoadAnchors (ce_json E) (ReadFile g fs' (TrustAnchorsFile cfg)) = Inr [a]"
proof -
  note ap = apart_simps [OF assms(2)]
  let ?cs = "filter (\<lambda>c. PersonKey c = pub \<and> VerifyCert (ce_ed E) c (ce_now E) = None) cs"
  obtain ex where ex: "load_certs E fs (TrustCertsFile cfg) = Inr ex"
    using assms(7) by (auto simp: import_identity_def split: sum.splits)
  then have "ex = []" using load_fresh(1) assms(6) by blast
  then obtain fs1 where s: "save_certs E fs (TrustCertsFile cfg) ?cs = (None, fs1)"
    and u: "upsertAnchor E cfg fs1 a = (None, fs')"
    using assms(7) ex by (auto simp: import_identity_def merge_certs_fresh split: prod.splits option.splits)
  have fresh: "fs1 (TrustAnchorsFile cfg) = None" using kept(1) [OF assms(2) s] assms(5) by simp
  obtain as where as: "load_anchors E fs1 (TrustAnchorsFile cfg) = Inr as"
    using u by (auto simp: upsertAnchor_def Let_def split: sum.splits)
  then have "as = []" using load_fresh(2) fresh by blast
  with u as have sa: "save_anchors E fs1 (TrustAnchorsFile cfg) [a] = (None, fs')" by (simp add: upsertAnchor_def Let_def)
  show "LoadAnchors (ce_json E) (ReadFile g fs' (TrustAnchorsFile cfg)) = Inr [a]"
    by (rule load_after_save_anchors [OF assms(1) ap(14) sa assms(8)])
  have "fs' (TrustCertsFile cfg) = fs1 (TrustCertsFile cfg)"
    using save_anchors_frame [OF sa] ap(1) assms(4) by metis
  then have "ReadFile g fs' (TrustCertsFile cfg) = ReadFile g fs1 (TrustCertsFile cfg)" by (simp only: ReadFile_def)
  then show "LoadCerts (ce_json E) (ReadFile g fs' (TrustCertsFile cfg)) = Inr ?cs"
    using load_after_save_certs [OF assms(1) assms(3) [symmetric] s assms(8)] by (simp only:)
qed

lemma cert_loop_keeps: "PeerID c \<notin> PeerID ` set cs \<Longrightarrow> cert_loop C t cs m (PeerID c) = m (PeerID c)"
  by (induction cs arbitrary: m) auto

lemma cert_loop_distinct:
  "distinct (map PeerID cs) \<Longrightarrow> c \<in> set cs \<Longrightarrow> VerifyCert C c t = None \<Longrightarrow> m (PeerID c) = None
   \<Longrightarrow> cert_loop C t cs m (PeerID c) = Some c"
proof (induction cs arbitrary: m)
  case (Cons x cs)
  show ?case
  proof (cases "x = c")
    case True
    with Cons.prems show ?thesis by (simp add: cert_loop_keeps)
  next
    case False
    with Cons.prems have c: "c \<in> set cs" "PeerID x \<noteq> PeerID c" by auto
    then have "(m(PeerID x \<mapsto> x)) (PeerID c) = None" using Cons.prems(4) by simp
    with Cons c show ?thesis by simp
  qed
qed simp

lemma reload_clock:
  "lastCheck (reload_anchors J fl s) = lastCheck s" "reloadEvery (reload_anchors J fl s) = reloadEvery s"
  "lastCheck (reload_certs C J fl now s) = lastCheck s" "reloadEvery (reload_certs C J fl now s) = reloadEvery s"
  "lastCheck (reload_blocked J fl s) = lastCheck s" "reloadEvery (reload_blocked J fl s) = reloadEvery s"
  by (simp_all add: reload_anchors_def reload_certs_def reload_blocked_def case_prod_beta Let_def split: sum.split)

text \<open>A store that has just read one anchor and the certificates of its Person.\<close>

lemma fresh_store_resolves:
  assumes "LoadAnchors J (af_read fl) = Inr [a]" and "LoadCerts J (cf_read fl) = Inr cs"
    and "0 < anchor_Weight a" and "anchor_Weight a \<le> 1" and "anchor_ValidUntil a = zero_time"
    and "distinct (map PeerID cs)" and "c \<in> set cs" and "VerifyCert C c t = None"
    and "IdentityPubkey a = EncodePub (PersonKey c)"
  shows "fst (Resolve C J fl t (NewStore C J fl t ap cp bp sw) (PeerID c)) = (anchor_Weight a, Person a, True)"
proof -
  let ?s = "NewStore C J fl t ap cp bp sw"
  have anchors: "anchors ?s = [IdentityPubkey a \<mapsto> a]"
    using assms(1,3,4) by (simp add: NewStore_def maybeReload_def reload_anchors_def Let_def statChanged_def frame_simps
        split: option.split)
  have certs: "certs ?s (PeerID c) = Some c"
    using cert_loop_distinct [OF assms(6,7,8), of Map.empty] assms(2)
    by (simp add: NewStore_def maybeReload_def reload_certs_def Let_def statChanged_def frame_simps split: option.split)
  have again: "maybeReload C J fl t ?s = ?s"
    by (simp add: NewStore_def maybeReload_def Let_def frame_simps reload_clock second_def)
  have "\<not> After t (ValidUntil c)" using assms(8) by (simp add: VerifyCert_accepts After_def)
  then show ?thesis
    using anchors certs assms(5,9) by (simp add: Resolve_def Let_def again resolve_in_def Expired_def IsZero_def)
qed

section \<open>Two machines\<close>

text \<open>The files of the example: Ana's certificate and her anchor, each list with one text.\<close>

definition joined_anchor :: Anchor where
  "joined_anchor = ana_anchor\<lparr>anchor_Source := ''federation-join''\<rparr>"

definition swap_json :: trust_json where
  "swap_json = \<lparr>dec_anchors = \<lambda>d. if d = ''A'' then Inr [ana_anchor]
       else if d = ''J'' then Inr [joined_anchor] else Inl (Fault ''json''),
     enc_anchors = \<lambda>xs. if xs = [ana_anchor] then Inr ''A''
       else if xs = [joined_anchor] then Inr ''J'' else Inl (Fault ''json''),
     dec_certs = \<lambda>d. if d = ''C'' then Inr [ana_cert] else Inl (Fault ''json''),
     enc_certs = \<lambda>xs. if xs = [ana_cert] then Inr ''C'' else Inl (Fault ''json''),
     dec_peers = \<lambda>d. Inl (Fault ''json''), enc_peers = \<lambda>xs. Inl (Fault ''json'')\<rparr>"

definition ana_bundle :: Bundle where
  "ana_bundle = \<lparr>bundle_Person = '''', bundle_Label = '''', bundle_IdentityPubkey = EncodePub ana_key, Certs = [ana_cert]\<rparr>"

definition ctl_example :: "(string, string, string) ctl_env" where
  "ctl_example = \<lparr>ce_cfg = Inr Defaults, ce_faults = \<lambda>_. no_faults, ce_tmp = \<lambda>p. p @ ''.new'', ce_now = 10,
     ce_rnd = Inr ana_key, ce_ed = plain_ed25519, ce_json = swap_json,
     ce_enc_cert = \<lambda>_. Inr ''cert'', ce_dec_cert = \<lambda>_. Inr ana_cert,
     ce_dec_bundle = \<lambda>d. if d = ''B'' then Inr ana_bundle else Inl (Fault ''json''),
     ce_p2p = plain_libp2p,
     ce_codec = \<lparr>GenerateKeyPair = Inr ''sk'', MarshalPrivateKey = \<lambda>k. Inr k, UnmarshalPrivateKey = \<lambda>d. Inr d\<rparr>\<rparr>"

definition fed_example :: fed_lib where
  "fed_example = \<lparr>ma_New = Inr, ma_p2p = \<lambda>_. '''', ma_Encapsulate = (@), fl_sha = id,
     enc_inv = \<lambda>_. Inr ''I'',
     dec_inv = \<lambda>d. if d = ''I'' then Inr \<lparr>inv_Version = 1, CreatedAt = 5, InvitedBy = ''ana'',
       Federation = \<lparr>fed_Mode = ''open'', BootstrapPeer = ''/ip4/192.0.2.1'', SuggestedWeight = 1 / 2\<rparr>,
       inv_Trust = ana_bundle\<rparr> else Inl (Fault ''json'')\<rparr>"

lemma swap_json_roundtrips [simp]: "json_roundtrips swap_json"
  by (simp add: json_roundtrips_def swap_json_def)

lemma ctl_example_simps [simp]:
  "ce_cfg ctl_example = Inr Defaults" "ce_faults ctl_example = (\<lambda>_. no_faults)" "ce_tmp ctl_example p = p @ ''.new''"
  "ce_now ctl_example = 10" "ce_ed ctl_example = plain_ed25519" "ce_json ctl_example = swap_json"
  "ce_dec_bundle ctl_example ''B'' = Inr ana_bundle"
  by (simp_all add: ctl_example_def)

lemma default_paths:
  "TrustAnchorsFile Defaults = ''data/reputation/anchors.json''"
  "TrustCertsFile Defaults = ''data/reputation/imported-certs.json''"
  "NodeKeyFile Defaults = ''data/reputation/identity.key''"
  "TrustPersonKeyFile Defaults = ''data/reputation/person.key''"
  "TrustPeerCertFile Defaults = ''data/reputation/peer.cert''"
  "TrustBlockedPeersFile Defaults = ''data/reputation/blocked-peers.json''"
  by code_simp+

lemma example_apart [simp]: "anchors_apart ctl_example Defaults"
  by (simp add: anchors_apart_def other_paths_def default_paths labelPath_def issuedCertsPath_def)

definition ana_disk :: fs where
  "ana_disk = [TrustPersonKeyFile Defaults \<mapsto> \<lparr>content = EncodeToString ana_key @ newline, mode = 384\<rparr>,
     issuedCertsPath (TrustPersonKeyFile Defaults) \<mapsto> \<lparr>content = ''C'', mode = 384\<rparr>]"

definition bob_disk :: fs where
  "bob_disk = [''ana.bundle'' \<mapsto> \<lparr>content = ''B'', mode = 420\<rparr>, ''invite.json'' \<mapsto> \<lparr>content = ''I'', mode = 420\<rparr>]"

lemma ana_disk_reads:
  "load_person ctl_example ana_disk (TrustPersonKeyFile Defaults) = Inr (NewKeyFromSeed plain_ed25519 ana_key)"
  "load_certs ctl_example ana_disk (issuedCertsPath (TrustPersonKeyFile Defaults)) = Inr [ana_cert]"
proof -
  show "load_person ctl_example ana_disk (TrustPersonKeyFile Defaults) = Inr (NewKeyFromSeed plain_ed25519 ana_key)"
    unfolding load_person_def ctl_example_simps
    by (rule LoadPersonKey_stored) (simp_all add: ana_disk_def issuedCertsPath_def no_faults_def)
  show "load_certs ctl_example ana_disk (issuedCertsPath (TrustPersonKeyFile Defaults)) = Inr [ana_cert]"
    by (simp add: load_certs_def LoadCerts_def load_list_def env_read_def ReadFile_def no_faults_def ana_disk_def swap_json_def)
qed

lemma ana_exports: "trustExport ctl_example ana_disk = Inr ana_bundle"
proof -
  have "env_read ctl_example ana_disk (labelPath (TrustPersonKeyFile Defaults)) = Inl ErrNotExist"
    by (simp add: env_read_def ReadFile_def no_faults_def ana_disk_def labelPath_def issuedCertsPath_def)
  then show ?thesis
    using ana_disk_reads by (simp add: trustExport_def ana_bundle_def plain.key_parts) (simp add: plain_ed25519_def)
qed

lemma bob_imports:
  "\<exists>fs'. trustImport ctl_example ''ana'' (1 / 2) [''ana.bundle''] bob_disk = (None, fs')"
proof -
  have dec: "DecodePub (EncodePub ana_key) = Inr ana_key" by (rule EncodePub_Decode) simp
  have cert: "VerifyCert plain_ed25519 ana_cert 10 = None" "PersonKey ana_cert = ana_key"
    by (simp_all add: certs_verify cert_fields)
  have ne: "TrustCertsFile Defaults \<noteq> TrustAnchorsFile Defaults" "TrustAnchorsFile Defaults \<noteq> TrustCertsFile Defaults @ ''.new''"
    by (simp_all add: default_paths)
  have "bob_disk (TrustCertsFile Defaults) = None" "bob_disk (TrustAnchorsFile Defaults) = None"
    by (simp_all add: bob_disk_def default_paths)
  then show ?thesis
    using ne
    by (simp add: trustImport_def env_read_def ReadFile_def no_faults_def bob_disk_def [THEN fun_cong]
        ana_bundle_def dec bad_weight_def import_identity_def load_certs_def LoadCerts_def load_list_def IsNotExist_def
        save_certs_def SaveCerts_def save_list_def swap_json_def cert merge_certs_fresh atomicWrite_def os_defs
        upsertAnchor_def Let_def load_anchors_def LoadAnchors_def save_anchors_def SaveAnchors_def ana_anchor_def [symmetric])
qed

section \<open>Properties\<close>


lemma bob_joins:
  "\<exists>fs'. federationJoin fed_example ctl_example ''ana'' (1 / 2) [''invite.json''] (Inr ''yes'') bob_disk = (None, fs') \<and> fs' \<noteq> bob_disk"
proof -
  have dec: "DecodePub (EncodePub ana_key) = Inr ana_key" by (rule EncodePub_Decode) simp
  have cert: "VerifyCert plain_ed25519 ana_cert 10 = None" "PersonKey ana_cert = ana_key"
    by (simp_all add: certs_verify cert_fields)
  have yes: "TrimSpace ''yes'' = ''yes''" by code_simp
  have none: "bob_disk (TrustCertsFile Defaults) = None" by (simp add: bob_disk_def default_paths)
  have ne: "TrustCertsFile Defaults \<noteq> TrustAnchorsFile Defaults" "TrustAnchorsFile Defaults \<noteq> TrustCertsFile Defaults @ ''.new''"
    by (simp_all add: default_paths)
  have none': "bob_disk (TrustAnchorsFile Defaults) = None" by (simp add: bob_disk_def default_paths)
  have other: "joined_anchor \<noteq> ana_anchor" by (simp add: joined_anchor_def ana_anchor_def)
  let ?a = "\<lparr>Person = ''ana'', Label = '''', IdentityPubkey = EncodePub ana_key, anchor_Weight = 1 / 2,
    anchor_ValidUntil = zero_time, anchor_Source = ''federation-join''\<rparr>"
  have a: "?a = joined_anchor" by (simp add: joined_anchor_def ana_anchor_def)
  have j: "federationJoin fed_example ctl_example ''ana'' (1 / 2) [''invite.json''] (Inr ''yes'') bob_disk
      = import_identity ctl_example Defaults bob_disk ana_key [ana_cert] joined_anchor"
    by (simp add: federationJoin_def env_read_def ReadFile_def no_faults_def bob_disk_def [THEN fun_cong]
        ReadInvitation_def fed_example_def ana_bundle_def dec yes bad_weight_def join_weight_def Let_def a)
  have "\<exists>fs'. import_identity ctl_example Defaults bob_disk ana_key [ana_cert] joined_anchor = (None, fs')
      \<and> fs' (TrustAnchorsFile Defaults) \<noteq> None"
    using ne none none' other
    by (simp add: import_identity_def load_certs_def LoadCerts_def load_list_def IsNotExist_def env_read_def ReadFile_def
        no_faults_def save_certs_def SaveCerts_def save_list_def swap_json_def cert merge_certs_fresh atomicWrite_def os_defs
        upsertAnchor_def Let_def load_anchors_def LoadAnchors_def save_anchors_def SaveAnchors_def)
  then show ?thesis using j none' by auto
qed


text \<open>
  C36. Trust travels: when one operator exports a bundle and another, without anchors so far, imports
  it, the daemon that reads the importer's files answers every machine the exporter certified, until
  its certificate lapses, as anchored under the name and the weight the importer chose.
\<close>

theorem exchanged_peer_resolves:
  assumes "ed25519_scheme C" and "length seed = 32" and "ce_ed EA = C" and "ce_cfg EA = Inr cfgA"
    and "load_person EA fsA (TrustPersonKeyFile cfgA) = Inr (NewKeyFromSeed C seed)"
    and "load_certs EA fsA (issuedCertsPath (TrustPersonKeyFile cfgA)) = Inr cs" and "distinct (map PeerID cs)"
    and "IssueCert C (NewKeyFromSeed C seed) p v \<in> set cs" and "p \<noteq> ''''" and "CHR ''|'' \<notin> set p"
    and "trustExport EA fsA = Inr b"
    and "json_roundtrips (ce_json E)" and "ce_ed E = C" and "ce_cfg E = Inr cfg" and "anchors_apart E cfg"
    and "TrustCertsFile cfg \<noteq> ce_tmp E (TrustCertsFile cfg)" and "TrustCertsFile cfg \<noteq> ce_tmp E (TrustAnchorsFile cfg)"
    and "env_read E fs f = Inr data" and "ce_dec_bundle E data = Inr b"
    and "fs (TrustAnchorsFile cfg) = None" and "fs (TrustCertsFile cfg) = None"
    and "trustImport E name w [f] fs = (None, fs')" and "name \<noteq> ''''"
    and "f_read g = None" and "af_read fl = ReadFile g fs' (TrustAnchorsFile cfg)"
    and "cf_read fl = ReadFile g fs' (TrustCertsFile cfg)" and "ce_now E < v" and "t < v"
  shows "fst (Resolve C (ce_json E) fl t (NewStore C (ce_json E) fl t ap cp bp sw) p)
    = (if w = 0 then AnchorWeight (Trust cfg) else w, name, True)"
proof -
  let ?c = "IssueCert C (NewKeyFromSeed C seed) p v" and ?w = "if w = 0 then AnchorWeight (Trust cfg) else w"
  have pub: "PersonPub (NewKeyFromSeed C seed) = ed_pub C seed" "length (ed_pub C seed) = 32"
    using assms(2) ed25519_scheme.key_parts(2) [OF assms(1)] ed25519_scheme.pub_length [OF assms(1)] by simp_all
  have c: "PeerID ?c = p" "PersonKey ?c = ed_pub C seed" by (simp_all add: IssueCert_def Let_def pub)
  have valid: "VerifyCert C ?c now = None" if "now < v" for now
    by (rule ed25519_scheme.IssueCert_verifies [OF assms(1,2,9,10) that])
  have b: "bundle_IdentityPubkey b = EncodePub (ed_pub C seed)" "Certs b = cs"
    using assms(3-6,11) pub(1) by (auto simp: trustExport_def Let_def)
  let ?a = "\<lparr>Person = name, Label = bundle_Label b, IdentityPubkey = bundle_IdentityPubkey b, anchor_Weight = ?w,
    anchor_ValidUntil = zero_time, anchor_Source = ''self-added''\<rparr>"
  have imp: "import_identity E cfg fs (ed_pub C seed) cs ?a = (None, fs')" and w: "0 < ?w" "?w \<le> 1"
    using assms(14,18,19,22,23) b EncodePub_Decode [OF pub(2)]
    by (auto simp: trustImport_def Let_def bad_weight_def split: if_splits)
  let ?cs = "filter (\<lambda>c. PersonKey c = ed_pub C seed \<and> VerifyCert (ce_ed E) c (ce_now E) = None) cs"
  have files: "LoadAnchors (ce_json E) (af_read fl) = Inr [?a]" "LoadCerts (ce_json E) (cf_read fl) = Inr ?cs"
    using first_import [OF assms(12,15,16,17,20,21) imp assms(24)] assms(25,26) by simp_all
  have "?c \<in> set ?cs" using assms(8,13,27) c(2) valid by simp
  moreover have "distinct (map PeerID ?cs)" using assms(7) by (rule distinct_map_filter)
  ultimately have "fst (Resolve C (ce_json E) fl t (NewStore C (ce_json E) fl t ap cp bp sw) (PeerID ?c))
      = (anchor_Weight ?a, Person ?a, True)"
    using w b(1) c(2) valid [OF assms(28)] by (intro fresh_store_resolves [OF files]) simp_all
  then show ?thesis by (simp add: c(1))
qed

theorem exchanged_peer_resolves_witness:
  "\<exists>fs'. trustImport ctl_example ''ana'' (1 / 2) [''ana.bundle''] bob_disk = (None, fs') \<and>
     (let fl = \<lparr>af_stat = None, af_read = ReadFile no_faults fs' (TrustAnchorsFile Defaults), cf_stat = None,
        cf_read = ReadFile no_faults fs' (TrustCertsFile Defaults), bf_stat = None, bf_read = Inl ErrNotExist\<rparr>
      in fst (Resolve plain_ed25519 swap_json fl 20 (NewStore plain_ed25519 swap_json fl 20 '''' '''' '''' (1 / 10)) ''p1'')
         = (1 / 2, ''ana'', True))"
proof -
  obtain fs' where i: "trustImport ctl_example ''ana'' (1 / 2) [''ana.bundle''] bob_disk = (None, fs')"
    using bob_imports by blast
  let ?fl = "\<lparr>af_stat = None, af_read = ReadFile no_faults fs' (TrustAnchorsFile Defaults), cf_stat = None,
     cf_read = ReadFile no_faults fs' (TrustCertsFile Defaults), bf_stat = None, bf_read = Inl ErrNotExist\<rparr>"
  have "fst (Resolve plain_ed25519 (ce_json ctl_example) ?fl 20
      (NewStore plain_ed25519 (ce_json ctl_example) ?fl 20 '''' '''' '''' (1 / 10)) ''p1'')
    = (if (1 / 2 :: real) = 0 then AnchorWeight (Trust Defaults) else 1 / 2, ''ana'', True)"
    by (rule exchanged_peer_resolves [where EA = ctl_example and fsA = ana_disk and cfgA = Defaults and b = ana_bundle
          and cs = "[ana_cert]" and seed = ana_key and v = 100 and f = "''ana.bundle''" and data = "''B''"
          and g = no_faults and E = ctl_example and cfg = Defaults and fs = bob_disk and fs' = fs'])
      (simp_all add: plain.ed25519_scheme_axioms ana_disk_reads ana_exports i ana_cert_def [symmetric],
       simp_all add: default_paths bob_disk_def env_read_def ReadFile_def no_faults_def)
  then show ?thesis using i by (simp add: Let_def)
qed

end
