(* ===== verification/Discovery.thy ===== *)
theory Discovery
  imports Transport Config Files
begin

text \<open>
  Peer discovery (\<open>internal/discovery\<close>): the relay list (\<open>relaylist.go\<close>), the connection to the
  relays and the loop that finds peers (\<open>discovery.go\<close>). libp2p, the DHT and JSON are parameters:
  the outcome of each call.
\<close>

section \<open>Relays\<close>

record RelayEntry =
  relay_PeerID :: string
  relay_Addrs :: "string list"
  relay_Label :: string

definition LoadRelayList ::
  "(string \<Rightarrow> error + RelayEntry list) \<Rightarrow> os_faults \<Rightarrow> fs \<Rightarrow> string \<Rightarrow> string \<Rightarrow> error + RelayEntry list" where
  "LoadRelayList decode f fs path embedded =
     (case (if path \<noteq> ''''
            then (case ReadFile f fs path of
                    Inr data \<Rightarrow> Inr data
                  | Inl e \<Rightarrow> if IsNotExist e then Inr embedded else Inl (Wrap ''discovery: read relay list'' e))
            else Inr embedded) of
        Inl e \<Rightarrow> Inl e
      | Inr data \<Rightarrow>
          if length data = 0 then Inr []
          else (case decode data of Inl e \<Rightarrow> Inl (Wrap ''discovery: parse relay list'' e) | Inr es \<Rightarrow> Inr es))"

text \<open>\<open>New\<close> goes on without relays when the list cannot be loaded.\<close>

definition manager_relays :: "error + RelayEntry list \<Rightarrow> RelayEntry list" where
  "manager_relays loaded = (case loaded of Inl _ \<Rightarrow> [] | Inr es \<Rightarrow> es)"

text \<open>The libraries: peer IDs, multiaddrs, and the host's dial and connection state.\<close>

record ('pid, 'ma, 'w) swarm =
  decode_pid :: "string \<Rightarrow> error + 'pid"
  parse_ma :: "string \<Rightarrow> error + 'ma"
  dial :: "'pid \<Rightarrow> 'ma list \<Rightarrow> 'w \<Rightarrow> bool \<times> 'w"
  not_connected :: "'w \<Rightarrow> 'pid \<Rightarrow> bool"
  self_id :: 'pid

text \<open>The addresses of one relay that parse.\<close>

fun relay_addrs :: "(string \<Rightarrow> error + 'ma) \<Rightarrow> string list \<Rightarrow> 'ma list" where
  "relay_addrs parse [] = []"
| "relay_addrs parse (a # as) =
     (case parse a of Inl _ \<Rightarrow> relay_addrs parse as | Inr ma \<Rightarrow> ma # relay_addrs parse as)"

fun connectRelays :: "('pid, 'ma, 'w) swarm \<Rightarrow> RelayEntry list \<Rightarrow> 'w \<Rightarrow> 'w" where
  "connectRelays S [] w = w"
| "connectRelays S (r # rs) w =
     (case decode_pid S (relay_PeerID r) of
        Inl _ \<Rightarrow> connectRelays S rs w
      | Inr pid \<Rightarrow>
          let maddrs = relay_addrs (parse_ma S) (relay_Addrs r)
          in if length maddrs = 0 then connectRelays S rs w
             else connectRelays S rs (snd (dial S pid maddrs w)))"

section \<open>Finding peers\<close>

fun connect_found :: "('pid, 'ma, 'w) swarm \<Rightarrow> ('pid \<times> 'ma list) list \<Rightarrow> 'w \<Rightarrow> 'w" where
  "connect_found S [] w = w"
| "connect_found S ((pid, addrs) # ps) w =
     (if pid = self_id S then connect_found S ps w
      else if not_connected S w pid then connect_found S ps (snd (dial S pid addrs w))
      else connect_found S ps w)"

text \<open>
  The rounds of \<open>findPeers\<close>, thirty seconds apart: the outcome of one lookup is an error or the
  peers found. The loop ends with the context.
\<close>

fun findPeers :: "('pid, 'ma, 'w) swarm \<Rightarrow> (error + ('pid \<times> 'ma list) list) list \<Rightarrow> 'w \<Rightarrow> 'w" where
  "findPeers S [] w = w"
| "findPeers S (Inl e # rounds) w = findPeers S rounds w"
| "findPeers S (Inr ps # rounds) w = findPeers S rounds (connect_found S ps w)"

definition rendezvousPoint :: string where
  "rendezvousPoint = ''/federloom/v1/peers''"

text \<open>\<open>Start\<close>: relays first, then what the configuration allows; the result names the topic advertised.\<close>

definition discovery_Start ::
  "('pid, 'ma, 'w) swarm \<Rightarrow> DiscoveryConfig \<Rightarrow> RelayEntry list \<Rightarrow> (error + ('pid \<times> 'ma list) list) list \<Rightarrow> 'w
     \<Rightarrow> string option \<times> 'w" where
  "discovery_Start S cfg relays rounds w =
     (let w = connectRelays S relays w;
          adv = (if Advertise cfg then Some rendezvousPoint else None)
      in (adv, if Discover cfg then findPeers S rounds w else w))"

section \<open>Facts\<close>

text \<open>A missing relay file falls back to the list built in.\<close>

lemma LoadRelayList_missing:
  "fs path = None \<Longrightarrow> f_read f = None \<Longrightarrow> LoadRelayList decode f fs path embedded = LoadRelayList decode f fs '''' embedded"
  by (simp add: LoadRelayList_def ReadFile_def IsNotExist_def)

text \<open>A dial that does not disturb the other connections leaves the node itself undialled.\<close>

lemma connect_found_self: "connect_found S (filter (\<lambda>p. fst p \<noteq> self_id S) ps) w = connect_found S ps w"
  by (induction S ps w rule: connect_found.induct) auto

end
