(* ===== verification/Daemon.thy ===== *)
theory Daemon
  imports Node_Exchange Discovery "HOL-Library.Sublist"
begin

text \<open>
  The daemon, \<open>cmd/federloomd/main.go\<close>, and the parts of \<open>internal/node/node.go\<close> that run around the
  event loop: what \<open>Run\<close> starts and in which order, and \<open>fanIn\<close>, which merges the events of the
  sources with one goroutine per source.
\<close>

section \<open>The command\<close>

record daemon_flags =
  df_config :: string
  df_listen :: string
  df_advertise :: string
  df_bootstrap :: string
  df_relay :: bool

text \<open>
  What \<open>main\<close> asks of the rest: loading the configuration, parsing multiaddrs and peer addresses,
  the node key, the transport (with its printed addresses), and \<open>node.New\<close> and \<open>Run\<close> with the error
  they end with, cancellation by a signal being none. That the first dials may fail is only logged.
\<close>

record ('ma, 'ai, 'sk) daemon_env =
  de_load :: "string \<Rightarrow> error + Config"
  de_multiaddr :: "string \<Rightarrow> error + 'ma"
  de_addrinfo :: "'ma \<Rightarrow> error + 'ai"
  de_key :: "string \<Rightarrow> error + 'sk"
  de_transport :: "Options \<Rightarrow> error + Transport"
  de_addrs :: "string list"
  de_node :: "Config \<Rightarrow> Transport \<Rightarrow> error option"
  de_run :: "error option"

text \<open>What a run of the command did: the lines it printed, the peers it keeps dialling, how it ended.\<close>

datatype daemon_end = Fatal error | RelayUntilSignal | NodeUntilSignal

record 'ai daemon_result =
  dr_printed :: "string list"
  dr_kept :: "('ai list \<times> duration) option"
  dr_end :: daemon_end

text \<open>
  The bootstrap peers of the configuration and of the flag, in that order: blank entries are
  skipped, an invalid one ends the daemon.
\<close>

fun bootstrap_entries ::
  "(string \<Rightarrow> error + 'ma) \<Rightarrow> ('ma \<Rightarrow> error + 'ai) \<Rightarrow> string list \<Rightarrow> error + 'ai list" where
  "bootstrap_entries parse info [] = Inr []"
| "bootstrap_entries parse info (raw # rest) =
     (let raw = TrimSpace raw
      in if raw = '''' then bootstrap_entries parse info rest
         else (case parse raw of
             Inl e \<Rightarrow> Inl (Wrap ''invalid bootstrap peer'' e)
           | Inr ma \<Rightarrow> (case info ma of
               Inl e \<Rightarrow> Inl (Wrap ''parse bootstrap peer'' e)
             | Inr ai \<Rightarrow> (case bootstrap_entries parse info rest of Inl e \<Rightarrow> Inl e | Inr ais \<Rightarrow> Inr (ai # ais)))))"

definition bootstrap_peers ::
  "(string \<Rightarrow> error + 'ma) \<Rightarrow> ('ma \<Rightarrow> error + 'ai) \<Rightarrow> string list \<Rightarrow> string \<Rightarrow> error + 'ai list" where
  "bootstrap_peers parse info cfg_peers flag =
     (case bootstrap_entries parse info cfg_peers of
        Inl e \<Rightarrow> Inl e
      | Inr a \<Rightarrow>
          if flag = '''' then Inr a
          else (case bootstrap_entries parse info (Split flag CHR '','') of Inl e \<Rightarrow> Inl e | Inr b \<Rightarrow> Inr (a @ b)))"

definition printed_addresses :: "daemon_flags \<Rightarrow> string list \<Rightarrow> string \<Rightarrow> string list" where
  "printed_addresses fl addrs self =
     (''peer ID: '' @ self) #
     (if df_advertise fl \<noteq> '''' then [''listening on: '' @ df_advertise fl @ ''/p2p/'' @ self]
      else map (\<lambda>a. ''listening on: '' @ a @ ''/p2p/'' @ self) addrs)"

definition transport_options :: "Config \<Rightarrow> bool \<Rightarrow> string \<Rightarrow> Options" where
  "transport_options cfg relay listen =
     \<lparr>ListenAddrs = [listen], opt_BootstrapPeers = [], opt_Mode = (if relay then ModeRelay else ModeLeaf),
      has_PrivKey = True, opt_Topic = '''', opt_Subnet = FederationSubnet cfg,
      BridgeSubnets = EffectiveBridgeSubnets cfg\<rparr>"

definition daemon_main :: "('ma, 'ai, 'sk) daemon_env \<Rightarrow> daemon_flags \<Rightarrow> 'ai daemon_result" where
  "daemon_main E fl =
     (let fatal = (\<lambda>out kept e. \<lparr>dr_printed = out, dr_kept = kept, dr_end = Fatal e\<rparr>)
      in case (if df_config fl \<noteq> '''' then de_load E (df_config fl) else Inr Defaults) of
        Inl e \<Rightarrow> fatal [] None (Wrap ''load config'' e)
      | Inr cfg \<Rightarrow>
        (case de_multiaddr E (df_listen fl) of
           Inl e \<Rightarrow> fatal [] None (Wrap ''--listen'' e)
         | Inr _ \<Rightarrow>
           (case de_key E (NodeKeyFile cfg) of
              Inl e \<Rightarrow> fatal [] None (Wrap ''node identity'' e)
            | Inr _ \<Rightarrow>
              (case de_transport E (transport_options cfg (df_relay fl) (df_listen fl)) of
                 Inl e \<Rightarrow> fatal [] None (Wrap ''start transport'' e)
               | Inr t \<Rightarrow>
                 (let out = printed_addresses fl (de_addrs E) (tr_self t)
                  in case bootstrap_peers (de_multiaddr E) (de_addrinfo E) (Config.BootstrapPeers cfg) (df_bootstrap fl) of
                    Inl e \<Rightarrow> fatal out None e
                  | Inr peers \<Rightarrow>
                    (let kept = (if length peers = 0 then None
                                 else Some (peers, BootstrapReconnectInterval cfg))
                     in if df_relay fl then \<lparr>dr_printed = out, dr_kept = kept, dr_end = RelayUntilSignal\<rparr>
                        else (case de_node E cfg t of
                            Some e \<Rightarrow> fatal out kept (Wrap ''create node'' e)
                          | None \<Rightarrow>
                              (case de_run E of
                                 Some e \<Rightarrow> fatal out kept (Wrap ''node exited'' e)
                               | None \<Rightarrow> \<lparr>dr_printed = out, dr_kept = kept, dr_end = NodeUntilSignal\<rparr>))))))))"

text \<open>What a node is told depends on the flags only through the mode: it is the home subnet and the bridges.\<close>

lemma relay_runs_no_node:
  "df_relay fl \<Longrightarrow> dr_end (daemon_main E fl) \<noteq> NodeUntilSignal \<and>
     daemon_main (E\<lparr>de_node := nd, de_run := rn\<rparr>) fl = daemon_main E fl"
  by (auto simp: daemon_main_def Let_def split: sum.split)

lemma bootstrap_entries_append:
  "bootstrap_entries parse info (xs @ ys) =
     (case bootstrap_entries parse info xs of
        Inl e \<Rightarrow> Inl e
      | Inr a \<Rightarrow> (case bootstrap_entries parse info ys of Inl e \<Rightarrow> Inl e | Inr b \<Rightarrow> Inr (a @ b)))"
  by (induction xs) (auto simp: Let_def split: sum.splits)

text \<open>The configured peers and those of the flag are one list.\<close>

lemma bootstrap_peers_merge:
  "flag \<noteq> '''' \<Longrightarrow>
     bootstrap_peers parse info cs flag = bootstrap_entries parse info (cs @ Split flag CHR '','')"
  by (auto simp: bootstrap_peers_def bootstrap_entries_append split: sum.splits)

section \<open>What Run starts\<close>

datatype run_call =
  CallObs | CallApi | CallDnsbl | CallDiscovery | CallSink | CallSource source_kind | CloseStore | CloseSink

fun start_sources :: "(source_kind \<Rightarrow> error option) \<Rightarrow> source_kind list \<Rightarrow> error option \<times> run_call list" where
  "start_sources fails [] = (None, [])"
| "start_sources fails (k # ks) =
     (case fails k of
        Some e \<Rightarrow> (Some (Wrap ''node: start source'' e), [CallSource k])
      | None \<Rightarrow> (let (r, calls) = start_sources fails ks in (r, CallSource k # calls)))"

text \<open>
  The part of \<open>Run\<close> before the loop, after the shared votes are published: the error that ends it,
  and the calls made. The sink and the store are closed by \<open>defer\<close>, the store first.
\<close>

definition Run_start ::
  "bool \<Rightarrow> error option \<Rightarrow> (source_kind \<Rightarrow> error option) \<Rightarrow> Config \<Rightarrow> error option \<times> run_call list" where
  "Run_start discovery sink_fails fails cfg =
     (let calls = [CallObs, CallApi, CallDnsbl] @ (if discovery then [CallDiscovery] else []) @ [CallSink]
      in (case sink_fails of
            Some e \<Rightarrow> (Some (Wrap ''node: start enforce sink'' e), calls)
          | None \<Rightarrow>
              (let (r, src) = start_sources fails (enabled_sources cfg)
               in (r, calls @ src @ (if r \<noteq> None then [CloseStore, CloseSink] else [])))))"

definition decay_interval :: "Config \<Rightarrow> duration" where
  "decay_interval cfg = (if DecayInterval (Reputation cfg) \<le> 0 then hour else DecayInterval (Reputation cfg))"

text \<open>A source that cannot start ends the node, with both closed; a sink that cannot start closes neither.\<close>

lemma Run_start_failures:
  "Run_start disc (Some e) fails cfg = (Some (Wrap ''node: start enforce sink'' e), calls)
     \<Longrightarrow> CloseStore \<notin> set calls"
  "k \<in> set (enabled_sources cfg) \<Longrightarrow> fails k \<noteq> None \<Longrightarrow>
     fst (Run_start disc None fails cfg) \<noteq> None \<and> CloseStore \<in> set (snd (Run_start disc None fails cfg))"
proof -
  have "k \<in> set ks \<Longrightarrow> fails k \<noteq> None \<Longrightarrow> fst (start_sources fails ks) \<noteq> None" for k ks
    by (induction ks) (auto split: option.splits prod.splits)
  then show "k \<in> set (enabled_sources cfg) \<Longrightarrow> fails k \<noteq> None \<Longrightarrow>
      fst (Run_start disc None fails cfg) \<noteq> None \<and> CloseStore \<in> set (snd (Run_start disc None fails cfg))"
    by (force simp: Run_start_def Let_def split: prod.split)
qed (auto simp: Run_start_def Let_def split: if_splits)

section \<open>fanIn\<close>

text \<open>
  One goroutine per source: it waits for an event, holds it while the output channel is full, and
  returns when its source closes its channel or the context ends. \<open>fi_sent\<close> and \<open>fi_got\<close> record what
  each source sent and what the event loop received.
\<close>

datatype worker = Reading | Holding Event | Returned

record fan =
  fi_in :: "Event list list"
  fi_open :: "bool list"
  fi_work :: "worker list"
  fi_buf :: "Event list"
  fi_closed :: bool
  fi_ctx :: bool
  fi_sent :: "Event list list"
  fi_got :: "Event list"

definition fanCap :: nat where
  "fanCap = 64"

definition fan_init :: "nat \<Rightarrow> fan" where
  "fan_init n = \<lparr>fi_in = replicate n [], fi_open = replicate n True, fi_work = replicate n Reading, fi_buf = [],
     fi_closed = False, fi_ctx = False, fi_sent = replicate n [], fi_got = []\<rparr>"

text \<open>The steps of \<open>fanIn\<close>'s goroutines and of the reader, and those of the sources and the context.\<close>

inductive fan_step :: "fan \<Rightarrow> fan \<Rightarrow> bool" where
  fan_take: "i < length (fi_work s) \<Longrightarrow> fi_work s ! i = Reading \<Longrightarrow> fi_in s ! i = e # es \<Longrightarrow>
     fan_step s (s\<lparr>fi_in := (fi_in s)[i := es], fi_work := (fi_work s)[i := Holding e]\<rparr>)"
| fan_eof: "i < length (fi_work s) \<Longrightarrow> fi_work s ! i = Reading \<Longrightarrow> fi_in s ! i = [] \<Longrightarrow> \<not> fi_open s ! i \<Longrightarrow>
     fan_step s (s\<lparr>fi_work := (fi_work s)[i := Returned]\<rparr>)"
| fan_put: "i < length (fi_work s) \<Longrightarrow> fi_work s ! i = Holding e \<Longrightarrow> length (fi_buf s) < fanCap \<Longrightarrow>
     fan_step s (s\<lparr>fi_buf := fi_buf s @ [e], fi_work := (fi_work s)[i := Reading]\<rparr>)"
| fan_cancel: "i < length (fi_work s) \<Longrightarrow> fi_work s ! i \<noteq> Returned \<Longrightarrow> fi_ctx s \<Longrightarrow>
     fan_step s (s\<lparr>fi_work := (fi_work s)[i := Returned]\<rparr>)"
| fan_close: "\<forall>w \<in> set (fi_work s). w = Returned \<Longrightarrow> \<not> fi_closed s \<Longrightarrow> fan_step s (s\<lparr>fi_closed := True\<rparr>)"
| fan_recv: "fi_buf s = e # es \<Longrightarrow> fan_step s (s\<lparr>fi_buf := es, fi_got := fi_got s @ [e]\<rparr>)"

inductive fan_env :: "fan \<Rightarrow> fan \<Rightarrow> bool" where
  env_send: "i < length (fi_open s) \<Longrightarrow> fi_open s ! i \<Longrightarrow>
     fan_env s (s\<lparr>fi_in := (fi_in s)[i := fi_in s ! i @ [e]], fi_sent := (fi_sent s)[i := fi_sent s ! i @ [e]]\<rparr>)"
| env_close: "i < length (fi_open s) \<Longrightarrow> fan_env s (s\<lparr>fi_open := (fi_open s)[i := False]\<rparr>)"
| env_ctx: "fan_env s (s\<lparr>fi_ctx := True\<rparr>)"

inductive fan_run :: "nat \<Rightarrow> fan \<Rightarrow> bool" for n :: nat where
  fan_begin: "fan_run n (fan_init n)"
| fan_more: "fan_run n s \<Longrightarrow> fan_step s s' \<or> fan_env s s' \<Longrightarrow> fan_run n s'"

text \<open>A list merged of one list per source: each is a subsequence in its own order.\<close>

inductive merged :: "'e list list \<Rightarrow> 'e list \<Rightarrow> bool" where
  merged_nil: "merged (replicate n []) []"
| merged_snoc: "merged hs xs \<Longrightarrow> i < length hs \<Longrightarrow> merged (hs[i := hs ! i @ [e]]) (xs @ [e])"

text \<open>Where an event a source sent is: merged already, held by its goroutine, or waiting.\<close>

definition accounted :: "fan \<Rightarrow> nat \<Rightarrow> Event list \<Rightarrow> bool" where
  "accounted s i h \<longleftrightarrow>
     (\<exists>rest. fi_sent s ! i = h @ rest \<and>
        (case fi_work s ! i of
           Reading \<Rightarrow> rest = fi_in s ! i
         | Holding e \<Rightarrow> rest = e # fi_in s ! i
         | Returned \<Rightarrow> fi_ctx s \<or> rest = [] \<and> fi_in s ! i = [] \<and> \<not> fi_open s ! i))"

definition fan_lengths :: "nat \<Rightarrow> fan \<Rightarrow> bool" where
  "fan_lengths n s \<longleftrightarrow>
     length (fi_in s) = n \<and> length (fi_open s) = n \<and> length (fi_work s) = n \<and> length (fi_sent s) = n \<and>
     length (fi_buf s) \<le> fanCap \<and> (fi_closed s \<longrightarrow> (\<forall>i < n. fi_work s ! i = Returned))"

definition fan_inv :: "nat \<Rightarrow> fan \<Rightarrow> bool" where
  "fan_inv n s \<longleftrightarrow>
     fan_lengths n s \<and>
     (\<exists>hs. length hs = n \<and> merged hs (fi_got s @ fi_buf s) \<and> (\<forall>i < n. accounted s i (hs ! i)))"

lemma fan_lengths_step:
  "fan_step s s' \<or> fan_env s s' \<Longrightarrow> fan_lengths n s \<Longrightarrow> fan_lengths n s'"
  by (auto simp: fan_lengths_def nth_list_update all_set_conv_all_nth elim!: fan_step.cases fan_env.cases)

text \<open>What a step leaves of the accounts, the merged parts being the same.\<close>

lemma accounted_env: "fan_env s s' \<Longrightarrow> fan_lengths n s \<Longrightarrow> i < n \<Longrightarrow> accounted s i h \<Longrightarrow> accounted s' i h"
proof (erule fan_env.cases)
  fix t j e
  assume a: "s = t" "s' = t\<lparr>fi_in := (fi_in t)[j := fi_in t ! j @ [e]], fi_sent := (fi_sent t)[j := fi_sent t ! j @ [e]]\<rparr>"
    "fi_open t ! j" and s: "fan_lengths n s" "i < n" "accounted s i h"
  show ?thesis
    using s unfolding a accounted_def fan_lengths_def
    by (cases "i = j"; cases "fi_work t ! i") (auto simp: a(3))
next
  fix t j
  assume a: "s = t" "s' = t\<lparr>fi_open := (fi_open t)[j := False]\<rparr>" and s: "fan_lengths n s" "i < n" "accounted s i h"
  show ?thesis
    using s unfolding a accounted_def fan_lengths_def
    by (cases "i = j"; cases "fi_work t ! i") auto
next
  fix t
  assume a: "s = t" "s' = t\<lparr>fi_ctx := True\<rparr>" and s: "accounted s i h"
  show ?thesis
    using s unfolding a accounted_def by (cases "fi_work t ! i") auto
qed

lemma accounted_step:
  assumes "fan_step s s'" "fan_lengths n s" "i < n" "accounted s i h" "fi_got s' @ fi_buf s' = fi_got s @ fi_buf s"
  shows "accounted s' i h"
  using assms(1)
proof cases
  case (fan_take j e es)
  with assms(2-4) show ?thesis
    unfolding accounted_def fan_lengths_def by (cases "i = j"; cases "fi_work s ! i") auto
next
  case (fan_eof j)
  with assms(2-4) show ?thesis
    unfolding accounted_def fan_lengths_def by (cases "i = j"; cases "fi_work s ! i") auto
next
  case (fan_put j e)
  with assms(5) show ?thesis by simp
next
  case (fan_cancel j)
  with assms(2-4) show ?thesis
    unfolding accounted_def fan_lengths_def by (cases "i = j"; cases "fi_work s ! i") auto
qed (use assms(4) in \<open>cases "fi_work s ! i"; simp add: accounted_def\<close>)+

lemma fan_inv_step:
  assumes "fan_step s s'" "fan_inv n s"
  shows "fan_inv n s'"
proof -
  from assms(2) obtain hs where l: "fan_lengths n s" and hs: "length hs = n" "merged hs (fi_got s @ fi_buf s)"
    "\<forall>i < n. accounted s i (hs ! i)" unfolding fan_inv_def by blast
  have l': "fan_lengths n s'" using fan_lengths_step assms(1) l by blast
  show ?thesis
  proof (cases "fi_got s' @ fi_buf s' = fi_got s @ fi_buf s")
    case True
    with l' hs accounted_step [OF assms(1) l] show ?thesis unfolding fan_inv_def by metis
  next
    case False
    with assms(1) obtain i e where put: "i < length (fi_work s)" "fi_work s ! i = Holding e"
      and s': "s' = s\<lparr>fi_buf := fi_buf s @ [e], fi_work := (fi_work s)[i := Reading]\<rparr>"
      by (cases rule: fan_step.cases) auto
    have i: "i < length hs" using put(1) l hs(1) by (simp add: fan_lengths_def)
    have "merged (hs[i := hs ! i @ [e]]) (fi_got s' @ fi_buf s')"
      using merged_snoc [OF hs(2) i, of e] by (simp add: s')
    moreover have "accounted s' j (hs[i := hs ! i @ [e]] ! j)" if "j < n" for j
      using hs(3) that put i hs(1) l
      by (auto simp: s' accounted_def fan_lengths_def nth_list_update split: worker.splits)
    ultimately show ?thesis using l' hs(1) unfolding fan_inv_def by (metis length_list_update)
  qed
qed

lemma fan_run_inv: "fan_run n s \<Longrightarrow> fan_inv n s"
proof (induction rule: fan_run.induct)
  case fan_begin
  have "merged (replicate n []) (fi_got (fan_init n) @ fi_buf (fan_init n))"
    by (simp add: fan_init_def merged_nil)
  then show ?case
    unfolding fan_inv_def
    by (intro conjI exI [of _ "replicate n []"]) (auto simp: fan_lengths_def accounted_def fan_init_def)
next
  case (fan_more s s')
  from fan_more.hyps(2) show ?case
  proof
    assume env: "fan_env s s'"
    have same: "fi_got s' @ fi_buf s' = fi_got s @ fi_buf s" using env by cases simp_all
    from fan_more.IH obtain hs where l: "fan_lengths n s" and hs: "length hs = n" "merged hs (fi_got s @ fi_buf s)"
      "\<forall>i < n. accounted s i (hs ! i)" unfolding fan_inv_def by blast
    with same accounted_env [OF env l] fan_lengths_step fan_more.hyps(2) show ?thesis unfolding fan_inv_def by metis
  qed (rule fan_inv_step [OF _ fan_more.IH])
qed

section \<open>fanIn delivers\<close>

text \<open>The steps left to the goroutines and the reader when the sources pause.\<close>

fun worker_steps :: "worker \<Rightarrow> nat" where
  "worker_steps Reading = 1"
| "worker_steps (Holding e) = 3"
| "worker_steps Returned = 0"

definition steps_left :: "fan \<Rightarrow> nat" where
  "steps_left s =
     3 * sum_list (map length (fi_in s)) + sum_list (map worker_steps (fi_work s)) + length (fi_buf s) +
     (if fi_closed s then 0 else 1)"

lemma sum_list_map_update:
  "i < length xs \<Longrightarrow> sum_list (map g (xs[i := x])) + g (xs ! i) = sum_list (map g xs) + (g x :: nat)"
proof (induction xs arbitrary: i)
  case (Cons y ys)
  then show ?case by (cases i) auto
qed simp

lemma fan_step_decreases:
  assumes "fan_step s s'" "fan_lengths n s"
  shows "steps_left s' < steps_left s"
  using assms(1)
proof cases
  case (fan_take i e es)
  then have "sum_list (map length (fi_in s')) + Suc (length es) = sum_list (map length (fi_in s)) + length es"
    using sum_list_map_update [of i "fi_in s" length es] assms(2) by (simp add: fan_lengths_def)
  with fan_take show ?thesis
    using sum_list_map_update [of i "fi_work s" worker_steps "Holding e"] by (simp add: steps_left_def)
next
  case (fan_cancel i)
  then have "0 < worker_steps (fi_work s ! i)" by (cases "fi_work s ! i") simp_all
  with fan_cancel show ?thesis
    using sum_list_map_update [of i "fi_work s" worker_steps Returned] by (simp add: steps_left_def)
next
  case (fan_eof i)
  then show ?thesis
    using sum_list_map_update [of i "fi_work s" worker_steps Returned] by (simp add: steps_left_def)
next
  case (fan_put i e)
  then show ?thesis
    using sum_list_map_update [of i "fi_work s" worker_steps Reading] by (simp add: steps_left_def)
qed (simp_all add: steps_left_def)

lemma fan_steps_bound:
  "(fan_step ^^ k) s s' \<Longrightarrow> fan_inv n s \<Longrightarrow> fan_inv n s' \<and> k + steps_left s' \<le> steps_left s"
proof (induction k arbitrary: s')
  case (Suc k)
  then obtain t where t: "(fan_step ^^ k) s t" "fan_step t s'" by auto
  with Suc have inv: "fan_inv n t" and k: "k + steps_left t \<le> steps_left s" by blast+
  from inv have "fan_lengths n t" by (simp add: fan_inv_def)
  from fan_step_decreases [OF t(2) this] k fan_inv_step [OF t(2) inv] show ?case by linarith
qed simp

lemma fan_step_sources: "fan_step s s' \<Longrightarrow> fi_sent s' = fi_sent s \<and> fi_ctx s' = fi_ctx s"
  by (induction rule: fan_step.induct) simp_all

lemma fan_steps_sources: "(fan_step ^^ k) s s' \<Longrightarrow> fi_sent s' = fi_sent s \<and> fi_ctx s' = fi_ctx s"
proof (induction k arbitrary: s')
  case (Suc k)
  then show ?case using fan_step_sources by (metis relpowp_Suc_E)
qed simp

text \<open>Where no step is possible any more, everything sent has been received.\<close>

lemma fan_stuck:
  assumes "fan_inv n s" "\<not> fi_ctx s" "\<And>s'. \<not> fan_step s s'"
  shows "merged (fi_sent s) (fi_got s)"
proof -
  from assms(1) obtain hs where l: "fan_lengths n s" and hs: "length hs = n" "merged hs (fi_got s @ fi_buf s)"
    "\<forall>i < n. accounted s i (hs ! i)" unfolding fan_inv_def by blast
  have buf: "fi_buf s = []" using assms(3) fan_recv by (cases "fi_buf s") blast+
  have "hs ! i = fi_sent s ! i" if i: "i < n" for i
  proof -
    have len: "i < length (fi_work s)" using i l by (simp add: fan_lengths_def)
    have "fi_in s ! i = []" if "fi_work s ! i = Reading"
      using assms(3) fan_take [OF len that] by (cases "fi_in s ! i") blast+
    moreover have "fi_work s ! i \<noteq> Holding e" for e
      using assms(3) fan_put [OF len] buf by (force simp: fanCap_def)
    ultimately show ?thesis
      using hs(3) i assms(2) by (cases "fi_work s ! i") (auto simp: accounted_def)
  qed
  then have "hs = fi_sent s" using hs(1) l by (simp add: list_eq_iff_nth_eq fan_lengths_def)
  with hs(2) buf show ?thesis by simp
qed

text \<open>
  What the event loop has received and what waits in the channel is a merge of one prefix of each
  source's events; nothing is missing once the channel was closed with the context live.
\<close>

lemma fan_merges:
  assumes "fan_run n s"
  shows "(\<exists>hs. merged hs (fi_got s @ fi_buf s) \<and> length hs = length (fi_sent s) \<and>
      (\<forall>i < length hs. prefix (hs ! i) (fi_sent s ! i))) \<and> length (fi_buf s) \<le> 64 \<and>
    (fi_closed s \<and> \<not> fi_ctx s \<longrightarrow> merged (fi_sent s) (fi_got s @ fi_buf s))"
proof -
  from fan_run_inv [OF assms] obtain hs where l: "fan_lengths n s"
    and hs: "length hs = n" "merged hs (fi_got s @ fi_buf s)" "\<forall>i < n. accounted s i (hs ! i)"
    unfolding fan_inv_def by blast
  have "prefix (hs ! i) (fi_sent s ! i)" if "i < n" for i
    using hs(3) that by (auto simp: accounted_def prefix_def)
  moreover have "hs = fi_sent s" if c: "fi_closed s" "\<not> fi_ctx s"
  proof -
    have "hs ! i = fi_sent s ! i" if "i < n" for i
    proof -
      have "fi_work s ! i = Returned" using l c(1) that by (simp add: fan_lengths_def)
      with hs(3) that c(2) show ?thesis by (auto simp: accounted_def)
    qed
    then show ?thesis using hs(1) l by (simp add: list_eq_iff_nth_eq fan_lengths_def)
  qed
  ultimately show ?thesis using hs l unfolding fan_lengths_def fanCap_def by metis
qed

section \<open>Example\<close>

text \<open>One source sends an event and closes; it has been merged and the channel is closed.\<close>

definition fan_example :: "Event \<Rightarrow> fan" where
  "fan_example e = \<lparr>fi_in = [[]], fi_open = [False], fi_work = [Returned], fi_buf = [e], fi_closed = True,
     fi_ctx = False, fi_sent = [[e]], fi_got = []\<rparr>"

lemma fan_example_run: "fan_run 1 (fan_example e)"
proof -
  have "fan_run 1 (fan_init 1)" by (rule fan_begin)
  then have "fan_run 1 ((fan_init 1)\<lparr>fi_in := [[e]], fi_sent := [[e]]\<rparr>)"
    using fan_more [OF _ disjI2 [OF env_send [of 0 "fan_init 1" e]]] by (simp add: fan_init_def)
  then have "fan_run 1 ((fan_init 1)\<lparr>fi_in := [[e]], fi_sent := [[e]], fi_open := [False]\<rparr>)"
    using fan_more [OF _ disjI2 [OF env_close [of 0]]] by (fastforce simp: fan_init_def)
  then have "fan_run 1 ((fan_init 1)\<lparr>fi_in := [[]], fi_sent := [[e]], fi_open := [False], fi_work := [Holding e]\<rparr>)"
    using fan_more [OF _ disjI1 [OF fan_take [of 0]]] by (fastforce simp: fan_init_def)
  then have "fan_run 1 ((fan_init 1)\<lparr>fi_in := [[]], fi_sent := [[e]], fi_open := [False], fi_work := [Reading],
      fi_buf := [e]\<rparr>)"
    using fan_more [OF _ disjI1 [OF fan_put [of 0]]] by (fastforce simp: fan_init_def fanCap_def)
  then have "fan_run 1 ((fan_init 1)\<lparr>fi_in := [[]], fi_sent := [[e]], fi_open := [False], fi_work := [Returned],
      fi_buf := [e]\<rparr>)"
    using fan_more [OF _ disjI1 [OF fan_eof [of 0]]] by (fastforce simp: fan_init_def)
  then have "fan_run 1 ((fan_init 1)\<lparr>fi_in := [[]], fi_sent := [[e]], fi_open := [False], fi_work := [Returned],
      fi_buf := [e], fi_closed := True\<rparr>)"
    using fan_more [OF _ disjI1 [OF fan_close]] by (fastforce simp: fan_init_def)
  then show ?thesis by (simp add: fan_example_def fan_init_def)
qed

section \<open>Property\<close>

text \<open>
  C40. \<open>fanIn\<close> loses nothing and blocks nobody. In any interleaving of sources, goroutines, reader and
  context: what the event loop has received and what waits in the channel (at most 64 events) is a
  merge of a prefix of each source's events, each source's in its order and none twice; when the
  channel was closed with the context live, nothing is missing; and while the context is live, once
  the sources pause at most \<open>steps_left\<close> steps remain, after which the loop has received everything,
  so neither a full channel nor a silent source blocks another source for good.
\<close>

theorem fan_in_delivers:
  assumes "fan_run n s"
  shows "(\<exists>hs. merged hs (fi_got s @ fi_buf s) \<and> length hs = length (fi_sent s) \<and>
      (\<forall>i < length hs. prefix (hs ! i) (fi_sent s ! i))) \<and> length (fi_buf s) \<le> 64 \<and>
    (fi_closed s \<and> \<not> fi_ctx s \<longrightarrow> merged (fi_sent s) (fi_got s @ fi_buf s)) \<and>
    (\<not> fi_ctx s \<longrightarrow> (\<forall>k s'. (fan_step ^^ k) s s' \<longrightarrow>
       k \<le> steps_left s \<and> ((\<nexists>s''. fan_step s' s'') \<longrightarrow> merged (fi_sent s) (fi_got s'))))"
proof -
  have "k \<le> steps_left s \<and> ((\<nexists>s''. fan_step s' s'') \<longrightarrow> merged (fi_sent s) (fi_got s'))"
    if "\<not> fi_ctx s" "(fan_step ^^ k) s s'" for k s'
  proof -
    from fan_steps_bound [OF that(2) fan_run_inv [OF assms]]
    have inv: "fan_inv n s'" and k: "k + steps_left s' \<le> steps_left s" by blast+
    from fan_steps_sources [OF that(2)] that(1) have "fi_sent s' = fi_sent s" "\<not> fi_ctx s'" by simp_all
    with fan_stuck [OF inv] k show ?thesis by auto
  qed
  with fan_merges [OF assms] show ?thesis by blast
qed

theorem fan_in_delivers_witness:
  "merged [[zero_Event]] [zero_Event] \<and>
    (\<nexists>k s'. (fan_step ^^ k) (fan_example zero_Event) s' \<and> 1 < k)"
proof -
  note main = fan_in_delivers [OF fan_example_run, of zero_Event]
  then have "merged [[zero_Event]] [zero_Event]" by (simp add: fan_example_def)
  moreover have "steps_left (fan_example zero_Event) = 1" "\<not> fi_ctx (fan_example zero_Event)"
    by (simp_all add: steps_left_def fan_example_def)
  ultimately show ?thesis using main by (metis not_le)
qed

end
