(* ===== verification/Cmdline.thy ===== *)
theory Cmdline
  imports Flags Ctl_Federation Daemon
begin

text \<open>
  The two commands from the words the operator types: \<open>cmd/federloomctl/main.go\<close> with the
  dispatchers and flag sets of its commands, and the flags of \<open>cmd/federloomd/main.go\<close>. The commands
  themselves are in \<open>Ctl\<close>, \<open>Ctl_Federation\<close> and \<open>Daemon\<close>.
\<close>

section \<open>The tool\<close>

text \<open>
  What the tool finds when it runs: the environment of its commands, \<open>config.Load\<close>,
  \<open>strconv.ParseFloat\<close>, the line on standard input, how the whitelist file reads and how it is
  saved. A run changes the files and the entries of the whitelist file.
\<close>

record ('sk, 'pid, 'pk) tool_env =
  te_ctl :: "('sk, 'pid, 'pk) ctl_env"
  te_fed :: fed_lib
  te_load :: "string \<Rightarrow> error + Config"
  te_float :: "string \<Rightarrow> real option"
  te_stdin :: "error + string"
  te_wl :: "WhitelistEntry list \<Rightarrow> file_read"
  te_wl_io :: save_io

type_synonym disk = "fs \<times> WhitelistEntry list"

definition addConfigFlag :: "('sk, 'pid, 'pk) tool_env \<Rightarrow> string \<Rightarrow> error + Config" where
  "addConfigFlag T path = (if path = '''' then Inr Defaults else te_load T path)"

definition loadCfg :: "('sk, 'pid, 'pk) tool_env \<Rightarrow> FlagSet \<Rightarrow> error + Config" where
  "loadCfg T fl = addConfigFlag T (string_flag fl ''config'')"

definition configured :: "('sk, 'pid, 'pk) tool_env \<Rightarrow> FlagSet \<Rightarrow> ('sk, 'pid, 'pk) ctl_env" where
  "configured T fl = (te_ctl T)\<lparr>ce_cfg := loadCfg T fl\<rparr>"

text \<open>A command returns an error or none, or its flag set has ended the process.\<close>

datatype outcome = Done "error option" | Exited nat

definition with_flags ::
  "('sk, 'pid, 'pk) tool_env \<Rightarrow> FlagSet \<Rightarrow> string list
     \<Rightarrow> (FlagSet \<Rightarrow> string list \<Rightarrow> disk \<Rightarrow> error option \<times> disk) \<Rightarrow> disk \<Rightarrow> outcome \<times> disk" where
  "with_flags T decl args body d =
     (case Parse (te_float T) ((''config'', StringV '''') # decl) args of
        BadFlag \<Rightarrow> (Exited 2, d)
      | HelpWanted \<Rightarrow> (Exited 0, d)
      | Parsed fl rest \<Rightarrow> (case body fl rest d of (r, d) \<Rightarrow> (Done r, d)))"

definition error_of :: "error + 'a \<Rightarrow> error option" where
  "error_of r = (case r of Inl e \<Rightarrow> Some e | Inr _ \<Rightarrow> None)"

definition on_files :: "(fs \<Rightarrow> error option \<times> fs) \<Rightarrow> disk \<Rightarrow> error option \<times> disk" where
  "on_files f d = (case f (fst d) of (r, fs) \<Rightarrow> (r, (fs, snd d)))"

definition printing :: "(fs \<Rightarrow> (error + 'a) \<times> fs) \<Rightarrow> disk \<Rightarrow> error option \<times> disk" where
  "printing f = on_files (\<lambda>fs. case f fs of (r, fs) \<Rightarrow> (error_of r, fs))"

definition on_whitelist ::
  "(WhitelistEntry list \<Rightarrow> error option \<times> WhitelistEntry list) \<Rightarrow> disk \<Rightarrow> error option \<times> disk" where
  "on_whitelist f d = (case f (snd d) of (r, wl) \<Rightarrow> (r, (fst d, wl)))"

abbreviation text_flag :: "string \<Rightarrow> string \<times> flag_value" where
  "text_flag n \<equiv> (n, StringV '''')"

definition cmdTrust :: "('sk, 'pid, 'pk) tool_env \<Rightarrow> string list \<Rightarrow> disk \<Rightarrow> outcome \<times> disk" where
  "cmdTrust T args d =
     (case args of
        [] \<Rightarrow> (Done (Some usage), d)
      | sub # args \<Rightarrow>
          if sub = ''add'' then with_flags T [text_flag ''identity'', (''weight'', Float64V 0), text_flag ''label''] args
            (\<lambda>fl rest. on_files (trustAdd (configured T fl) (string_flag fl ''identity'') (float_flag fl ''weight'')
               (string_flag fl ''label'') rest)) d
          else if sub = ''set'' then with_flags T [(''weight'', Float64V (- 1)), text_flag ''label''] args
            (\<lambda>fl rest. on_files (trustSet (configured T fl) (float_flag fl ''weight'') (string_flag fl ''label'') rest)) d
          else if sub = ''remove'' then with_flags T [] args
            (\<lambda>fl rest. on_files (trustRemove (configured T fl) rest)) d
          else if sub = ''list'' then with_flags T [] args
            (\<lambda>fl rest. printing (\<lambda>fs. (trustList (fl_sha (te_fed T)) (configured T fl) fs, fs))) d
          else if sub = ''export'' then with_flags T [] args
            (\<lambda>fl rest. printing (\<lambda>fs. (trustExport (configured T fl) fs, fs))) d
          else if sub = ''import'' then with_flags T [text_flag ''as'', (''weight'', Float64V 0)] args
            (\<lambda>fl rest. on_files (trustImport (configured T fl) (string_flag fl ''as'') (float_flag fl ''weight'') rest)) d
          else if sub = ''block'' then with_flags T [] args
            (\<lambda>fl rest. on_files (trustBlock (configured T fl) rest)) d
          else if sub = ''unblock'' then with_flags T [] args
            (\<lambda>fl rest. on_files (trustUnblock (configured T fl) rest)) d
          else (Done (Some (Fault ''unknown trust subcommand'')), d))"

definition cmdWhitelist :: "('sk, 'pid, 'pk) tool_env \<Rightarrow> string list \<Rightarrow> disk \<Rightarrow> outcome \<times> disk" where
  "cmdWhitelist T args d =
     (case args of
        [] \<Rightarrow> (Done (Some usage), d)
      | sub # args \<Rightarrow>
          if sub = ''add'' then with_flags T [(''scope'', StringV ''local-only''), (''source'', StringV ''manual'')] args
            (\<lambda>fl rest. on_whitelist (\<lambda>wl. whitelistAdd (loadCfg T fl) (te_wl T wl) (te_wl_io T)
               (string_flag fl ''scope'') (string_flag fl ''source'') rest wl)) d
          else if sub = ''remove'' then with_flags T [] args
            (\<lambda>fl rest. on_whitelist (\<lambda>wl. whitelistRemove (loadCfg T fl) (te_wl T wl) (te_wl_io T) rest wl)) d
          else if sub = ''list'' then with_flags T [] args
            (\<lambda>fl rest. on_whitelist (\<lambda>wl. (error_of (whitelistList (loadCfg T fl) (te_wl T wl)), wl))) d
          else (Done (Some (Fault ''unknown whitelist subcommand'')), d))"

definition cmdFederation :: "('sk, 'pid, 'pk) tool_env \<Rightarrow> string list \<Rightarrow> disk \<Rightarrow> outcome \<times> disk" where
  "cmdFederation T args d =
     (case args of
        [] \<Rightarrow> (Done (Some usage), d)
      | sub # args \<Rightarrow>
          if sub = ''invite'' then with_flags T [text_flag ''addr'', (''weight'', Float64V 0), text_flag ''out''] args
            (\<lambda>fl rest. printing (federationInvite (te_fed T) (configured T fl) (string_flag fl ''addr'')
               (float_flag fl ''weight'') (string_flag fl ''out''))) d
          else if sub = ''join'' then with_flags T [text_flag ''as'', (''weight'', Float64V 0)] args
            (\<lambda>fl rest. on_files (federationJoin (te_fed T) (configured T fl) (string_flag fl ''as'')
               (float_flag fl ''weight'') rest (te_stdin T))) d
          else (Done (Some (Fault ''unknown federation subcommand'')), d))"

definition year :: duration where
  "year = 365 * 24 * hour"

definition identity_command :: "('sk, 'pid, 'pk) tool_env \<Rightarrow> string list \<Rightarrow> disk \<Rightarrow> outcome \<times> disk" where
  "identity_command T args d =
     (if args \<noteq> [] \<and> hd args = ''init''
      then with_flags T [text_flag ''label'', (''valid-for'', DurationV year)] (tl args)
        (\<lambda>fl rest. on_files (identityInit (configured T fl) (string_flag fl ''label'') (duration_flag fl ''valid-for''))) d
      else if args \<noteq> [] \<and> hd args = ''show''
      then with_flags T [] (tl args)
        (\<lambda>fl rest. printing (\<lambda>fs. (identityShow (fl_sha (te_fed T)) (configured T fl) fs, fs))) d
      else with_flags T [] args (\<lambda>fl rest. printing (cmdIdentity (configured T fl))) d)"

definition peer_cert_command :: "('sk, 'pid, 'pk) tool_env \<Rightarrow> string list \<Rightarrow> disk \<Rightarrow> outcome \<times> disk" where
  "peer_cert_command T args =
     with_flags T [(''valid-for'', DurationV year)] args
       (\<lambda>fl rest. printing (cmdPeerCert (configured T fl) (duration_flag fl ''valid-for'') rest))"

definition setup_command :: "('sk, 'pid, 'pk) tool_env \<Rightarrow> string list \<Rightarrow> disk \<Rightarrow> outcome \<times> disk" where
  "setup_command T args =
     with_flags T [text_flag ''label''] args
       (\<lambda>fl rest. on_files (cmdSetup (configured T fl) (string_flag fl ''label'') (te_stdin T)))"

definition status_command :: "('sk, 'pid, 'pk) tool_env \<Rightarrow> string list \<Rightarrow> disk \<Rightarrow> outcome \<times> disk" where
  "status_command T args =
     with_flags T [] args (\<lambda>fl rest. printing (cmdStatus (fl_sha (te_fed T)) (configured T fl)))"

text \<open>The exit code of a run and what it leaves on the disk.\<close>

definition finish :: "outcome \<times> disk \<Rightarrow> nat \<times> disk" where
  "finish r = (case r of (Done None, d) \<Rightarrow> (0, d) | (Done (Some e), d) \<Rightarrow> (1, d) | (Exited n, d) \<Rightarrow> (n, d))"

definition tool_main :: "('sk, 'pid, 'pk) tool_env \<Rightarrow> string list \<Rightarrow> disk \<Rightarrow> nat \<times> disk" where
  "tool_main T argv d =
     (case argv of
        [] \<Rightarrow> (2, d)
      | cmd # args \<Rightarrow>
          if cmd = ''setup'' then finish (setup_command T args d)
          else if cmd = ''status'' then finish (status_command T args d)
          else if cmd = ''federation'' then finish (cmdFederation T args d)
          else if cmd = ''identity'' then finish (identity_command T args d)
          else if cmd = ''peer-cert'' then finish (peer_cert_command T args d)
          else if cmd = ''trust'' then finish (cmdTrust T args d)
          else if cmd = ''whitelist'' then finish (cmdWhitelist T args d)
          else if cmd \<in> set [''-h'', ''--help'', ''help''] then (0, d)
          else (2, d))"

section \<open>The daemon\<close>

text \<open>The flags of \<open>federloomd\<close>; words that follow them are ignored.\<close>

definition daemon_decl :: FlagSet where
  "daemon_decl =
     [text_flag ''config'', (''listen'', StringV ''/ip4/0.0.0.0/tcp/7700''), text_flag ''advertise'',
      text_flag ''bootstrap'', (''relay'', BoolV False)]"

definition daemon_command ::
  "(string \<Rightarrow> real option) \<Rightarrow> ('ma, 'ai, 'sk) daemon_env \<Rightarrow> string list \<Rightarrow> nat + 'ai daemon_result" where
  "daemon_command pf E argv =
     (case Parse pf daemon_decl argv of
        BadFlag \<Rightarrow> Inl 2
      | HelpWanted \<Rightarrow> Inl 0
      | Parsed fl _ \<Rightarrow> Inr (daemon_main E
          \<lparr>df_config = string_flag fl ''config'', df_listen = string_flag fl ''listen'',
           df_advertise = string_flag fl ''advertise'', df_bootstrap = string_flag fl ''bootstrap'',
           df_relay = bool_flag fl ''relay''\<rparr>))"

lemma daemon_ignores_words:
  "Parse pf daemon_decl flags = Parsed fl [] \<Longrightarrow> \<not> is_flag a \<Longrightarrow>
     daemon_command pf E (flags @ a # rest) = daemon_command pf E flags"
  by (simp add: daemon_command_def Parse_append)

section \<open>Words in the wrong order\<close>

text \<open>
  The commands that take one argument, with their flag sets. \<open>flag.Parse\<close> stops at the first word
  that is no flag, so everything after the argument is a further argument.
\<close>

definition one_argument :: "(string list \<times> FlagSet) list" where
  "one_argument =
     [([''peer-cert''], [(''valid-for'', DurationV year)]),
      ([''trust'', ''add''], [text_flag ''identity'', (''weight'', Float64V 0), text_flag ''label'']),
      ([''trust'', ''set''], [(''weight'', Float64V (- 1)), text_flag ''label'']),
      ([''trust'', ''remove''], []),
      ([''trust'', ''import''], [text_flag ''as'', (''weight'', Float64V 0)]),
      ([''trust'', ''block''], []),
      ([''trust'', ''unblock''], []),
      ([''whitelist'', ''add''], [(''scope'', StringV ''local-only''), (''source'', StringV ''manual'')]),
      ([''whitelist'', ''remove''], []),
      ([''federation'', ''join''], [text_flag ''as'', (''weight'', Float64V 0)])]"

lemma with_flags_Parsed:
  "Parse (te_float T) ((''config'', StringV '''') # decl) args = Parsed fl rest \<Longrightarrow>
     with_flags T decl args body d = (case body fl rest d of (r, d) \<Rightarrow> (Done r, d))"
  by (simp add: with_flags_def)

lemma one_argument_usage:
  "a # b # c \<noteq> [x] \<and> trustAdd E i w l (a # b # c) fs = (Some usage, fs) \<and> trustSet E w l (a # b # c) fs = (Some usage, fs)
     \<and> trustRemove E (a # b # c) fs = (Some usage, fs) \<and> trustImport E i w (a # b # c) fs = (Some usage, fs)
     \<and> trustBlock E (a # b # c) fs = (Some usage, fs) \<and> trustUnblock E (a # b # c) fs = (Some usage, fs)
     \<and> cmdPeerCert E v (a # b # c) fs = (Inl usage, fs)
     \<and> whitelistAdd L f io sc so (a # b # c) wl = (Some usage, wl) \<and> whitelistRemove L f io (a # b # c) wl = (Some usage, wl)
     \<and> federationJoin X E i w (a # b # c) ans fs = (Some usage, fs)"
  by (simp add: trustAdd_def trustSet_def trustRemove_def trustImport_def trustBlock_def trustUnblock_def
      cmdPeerCert_def whitelistAdd_def whitelistRemove_def federationJoin_def)

text \<open>
  Flags after the argument are never read: when a command that takes one argument finds further
  words behind it, flags among them, it exits with 1 and changes nothing.
\<close>

theorem flags_after_argument_rejected:
  assumes "(cmd, decl) \<in> set one_argument"
    and "Parse (te_float T) ((''config'', StringV '''') # decl) flags = Parsed fl []"
    and "\<not> is_flag a" and "rest \<noteq> []"
  shows "tool_main T (cmd @ flags @ a # rest) d = (1, d)"
proof -
  obtain b c fs wl where rest: "rest = b # c" and d: "d = (fs, wl)" using assms(4) by (cases rest; cases d) auto
  have wf: "with_flags T decl (flags @ a # b # c) body d = (case body fl (a # b # c) d of (r, d) \<Rightarrow> (Done r, d))"
    for body d by (rule with_flags_Parsed [OF Parse_append [OF assms(2,3)]])
  show ?thesis
    using assms(1) wf unfolding one_argument_def rest d
    by (auto simp: tool_main_def finish_def peer_cert_command_def cmdTrust_def cmdWhitelist_def cmdFederation_def
        on_files_def on_whitelist_def printing_def error_of_def one_argument_usage)
qed

section \<open>Whole command lines\<close>

text \<open>
  Lines an operator types one after another, on whatever machine state and with whatever faults: they
  share the format of the anchors file, every configuration names the same anchors file and keeps the
  other files elsewhere, and no word ends in its path.
\<close>

fun line_allowed :: "trust_json \<Rightarrow> string \<Rightarrow> ('sk, 'pid, 'pk) tool_env \<times> string list \<Rightarrow> bool" where
  "line_allowed J A (T, argv) \<longleftrightarrow> ce_json (te_ctl T) = J \<and>
     (\<forall>path c. addConfigFlag T path = Inr c \<longrightarrow> TrustAnchorsFile c = A \<and> anchors_apart (te_ctl T) c) \<and>
     (\<forall>a \<in> set argv. \<not> suffix A a)"

definition run_lines :: "(('sk, 'pid, 'pk) tool_env \<times> string list) list \<Rightarrow> disk \<Rightarrow> disk" where
  "run_lines lines d = fold (\<lambda>(T, argv) d. snd (tool_main T argv d)) lines d"

lemma ctl_main_no_config: "ce_cfg E = Inl e \<Longrightarrow> ctl_main X E c fs = fs"
  by (cases c)
    (simp_all add: cmdSetup_def cmdStatus_def federationInvite_def federationJoin_def cmdIdentity_def identityInit_def
      cmdPeerCert_def trustAdd_def trustSet_def trustRemove_def trustImport_def trustBlock_def trustUnblock_def
      split: sum.splits list.splits)

lemma command_ok:
  assumes "json_roundtrips J" and "line_allowed J A (T, argv)" and "anchors_file_ok J A fs"
    and "\<And>a w out. c = Invite a w out \<Longrightarrow> out \<noteq> A"
  shows "anchors_file_ok J A (ctl_main X (configured T fl) c fs)"
proof (cases "loadCfg T fl")
  case (Inl e)
  then have "ce_cfg (configured T fl) = Inl e" by (simp add: configured_def)
  then show ?thesis using assms(3) by (simp add: ctl_main_no_config)
next
  case (Inr cfg)
  then have c: "TrustAnchorsFile cfg = A" "anchors_apart (te_ctl T) cfg"
    using assms(2) by (simp_all add: loadCfg_def)
  then have "anchors_apart (configured T fl) cfg"
    by (simp add: anchors_apart_def other_paths_def configured_def)
  then have "ctl_allowed J cfg (configured T fl, c)"
    using assms(2,4) Inr c(1) by (auto simp: configured_def split: ctl_command.split)
  then show ?thesis using ctl_main_ok [OF assms(1)] assms(3) c(1) by metis
qed

text \<open>A command behind its flags keeps what its body keeps.\<close>

lemma with_flags_keeps:
  assumes "\<And>fl rest. Parse (te_float T) ((''config'', StringV '''') # decl) args = Parsed fl rest \<Longrightarrow> P (fst (snd (body fl rest d)))"
    and "P (fst d)"
  shows "P (fst (snd (with_flags T decl args body d)))"
  using assms by (auto simp: with_flags_def split: parsed.split prod.splits)

lemma if_keeps:
  "P (fst (snd x)) \<Longrightarrow> P (fst (snd y)) \<Longrightarrow> P (fst (snd (if c then x else y)))"
  by simp

lemma finish_snd [simp]: "snd (finish r) = snd r"
  by (auto simp: finish_def split: prod.splits outcome.splits option.splits)

lemma on_files_snd [simp]: "fst (snd (on_files f d)) = snd (f (fst d))"
  by (simp add: on_files_def split: prod.split)

lemma printing_snd [simp]: "fst (snd (printing f d)) = snd (f (fst d))"
  by (simp add: printing_def split: prod.split)

lemma on_whitelist_snd [simp]: "fst (snd (on_whitelist f d)) = fst d"
  by (simp add: on_whitelist_def split: prod.split)

lemma commands_ok:
  assumes "json_roundtrips J" and "line_allowed J A (T, argv)" and "anchors_file_ok J A fs"
  shows "anchors_file_ok J A (snd (trustAdd (configured T fl) i w l args fs))"
    "anchors_file_ok J A (snd (trustSet (configured T fl) w l args fs))"
    "anchors_file_ok J A (snd (trustRemove (configured T fl) args fs))"
    "anchors_file_ok J A (snd (trustImport (configured T fl) i w args fs))"
    "anchors_file_ok J A (snd (trustBlock (configured T fl) args fs))"
    "anchors_file_ok J A (snd (trustUnblock (configured T fl) args fs))"
    "anchors_file_ok J A (snd (federationJoin X (configured T fl) i w args ans fs))"
    "anchors_file_ok J A (snd (cmdIdentity (configured T fl) fs))"
    "anchors_file_ok J A (snd (identityInit (configured T fl) l v fs))"
    "anchors_file_ok J A (snd (cmdPeerCert (configured T fl) v args fs))"
    "anchors_file_ok J A (snd (cmdSetup (configured T fl) l ans fs))"
    "anchors_file_ok J A (snd (cmdStatus (fl_sha X) (configured T fl) fs))"
  using command_ok [OF assms, of "Trust_add i w l args" X fl] command_ok [OF assms, of "Trust_set w l args" X fl]
    command_ok [OF assms, of "Trust_remove args" X fl] command_ok [OF assms, of "Trust_import i w args" X fl]
    command_ok [OF assms, of "Trust_block args" X fl] command_ok [OF assms, of "Trust_unblock args" X fl]
    command_ok [OF assms, of "Join i w args ans" X fl] command_ok [OF assms, of Identity_show_peer X fl]
    command_ok [OF assms, of "Identity_init l v" X fl] command_ok [OF assms, of "Peer_cert v args" X fl]
    command_ok [OF assms, of "Setup l ans" X fl] command_ok [OF assms, of Status X fl]
  by simp_all

lemma invite_line_ok:
  assumes "json_roundtrips J" and "line_allowed J A (T, argv)" and "anchors_file_ok J A fs"
    and "Parse pf (text_flag ''config'' # [text_flag ''addr'', (''weight'', Float64V 0), text_flag ''out'']) args = Parsed fl rest"
    and "set args \<subseteq> set argv" and "argv \<noteq> []"
  shows "anchors_file_ok J A (snd (federationInvite X (configured T fl) a w (string_flag fl ''out'') fs))"
proof -
  obtain b where "b \<in> set argv" using assms(6) by (cases argv) auto
  then have "A \<noteq> ''''" using assms(2) by auto
  moreover have "string_flag fl ''out'' = '''' \<or> (\<exists>a \<in> set args. suffix (string_flag fl ''out'') a)"
    using Parse_text [OF assms(4), of "''out''"] by (simp add: string_flag_def)
  ultimately have "string_flag fl ''out'' \<noteq> A" using assms(2,5) by auto
  then show ?thesis using command_ok [OF assms(1-3), of "Invite a w (string_flag fl ''out'')" X fl] by simp
qed

lemma line_ok:
  assumes "json_roundtrips J" and "line_allowed J A (T, argv)" and "anchors_file_ok J A (fst d)"
  shows "anchors_file_ok J A (fst (snd (tool_main T argv d)))"
proof (cases argv)
  case (Cons cmd args)
  note ok = commands_ok [OF assms] assms(3)
  note keeps = with_flags_keeps [where P = "anchors_file_ok J A"] if_keeps [where P = "anchors_file_ok J A"]
  have inv: "anchors_file_ok J A (fst (snd (cmdFederation T args d)))"
  proof (cases args)
    case (Cons sub rest)
    then have sub: "set rest \<subseteq> set argv" "argv \<noteq> []" using \<open>argv = cmd # args\<close> by auto
    show ?thesis
      unfolding cmdFederation_def Cons list.case
      by (intro keeps; simp add: ok invite_line_ok [OF assms _ sub])
  qed (simp add: cmdFederation_def assms(3))
  have trust: "anchors_file_ok J A (fst (snd (cmdTrust T args d)))"
    by (cases args; simp only: cmdTrust_def list.case; (intro keeps)?; simp add: ok)
  have wl: "anchors_file_ok J A (fst (snd (cmdWhitelist T args d)))"
    by (cases args; simp only: cmdWhitelist_def list.case; (intro keeps)?; simp add: ok)
  have "anchors_file_ok J A (fst (snd (identity_command T args d)))"
    "anchors_file_ok J A (fst (snd (peer_cert_command T args d)))"
    "anchors_file_ok J A (fst (snd (setup_command T args d)))"
    "anchors_file_ok J A (fst (snd (status_command T args d)))"
    unfolding identity_command_def peer_cert_command_def setup_command_def status_command_def
    by (intro keeps; simp add: ok)+
  with inv trust wl show ?thesis using Cons assms(3) by (simp add: tool_main_def)
qed (simp add: tool_main_def assms(3))


section \<open>Examples\<close>

text \<open>
  The line of the repository's README that joins a federation, with the configuration behind the
  invitation, and a session of three lines that imports a bundle and sets a weight.
\<close>

definition tool_example :: "(string, string, string) tool_env" where
  "tool_example = \<lparr>te_ctl = ctl_example, te_fed = fed_example, te_load = (\<lambda>_. Inl (Fault ''no such file'')),
     te_float = (\<lambda>s. if s = ''0.5'' then Some (1 / 2) else None), te_stdin = Inr ''yes'', te_wl = (\<lambda>wl. Decoded (Inr wl)),
     te_wl_io = \<lparr>io_marshal = None, io_write = None, io_rename = None\<rparr>\<rparr>"

text \<open>With its flags in front the line does join.\<close>

lemma flags_first_joins:
  "\<exists>fs'. tool_main tool_example [''federation'', ''join'', ''--as'', ''ana'', ''-weight=0.5'', ''invite.json''] (bob_disk, wl)
     = (0, (fs', wl)) \<and> fs' \<noteq> bob_disk"
proof -
  obtain fs' where fs': "federationJoin fed_example ctl_example ''ana'' (1 / 2) [''invite.json''] (Inr ''yes'') bob_disk = (None, fs')"
    "fs' \<noteq> bob_disk" using bob_joins by blast
  have "Parse (te_float tool_example) [text_flag ''config'', text_flag ''as'', (''weight'', Float64V 0)]
      [''--as'', ''ana'', ''-weight=0.5'', ''invite.json'']
    = Parsed [text_flag ''config'', (''as'', StringV ''ana''), (''weight'', Float64V (1 / 2))] [''invite.json'']" (is "_ = Parsed ?fl _")
    by (simp add: parseOne_def set_flag_def is_flag_def flag_name_def split_value_def tool_example_def)
  moreover have "configured tool_example ?fl = ctl_example"
    by (simp add: configured_def loadCfg_def addConfigFlag_def string_flag_def tool_example_def ctl_example_def)
  ultimately show ?thesis using fs'
    by (simp add: tool_main_def cmdFederation_def with_flags_def on_files_def finish_def string_flag_def float_flag_def)
      (simp add: tool_example_def)
qed

theorem flags_after_argument_rejected_witness:
  "tool_main tool_example [''federation'', ''join'', ''/tmp/federation.invite'', ''--config'', ''/etc/federloom/config.yaml''] (bob_disk, [])
     = (1, (bob_disk, []))"
  using flags_after_argument_rejected [of "[''federation'', ''join'']" "[text_flag ''as'', (''weight'', Float64V 0)]"
      tool_example "[]" _ "''/tmp/federation.invite''" "[''--config'', ''/etc/federloom/config.yaml'']" "(bob_disk, [])"]
  by (simp add: one_argument_def is_flag_def)


end
