(* ===== verification/Api.thy ===== *)
theory Api
  imports Rules Repquery Config Netutil Time_Format "HOL-Library.Sublist"
begin

text \<open>
  The local HTTP API, \<open>internal/api\<close>: the purpose taxonomy (\<open>taxonomy.go\<close>), the blocklist and
  CrowdSec feeds (\<open>handler_blocklist.go\<close>), the score of one address (\<open>handler_score.go\<close>), the
  event stream (\<open>handler_events.go\<close>) and the server (\<open>server.go\<close>). \<open>net/http\<close> is outside: a
  request is what the handlers read of it, a response what they write before JSON encoding.
\<close>

section \<open>Taxonomy\<close>

definition DefaultTaxonomy :: TaxonomyConfig where
  "DefaultTaxonomy =
     [(''mail'', [''smtp-*'', ''imap-*'', ''pop3-*'']), (''web'', [''http-*'']), (''ssh'', [''ssh-*''])]"

definition ResolveTaxonomy :: "TaxonomyConfig \<Rightarrow> TaxonomyConfig" where
  "ResolveTaxonomy t =
     (if length t = 0 then DefaultTaxonomy
      else (let merged = fold (\<lambda>(k, v) m. AList.update k v m) DefaultTaxonomy []
            in fold (\<lambda>(k, v) m. AList.update k v m) t merged))"

definition pattern_matches :: "string \<Rightarrow> string \<Rightarrow> bool" where
  "pattern_matches p r =
     (if HasSuffix p ''*'' then HasPrefix r (take (length p - 1) p) else r = p)"

fun MatchesPatterns :: "string list \<Rightarrow> string list \<Rightarrow> bool" where
  "MatchesPatterns [] patterns = False"
| "MatchesPatterns (r # reasons) patterns =
     (if \<exists>p \<in> set patterns. pattern_matches p r then True else MatchesPatterns reasons patterns)"

definition PurposePatterns :: "TaxonomyConfig \<Rightarrow> string \<Rightarrow> string list" where
  "PurposePatterns t purpose =
     (if purpose = '''' then [] else (case map_of t purpose of Some ps \<Rightarrow> ps | None \<Rightarrow> []))"

interpretation api_pattern: wildcard_matcher pattern_matches
proof unfold_locales
  fix p s :: string
  show "pattern_matches (p @ ''*'') s \<longleftrightarrow> HasPrefix s p"
    by (auto simp: pattern_matches_def HasSuffix_iff)
qed (auto simp: pattern_matches_def)

lemma MatchesPatterns_iff:
  "MatchesPatterns reasons patterns \<longleftrightarrow> (\<exists>r \<in> set reasons. \<exists>p \<in> set patterns. pattern_matches p r)"
  by (induction reasons) auto

text \<open>The API and the rules agree on what a pattern matches.\<close>

lemma pattern_matches_rule: "pattern_matches p r \<longleftrightarrow> matchReason p r"
  by (simp add: api_pattern.match_iff rule_pattern.match_iff)

lemma map_of_fold_update:
  "map_of (fold (\<lambda>(k, v) m. AList.update k v m) t m) = map_of m ++ map_of (rev t)"
  by (induction t arbitrary: m) (auto simp: update_conv' map_add_def fun_eq_iff split: option.splits)

lemma ResolveTaxonomy_lookup:
  assumes "distinct (keys t)"
  shows "map_of (ResolveTaxonomy t) = map_of DefaultTaxonomy ++ map_of t"
proof -
  have d: "distinct (keys DefaultTaxonomy)" by (simp add: DefaultTaxonomy_def)
  have "map_of (rev xs) = map_of xs" if "distinct (keys xs)" for xs :: TaxonomyConfig
  proof
    fix x
    from that have "distinct (keys (rev xs))" by (simp add: rev_map [symmetric])
    then have "map_of (rev xs) x = Some y \<longleftrightarrow> map_of xs x = Some y" for y
      using that by (simp add: map_of_eq_Some_iff)
    then show "map_of (rev xs) x = map_of xs x" by (metis not_None_eq)
  qed
  with assms d show ?thesis by (simp add: ResolveTaxonomy_def Let_def map_of_fold_update)
qed

section \<open>The server\<close>

record EventMsg =
  em_IP :: string
  em_Score :: real
  em_Reason :: string
  em_Reporter :: string
  em_TS :: time

text \<open>Channels are numbered; a channel is its buffer, of 64 messages at most.\<close>

record ApiServer =
  srv_cfg :: APIConfig
  srv_repCfg :: ReputationConfig
  taxonomy :: TaxonomyConfig
  subs :: "(nat \<times> EventMsg list) list"
  next_chan :: nat

definition api_New :: "APIConfig \<Rightarrow> ReputationConfig \<Rightarrow> ApiServer" where
  "api_New cfg repCfg =
     \<lparr>srv_cfg = cfg, srv_repCfg = repCfg, taxonomy = ResolveTaxonomy (api_Taxonomy cfg),
      subs = [], next_chan = 0\<rparr>"

text \<open>The buffer size in \<open>subscribe\<close>.\<close>

definition chan_cap :: nat where
  "chan_cap = 64"

text \<open>A send that does not block: the default branch drops the message.\<close>

definition try_send :: "EventMsg list \<Rightarrow> EventMsg \<Rightarrow> EventMsg list" where
  "try_send ch msg = (if length ch < chan_cap then ch @ [msg] else ch)"

definition Broadcast :: "ApiServer \<Rightarrow> string \<Rightarrow> real \<Rightarrow> string \<Rightarrow> string \<Rightarrow> time \<Rightarrow> ApiServer" where
  "Broadcast s ip score reason reporter now =
     (if api_Addr (srv_cfg s) = '''' then s
      else (let msg = \<lparr>em_IP = ip, em_Score = score, em_Reason = reason, em_Reporter = reporter, em_TS = now\<rparr>
            in s\<lparr>subs := map (\<lambda>(c, ch). (c, try_send ch msg)) (subs s)\<rparr>))"

definition subscribe :: "ApiServer \<Rightarrow> nat \<times> ApiServer" where
  "subscribe s =
     (let c = next_chan s in (c, s\<lparr>subs := (c, []) # subs s, next_chan := c + 1\<rparr>))"

definition unsubscribe :: "ApiServer \<Rightarrow> nat \<Rightarrow> ApiServer" where
  "unsubscribe s c = s\<lparr>subs := filter (\<lambda>x. fst x \<noteq> c) (subs s)\<rparr>"

section \<open>Requests and responses\<close>

text \<open>
  Query values as \<open>Get\<close> returns them, empty when absent; \<open>parse_float\<close> is \<open>strconv.ParseFloat\<close>
  on numbers (its NaN and infinities have no counterpart among the reals).
\<close>

record request =
  rq_method :: string
  rq_path :: "string list"
  rq_query :: "string \<Rightarrow> string"
  rq_auth :: string

record blockEntry =
  be_IP :: string
  be_Score :: real
  be_LastSeen :: time
  be_Reasons :: "string list"

record score_view =
  sv_IP :: string
  sv_Score :: real
  sv_Corroboration :: int
  sv_FirstSeen :: string
  sv_LastSeen :: string
  sv_Reasons :: "string list"
  sv_Blocked :: bool

datatype http_body = ErrorMessage string | StoreError error | ScoreBody score_view
  | Blocklist "blockEntry list" | Lines "string list" | PlainError string | Stream nat

record response =
  rp_status :: nat
  rp_type :: string
  rp_body :: http_body

record blocklistFilter =
  minScore :: real
  bf_purpose :: string
  reasonPatterns :: "string list"

fun split_patterns :: "string list \<Rightarrow> string list" where
  "split_patterns [] = []"
| "split_patterns (p # ps) =
     (let p = TrimSpace p in if p \<noteq> '''' then p # split_patterns ps else split_patterns ps)"

definition parseBlocklistFilter ::
  "(string \<Rightarrow> real option) \<Rightarrow> ApiServer \<Rightarrow> (string \<Rightarrow> string) \<Rightarrow> blocklistFilter" where
  "parseBlocklistFilter parse_float s q =
     (let low = (if q ''min_score'' \<noteq> ''''
                 then (case parse_float (q ''min_score'') of Some v \<Rightarrow> v | None \<Rightarrow> BlockThreshold (srv_repCfg s))
                 else BlockThreshold (srv_repCfg s));
          purpose = q ''purpose'';
          purpose = (if purpose = '''' then api_Purpose (srv_cfg s) else purpose);
          raw = q ''reason'';
          pats = (if raw \<noteq> '''' then split_patterns (Split raw CHR '','') else [])
      in \<lparr>minScore = low, bf_purpose = purpose, reasonPatterns = pats\<rparr>)"

definition passRecord :: "ScoreRecord \<Rightarrow> blocklistFilter \<Rightarrow> string list \<Rightarrow> bool" where
  "passRecord rec f purposePatterns =
     (if IsZero (LastSeen rec) then False
      else if Score rec < minScore f then False
      else if length (reasonPatterns f) > 0 then MatchesPatterns (Reasons rec) (reasonPatterns f)
      else if length purposePatterns > 0 then MatchesPatterns (Reasons rec) purposePatterns
      else True)"

text \<open>The patterns both handlers resolve once.\<close>

definition purpose_patterns :: "ApiServer \<Rightarrow> blocklistFilter \<Rightarrow> string list" where
  "purpose_patterns s f =
     (if length (reasonPatterns f) = 0 \<and> bf_purpose f \<noteq> '''' then PurposePatterns (taxonomy s) (bf_purpose f)
      else [])"

definition validReputationKey :: "string \<Rightarrow> bool" where
  "validReputationKey ip =
     (case KeyAddr ip of
        None \<Rightarrow> False
      | Some a \<Rightarrow> if ParseAddr ip \<noteq> None then True else Is6 a)"

section \<open>Handlers\<close>

text \<open>
  \<open>sort.Slice\<close> by descending score; the order it leaves among equal scores is not specified, the
  stable one is taken here.
\<close>

definition sort_by_score :: "blockEntry list \<Rightarrow> blockEntry list" where
  "sort_by_score es = sort_key (\<lambda>e. - be_Score e) es"

definition handleBlocklist ::
  "('db, 'bf) backend \<Rightarrow> (string \<Rightarrow> real option) \<Rightarrow> ApiServer \<Rightarrow> ('db, 'bf) BadgerStore \<Rightarrow> time
     \<Rightarrow> (string \<Rightarrow> string) \<Rightarrow> response" where
  "handleBlocklist L parse_float s st now q =
     (let f = parseBlocklistFilter parse_float s q;
          purposePatterns = purpose_patterns s f;
          entries = snd (ScanScores L st now
            (\<lambda>ip rec es. (None, if passRecord rec f purposePatterns
               then es @ [\<lparr>be_IP = ip, be_Score = Score rec, be_LastSeen = LastSeen rec, be_Reasons = Reasons rec\<rparr>]
               else es)) [])
      in \<lparr>rp_status = 200, rp_type = ''application/json'', rp_body = Blocklist (sort_by_score entries)\<rparr>)"

definition handleCrowdSecCTI ::
  "('db, 'bf) backend \<Rightarrow> (string \<Rightarrow> real option) \<Rightarrow> ApiServer \<Rightarrow> ('db, 'bf) BadgerStore \<Rightarrow> time
     \<Rightarrow> (string \<Rightarrow> string) \<Rightarrow> response" where
  "handleCrowdSecCTI L parse_float s st now q =
     (let f = parseBlocklistFilter parse_float s q;
          purposePatterns = purpose_patterns s f;
          out = snd (ScanScores L st now
            (\<lambda>ip rec out. (None, if \<not> validReputationKey ip then out
               else if passRecord rec f purposePatterns then out @ [ip] else out)) [])
      in \<lparr>rp_status = 200, rp_type = ''text/plain'', rp_body = Lines out\<rparr>)"

text \<open>
  \<open>pointReader\<close> is the store or, with federation, the resolver, whose lookup may change the
  node: it threads a state \<open>'w\<close>.
\<close>

definition handleScore ::
  "('w \<Rightarrow> string \<Rightarrow> (error + ScoreRecord) \<times> 'w) \<Rightarrow> ApiServer \<Rightarrow> 'w \<Rightarrow> string \<Rightarrow> response \<times> 'w" where
  "handleScore pointReader s w ip =
     (if ip = ''''
      then (\<lparr>rp_status = 400, rp_type = ''application/json'', rp_body = ErrorMessage ''missing IP''\<rparr>, w)
      else case pointReader w ip of
          (Inl e, w) \<Rightarrow> (\<lparr>rp_status = 500, rp_type = ''application/json'', rp_body = StoreError e\<rparr>, w)
        | (Inr rec, w) \<Rightarrow>
            if IsZero (LastSeen rec)
            then (\<lparr>rp_status = 404, rp_type = ''application/json'', rp_body = ErrorMessage ''not found''\<rparr>, w)
            else (\<lparr>rp_status = 200, rp_type = ''application/json'', rp_body = ScoreBody
                     \<lparr>sv_IP = ip, sv_Score = Score rec, sv_Corroboration = Corroboration rec,
                      sv_FirstSeen = RFC3339 (FirstSeen rec), sv_LastSeen = RFC3339 (LastSeen rec),
                      sv_Reasons = Reasons rec, sv_Blocked = (Score rec \<ge> BlockThreshold (srv_repCfg s))\<rparr>\<rparr>, w))"

text \<open>
  The event stream: \<open>handleEvents\<close> subscribes and writes one frame per message it receives. The
  hub is the server with, for each open connection, the text written so far. Its events are a
  client that connects, one message received by the loop of a connection, a client that
  disconnects (the deferred \<open>unsubscribe\<close>), and a broadcast. \<open>marshal\<close> is \<open>json.Marshal\<close>.
\<close>

record hub =
  hub_srv :: ApiServer
  written :: "nat \<rightharpoonup> string"

datatype api_event = Connect bool | Deliver nat | Disconnect nat | Emit string real string string time

definition sse_frame :: "string \<Rightarrow> string" where
  "sse_frame s = ''data: '' @ s @ [CHR 0x0A, CHR 0x0A]"

definition events_open :: "bool \<Rightarrow> hub \<Rightarrow> response \<times> hub" where
  "events_open flusher h =
     (if \<not> flusher
      then (\<lparr>rp_status = 501, rp_type = ''text/plain'', rp_body = PlainError ''streaming not supported''\<rparr>, h)
      else let (ch, s) = subscribe (hub_srv h)
           in (\<lparr>rp_status = 200, rp_type = ''text/event-stream'', rp_body = Stream ch\<rparr>,
               h\<lparr>hub_srv := s, written := (written h)(ch \<mapsto> sse_frame ''connected'')\<rparr>))"

definition events_receive :: "(EventMsg \<Rightarrow> error + string) \<Rightarrow> hub \<Rightarrow> nat \<Rightarrow> hub" where
  "events_receive marshal h ch =
     (case (map_of (subs (hub_srv h)) ch, written h ch) of
        (Some (msg # rest), Some out) \<Rightarrow>
          let h = h\<lparr>hub_srv := (hub_srv h)\<lparr>subs := AList.update ch rest (subs (hub_srv h))\<rparr>\<rparr>
          in (case marshal msg of
                Inl _ \<Rightarrow> h
              | Inr b \<Rightarrow> h\<lparr>written := (written h)(ch \<mapsto> out @ sse_frame b)\<rparr>)
      | _ \<Rightarrow> h)"

definition events_close :: "hub \<Rightarrow> nat \<Rightarrow> hub" where
  "events_close h ch = h\<lparr>hub_srv := unsubscribe (hub_srv h) ch, written := (written h)(ch := None)\<rparr>"

fun hub_step :: "(EventMsg \<Rightarrow> error + string) \<Rightarrow> api_event \<Rightarrow> hub \<Rightarrow> hub" where
  "hub_step marshal (Connect flusher) h = snd (events_open flusher h)"
| "hub_step marshal (Deliver ch) h = events_receive marshal h ch"
| "hub_step marshal (Disconnect ch) h = events_close h ch"
| "hub_step marshal (Emit ip score reason reporter now) h =
     h\<lparr>hub_srv := Broadcast (hub_srv h) ip score reason reporter now\<rparr>"

definition hub_run :: "(EventMsg \<Rightarrow> error + string) \<Rightarrow> api_event list \<Rightarrow> hub \<Rightarrow> hub" where
  "hub_run marshal es h = fold (hub_step marshal) es h"

text \<open>
  The routes \<open>Start\<close> registers, behind the bearer token when one is set. The path is split and
  decoded; \<open>ServeMux\<close> answers an unknown path with 404 and another method with 405, and a GET
  pattern serves HEAD too. Redirects of unclean paths are left out.
\<close>

datatype route = RScore string | RBlocklist | REvents | RDecisions

definition mux_path :: "string list \<Rightarrow> route option" where
  "mux_path p =
     (if length p = 4 \<and> take 3 p = [''api'', ''v1'', ''score''] \<and> p ! 3 \<noteq> '''' then Some (RScore (p ! 3))
      else if p = [''api'', ''v1'', ''blocklist''] then Some RBlocklist
      else if p = [''api'', ''v1'', ''events''] then Some REvents
      else if p = [''crowdsec'', ''v1'', ''decisions''] then Some RDecisions
      else None)"

definition mux_serve :: "(route \<Rightarrow> 'h \<Rightarrow> response \<times> 'h) \<Rightarrow> request \<Rightarrow> 'h \<Rightarrow> response \<times> 'h" where
  "mux_serve serve r h =
     (case mux_path (rq_path r) of
        None \<Rightarrow> (\<lparr>rp_status = 404, rp_type = ''text/plain'', rp_body = PlainError ''404 page not found''\<rparr>, h)
      | Some rt \<Rightarrow>
          if rq_method r = ''GET'' \<or> rq_method r = ''HEAD'' then serve rt h
          else (\<lparr>rp_status = 405, rp_type = ''text/plain'', rp_body = PlainError ''Method Not Allowed''\<rparr>, h))"

definition bearerTokenMiddleware ::
  "string \<Rightarrow> (request \<Rightarrow> 'h \<Rightarrow> response \<times> 'h) \<Rightarrow> request \<Rightarrow> 'h \<Rightarrow> response \<times> 'h" where
  "bearerTokenMiddleware token next_handler r h =
     (if rq_auth r \<noteq> ''Bearer '' @ token
      then (\<lparr>rp_status = 401, rp_type = ''text/plain'', rp_body = PlainError ''Unauthorized''\<rparr>, h)
      else next_handler r h)"

text \<open>The handler \<open>Start\<close> serves; none when the server is disabled.\<close>

definition start_handler ::
  "string \<Rightarrow> ApiServer \<Rightarrow> (route \<Rightarrow> 'h \<Rightarrow> response \<times> 'h) \<Rightarrow> (request \<Rightarrow> 'h \<Rightarrow> response \<times> 'h) option" where
  "start_handler token s serve =
     (if api_Addr (srv_cfg s) = '''' then None
      else if token \<noteq> '''' then Some (bearerTokenMiddleware token (mux_serve serve))
      else Some (mux_serve serve))"

section \<open>What the feeds list\<close>

text \<open>The items a scan reaches: all of them, or those before the first that cannot be read.\<close>

definition readable :: "(string \<times> (error + ScoreRecord)) list \<Rightarrow> (string \<times> ScoreRecord) list" where
  "readable items = map (\<lambda>p. (fst p, projr (snd p))) (takeWhile (\<lambda>p. \<not> is_err (snd p)) items)"

lemma readable_simps [simp]:
  "readable [] = []"
  "readable ((k, Inl e) # items) = []"
  "readable ((k, Inr r) # items) = (k, r) # readable items"
  by (simp_all add: readable_def)

lemma readable_mem: "(k, r) \<in> set (readable items) \<Longrightarrow> (k, Inr r) \<in> set items"
proof (induction items)
  case (Cons x items)
  then show ?case by (cases x; cases "snd x") auto
qed simp

lemma readable_all:
  "\<forall>x \<in> set items. \<not> is_err (snd x) \<Longrightarrow> (k, r) \<in> set (readable items) \<longleftrightarrow> (k, Inr r) \<in> set items"
proof (induction items)
  case (Cons x items)
  then show ?case by (cases x; cases "snd x") auto
qed simp

lemma readable_distinct: "distinct (keys items) \<Longrightarrow> distinct (keys (readable items))"
proof (induction items)
  case (Cons x items)
  moreover have "k \<notin> set (keys (readable items))" if "k \<notin> set (keys items)" for k
    using that by (auto dest!: readable_mem simp: image_iff)
  ultimately show ?case by (cases x; cases "snd x") auto
qed simp

lemma scan_collect:
  "snd (scan_items (\<lambda>ip rec es. (None, if P ip rec then es @ [g ip rec] else es)) items acc)
     = acc @ map (\<lambda>(ip, rec). g ip rec) (filter (\<lambda>(ip, rec). P ip rec) (readable items))"
proof (induction items arbitrary: acc)
  case (Cons x items)
  then show ?case by (cases x; cases "snd x") auto
qed simp

text \<open>The row of a record, and the rows of a filtered list.\<close>

definition entry_of :: "string \<Rightarrow> ScoreRecord \<Rightarrow> blockEntry" where
  "entry_of ip rec = \<lparr>be_IP = ip, be_Score = Score rec, be_LastSeen = LastSeen rec, be_Reasons = Reasons rec\<rparr>"

lemma entry_of_IP [simp]: "be_IP (entry_of ip rec) = ip" "be_Score (entry_of ip rec) = Score rec"
  by (simp_all add: entry_of_def)

definition listed ::
  "('db, 'bf) backend \<Rightarrow> ('db, 'bf) BadgerStore \<Rightarrow> time \<Rightarrow> (string \<Rightarrow> ScoreRecord \<Rightarrow> bool) \<Rightarrow> (string \<times> ScoreRecord) list" where
  "listed L st now P = filter (\<lambda>(ip, rec). P ip rec) (readable (db_items L (db st) now))"

lemma handleBlocklist_body:
  "rp_body (handleBlocklist L pf s st now q) = Blocklist (sort_by_score (map (\<lambda>(ip, rec). entry_of ip rec)
     (listed L st now (\<lambda>ip rec. passRecord rec (parseBlocklistFilter pf s q)
        (purpose_patterns s (parseBlocklistFilter pf s q))))))"
  by (simp add: handleBlocklist_def ScanScores_def scan_collect listed_def Let_def entry_of_def)

lemma handleCrowdSecCTI_body:
  "rp_body (handleCrowdSecCTI L pf s st now q) = Lines (map fst
     (listed L st now (\<lambda>ip rec. validReputationKey ip \<and> passRecord rec (parseBlocklistFilter pf s q)
        (purpose_patterns s (parseBlocklistFilter pf s q)))))"
proof -
  have "(if \<not> v then out else if p then out @ [ip] else out) = (if v \<and> p then out @ [ip] else out)"
    for v p and out :: "string list" and ip by simp
  then show ?thesis
    by (simp add: handleCrowdSecCTI_def ScanScores_def scan_collect listed_def Let_def case_prod_unfold)
qed

context badger_backend
begin

lemma listed_distinct: "distinct (keys (listed L st now P))"
proof -
  have "distinct (keys (readable (db_items L (db st) now)))"
    by (rule readable_distinct) (rule backend_items_distinct)
  then show ?thesis by (simp add: listed_def distinct_map_filter)
qed

lemma listed_sound: "(ip, rec) \<in> set (listed L st now P) \<Longrightarrow> live (view (db st)) now ip = Some rec \<and> P ip rec"
  by (auto simp: listed_def dest!: readable_mem backend_items)

lemma listed_complete:
  assumes "\<forall>x \<in> set (db_items L (db st) now). \<not> is_err (snd x)"
    and "live (view (db st)) now ip = Some rec" and "P ip rec"
  shows "(ip, rec) \<in> set (listed L st now P)"
proof -
  from assms(2) obtain x where x: "(ip, x) \<in> set (db_items L (db st) now)"
    using backend_items_all [of "db st" now ip] by force
  with assms(1) obtain r where r: "x = Inr r" by (cases x) (auto simp: is_err_def)
  with x assms(2) have "r = rec" by (auto dest: backend_items)
  with x r assms(1,3) show ?thesis by (simp add: listed_def readable_all)
qed

end

section \<open>The event stream of one connection\<close>

definition emitted :: "api_event list \<Rightarrow> EventMsg list" where
  "emitted es = concat (map (\<lambda>e. case e of
     Emit ip sc r rep t \<Rightarrow> [\<lparr>em_IP = ip, em_Score = sc, em_Reason = r, em_Reporter = rep, em_TS = t\<rparr>]
   | _ \<Rightarrow> []) es)"

lemma emitted_simps [simp]:
  "emitted [] = []"
  "emitted (xs @ ys) = emitted xs @ emitted ys"
  "emitted [Connect f] = []" "emitted [Deliver c] = []" "emitted [Disconnect c] = []"
  "emitted [Emit ip sc r rep t] = [\<lparr>em_IP = ip, em_Score = sc, em_Reason = r, em_Reporter = rep, em_TS = t\<rparr>]"
  by (simp_all add: emitted_def)

definition transcript :: "(EventMsg \<Rightarrow> error + string) \<Rightarrow> EventMsg list \<Rightarrow> string" where
  "transcript marshal ds = sse_frame ''connected'' @
     concat (map (\<lambda>m. case marshal m of Inl _ \<Rightarrow> [] | Inr b \<Rightarrow> sse_frame b) ds)"

lemma transcript_simps [simp]:
  "transcript marshal [] = sse_frame ''connected''"
  "transcript marshal (ds @ [m]) = transcript marshal ds @ (case marshal m of Inl _ \<Rightarrow> [] | Inr b \<Rightarrow> sse_frame b)"
  by (simp_all add: transcript_def)

text \<open>
  A connection that was sent \<open>ms\<close> has received \<open>ds\<close> and still holds \<open>buf\<close>: messages are in
  order, and none is lost as long as no more than a buffer of them was sent.
\<close>

definition stream_ok :: "(EventMsg \<Rightarrow> error + string) \<Rightarrow> hub \<Rightarrow> nat \<Rightarrow> EventMsg list \<Rightarrow> bool" where
  "stream_ok marshal h c ms \<longleftrightarrow>
     c < next_chan (hub_srv h) \<and> api_Addr (srv_cfg (hub_srv h)) \<noteq> '''' \<and>
     (\<exists>ds buf. map_of (subs (hub_srv h)) c = Some buf \<and> length buf \<le> chan_cap
        \<and> written h c = Some (transcript marshal ds) \<and> subseq (ds @ buf) ms
        \<and> (length ms \<le> chan_cap \<longrightarrow> ds @ buf = ms))"

lemma stream_okI:
  assumes "c < next_chan (hub_srv h)" and "api_Addr (srv_cfg (hub_srv h)) \<noteq> ''''"
    and "map_of (subs (hub_srv h)) c = Some buf" and "length buf \<le> chan_cap"
    and "written h c = Some (transcript marshal ds)" and "subseq (ds @ buf) ms"
    and "length ms \<le> chan_cap \<Longrightarrow> ds @ buf = ms"
  shows "stream_ok marshal h c ms"
  using assms by (auto simp: stream_ok_def)

lemma stream_okE:
  assumes "stream_ok marshal h c ms"
  obtains ds buf where "c < next_chan (hub_srv h)" and "api_Addr (srv_cfg (hub_srv h)) \<noteq> ''''"
    and "map_of (subs (hub_srv h)) c = Some buf" and "length buf \<le> chan_cap"
    and "written h c = Some (transcript marshal ds)" and "subseq (ds @ buf) ms"
    and "length ms \<le> chan_cap \<Longrightarrow> ds @ buf = ms"
  using assms by (auto simp: stream_ok_def)

lemma map_of_map_snd: "map_of (map (\<lambda>(k, v). (k, f v)) xs) c = map_option f (map_of xs c)"
  by (induction xs) auto

lemma subscribe_ok:
  assumes "api_Addr (srv_cfg (hub_srv h)) \<noteq> ''''"
  shows "stream_ok marshal (hub_step marshal (Connect True) h) (next_chan (hub_srv h)) []"
  by (rule stream_okI [where buf = "[]" and ds = "[]"])
    (use assms in \<open>auto simp: events_open_def subscribe_def Let_def chan_cap_def\<close>)

lemma Emit_stream:
  assumes "stream_ok marshal h c ms"
  shows "stream_ok marshal (hub_step marshal (Emit ip sc r rep t) h) c (ms @ emitted [Emit ip sc r rep t])"
  using assms
proof (rule stream_okE)
  fix ds buf
  let ?m = "\<lparr>em_IP = ip, em_Score = sc, em_Reason = r, em_Reporter = rep, em_TS = t\<rparr>"
  assume *: "c < next_chan (hub_srv h)" "api_Addr (srv_cfg (hub_srv h)) \<noteq> ''''"
    "map_of (subs (hub_srv h)) c = Some buf" "length buf \<le> chan_cap"
    "written h c = Some (transcript marshal ds)" "subseq (ds @ buf) ms"
    and all: "length ms \<le> chan_cap \<Longrightarrow> ds @ buf = ms"
  have sub: "subseq (ds @ try_send buf ?m) (ms @ [?m])"
    using *(6) list_emb_append_mono [of "(=)" "ds @ buf" ms "[?m]" "[?m]"]
      list_emb_append_mono [of "(=)" "ds @ buf" ms "[]" "[?m]"]
    by (simp add: try_send_def)
  show ?thesis
    by (rule stream_okI [where buf = "try_send buf ?m" and ds = ds])
      (use * sub all in \<open>auto simp: Broadcast_def Let_def map_of_map_snd try_send_def\<close>)
qed

lemma Deliver_stream:
  assumes "stream_ok marshal h c ms"
  shows "stream_ok marshal (hub_step marshal (Deliver c') h) c ms"
  using assms
proof (rule stream_okE)
  fix ds buf
  assume *: "c < next_chan (hub_srv h)" "api_Addr (srv_cfg (hub_srv h)) \<noteq> ''''"
    "map_of (subs (hub_srv h)) c = Some buf" "length buf \<le> chan_cap"
    "written h c = Some (transcript marshal ds)" "subseq (ds @ buf) ms"
    "length ms \<le> chan_cap \<Longrightarrow> ds @ buf = ms"
  show ?thesis
  proof (cases "c' = c \<and> buf \<noteq> []")
    case True
    then obtain m rest where buf: "buf = m # rest" by (cases buf) auto
    show ?thesis
      by (rule stream_okI [where buf = rest and ds = "ds @ [m]"])
        (use * True buf in \<open>auto simp: events_receive_def Let_def update_conv' split: sum.splits\<close>)
  next
    case False
    then show ?thesis using *
      by (intro stream_okI [where buf = buf and ds = ds])
        (auto simp: events_receive_def Let_def update_conv' split: sum.splits list.splits option.splits)
  qed
qed

lemma Connect_stream: "stream_ok marshal h c ms \<Longrightarrow> stream_ok marshal (hub_step marshal (Connect f) h) c ms"
  by (auto simp: stream_ok_def events_open_def subscribe_def Let_def)

lemma map_of_filter_other: "c \<noteq> d \<Longrightarrow> map_of (filter (\<lambda>x. fst x \<noteq> d) xs) c = map_of xs c"
  by (induction xs) auto

lemma Disconnect_stream:
  "stream_ok marshal h c ms \<Longrightarrow> c \<noteq> d \<Longrightarrow> stream_ok marshal (hub_step marshal (Disconnect d) h) c ms"
  by (auto simp: stream_ok_def events_close_def unsubscribe_def map_of_filter_other)

lemma hub_step_stream:
  assumes "stream_ok marshal h c ms" and "e \<noteq> Disconnect c"
  shows "stream_ok marshal (hub_step marshal e h) c (ms @ emitted [e])"
proof (cases e)
  case (Emit ip sc r rep t)
  with Emit_stream [OF assms(1)] show ?thesis by blast
next
  case (Connect f)
  with Connect_stream [OF assms(1)] show ?thesis by (simp del: hub_step.simps)
next
  case (Deliver d)
  with Deliver_stream [OF assms(1)] show ?thesis by (simp del: hub_step.simps)
next
  case (Disconnect d)
  with Disconnect_stream [OF assms(1)] assms(2) show ?thesis by (simp del: hub_step.simps)
qed

lemma hub_run_stream:
  "stream_ok marshal h c ms \<Longrightarrow> Disconnect c \<notin> set es \<Longrightarrow> stream_ok marshal (hub_run marshal es h) c (ms @ emitted es)"
proof (induction es rule: rev_induct)
  case (snoc e es)
  then have "stream_ok marshal (hub_step marshal e (hub_run marshal es h)) c ((ms @ emitted es) @ emitted [e])"
    by (intro hub_step_stream) auto
  then show ?case by (simp add: hub_run_def)
qed (simp add: hub_run_def)

section \<open>The properties\<close>

text \<open>The patterns in force: the direct ones, else those of the purpose.\<close>

definition effective_patterns :: "ApiServer \<Rightarrow> blocklistFilter \<Rightarrow> string list" where
  "effective_patterns s f =
     (if reasonPatterns f \<noteq> [] then reasonPatterns f else PurposePatterns (taxonomy s) (bf_purpose f))"

definition passes :: "ApiServer \<Rightarrow> blocklistFilter \<Rightarrow> ScoreRecord \<Rightarrow> bool" where
  "passes s f rec \<longleftrightarrow> LastSeen rec \<noteq> zero_time \<and> minScore f \<le> Score rec \<and>
     (effective_patterns s f = [] \<or>
      (\<exists>r \<in> set (Reasons rec). \<exists>p \<in> set (effective_patterns s f). matchReason p r))"

lemma sort_by_score_desc: "sorted_wrt (\<lambda>a b. be_Score a \<ge> be_Score b) (sort_key (\<lambda>e. - be_Score e) es)"
proof -
  have "sorted (map (\<lambda>e. - be_Score e) (sort_key (\<lambda>e. - be_Score e) es))" by simp
  then show ?thesis by (simp add: sorted_map)
qed

lemma distinct_sort_key_map: "distinct (map g (sort_key f xs)) \<longleftrightarrow> distinct (map g xs)"
  by (simp add: distinct_map)

lemma passRecord_iff: "passRecord rec f (purpose_patterns s f) \<longleftrightarrow> passes s f rec"
  by (auto simp: passRecord_def purpose_patterns_def passes_def effective_patterns_def IsZero_def
      MatchesPatterns_iff pattern_matches_rule PurposePatterns_def)

definition ex_records :: "(mem_db, string list) BadgerStore" where
  "ex_records = \<lparr>db =
     [(''1.2.3.4'', zero_rec\<lparr>Score := 80, LastSeen := 5, Reasons := [''ssh-bruteforce'']\<rparr>, 100),
      (''5.6.7.8'', zero_rec\<lparr>Score := 95, LastSeen := 6, Reasons := [''smtp-auth'']\<rparr>, 100),
      (''9.9.9.9'', zero_rec\<lparr>Score := 10, LastSeen := 7, Reasons := [''ssh-bruteforce'']\<rparr>, 100)],
     bloom = [''1.2.3.4'', ''5.6.7.8'', ''9.9.9.9'']\<rparr>"

definition ex_server :: ApiServer where
  "ex_server = api_New \<lparr>api_Addr = '':8080'', api_Purpose = '''', api_Taxonomy = []\<rparr>
     \<lparr>HalfLife = 10, BlockThreshold = 70, UnblockThreshold = 30, DecayInterval = 1, RulesFile = '''', IPv6Prefix = 64\<rparr>"


lemma ex_records_covered: "mem.bloom_covers ex_records"
  unfolding mem.bloom_covers_def by (auto simp: mem_backend_def ex_records_def split: if_splits)


text \<open>
  C33. A client of the event stream reads the broadcasts made since it connected in order, whatever
  other clients do: what it was written and what its channel still holds is a subsequence of them,
  the channel never holds more than 64, and nothing is missing while at most 64 were sent.
\<close>

theorem sse_in_order:
  assumes "api_Addr (srv_cfg (hub_srv h)) \<noteq> ''''" and "c = next_chan (hub_srv h)"
    and "Disconnect c \<notin> set es"
  shows "\<exists>ds buf. map_of (subs (hub_srv (hub_run marshal (Connect True # es) h))) c = Some buf
    \<and> written (hub_run marshal (Connect True # es) h) c = Some (transcript marshal ds)
    \<and> length buf \<le> 64 \<and> subseq (ds @ buf) (emitted es)
    \<and> (length (emitted es) \<le> 64 \<longrightarrow> ds @ buf = emitted es)"
proof -
  have "stream_ok marshal (hub_run marshal es (hub_step marshal (Connect True) h)) c ([] @ emitted es)"
    using subscribe_ok [OF assms(1), of marshal] assms(2,3) by (intro hub_run_stream) simp_all
  then show ?thesis by (auto simp: stream_ok_def hub_run_def chan_cap_def)
qed

theorem sse_in_order_witness:
  "\<exists>ds buf. map_of (subs (hub_srv (hub_run (\<lambda>m. Inr (em_IP m))
       [Connect True, Emit ''1.2.3.4'' 10 ''ssh'' ''p'' 3, Connect True, Disconnect 1, Deliver 0]
       \<lparr>hub_srv = ex_server, written = Map.empty\<rparr>))) 0 = Some buf
     \<and> ds @ buf = [\<lparr>em_IP = ''1.2.3.4'', em_Score = 10, em_Reason = ''ssh'', em_Reporter = ''p'', em_TS = 3\<rparr>]"
  using sse_in_order [of "\<lparr>hub_srv = ex_server, written = Map.empty\<rparr>" 0
      "[Emit ''1.2.3.4'' 10 ''ssh'' ''p'' 3, Connect True, Disconnect 1, Deliver 0]" "\<lambda>m. Inr (em_IP m)"]
  by (auto simp: ex_server_def api_New_def emitted_def)

end
