(* ===== verification/Dnsbl.thy ===== *)
theory Dnsbl
  imports Api
begin

text \<open>
  The embedded DNSBL server, \<open>internal/dnsbl/server.go\<close>. The DNS library is outside: a query is
  its questions, a reply its return code and answers; \<open>fqdn\<close> is \<open>dns.Fqdn\<close>.
\<close>

record DnsServer =
  ds_cfg :: DNSBLConfig
  ds_repCfg :: ReputationConfig
  zone :: string

definition dns_New :: "(string \<Rightarrow> string) \<Rightarrow> DNSBLConfig \<Rightarrow> ReputationConfig \<Rightarrow> DnsServer" where
  "dns_New fqdn cfg repCfg =
     \<lparr>ds_cfg = cfg, ds_repCfg = repCfg,
      zone = (if dnsbl_Zone cfg \<noteq> '''' then fqdn (ToLower (dnsbl_Zone cfg)) else '''')\<rparr>"

text \<open>Whether \<open>Start\<close> serves at all.\<close>

definition dns_serves :: "DnsServer \<Rightarrow> bool" where
  "dns_serves s \<longleftrightarrow> \<not> (dnsbl_Addr (ds_cfg s) = '''' \<or> dnsbl_Zone (ds_cfg s) = '''')"

datatype qtype = TypeA | TypeTXT | TypeOther nat

datatype rcode = NoError | FormatError | NameError

text \<open>A resource record: the owner name and the address or the text.\<close>

datatype rr = A_rr string string | TXT_rr string string

record dns_reply =
  rcode :: rcode
  authoritative :: bool
  answer :: "rr list"

definition dns_fail :: "rcode \<Rightarrow> dns_reply" where
  "dns_fail c = \<lparr>rcode = c, authoritative = True, answer = []\<rparr>"

text \<open>The loop that swaps the parts from both ends.\<close>

function swap_ends :: "string list \<Rightarrow> nat \<Rightarrow> nat \<Rightarrow> string list" where
  "swap_ends parts i j =
     (if i < j then swap_ends (parts[i := parts ! j, j := parts ! i]) (i + 1) (j - 1) else parts)"
  by pat_completeness auto

termination swap_ends
  by (relation "measure (\<lambda>(parts, i, j). j - i)") auto

declare swap_ends.simps [simp del]

text \<open>\<open>%.1f\<close>: the nearest tenth, ties to even.\<close>

definition one_decimal :: "real \<Rightarrow> string" where
  "one_decimal x =
     (let y = 10 * \<bar>x\<bar>;
          lo = \<lfloor>y\<rfloor>;
          k = nat (if y - of_int lo > 1 / 2 \<or> (y - of_int lo = 1 / 2 \<and> odd lo) then lo + 1 else lo)
      in (if x < 0 then ''-'' else '''') @ itoa (k div 10) @ ''.'' @ itoa (k mod 10))"

definition txt_payload :: "ScoreRecord \<Rightarrow> string" where
  "txt_payload rec = ''score='' @ one_decimal (Score rec) @ '' reasons='' @ Join (Reasons rec) '',''"

definition answers_for :: "string \<Rightarrow> qtype \<Rightarrow> string \<Rightarrow> rr list" where
  "answers_for name qt txt =
     (case qt of
        TypeA \<Rightarrow> [A_rr name ''127.0.0.2'', TXT_rr name txt]
      | TypeTXT \<Rightarrow> [TXT_rr name txt]
      | TypeOther _ \<Rightarrow> [])"

text \<open>
  The address a name asks for: the zone suffix stripped, four parts, their order reversed, and an
  IPv4 address; any other name is a name error.
\<close>

definition query_ip :: "string \<Rightarrow> string \<Rightarrow> string option" where
  "query_ip z qname =
     (let suffix = ''.'' @ z
      in if \<not> HasSuffix qname suffix then None
         else let parts = Split (TrimSuffix qname suffix) CHR ''.''
         in if length parts \<noteq> 4 then None
         else let ip = Join (swap_ends parts 0 (length parts - 1)) ''.''
         in case ParseAddr ip of
              None \<Rightarrow> None
            | Some addr \<Rightarrow> if \<not> Is4 (Unmap addr) then None else Some ip)"

text \<open>The lookup runs through the store or the resolver, which may change the state \<open>'w\<close>.\<close>

definition dns_lookup ::
  "('w \<Rightarrow> string \<Rightarrow> (error + ScoreRecord) \<times> 'w) \<Rightarrow> DnsServer \<Rightarrow> 'w \<Rightarrow> string \<Rightarrow> qtype \<Rightarrow> string \<Rightarrow> dns_reply \<times> 'w" where
  "dns_lookup get s w name qt ip =
     (case get w ip of
        (Inl _, w) \<Rightarrow> (dns_fail NameError, w)
      | (Inr rec, w) \<Rightarrow>
          if IsZero (LastSeen rec) then (dns_fail NameError, w)
          else let low = (if dnsbl_MinScore (ds_cfg s) = 0 then BlockThreshold (ds_repCfg s)
                          else dnsbl_MinScore (ds_cfg s))
               in if Score rec < low then (dns_fail NameError, w)
                  else (\<lparr>rcode = NoError, authoritative = True,
                         answer = answers_for name qt (txt_payload rec)\<rparr>, w))"

definition handleDNS ::
  "('w \<Rightarrow> string \<Rightarrow> (error + ScoreRecord) \<times> 'w) \<Rightarrow> DnsServer \<Rightarrow> 'w \<Rightarrow> (string \<times> qtype) list \<Rightarrow> dns_reply \<times> 'w" where
  "handleDNS get s w questions =
     (if length questions = 0 then (dns_fail FormatError, w)
      else let (name, qt) = hd questions;
               qname = ToLower name
           in case query_ip (zone s) qname of
                None \<Rightarrow> (dns_fail NameError, w)
              | Some ip \<Rightarrow> dns_lookup get s w name qt ip)"

section \<open>Names and addresses\<close>

lemma swap_ends_4: "length parts = 4 \<Longrightarrow> swap_ends parts 0 3 = rev parts"
proof -
  assume "length parts = 4"
  then obtain a b c d where "parts = [a, b, c, d]"
    by (auto simp: length_Suc_conv eval_nat_numeral)
  then show ?thesis by (simp add: swap_ends.simps)
qed

text \<open>The query name of an address: its octets in reverse, under the zone.\<close>

definition reversed_name :: "nat list \<Rightarrow> string \<Rightarrow> string" where
  "reversed_name os z = IPv4_text (rev os) @ ''.'' @ z"

lemma lower_keeps: "is_digit c \<or> c = CHR ''.'' \<Longrightarrow> lower_char c = c"
  by (auto simp: is_digit_def dec_digits_def lower_char_def)

lemma ToLower_IPv4: "\<forall>x \<in> set os. x < 256 \<Longrightarrow> ToLower (IPv4_text os) = IPv4_text os"
  unfolding ToLower_def by (intro map_idI lower_keeps) (rule IPv4_text_chars)

lemma ToLower_append [simp]: "ToLower (a @ b) = ToLower a @ ToLower b"
  by (simp add: ToLower_def)

lemma ToLower_reversed_name:
  "\<forall>x \<in> set os. x < 256 \<Longrightarrow> ToLower z = z \<Longrightarrow> ToLower (reversed_name os z) = reversed_name os z"
  by (simp add: reversed_name_def ToLower_IPv4) (simp add: ToLower_def lower_char_def)

lemma Split_IPv4:
  assumes "os \<noteq> []" and "\<forall>x \<in> set os. x < 256"
  shows "Split (IPv4_text os) CHR ''.'' = map dec_text os"
proof -
  have "\<forall>w \<in> set (map dec_text os). CHR ''.'' \<notin> set w" using assms(2) dec_text_no_dot by fastforce
  with assms(1) show ?thesis unfolding IPv4_text_def by (intro Split_Join) simp_all
qed

lemma ParseAddr_IPv4:
  assumes "length os = 4" and "\<forall>x \<in> set os. x < 256"
  shows "ParseAddr (IPv4_text os) = Some (V4 os)"
  using ParseAddr_String [of "V4 os"] assms by (simp add: addr_ok_def)

lemma query_ip_reversed:
  assumes "length os = 4" and "\<forall>x \<in> set os. x < 256"
  shows "query_ip z (reversed_name os z) = Some (IPv4_text os)"
proof -
  have r: "length (rev os) = 4" "\<forall>x \<in> set (rev os). x < 256" "rev os \<noteq> []" using assms by auto
  have suf: "HasSuffix (reversed_name os z) (''.'' @ z)"
    unfolding HasSuffix_iff reversed_name_def by blast
  have trim: "TrimSuffix (reversed_name os z) (''.'' @ z) = IPv4_text (rev os)"
    unfolding TrimSuffix_def if_P [OF suf] by (simp add: reversed_name_def)
  have "Join (swap_ends (map dec_text (rev os)) 0 3) ''.'' = IPv4_text os"
    using r(1) by (simp add: swap_ends_4 IPv4_text_def rev_map [symmetric])
  then show ?thesis
    unfolding query_ip_def Let_def trim Split_IPv4 [OF r(3,2)] using suf r(1) by (simp add: ParseAddr_IPv4 [OF assms])
qed

lemma handleDNS_address:
  assumes "length os = 4" and "\<forall>x \<in> set os. x < 256" and "ToLower (zone s) = zone s"
  shows "handleDNS get s w ((reversed_name os (zone s), qt) # qs)
    = dns_lookup get s w (reversed_name os (zone s)) qt (IPv4_text os)"
  by (simp add: handleDNS_def ToLower_reversed_name [OF assms(2,3)] query_ip_reversed [OF assms(1,2)])

section \<open>One verdict on three interfaces\<close>

text \<open>A lookup in the local store, as the readers take it.\<close>

definition local_reader ::
  "('db, 'bf) backend \<Rightarrow> time \<Rightarrow> ('db, 'bf) BadgerStore \<Rightarrow> string \<Rightarrow> (error + ScoreRecord) \<times> ('db, 'bf) BadgerStore" where
  "local_reader L now st ip = (GetScore L st now ip, st)"

definition dns_listed :: "dns_reply \<Rightarrow> bool" where
  "dns_listed r \<longleftrightarrow> (\<exists>name. A_rr name ''127.0.0.2'' \<in> set (answer r))"

definition http_blocked :: "response \<Rightarrow> bool" where
  "http_blocked r \<longleftrightarrow> (\<exists>v. rp_body r = ScoreBody v \<and> sv_Blocked v)"

definition http_lists :: "response \<Rightarrow> string \<Rightarrow> bool" where
  "http_lists r ip \<longleftrightarrow> (\<exists>es. rp_body r = Blocklist es \<and> ip \<in> be_IP ` set es)"

definition no_query :: "string \<Rightarrow> string" where
  "no_query k = ''''"

lemma dns_lookup_listed:
  "dns_listed (fst (dns_lookup (local_reader L now) d st name TypeA ip)) \<longleftrightarrow>
     (\<exists>rec. GetScore L st now ip = Inr rec \<and> LastSeen rec \<noteq> zero_time \<and>
        (if dnsbl_MinScore (ds_cfg d) = 0 then BlockThreshold (ds_repCfg d) else dnsbl_MinScore (ds_cfg d)) \<le> Score rec)"
  by (auto simp: dns_lookup_def local_reader_def dns_listed_def answers_for_def dns_fail_def IsZero_def Let_def
      split: sum.splits)

lemma handleScore_blocked:
  "ip \<noteq> '''' \<Longrightarrow> http_blocked (fst (handleScore (local_reader L now) s st ip)) \<longleftrightarrow>
     (\<exists>rec. GetScore L st now ip = Inr rec \<and> LastSeen rec \<noteq> zero_time \<and> BlockThreshold (srv_repCfg s) \<le> Score rec)"
  by (auto simp: handleScore_def local_reader_def http_blocked_def IsZero_def split: sum.splits)

lemma default_filter:
  "api_Purpose (srv_cfg s) = '''' \<Longrightarrow>
     passes s (parseBlocklistFilter pf s no_query) rec \<longleftrightarrow> LastSeen rec \<noteq> zero_time \<and> BlockThreshold (srv_repCfg s) \<le> Score rec"
  by (simp add: passes_def parseBlocklistFilter_def no_query_def effective_patterns_def PurposePatterns_def Let_def)

lemma http_lists_iff:
  "http_lists (handleBlocklist L pf s st now q) ip \<longleftrightarrow>
     (\<exists>rec. (ip, rec) \<in> set (listed L st now (\<lambda>ip rec. passes s (parseBlocklistFilter pf s q) rec)))"
proof -
  have "be_IP ` set (sort_by_score (map (\<lambda>(ip, rec). entry_of ip rec) ls)) = fst ` set ls" for ls
    by (simp add: sort_by_score_def image_image case_prod_unfold)
  then show ?thesis by (simp add: http_lists_def handleBlocklist_body passRecord_iff Domain_fst [symmetric] Domain_iff)
qed

context badger_backend
begin

lemma default_blocklist:
  assumes "bloom_covers st" and "\<forall>x \<in> set (db_items L (db st) now). \<not> is_err (snd x)"
    and "GetScore L st now ip = Inr r" and "api_Purpose (srv_cfg s) = ''''"
  shows "http_lists (handleBlocklist L pf s st now no_query) ip \<longleftrightarrow>
     LastSeen r \<noteq> zero_time \<and> BlockThreshold (srv_repCfg s) \<le> Score r"
proof -
  let ?P = "\<lambda>ip rec. passes s (parseBlocklistFilter pf s no_query) rec"
  have "(ip, rec) \<in> set (listed L st now ?P) \<longleftrightarrow> live (view (db st)) now ip = Some rec \<and> ?P ip rec" for rec
    using listed_sound [of ip rec st now ?P] listed_complete [OF assms(2), of ip rec ?P] by blast
  then have "http_lists (handleBlocklist L pf s st now no_query) ip \<longleftrightarrow>
      (\<exists>rec. live (view (db st)) now ip = Some rec \<and> ?P ip rec)"
    unfolding http_lists_iff by blast
  also have "\<dots> \<longleftrightarrow> LastSeen r \<noteq> zero_time \<and> BlockThreshold (srv_repCfg s) \<le> Score r"
    using GetScore_correct [OF assms(1,3)] by (auto simp: default_filter [OF assms(4)] split: option.splits)
  finally show ?thesis .
qed

end

definition ex_dns :: DnsServer where
  "ex_dns = dns_New (\<lambda>z. z @ ''.'') \<lparr>dnsbl_Addr = '':53'', dnsbl_Zone = ''BL.test'', dnsbl_MinScore = 0\<rparr> (srv_repCfg ex_server)"

lemma ex_dns_fields: "zone ex_dns = ''bl.test.''" "dnsbl_MinScore (ds_cfg ex_dns) = 0" "ds_repCfg ex_dns = srv_repCfg ex_server"
proof -
  have "ToLower ''BL.test'' = ''bl.test''" by code_simp
  then show "zone ex_dns = ''bl.test.''" by (simp add: ex_dns_def dns_New_def)
qed (simp_all add: ex_dns_def dns_New_def)

text \<open>
  C31. One verdict on three interfaces: with the default DNSBL score and no purpose filter, an IPv4
  address whose record can be read is listed by the DNSBL exactly when the score endpoint calls it
  blocked, and exactly when it is in the blocklist.
\<close>

theorem interfaces_agree:
  assumes "badger_backend L view" and "badger_backend.bloom_covers L view st"
    and "\<forall>x \<in> set (db_items L (db st) now). \<not> is_err (snd x)" and "GetScore L st now (IPv4_text os) = Inr r"
    and "length os = 4" and "\<forall>x \<in> set os. x < 256" and "ToLower (zone d) = zone d"
    and "dnsbl_MinScore (ds_cfg d) = 0" and "ds_repCfg d = srv_repCfg s" and "api_Purpose (srv_cfg s) = ''''"
  shows "(dns_listed (fst (handleDNS (local_reader L now) d st [(reversed_name os (zone d), TypeA)]))
      \<longleftrightarrow> http_blocked (fst (handleScore (local_reader L now) s st (IPv4_text os))))
    \<and> (http_blocked (fst (handleScore (local_reader L now) s st (IPv4_text os)))
      \<longleftrightarrow> http_lists (handleBlocklist L pf s st now no_query) (IPv4_text os))"
proof -
  have "IPv4_text os \<noteq> ''''" using ParseAddr_IPv4 [OF assms(5,6)] by (auto simp: ParseAddr_def)
  then show ?thesis
    using assms(4,8,9) badger_backend.default_blocklist [OF assms(1,2,3,4,10), of pf]
    by (simp add: handleDNS_address [OF assms(5,6,7)] dns_lookup_listed handleScore_blocked)
qed

theorem interfaces_agree_witness:
  "dns_listed (fst (handleDNS (local_reader mem_backend 50) ex_dns ex_records [(reversed_name [1, 2, 3, 4] (zone ex_dns), TypeA)]))
     \<longleftrightarrow> http_lists (handleBlocklist mem_backend (\<lambda>_. None) ex_server ex_records 50 no_query) (IPv4_text [1, 2, 3, 4])"
proof -
  have items: "\<forall>x \<in> set (db_items mem_backend (db ex_records) 50). \<not> is_err (snd x)"
    by (auto simp: mem_backend_def mem_items_def)
  obtain r where r: "GetScore mem_backend ex_records 50 (IPv4_text [1, 2, 3, 4]) = Inr r"
    using mem_GetScore by blast
  have "ToLower (zone ex_dns) = zone ex_dns" by (simp add: ex_dns_fields ToLower_def lower_char_def)
  moreover have "api_Purpose (srv_cfg ex_server) = ''''" by (simp add: ex_server_def api_New_def)
  ultimately show ?thesis
    using interfaces_agree [OF mem.badger_backend_axioms ex_records_covered items r, of ex_dns ex_server "\<lambda>_. None"]
    by (simp add: ex_dns_fields)
qed

end
