(* ===== verification/Tailers.thy ===== *)
theory Tailers
  imports Proto Config Netip
begin

text \<open>
  The log tailers of \<open>internal/ingest\<close>: the read position (\<open>tail.go\<close>) and the three sources
  that follow a file, the Cowrie honeypot (\<open>honeypot.go\<close>), OpenCanary (\<open>opencanary.go\<close>) and the
  spamtrap (\<open>spamtrap.go\<close>). The three copies of the polling loop differ in what they make of a
  line, so the loop takes that as an argument. JSON decoding is a parameter.
\<close>

section \<open>Lines\<close>

definition NL :: char where
  "NL = CHR 0x0A"

definition CR :: char where
  "CR = CHR 0x0D"

text \<open>
  \<open>bufio.Scanner\<close> with \<open>ScanLines\<close> and a buffer of \<open>cap\<close> bytes: the tokens, without the newline
  and one carriage return before it, and whether the scan ended with \<open>ErrTooLong\<close>. Text after
  the last newline is a token too.
\<close>

definition drop_cr :: "string \<Rightarrow> string" where
  "drop_cr l = (if l \<noteq> [] \<and> last l = CR then butlast l else l)"

function scan_lines :: "nat \<Rightarrow> string \<Rightarrow> string list \<times> bool" where
  "scan_lines cap data =
     (if data = [] then ([], False)
      else let raw = takeWhile (\<lambda>c. c \<noteq> NL) data
           in if cap \<le> length raw then ([], True)
              else (case scan_lines cap (drop (length raw + 1) data) of (ls, e) \<Rightarrow> (drop_cr raw # ls, e)))"
  by pat_completeness auto

termination scan_lines
  by (relation "measure (\<lambda>(cap, data). length data)") auto

declare scan_lines.simps [simp del]

definition file_cap :: nat where
  "file_cap = 2 ^ 20"

section \<open>The position\<close>

text \<open>A file identity is its inode, \<open>os.SameFile\<close> their equality.\<close>

record tailPos =
  offset :: nat
  lastSize :: nat
  lastFile :: "nat option"

definition start_pos :: tailPos where
  "start_pos = \<lparr>offset = 0, lastSize = 0, lastFile = None\<rparr>"

definition sync :: "tailPos \<Rightarrow> nat \<times> nat \<Rightarrow> tailPos" where
  "sync p fi =
     (let p = (if snd fi < lastSize p \<or> (lastFile p \<noteq> None \<and> lastFile p \<noteq> Some (fst fi)) then p\<lparr>offset := 0\<rparr> else p)
      in p\<lparr>lastSize := snd fi, lastFile := Some (fst fi)\<rparr>)"

section \<open>One poll\<close>

text \<open>
  What the file system answers during one poll: the file at the path, if it opens, as its inode,
  the size \<open>Stat\<close> reports and the bytes a read to the end gets; whether \<open>Stat\<close> and \<open>Seek\<close>
  succeed.
\<close>

record tail_io =
  io_open :: "(nat \<times> nat \<times> string) option"
  io_stat :: bool
  io_seek :: bool

text \<open>
  The loop over the tokens. A send blocks while the channel is full, until there is room or the
  context is done: \<open>budget\<close> is the number of sends that still succeed, \<open>None\<close> when the context
  lives on. The last component tells that the source has stopped.
\<close>

fun tail_lines ::
  "(string \<Rightarrow> Event option) \<Rightarrow> string list \<Rightarrow> nat option \<Rightarrow> nat \<Rightarrow> Event list \<times> nat \<times> nat option \<times> bool" where
  "tail_lines parse [] budget off = ([], off, budget, False)"
| "tail_lines parse (l # ls) budget off =
     (let off = off + length l + 1
      in case parse l of
           None \<Rightarrow> tail_lines parse ls budget off
         | Some e \<Rightarrow>
             (case budget of
                Some 0 \<Rightarrow> ([], off, budget, True)
              | _ \<Rightarrow> (case tail_lines parse ls (map_option (\<lambda>n. n - 1) budget) off of
                        (es, r) \<Rightarrow> (e # es, r))))"

definition tail_poll ::
  "(string \<Rightarrow> Event option) \<Rightarrow> tail_io \<Rightarrow> nat option \<Rightarrow> tailPos \<Rightarrow> Event list \<times> tailPos \<times> nat option \<times> bool" where
  "tail_poll parse io budget pos =
     (case io_open io of
        None \<Rightarrow> ([], pos, budget, False)
      | Some (inode, sz, data) \<Rightarrow>
          if \<not> io_stat io then ([], pos, budget, False)
          else let pos = sync pos (inode, sz)
               in if \<not> io_seek io then ([], pos, budget, False)
                  else (case tail_lines parse (fst (scan_lines file_cap (drop (offset pos) data))) budget (offset pos) of
                          (es, off, budget, stop) \<Rightarrow> (es, pos\<lparr>offset := off\<rparr>, budget, stop)))"

text \<open>The ticks of one source, until it stops; the parser may depend on the clock of the tick.\<close>

fun tail_run ::
  "(time \<Rightarrow> string \<Rightarrow> Event option) \<Rightarrow> (time \<times> tail_io) list \<Rightarrow> nat option \<Rightarrow> tailPos \<Rightarrow> Event list \<times> tailPos" where
  "tail_run parse [] budget pos = ([], pos)"
| "tail_run parse ((now, io) # ticks) budget pos =
     (case tail_poll (parse now) io budget pos of
        (es, pos, budget, stop) \<Rightarrow>
          if stop then (es, pos)
          else (case tail_run parse ticks budget pos of (es', pos) \<Rightarrow> (es @ es', pos)))"

text \<open>The interval of the ticker.\<close>

definition tail_interval :: "TailConfig \<Rightarrow> duration" where
  "tail_interval cfg = (if tail_PollInterval cfg \<le> 0 then second else tail_PollInterval cfg)"

section \<open>The sources\<close>

definition report :: "string \<Rightarrow> string \<Rightarrow> time \<Rightarrow> string \<Rightarrow> Event" where
  "report ip reason now selfID = zero_Event\<lparr>IP := ip, Reason := reason, Timestamp := now, ReporterID := selfID\<rparr>"

record cowrieEvent =
  EventID :: string
  SrcIP :: string

definition cowrieReasons :: "string \<rightharpoonup> string" where
  "cowrieReasons = map_of
     [(''cowrie.login.success'', ''ssh-auth-success''),
      (''cowrie.login.failed'', ''ssh-auth-bruteforce''),
      (''cowrie.command.input'', ''ssh-post-auth-command''),
      (''cowrie.session.connect'', ''ssh-probe'')]"

definition cowrie_line :: "(string \<Rightarrow> cowrieEvent option) \<Rightarrow> string \<Rightarrow> time \<Rightarrow> string \<Rightarrow> Event option" where
  "cowrie_line decode selfID now line =
     (case decode line of
        None \<Rightarrow> None
      | Some ce \<Rightarrow>
          if SrcIP ce = '''' then None
          else let reason = (case cowrieReasons (EventID ce) of Some r \<Rightarrow> r | None \<Rightarrow> ''ssh-unknown'')
               in Some (report (SrcIP ce) reason now selfID))"

definition honeypot_tail ::
  "(string \<Rightarrow> cowrieEvent option) \<Rightarrow> string \<Rightarrow> (time \<times> tail_io) list \<Rightarrow> nat option \<Rightarrow> Event list" where
  "honeypot_tail decode selfID ticks budget = fst (tail_run (cowrie_line decode selfID) ticks budget start_pos)"

record openCanaryEvent =
  SrcHost :: string
  LogType :: int

definition openCanaryReasons :: "int \<rightharpoonup> string" where
  "openCanaryReasons = map_of
     [(2000, ''ftp-login-attempt''), (2001, ''ftp-auth-attempt''), (3000, ''http-probe''),
      (3001, ''http-post-login''), (3002, ''http-unimplemented''), (3003, ''http-redirect''),
      (4000, ''ssh-new-connection''), (4001, ''ssh-remote-version''), (4002, ''ssh-login-attempt''),
      (5000, ''smb-file-open''), (6001, ''telnet-login-attempt''), (7001, ''http-proxy-login''),
      (8001, ''mysql-login-attempt'')]"

definition canary_line :: "(string \<Rightarrow> openCanaryEvent option) \<Rightarrow> string \<Rightarrow> time \<Rightarrow> string \<Rightarrow> Event option" where
  "canary_line decode selfID now line =
     (case decode line of
        None \<Rightarrow> None
      | Some oe \<Rightarrow>
          if SrcHost oe = '''' then None
          else let reason = (case openCanaryReasons (LogType oe) of Some r \<Rightarrow> r | None \<Rightarrow> ''opencanary-unknown'')
               in Some (report (SrcHost oe) reason now selfID))"

definition opencanary_tail ::
  "(string \<Rightarrow> openCanaryEvent option) \<Rightarrow> string \<Rightarrow> (time \<times> tail_io) list \<Rightarrow> nat option \<Rightarrow> Event list" where
  "opencanary_tail decode selfID ticks budget = fst (tail_run (canary_line decode selfID) ticks budget start_pos)"

definition spamtrap_line :: "string \<Rightarrow> time \<Rightarrow> string \<Rightarrow> Event option" where
  "spamtrap_line selfID now raw =
     (let line = TrimSpace raw
      in if line = '''' \<or> HasPrefix line ''#'' then None
         else case ParseAddr line of
             None \<Rightarrow> None
           | Some addr \<Rightarrow> if \<not> Is4 addr then None else Some (report line ''smtp-spamtrap'' now selfID))"

definition spamtrap_tail :: "string \<Rightarrow> (time \<times> tail_io) list \<Rightarrow> nat option \<Rightarrow> Event list" where
  "spamtrap_tail selfID ticks budget = fst (tail_run (spamtrap_line selfID) ticks budget start_pos)"

section \<open>Whole lines\<close>

definition line_ok :: "string \<Rightarrow> bool" where
  "line_ok l \<longleftrightarrow> NL \<notin> set l \<and> length l < file_cap \<and> (l \<noteq> [] \<longrightarrow> last l \<noteq> CR)"

definition whole_lines :: "string list \<Rightarrow> string" where
  "whole_lines ls = concat (map (\<lambda>l. l @ [NL]) ls)"

lemma whole_lines_simps [simp]:
  "whole_lines [] = []"
  "whole_lines (l # ls) = l @ NL # whole_lines ls"
  "whole_lines (xs @ ys) = whole_lines xs @ whole_lines ys"
  by (simp_all add: whole_lines_def)

lemma line_ok_drop_cr: "line_ok l \<Longrightarrow> drop_cr l = l"
  by (auto simp: line_ok_def drop_cr_def)

lemma scan_lines_Nil [simp]: "scan_lines cap [] = ([], False)"
  by (simp add: scan_lines.simps)

lemma takeWhile_line: "NL \<notin> set l \<Longrightarrow> takeWhile (\<lambda>c. c \<noteq> NL) (l @ NL # rest) = l"
  by (induction l) auto

lemma scan_line:
  "NL \<notin> set l \<Longrightarrow> length l < cap \<Longrightarrow>
     scan_lines cap (l @ NL # rest) = (case scan_lines cap rest of (ls, e) \<Rightarrow> (drop_cr l # ls, e))"
  by (subst scan_lines.simps) (simp add: Let_def takeWhile_line)

lemma scan_whole: "\<forall>l \<in> set ls. line_ok l \<Longrightarrow> scan_lines file_cap (whole_lines ls) = (ls, False)"
proof (induction ls)
  case (Cons l ls)
  then have "line_ok l" by simp
  with Cons show ?case by (simp add: scan_line line_ok_def [of l] line_ok_drop_cr)
qed simp

lemma scan_unterminated:
  "NL \<notin> set l \<Longrightarrow> l \<noteq> [] \<Longrightarrow> length l < cap \<Longrightarrow> scan_lines cap l = ([drop_cr l], False)"
proof -
  assume l: "NL \<notin> set l" "l \<noteq> []" "length l < cap"
  have t: "takeWhile (\<lambda>c. c \<noteq> NL) l = l" unfolding takeWhile_eq_all_conv using l(1) by auto
  show ?thesis using l(2,3) unfolding scan_lines.simps [of cap l] Let_def t by simp
qed

lemma tail_lines_all:
  "tail_lines parse ls None off = (List.map_filter parse ls, off + length (whole_lines ls), None, False)"
  by (induction ls arbitrary: off) (auto simp: map_filter_simps Let_def split: option.splits)

section \<open>A growing file\<close>

text \<open>
  The polls of a file that grows by batches of lines, each batch seen at its time; \<open>shown\<close> is
  what the file held before.
\<close>

definition sees :: "nat \<Rightarrow> string \<Rightarrow> tail_io" where
  "sees inode data = \<lparr>io_open = Some (inode, length data, data), io_stat = True, io_seek = True\<rparr>"

fun growing :: "nat \<Rightarrow> string list \<Rightarrow> (time \<times> string list) list \<Rightarrow> (time \<times> tail_io) list" where
  "growing inode shown [] = []"
| "growing inode shown ((t, b) # bs) = (t, sees inode (whole_lines (shown @ b))) # growing inode (shown @ b) bs"

text \<open>The events of batches of lines, each parsed once.\<close>

definition events_of :: "(time \<Rightarrow> string \<Rightarrow> Event option) \<Rightarrow> (time \<times> string list) list \<Rightarrow> Event list" where
  "events_of parse bs = concat (map (\<lambda>(t, b). List.map_filter (parse t) b) bs)"

lemma events_of_simps [simp]:
  "events_of parse [] = []"
  "events_of parse ((t, b) # bs) = List.map_filter (parse t) b @ events_of parse bs"
  by (simp_all add: events_of_def)

definition batches_ok :: "(time \<times> string list) list \<Rightarrow> bool" where
  "batches_ok bs \<longleftrightarrow> (\<forall>(t, b) \<in> set bs. \<forall>l \<in> set b. line_ok l)"

lemma batches_ok_simps [simp]:
  "batches_ok []"
  "batches_ok ((t, b) # bs) \<longleftrightarrow> (\<forall>l \<in> set b. line_ok l) \<and> batches_ok bs"
  by (auto simp: batches_ok_def)

text \<open>The position after reading a file of that content.\<close>

definition read_to :: "nat \<Rightarrow> string \<Rightarrow> tailPos" where
  "read_to inode data = \<lparr>offset = length data, lastSize = length data, lastFile = Some inode\<rparr>"

lemma poll_fresh:
  assumes "\<forall>l \<in> set b. line_ok l" and "lastFile pos = None \<and> offset pos = 0 \<or> lastFile pos \<notin> {None, Some inode}"
  shows "tail_poll parse (sees inode (whole_lines b)) None pos
    = (List.map_filter parse b, read_to inode (whole_lines b), None, False)"
  using assms by (auto simp: tail_poll_def sees_def sync_def Let_def scan_whole tail_lines_all read_to_def)

lemma poll_grown:
  assumes "\<forall>l \<in> set b. line_ok l"
  shows "tail_poll parse (sees inode (whole_lines (shown @ b))) None (read_to inode (whole_lines shown))
    = (List.map_filter parse b, read_to inode (whole_lines (shown @ b)), None, False)"
  using assms by (simp add: tail_poll_def sees_def sync_def Let_def scan_whole tail_lines_all read_to_def)

definition all_lines :: "(time \<times> string list) list \<Rightarrow> string list" where
  "all_lines bs = concat (map snd bs)"

text \<open>Before the next ticks: a fresh position, or one of another file.\<close>

definition restarts :: "tailPos \<Rightarrow> nat \<Rightarrow> bool" where
  "restarts pos inode \<longleftrightarrow> lastFile pos = None \<and> offset pos = 0 \<or> lastFile pos \<notin> {None, Some inode}"

lemma tail_run_grown:
  "batches_ok bs \<Longrightarrow>
     tail_run parse (growing inode shown bs @ ticks) None (read_to inode (whole_lines shown))
       = (case tail_run parse ticks None (read_to inode (whole_lines (shown @ all_lines bs))) of
            (es, pos) \<Rightarrow> (events_of parse bs @ es, pos))"
proof (induction bs arbitrary: shown)
  case (Cons tb bs)
  obtain t b where tb: "tb = (t, b)" by (cases tb)
  from Cons.prems have ok: "\<forall>l \<in> set b. line_ok l" "batches_ok bs" by (simp_all add: tb)
  show ?case
    using Cons.IH [OF ok(2), of "shown @ b"] poll_grown [OF ok(1), of "parse t" inode shown]
    by (simp add: tb all_lines_def split: prod.splits)
qed (simp add: all_lines_def split: prod.splits)

lemma tail_run_fresh:
  assumes "batches_ok bs" and "bs \<noteq> []" and "restarts pos inode"
  shows "tail_run parse (growing inode [] bs @ ticks) None pos
    = (case tail_run parse ticks None (read_to inode (whole_lines (all_lines bs))) of
         (es, pos) \<Rightarrow> (events_of parse bs @ es, pos))"
proof -
  obtain t b bs' where bs: "bs = (t, b) # bs'" using assms(2) by (metis neq_Nil_conv surj_pair)
  with assms(1) have ok: "\<forall>l \<in> set b. line_ok l" "batches_ok bs'" by simp_all
  have "tail_poll (parse t) (sees inode (whole_lines b)) None pos
      = (List.map_filter (parse t) b, read_to inode (whole_lines b), None, False)"
    using poll_fresh [OF ok(1)] assms(3) by (simp add: restarts_def)
  then show ?thesis
    using tail_run_grown [OF ok(2), of parse inode b ticks]
    by (simp add: bs all_lines_def split: prod.splits)
qed

text \<open>A log over its rotations: each generation is a file of its own inode, with its batches.\<close>

definition generation_ticks :: "(nat \<times> (time \<times> string list) list) list \<Rightarrow> (time \<times> tail_io) list" where
  "generation_ticks gens = concat (map (\<lambda>(inode, bs). growing inode [] bs) gens)"

lemma tail_run_generations:
  assumes "\<forall>(inode, bs) \<in> set gens. batches_ok bs \<and> bs \<noteq> []"
    and "successively (\<lambda>a b. fst a \<noteq> fst b) gens" and "gens \<noteq> [] \<Longrightarrow> restarts pos (fst (hd gens))"
  shows "fst (tail_run parse (generation_ticks gens) None pos) = concat (map (\<lambda>g. events_of parse (snd g)) gens)"
  using assms
proof (induction gens arbitrary: pos)
  case (Cons g gens)
  obtain inode bs where g: "g = (inode, bs)" by (cases g)
  let ?pos = "read_to inode (whole_lines (all_lines bs))"
  have g_ok: "batches_ok bs" "bs \<noteq> []" "restarts pos inode" using Cons.prems by (auto simp: g)
  have "restarts ?pos (fst (hd gens))" if "gens \<noteq> []"
    using Cons.prems(2) that by (cases gens) (auto simp: g restarts_def read_to_def)
  moreover have "\<forall>(inode, bs) \<in> set gens. batches_ok bs \<and> bs \<noteq> []" using Cons.prems(1) by simp
  moreover have "successively (\<lambda>a b. fst a \<noteq> fst b) gens" using Cons.prems(2) by (cases gens) auto
  ultimately have "fst (tail_run parse (generation_ticks gens) None ?pos) = concat (map (\<lambda>g. events_of parse (snd g)) gens)"
    by (intro Cons.IH)
  moreover have "tail_run parse (generation_ticks (g # gens)) None pos
      = (case tail_run parse (generation_ticks gens) None ?pos of (es, pos) \<Rightarrow> (events_of parse bs @ es, pos))"
    using tail_run_fresh [OF g_ok, of parse "generation_ticks gens"] by (simp add: generation_ticks_def g)
  ultimately show ?case by (simp add: g split: prod.splits)
qed (simp add: generation_ticks_def)

section \<open>Properties\<close>



text \<open>
  A line seen before its newline is written is split: the offset moves past the missing newline,
  so the poll parses the first part as a line, and the next poll skips one byte of the rest.
\<close>

theorem torn_line_split:
  assumes "a \<noteq> []" and "b \<noteq> []" and "line_ok a" and "line_ok (tl b)"
  shows "fst (tail_run parse [(t1, sees i a), (t2, sees i (a @ b @ [NL]))] None start_pos)
    = List.map_filter (parse t1) [a] @ List.map_filter (parse t2) [tl b]"
proof -
  have a: "NL \<notin> set a" "length a < file_cap" "drop_cr a = a"
    using assms(3) by (auto simp: line_ok_def line_ok_drop_cr)
  have one: "tail_poll (parse t1) (sees i a) None start_pos
      = (List.map_filter (parse t1) [a], \<lparr>offset = length a + 1, lastSize = length a, lastFile = Some i\<rparr>, None, False)"
    using a by (simp add: tail_poll_def sees_def start_pos_def sync_def Let_def scan_unterminated [OF a(1) assms(1)]
        tail_lines_all)
  obtain c b' where b: "b = c # b'" using assms(2) by (cases b) auto
  have "scan_lines file_cap (b' @ [NL]) = ([b'], False)"
    using scan_whole [of "[b']"] assms(4) by (simp add: b)
  then have "fst (tail_poll (parse t2) (sees i (a @ b @ [NL])) None
      \<lparr>offset = length a + 1, lastSize = length a, lastFile = Some i\<rparr>) = List.map_filter (parse t2) [tl b]"
    by (simp add: tail_poll_def sees_def sync_def Let_def b tail_lines_all)
  then obtain r where "tail_poll (parse t2) (sees i (a @ b @ [NL])) None
      \<lparr>offset = length a + 1, lastSize = length a, lastFile = Some i\<rparr> = (List.map_filter (parse t2) [tl b], r)"
    by (metis prod.collapse)
  then show ?thesis by (cases r) (simp add: one)
qed

theorem torn_line_split_witness:
  "map IP (spamtrap_tail ''self'' [(1, sees 7 ''192.0.2.1''), (2, sees 7 (''192.0.2.1'' @ ''7'' @ [NL]))] None)
     = [''192.0.2.1'']"
proof -
  have "fst (tail_run (spamtrap_line ''self'')
      [(1, sees 7 ''192.0.2.1''), (2, sees 7 (''192.0.2.1'' @ ''7'' @ [NL]))] None start_pos)
    = List.map_filter (spamtrap_line ''self'' 1) [''192.0.2.1''] @ List.map_filter (spamtrap_line ''self'' 2) [tl ''7'']"
    by (rule torn_line_split) (simp_all add: line_ok_def NL_def CR_def file_cap_def)
  moreover have "map IP (List.map_filter (spamtrap_line ''self'' 1) [''192.0.2.1''] @
      List.map_filter (spamtrap_line ''self'' 2) [tl ''7'']) = [''192.0.2.1'']"
    by code_simp
  ultimately show ?thesis unfolding spamtrap_tail_def by (simp only:)
qed

text \<open>
  Lines that end in a carriage return are counted one byte short each, so a later poll reads the
  tail of the file again.
\<close>

definition crlf_lines :: "string list \<Rightarrow> string" where
  "crlf_lines ls = concat (map (\<lambda>l. l @ [CR, NL]) ls)"

lemma scan_crlf:
  "\<forall>l \<in> set ls. NL \<notin> set l \<and> length l + 1 < file_cap \<Longrightarrow> scan_lines file_cap (crlf_lines ls) = (ls, False)"
proof (induction ls)
  case (Cons l ls)
  have "crlf_lines (l # ls) = (l @ [CR]) @ NL # crlf_lines ls" by (simp add: crlf_lines_def)
  moreover have "NL \<notin> set (l @ [CR])" "length (l @ [CR]) < file_cap" "drop_cr (l @ [CR]) = l"
    using Cons.prems by (auto simp: NL_def CR_def drop_cr_def)
  ultimately show ?case using Cons by (simp add: scan_line del: append_assoc)
qed (simp add: crlf_lines_def)

lemma crlf_lines_lag:
  assumes "\<forall>l \<in> set ls. NL \<notin> set l \<and> length l + 1 < file_cap"
  shows "offset (fst (snd (tail_poll parse (sees i (crlf_lines ls)) None start_pos))) + length ls
    = length (crlf_lines ls)"
proof -
  have "length (crlf_lines ls) = length (whole_lines ls) + length ls"
    by (induction ls) (simp_all add: crlf_lines_def)
  then show ?thesis
    by (simp add: tail_poll_def sees_def start_pos_def sync_def Let_def scan_crlf [OF assms] tail_lines_all)
qed

end
