(* ===== verification/Pollers.thy ===== *)
theory Pollers
  imports Tailers Time_Format
begin

text \<open>
  The polling sources of \<open>internal/ingest\<close>: the registry (\<open>plugin.go\<close>), the errors of external
  commands (\<open>exec.go\<close>), fail2ban (\<open>fail2ban.go\<close>), the mailcow containers (\<open>mailcow_logs.go\<close>)
  and CrowdSec (\<open>crowdsec.go\<close>). Running a command, the HTTP round trip and JSON decoding are
  parameters.
\<close>

section \<open>The registry\<close>

type_synonym 'src registry = "(string \<times> 'src) list"

definition Register :: "'src registry \<Rightarrow> string \<Rightarrow> 'src \<Rightarrow> 'src registry" where
  "Register reg name factory = AList.update name factory reg"

definition Available :: "'src registry \<Rightarrow> string list" where
  "Available reg = map fst reg"

section \<open>External commands\<close>

definition maxCommandErrorOutput :: nat where
  "maxCommandErrorOutput = 512"

text \<open>
  A failed command: its error and, for an \<open>ExitError\<close>, its captured standard error. The text of
  the result follows the wrapped error.
\<close>

type_synonym cmd_error = "(error \<times> string option) option"

definition commandError :: "cmd_error \<Rightarrow> string \<Rightarrow> error option" where
  "commandError err out =
     (case err of
        None \<Rightarrow> None
      | Some (e, stderr) \<Rightarrow>
          let msg = TrimSpace out;
              msg = (if msg = '''' then (case stderr of Some s \<Rightarrow> TrimSpace s | None \<Rightarrow> msg) else msg)
          in if msg = '''' then Some e
             else let msg = (if length msg > maxCommandErrorOutput
                             then [CHR 0xE2, CHR 0x80, CHR 0xA6] @ drop (length msg - maxCommandErrorOutput) msg
                             else msg)
                  in Some (Wrap msg e))"

text \<open>A fetcher's result: the output, or the error.\<close>

type_synonym command = "string list \<Rightarrow> cmd_error \<times> string"

definition run_command :: "command \<Rightarrow> string list \<Rightarrow> error + string" where
  "run_command sh args =
     (case sh args of (err, out) \<Rightarrow> (case commandError err out of Some e \<Rightarrow> Inl e | None \<Rightarrow> Inr out))"

section \<open>Sending\<close>

text \<open>
  Sends on the channel that block until there is room or the context is done; \<open>budget\<close> as for the
  tailers. The result is what was sent, and whether the context ended first.
\<close>

fun send_all :: "'e list \<Rightarrow> nat option \<Rightarrow> 'e list \<times> nat option \<times> bool" where
  "send_all [] budget = ([], budget, False)"
| "send_all (e # es) budget =
     (case budget of
        Some 0 \<Rightarrow> ([], budget, True)
      | _ \<Rightarrow> (case send_all es (map_option (\<lambda>n. n - 1) budget) of (sent, r) \<Rightarrow> (e # sent, r)))"

lemma send_all_None [simp]: "send_all es None = (es, None, False)"
  by (induction es) auto

lemma send_all_prefix: "send_all es budget = (sent, b, stop) \<Longrightarrow> sent = take (length sent) es \<and> (\<not> stop \<longrightarrow> sent = es)"
  by (induction es budget arbitrary: sent b rule: send_all.induct)
    (auto split: option.splits nat.splits prod.splits)

section \<open>fail2ban\<close>

definition dockerBanned :: "command \<Rightarrow> string \<Rightarrow> error + string" where
  "dockerBanned sh container = run_command sh [''docker'', ''exec'', container, ''fail2ban-client'', ''banned'']"

definition localBanned :: "command \<Rightarrow> string \<Rightarrow> error + string" where
  "localBanned sh container = run_command sh [''fail2ban-client'', ''banned'']"

definition builtinJailReasons :: "string \<rightharpoonup> string" where
  "builtinJailReasons = map_of
     [(''sshd'', ''ssh-auth-bruteforce''), (''ssh'', ''ssh-auth-bruteforce''),
      (''postfix'', ''smtp-auth-bruteforce''), (''postfix-sasl'', ''smtp-auth-bruteforce''),
      (''dovecot'', ''imap-auth-bruteforce''), (''nginx-http-auth'', ''http-auth-bruteforce''),
      (''apache-auth'', ''http-auth-bruteforce''), (''wordpress'', ''http-wp-bruteforce''),
      (''recidive'', ''recidive'')]"

definition builtinJailPrefixes :: "(string \<times> string) list" where
  "builtinJailPrefixes =
     [(''sshd-'', ''ssh-auth-bruteforce''), (''postfix-'', ''smtp-auth-bruteforce''),
      (''dovecot-'', ''imap-auth-bruteforce''), (''nginx-'', ''http-auth-bruteforce''),
      (''apache-'', ''http-auth-bruteforce''), (''wp-'', ''http-wp-bruteforce'')]"

record Fail2Ban =
  f2b_cfg :: Fail2BanConfig
  f2b_self :: string
  f2b_fetcher :: "(command \<Rightarrow> string \<Rightarrow> error + string) option"

definition NewFail2BanWithFetcher :: "Fail2BanConfig \<Rightarrow> string \<Rightarrow> (command \<Rightarrow> string \<Rightarrow> error + string) option \<Rightarrow> Fail2Ban" where
  "NewFail2BanWithFetcher cfg selfID f =
     (let cfg = (if f2b_Container cfg = '''' then cfg\<lparr>f2b_Container := ''fail2ban''\<rparr> else cfg)
      in \<lparr>f2b_cfg = cfg, f2b_self = selfID, f2b_fetcher = f\<rparr>)"

definition NewFail2Ban :: "Fail2BanConfig \<Rightarrow> string \<Rightarrow> Fail2Ban" where
  "NewFail2Ban cfg selfID =
     NewFail2BanWithFetcher cfg selfID
       (if f2b_Mode cfg = '''' \<or> f2b_Mode cfg = ''docker'' then Some dockerBanned
        else if f2b_Mode cfg = ''local'' then Some localBanned
        else None)"

fun prefix_reason :: "(string \<times> string) list \<Rightarrow> string \<Rightarrow> string option" where
  "prefix_reason [] jail = None"
| "prefix_reason ((p, r) # ps) jail = (if HasPrefix jail p then Some r else prefix_reason ps jail)"

definition resolveReason :: "Fail2Ban \<Rightarrow> string \<Rightarrow> string" where
  "resolveReason f jail =
     (case f2b_JailReasons (f2b_cfg f) jail of
        Some r \<Rightarrow> r
      | None \<Rightarrow> (case builtinJailReasons jail of
            Some r \<Rightarrow> r
          | None \<Rightarrow> (case prefix_reason builtinJailPrefixes jail of
                Some r \<Rightarrow> r
              | None \<Rightarrow> ''fail2ban-'' @ jail)))"

text \<open>
  The decoded answer: a list of maps from jails to addresses, each as a list in the order the map
  is iterated. The result maps an address to the last jail it was found in.
\<close>

type_synonym bans = "(string \<times> string list) list list"

definition parseBanned :: "(string \<Rightarrow> error + bans) \<Rightarrow> string \<Rightarrow> error + (string \<times> string) list" where
  "parseBanned decode data =
     (case decode data of
        Inl e \<Rightarrow> Inl e
      | Inr raw \<Rightarrow>
          Inr (fold (\<lambda>jailMap result.
                 fold (\<lambda>(jail, ips) result. fold (\<lambda>ip result. AList.update ip jail result) ips result) jailMap result)
               raw []))"

text \<open>
  The loop over the current bans: it sends a report for each address not seen, and marks it seen
  once the report is sent.
\<close>

fun emit_bans ::
  "Fail2Ban \<Rightarrow> time \<Rightarrow> (string \<times> string) list \<Rightarrow> string set \<Rightarrow> nat option
     \<Rightarrow> Event list \<times> string set \<times> nat option \<times> bool" where
  "emit_bans f now [] seen budget = ([], seen, budget, False)"
| "emit_bans f now ((ip, jail) # bs) seen budget =
     (if ip \<in> seen then emit_bans f now bs seen budget
      else case budget of
          Some 0 \<Rightarrow> ([], seen, budget, True)
        | _ \<Rightarrow> (case emit_bans f now bs (insert ip seen) (map_option (\<lambda>n. n - 1) budget) of
                  (es, r) \<Rightarrow> (report ip (resolveReason f jail) now (f2b_self f) # es, r)))"

definition fail2ban_poll ::
  "(string \<Rightarrow> error + bans) \<Rightarrow> Fail2Ban \<Rightarrow> time \<Rightarrow> error + string \<Rightarrow> string set \<Rightarrow> nat option
     \<Rightarrow> Event list \<times> string set \<times> nat option \<times> bool" where
  "fail2ban_poll decode f now fetched seen budget =
     (case fetched of
        Inl _ \<Rightarrow> ([], seen, budget, False)
      | Inr data \<Rightarrow>
          (case parseBanned decode data of
             Inl _ \<Rightarrow> ([], seen, budget, False)
           | Inr current \<Rightarrow>
               (case emit_bans f now current seen budget of
                  (es, seen, budget, stop) \<Rightarrow>
                    if stop then (es, seen, budget, True)
                    else (es, {ip \<in> seen. ip \<in> set (keys current)}, budget, False))))"

text \<open>The ticks of \<open>run\<close>, each with its time and what the fetcher returned.\<close>

fun fail2ban_run ::
  "(string \<Rightarrow> error + bans) \<Rightarrow> Fail2Ban \<Rightarrow> (time \<times> (error + string)) list \<Rightarrow> string set \<Rightarrow> nat option
     \<Rightarrow> Event list \<times> string set" where
  "fail2ban_run decode f [] seen budget = ([], seen)"
| "fail2ban_run decode f ((now, fetched) # ticks) seen budget =
     (case fail2ban_poll decode f now fetched seen budget of
        (es, seen, budget, stop) \<Rightarrow>
          if stop then (es, seen)
          else (case fail2ban_run decode f ticks seen budget of (es', seen) \<Rightarrow> (es @ es', seen)))"

text \<open>\<open>Start\<close> refuses an unknown mode; otherwise each tick calls the fetcher on the container.\<close>

definition fail2ban_Start ::
  "(string \<Rightarrow> error + bans) \<Rightarrow> Fail2Ban \<Rightarrow> (time \<times> command) list \<Rightarrow> nat option \<Rightarrow> error + Event list" where
  "fail2ban_Start decode f ticks budget =
     (case f2b_fetcher f of
        None \<Rightarrow> Inl (Fault ''fail2ban: unknown mode'')
      | Some fetch \<Rightarrow>
          Inr (fst (fail2ban_run decode f (map (\<lambda>(t, sh). (t, fetch sh (f2b_Container (f2b_cfg f)))) ticks) {} budget)))"

definition fail2ban_interval :: "Fail2BanConfig \<Rightarrow> duration" where
  "fail2ban_interval cfg = (if f2b_PollInterval cfg \<le> 0 then 30 * second else f2b_PollInterval cfg)"

section \<open>Mailcow\<close>

text \<open>
  The two regular expressions, as leftmost matchers. Each is deterministic: a run of one to three
  digits is taken whole before the character that must follow it, \<open>\\S+\<close> ends at the first white
  space, \<open>[^)]*\<close> at the first parenthesis, and the lazy \<open>.*?\<close> tries the positions in order.
\<close>

definition strip :: "string \<Rightarrow> string \<Rightarrow> string option" where
  "strip p s = (if HasPrefix s p then Some (drop (length p) s) else None)"

definition digits13 :: "string \<Rightarrow> (string \<times> string) option" where
  "digits13 s =
     (let ds = takeWhile is_digit (take 3 s) in if ds = [] then None else Some (ds, drop (length ds) s))"

text \<open>\<open>n\<close> groups of digits and a dot, and then digits: the text matched and the rest.\<close>

fun dotted :: "nat \<Rightarrow> string \<Rightarrow> (string \<times> string) option" where
  "dotted 0 s = digits13 s"
| "dotted (Suc n) s =
     (case digits13 s of
        None \<Rightarrow> None
      | Some (ds, s) \<Rightarrow>
          (case strip ''.'' s of
             None \<Rightarrow> None
           | Some s \<Rightarrow> (case dotted n s of None \<Rightarrow> None | Some (m, s) \<Rightarrow> Some (ds @ ''.'' @ m, s))))"

definition re_space :: "char \<Rightarrow> bool" where
  "re_space c \<longleftrightarrow> (of_char c :: nat) \<in> {9, 10, 12, 13, 32}"

fun find_first :: "(string \<Rightarrow> 'a option) \<Rightarrow> string \<Rightarrow> 'a option" where
  "find_first m s = (case m s of Some x \<Rightarrow> Some x | None \<Rightarrow> (case s of [] \<Rightarrow> None | _ # s \<Rightarrow> find_first m s))"

definition postfix_at :: "string \<Rightarrow> string option" where
  "postfix_at s =
     (case strip ''['' s of
        None \<Rightarrow> None
      | Some s \<Rightarrow>
          (case dotted 3 s of
             None \<Rightarrow> None
           | Some (ip, s) \<Rightarrow>
               (case strip '']: SASL '' s of
                  None \<Rightarrow> None
                | Some s \<Rightarrow>
                    let word = takeWhile (\<lambda>c. \<not> re_space c) s
                    in if word = [] then None
                       else if HasPrefix (drop (length word) s) '' authentication failed'' then Some ip else None)))"

definition postfixSASL :: "string \<Rightarrow> string option" where
  "postfixSASL line = find_first postfix_at line"

definition rip_at :: "string \<Rightarrow> string option" where
  "rip_at s =
     (case strip ''rip='' s of
        None \<Rightarrow> None
      | Some s \<Rightarrow>
          (case dotted 3 s of
             None \<Rightarrow> None
           | Some (ip, s) \<Rightarrow> if HasPrefix s '','' then Some ip else None))"

definition dovecot_proto :: "string \<Rightarrow> string \<Rightarrow> (string \<times> string) option" where
  "dovecot_proto p s =
     (case strip (p @ ''-login: Disconnected (auth failed'') s of
        None \<Rightarrow> None
      | Some s \<Rightarrow>
          (case strip '')'' (dropWhile (\<lambda>c. c \<noteq> CHR '')'') s) of
             None \<Rightarrow> None
           | Some s \<Rightarrow> (case find_first rip_at s of None \<Rightarrow> None | Some ip \<Rightarrow> Some (p, ip))))"

definition dovecotAuth :: "string \<Rightarrow> (string \<times> string) option" where
  "dovecotAuth line =
     find_first (\<lambda>s. case dovecot_proto ''imap'' s of Some x \<Rightarrow> Some x | None \<Rightarrow> dovecot_proto ''pop3'' s) line"

record MailcowLogs =
  ml_cfg :: MailcowConfig
  ml_self :: string

definition NewMailcowWithFetcher :: "MailcowConfig \<Rightarrow> string \<Rightarrow> MailcowLogs" where
  "NewMailcowWithFetcher cfg selfID =
     (let cfg = (if mc_PostfixContainer cfg = '''' then cfg\<lparr>mc_PostfixContainer := ''mailcowdockerized-postfix-1''\<rparr> else cfg);
          cfg = (if mc_DovecotContainer cfg = '''' then cfg\<lparr>mc_DovecotContainer := ''mailcowdockerized-dovecot-1''\<rparr> else cfg)
      in \<lparr>ml_cfg = cfg, ml_self = selfID\<rparr>)"

text \<open>\<open>CombinedOutput\<close> leaves no captured standard error in the \<open>ExitError\<close>.\<close>

definition dockerFetch :: "command \<Rightarrow> string \<Rightarrow> string \<Rightarrow> error + string" where
  "dockerFetch sh container since = run_command sh [''docker'', ''logs'', ''--since'', since, container]"

text \<open>The default buffer of a scanner; the loops do not look at the scanner's error.\<close>

definition default_cap :: nat where
  "default_cap = 2 ^ 16"

definition postfix_events :: "MailcowLogs \<Rightarrow> time \<Rightarrow> string \<Rightarrow> Event list" where
  "postfix_events m now data =
     List.map_filter (\<lambda>line. case postfixSASL line of
         None \<Rightarrow> None
       | Some ip \<Rightarrow> Some (report ip ''smtp-auth-bruteforce'' now (ml_self m))) (fst (scan_lines default_cap data))"

definition dovecot_events :: "MailcowLogs \<Rightarrow> time \<Rightarrow> string \<Rightarrow> Event list" where
  "dovecot_events m now data =
     List.map_filter (\<lambda>line. case dovecotAuth line of
         None \<Rightarrow> None
       | Some (p, ip) \<Rightarrow> Some (report ip (p @ ''-auth-bruteforce'') now (ml_self m))) (fst (scan_lines default_cap data))"

definition pollPostfix :: "command \<Rightarrow> MailcowLogs \<Rightarrow> time \<Rightarrow> string \<Rightarrow> nat option \<Rightarrow> Event list \<times> nat option \<times> bool" where
  "pollPostfix sh m now since budget =
     (case dockerFetch sh (mc_PostfixContainer (ml_cfg m)) since of
        Inl _ \<Rightarrow> ([], budget, False)
      | Inr data \<Rightarrow> send_all (postfix_events m now data) budget)"

definition pollDovecot :: "command \<Rightarrow> MailcowLogs \<Rightarrow> time \<Rightarrow> string \<Rightarrow> nat option \<Rightarrow> Event list \<times> nat option \<times> bool" where
  "pollDovecot sh m now since budget =
     (case dockerFetch sh (mc_DovecotContainer (ml_cfg m)) since of
        Inl _ \<Rightarrow> ([], budget, False)
      | Inr data \<Rightarrow> send_all (dovecot_events m now data) budget)"

text \<open>
  The ticks: both containers are asked for the lines since the previous tick. A poll that ends with
  the context leaves \<open>run\<close> at its next turn.
\<close>

fun mailcow_run :: "MailcowLogs \<Rightarrow> (time \<times> command) list \<Rightarrow> string \<Rightarrow> nat option \<Rightarrow> Event list" where
  "mailcow_run m [] since budget = []"
| "mailcow_run m ((now, sh) # ticks) since budget =
     (let nextSince = RFC3339 now
      in case pollPostfix sh m now since budget of
           (es1, budget, stop1) \<Rightarrow>
             (case pollDovecot sh m now since budget of
                (es2, budget, stop2) \<Rightarrow>
                  es1 @ es2 @ (if stop1 \<or> stop2 then [] else mailcow_run m ticks nextSince budget)))"

definition mailcow_interval :: "MailcowConfig \<Rightarrow> duration" where
  "mailcow_interval cfg = (if mc_PollInterval cfg \<le> 0 then 30 * second else mc_PollInterval cfg)"

text \<open>\<open>run\<close> looks back one interval on its first poll.\<close>

definition mailcow_Start :: "MailcowLogs \<Rightarrow> time \<Rightarrow> (time \<times> command) list \<Rightarrow> nat option \<Rightarrow> Event list" where
  "mailcow_Start m now ticks budget =
     mailcow_run m ticks (RFC3339 (Add now (- mailcow_interval (ml_cfg m)))) budget"

section \<open>CrowdSec\<close>

definition scenarioMap :: "string \<rightharpoonup> string" where
  "scenarioMap = map_of
     [(''crowdsecurity/ssh-bf'', ''ssh-auth-bruteforce''), (''crowdsecurity/ssh-slow-bf'', ''ssh-auth-bruteforce''),
      (''crowdsecurity/ssh-bf-wordpress'', ''ssh-auth-bruteforce''), (''crowdsecurity/http-probing'', ''http-probe''),
      (''crowdsecurity/http-bf'', ''http-probe''), (''crowdsecurity/smtp-bf'', ''smtp-auth-bruteforce'')]"

definition mapScenario :: "string \<Rightarrow> string" where
  "mapScenario scenario =
     (case scenarioMap scenario of
        Some r \<Rightarrow> r
      | None \<Rightarrow> if CHR ''/'' \<in> set scenario then last (Split scenario CHR ''/'') else scenario)"

record CrowdSecSource =
  csn_cfg :: CrowdSecConfig
  csn_self :: string
  startup :: bool
  lastAlert :: time
  jwt :: string
  jwtExpiry :: time

definition NewCrowdSec :: "CrowdSecConfig \<Rightarrow> string \<Rightarrow> CrowdSecSource" where
  "NewCrowdSec cfg selfID =
     \<lparr>csn_cfg = cfg, csn_self = selfID, startup = True, lastAlert = zero_time, jwt = '''', jwtExpiry = zero_time\<rparr>"

text \<open>The three requests the source makes, with their credentials.\<close>

datatype cs_request = Login string string string | Bouncer string string | Machine string string

text \<open>The transport: an error, or a status code and a body.\<close>

type_synonym lapi = "cs_request \<Rightarrow> error + int \<times> string"

record csAuthResp =
  Token :: string
  Expire :: string

record csDecision =
  dec_Value :: string
  dec_Type :: string
  dec_Scenario :: string
  dec_Origin :: string

record csAlert =
  al_IP :: string
  al_Scenario :: string
  StartAt :: string

text \<open>The decoders, and \<open>time.Parse\<close> of RFC 3339.\<close>

record cs_json =
  dec_auth :: "string \<Rightarrow> error + csAuthResp"
  dec_stream :: "string \<Rightarrow> error + csDecision list"
  dec_alerts :: "string \<Rightarrow> error + csAlert list"
  parse_time :: "string \<Rightarrow> time option"

definition lapi_do :: "lapi \<Rightarrow> cs_request \<Rightarrow> error + string" where
  "lapi_do net req =
     (case net req of
        Inl e \<Rightarrow> Inl e
      | Inr (status, body) \<Rightarrow> if status \<noteq> 200 then Inl (Fault ''LAPI status'') else Inr body)"

definition authenticate ::
  "cs_json \<Rightarrow> lapi \<Rightarrow> time \<Rightarrow> CrowdSecSource \<Rightarrow> error option \<times> CrowdSecSource" where
  "authenticate J net now c =
     (case net (Login (cs_LAPIURL (csn_cfg c) @ ''/v1/watchers/login'') (cs_MachineID (csn_cfg c))
                 (cs_MachinePassword (csn_cfg c))) of
        Inl e \<Rightarrow> (Some e, c)
      | Inr (status, body) \<Rightarrow>
          if status \<noteq> 200 then (Some (Fault ''auth returned''), c)
          else (case dec_auth J body of
                  Inl e \<Rightarrow> (Some e, c)
                | Inr ar \<Rightarrow>
                    let expiry = (case parse_time J (Expire ar) of Some t \<Rightarrow> t | None \<Rightarrow> Add now (23 * hour))
                    in (None, c\<lparr>jwt := Token ar, jwtExpiry := expiry\<rparr>)))"

definition getWithBouncer :: "lapi \<Rightarrow> CrowdSecSource \<Rightarrow> string \<Rightarrow> error + string" where
  "getWithBouncer net c url = lapi_do net (Bouncer url (cs_APIKey (csn_cfg c)))"

definition getWithMachine ::
  "cs_json \<Rightarrow> lapi \<Rightarrow> time \<Rightarrow> CrowdSecSource \<Rightarrow> string \<Rightarrow> (error + string) \<times> CrowdSecSource" where
  "getWithMachine J net now c url =
     (let needsRefresh = (jwt c = '''' \<or> After now (Add (jwtExpiry c) (- 5 * minute)));
          (err, c) = (if needsRefresh then authenticate J net now c else (None, c))
      in case err of
           Some e \<Rightarrow> (Inl (Wrap ''crowdsec: re-authenticate'' e), c)
         | None \<Rightarrow> (lapi_do net (Machine url (jwt c)), c))"

definition decision_events :: "CrowdSecSource \<Rightarrow> time \<Rightarrow> csDecision list \<Rightarrow> Event list" where
  "decision_events c now ds =
     List.map_filter (\<lambda>d.
       if dec_Type d \<noteq> ''ban'' \<or> dec_Value d = '''' then None
       else if dec_Origin d = ''capi'' \<or> dec_Origin d = ''lists'' then None
       else Some (report (dec_Value d) (mapScenario (dec_Scenario d)) now (csn_self c))) ds"

definition fetchDecisions ::
  "cs_json \<Rightarrow> lapi \<Rightarrow> time \<Rightarrow> nat option \<Rightarrow> CrowdSecSource \<Rightarrow> Event list \<times> nat option \<times> bool \<times> CrowdSecSource" where
  "fetchDecisions J net now budget c =
     (let u = cs_LAPIURL (csn_cfg c) @ ''/v1/decisions/stream?startup='' @ (if startup c then ''true'' else ''false'')
      in case getWithBouncer net c u of
           Inl _ \<Rightarrow> ([], budget, False, c)
         | Inr body \<Rightarrow>
             (case dec_stream J body of
                Inl _ \<Rightarrow> ([], budget, False, c)
              | Inr ds \<Rightarrow>
                  let c = c\<lparr>startup := False\<rparr>
                  in (case send_all (decision_events c now ds) budget of
                        (es, budget, stop) \<Rightarrow> (es, budget, stop, c))))"

text \<open>
  The look-back of an alert query, and its text in whole seconds. \<open>time.Since\<close> runs on the
  monotonic clock and is never negative.
\<close>

definition since_dur :: "CrowdSecSource \<Rightarrow> time \<Rightarrow> duration" where
  "since_dur c now = (if IsZero (lastAlert c) then 24 * hour else Sub now (lastAlert c) + 10 * second)"

definition since_text :: "CrowdSecSource \<Rightarrow> time \<Rightarrow> string" where
  "since_text c now =
     itoa (nat (whole_seconds (since_dur c now))) @ ''s''"

definition alert_events :: "cs_json \<Rightarrow> CrowdSecSource \<Rightarrow> time \<Rightarrow> csAlert list \<Rightarrow> Event list" where
  "alert_events J c pollTime alerts =
     List.map_filter (\<lambda>a.
       if al_IP a = '''' then None
       else case ParseAddr (al_IP a) of
           None \<Rightarrow> None
         | Some addr \<Rightarrow>
             let ts = (case parse_time J (StartAt a) of Some t \<Rightarrow> t | None \<Rightarrow> pollTime)
             in Some (report (addr_String (Unmap addr)) (mapScenario (al_Scenario a)) ts (csn_self c))) alerts"

text \<open>
  \<open>fetchAlerts\<close> reads the clock when it computes the look-back, in the token check, and after the
  answer; a fetch the context interrupts leaves \<open>lastAlert\<close> alone.
\<close>

definition fetchAlerts ::
  "cs_json \<Rightarrow> lapi \<Rightarrow> time \<Rightarrow> time \<Rightarrow> nat option \<Rightarrow> CrowdSecSource
     \<Rightarrow> Event list \<times> nat option \<times> bool \<times> CrowdSecSource" where
  "fetchAlerts J net asked pollTime budget c =
     (let u = cs_LAPIURL (csn_cfg c) @ ''/v1/alerts?since='' @ since_text c asked @ ''&limit=500''
      in case getWithMachine J net asked c u of
           (Inl _, c) \<Rightarrow> ([], budget, False, c)
         | (Inr body, c) \<Rightarrow>
             (case dec_alerts J body of
                Inl _ \<Rightarrow> ([], budget, False, c)
              | Inr alerts \<Rightarrow>
                  (case send_all (alert_events J c pollTime alerts) budget of
                     (es, budget, stop) \<Rightarrow>
                       (es, budget, stop, if stop then c else c\<lparr>lastAlert := pollTime\<rparr>))))"

text \<open>One tick of the goroutine, and its run; a tick is what the clock and the service answer.\<close>

definition crowdsec_tick ::
  "cs_json \<Rightarrow> lapi \<times> time \<times> time \<Rightarrow> nat option \<Rightarrow> CrowdSecSource
     \<Rightarrow> Event list \<times> nat option \<times> bool \<times> CrowdSecSource" where
  "crowdsec_tick J tk budget c =
     (case tk of (net, asked, pollTime) \<Rightarrow>
        (case (if cs_EnableDecisions (csn_cfg c) then fetchDecisions J net asked budget c else ([], budget, False, c)) of
           (es1, budget, stop1, c) \<Rightarrow>
             (case (if cs_EnableAlerts (csn_cfg c) then fetchAlerts J net asked pollTime budget c else ([], budget, False, c)) of
                (es2, budget, stop2, c) \<Rightarrow> (es1 @ es2, budget, stop1 \<or> stop2, c))))"

fun crowdsec_run ::
  "cs_json \<Rightarrow> (lapi \<times> time \<times> time) list \<Rightarrow> nat option \<Rightarrow> CrowdSecSource \<Rightarrow> Event list \<times> CrowdSecSource" where
  "crowdsec_run J [] budget c = ([], c)"
| "crowdsec_run J (tk # tks) budget c =
     (case crowdsec_tick J tk budget c of
        (es, budget, stop, c) \<Rightarrow>
          if stop then (es, c)
          else (case crowdsec_run J tks budget c of (es', c) \<Rightarrow> (es @ es', c)))"

definition crowdsec_Start ::
  "cs_json \<Rightarrow> lapi \<Rightarrow> time \<Rightarrow> CrowdSecSource \<Rightarrow> error option \<times> CrowdSecSource" where
  "crowdsec_Start J net now c =
     (let cfg = csn_cfg c;
          hasMachine = (cs_MachineID cfg \<noteq> '''' \<and> cs_MachinePassword cfg \<noteq> '''')
      in if cs_LAPIURL cfg = '''' then (Some (Fault ''crowdsec: lapi_url is required''), c)
         else if cs_EnableDecisions cfg \<and> cs_APIKey cfg = ''''
         then (Some (Fault ''crowdsec: api_key required for enable_decisions''), c)
         else if cs_EnableAlerts cfg \<and> \<not> hasMachine
         then (Some (Fault ''crowdsec: machine_id + machine_password required for enable_alerts''), c)
         else if \<not> cs_EnableDecisions cfg \<and> \<not> cs_EnableAlerts cfg
         then (Some (Fault ''crowdsec: at least one of enable_decisions or enable_alerts must be true''), c)
         else if hasMachine \<and> cs_EnableAlerts cfg
         then (case authenticate J net now c of
                 (Some e, c) \<Rightarrow> (Some (Wrap ''crowdsec: initial auth'' e), c)
               | (None, c) \<Rightarrow> (None, c))
         else (None, c))"

definition crowdsec_interval :: "CrowdSecConfig \<Rightarrow> duration" where
  "crowdsec_interval cfg = (if cs_PollInterval cfg \<le> 0 then 30 * second else cs_PollInterval cfg)"

section \<open>What the sources report\<close>

lemma postfixSASL_example:
  "postfixSASL ''warning: unknown[192.0.2.10]: SASL LOGIN authentication failed: x'' = Some ''192.0.2.10''"
  "postfixSASL ''warning: unknown[192.0.2.1000]: SASL LOGIN authentication failed'' = None"
  by code_simp+

lemma dovecotAuth_example:
  "dovecotAuth ''pop3-login: Disconnected (auth failed, 1 attempts): rip=1.2.3.4x, rip=192.0.2.7, lip=10.0.0.1''
     = Some (''pop3'', ''192.0.2.7'')"
  by code_simp

text \<open>Blocklists of third parties are never redistributed.\<close>

lemma decision_events_own:
  "e \<in> set (decision_events c now ds) \<Longrightarrow>
     \<exists>d \<in> set ds. dec_Type d = ''ban'' \<and> dec_Origin d \<notin> {''capi'', ''lists''} \<and> IP e = dec_Value d \<and> IP e \<noteq> ''''"
  by (auto simp: decision_events_def List.map_filter_def report_def split: if_splits)

lemma keys_fold_update: "distinct (keys m) \<Longrightarrow> distinct (keys (fold (\<lambda>ip r. AList.update ip jail r) ips m))"
  by (induction ips arbitrary: m) (auto simp: distinct_update)

lemma keys_fold_jails:
  "distinct (keys m) \<Longrightarrow>
     distinct (keys (fold (\<lambda>(jail, ips) r. fold (\<lambda>ip r. AList.update ip jail r) ips r) jm m))"
  by (induction jm arbitrary: m) (auto simp: keys_fold_update)

lemma parseBanned_distinct: "parseBanned decode data = Inr cur \<Longrightarrow> distinct (keys cur)"
proof -
  have "distinct (keys m) \<Longrightarrow> distinct (keys (fold (\<lambda>jm r. fold (\<lambda>(jail, ips) r.
      fold (\<lambda>ip r. AList.update ip jail r) ips r) jm r) raw m))" for m :: "(string \<times> string) list" and raw
    by (induction raw arbitrary: m) (auto simp: keys_fold_jails)
  then show "parseBanned decode data = Inr cur \<Longrightarrow> distinct (keys cur)"
    by (auto simp: parseBanned_def split: sum.splits)
qed

lemma emit_bans_all:
  "distinct (keys bs) \<Longrightarrow> emit_bans f now bs seen None =
     (map (\<lambda>(ip, jail). report ip (resolveReason f jail) now (f2b_self f)) (filter (\<lambda>x. fst x \<notin> seen) bs),
      seen \<union> set (keys bs), None, False)"
proof (induction bs arbitrary: seen)
  case (Cons x bs)
  obtain ip jail where x: "x = (ip, jail)" by (cases x)
  have "filter (\<lambda>x. fst x \<notin> insert ip seen) bs = filter (\<lambda>x. fst x \<notin> seen) bs"
    using Cons.prems by (intro filter_cong) (auto simp: x)
  with Cons show ?case by (auto simp: x)
qed simp

text \<open>The addresses of the last answer that decoded.\<close>

definition banned_after :: "(string \<Rightarrow> error + bans) \<Rightarrow> (time \<times> (error + string)) list \<Rightarrow> string set \<Rightarrow> string set" where
  "banned_after decode ticks seen = fold (\<lambda>(t, fetched) acc.
     (case fetched of Inl _ \<Rightarrow> acc
      | Inr d \<Rightarrow> (case parseBanned decode d of Inl _ \<Rightarrow> acc | Inr cur \<Rightarrow> set (keys cur)))) ticks seen"

definition new_bans :: "Fail2Ban \<Rightarrow> time \<Rightarrow> (string \<times> string) list \<Rightarrow> string set \<Rightarrow> Event list" where
  "new_bans f now cur seen =
     map (\<lambda>(ip, jail). report ip (resolveReason f jail) now (f2b_self f)) (filter (\<lambda>x. fst x \<notin> seen) cur)"

lemma fail2ban_poll_all:
  "fail2ban_poll decode f now fetched seen None =
     (case fetched of
        Inl _ \<Rightarrow> ([], seen, None, False)
      | Inr d \<Rightarrow> (case parseBanned decode d of
            Inl _ \<Rightarrow> ([], seen, None, False)
          | Inr cur \<Rightarrow> (new_bans f now cur seen, set (keys cur), None, False)))"
  by (auto simp: fail2ban_poll_def emit_bans_all new_bans_def dest!: parseBanned_distinct split: sum.splits)

lemma fail2ban_run_append:
  "fail2ban_run decode f (xs @ ys) seen None =
     (case fail2ban_run decode f xs seen None of
        (es, seen) \<Rightarrow> (case fail2ban_run decode f ys seen None of (es', seen) \<Rightarrow> (es @ es', seen)))"
  by (induction xs arbitrary: seen)
    (auto simp: fail2ban_poll_all split: sum.splits prod.splits)

lemma fail2ban_run_seen: "snd (fail2ban_run decode f ticks seen None) = banned_after decode ticks seen"
  by (induction ticks arbitrary: seen)
    (auto simp: banned_after_def fail2ban_poll_all case_prod_unfold split: sum.splits)

section \<open>The alert window\<close>

definition alerts_answered :: "cs_json \<Rightarrow> lapi \<Rightarrow> time \<Rightarrow> CrowdSecSource \<Rightarrow> bool" where
  "alerts_answered J net asked c \<longleftrightarrow>
     (case fst (getWithMachine J net asked c
              (cs_LAPIURL (csn_cfg c) @ ''/v1/alerts?since='' @ since_text c asked @ ''&limit=500'')) of
        Inl _ \<Rightarrow> False
      | Inr body \<Rightarrow> (case dec_alerts J body of Inl _ \<Rightarrow> False | Inr _ \<Rightarrow> True))"

definition after_alerts :: "cs_json \<Rightarrow> lapi \<times> time \<times> time \<Rightarrow> CrowdSecSource \<Rightarrow> CrowdSecSource" where
  "after_alerts J tk c = (case tk of (net, asked, pollTime) \<Rightarrow> snd (snd (snd (fetchAlerts J net asked pollTime None c))))"

fun outage :: "cs_json \<Rightarrow> (lapi \<times> time \<times> time) list \<Rightarrow> CrowdSecSource \<Rightarrow> bool" where
  "outage J [] c = True"
| "outage J ((net, asked, pollTime) # tks) c \<longleftrightarrow>
     \<not> alerts_answered J net asked c \<and> outage J tks (after_alerts J (net, asked, pollTime) c)"

lemma getWithMachine_lastAlert: "lastAlert (snd (getWithMachine J net now c u)) = lastAlert c"
  by (auto simp: getWithMachine_def authenticate_def Let_def split: sum.splits prod.splits option.splits if_splits)

lemma after_alerts_lastAlert:
  "lastAlert (after_alerts J (net, asked, pollTime) c) = (if alerts_answered J net asked c then pollTime else lastAlert c)"
proof -
  let ?u = "cs_LAPIURL (csn_cfg c) @ ''/v1/alerts?since='' @ since_text c asked @ ''&limit=500''"
  obtain r c' where r: "getWithMachine J net asked c ?u = (r, c')" by (cases "getWithMachine J net asked c ?u")
  with getWithMachine_lastAlert [of J net asked c ?u] show ?thesis
    by (cases r) (auto simp: after_alerts_def fetchAlerts_def alerts_answered_def Let_def split: sum.splits)
qed

lemma outage_lastAlert: "outage J tks c \<Longrightarrow> lastAlert (fold (after_alerts J) tks c) = lastAlert c"
  by (induction J tks c rule: outage.induct) (auto simp: after_alerts_lastAlert)

lemma since_dur_covers:
  assumes "lastAlert c = polled" "polled \<noteq> zero_time" and "polled \<le> asked" and "asked - polled < 2 ^ 63"
  shows "asked - polled + 9 * second < whole_seconds (since_dur c asked) * second"
proof -
  have "since_dur c asked = asked - polled + 10 * second"
    using assms by (simp add: since_dur_def IsZero_def Sub_in_range)
  then show ?thesis
    using div_mult_mod_eq [of "since_dur c asked" second] pos_mod_bound [of second "since_dur c asked"]
    by (simp add: whole_seconds_def second_def)
qed

section \<open>Properties\<close>

text \<open>
  C35. A fail2ban ban is reported once per episode: a poll that is answered reports exactly the
  addresses banned now and not in the last answer before, each once, under the reason of its jail;
  polls that fail report nothing and forget nothing.
\<close>

theorem fail2ban_edge_triggered:
  assumes "parseBanned decode data = Inr cur"
  shows "\<exists>es. fst (fail2ban_run decode f (ticks @ [(now, Inr data)]) {} None) = fst (fail2ban_run decode f ticks {} None) @ es
    \<and> distinct (map IP es) \<and> IP ` set es = set (keys cur) - banned_after decode ticks {}
    \<and> (\<forall>e \<in> set es. \<exists>jail. (IP e, jail) \<in> set cur \<and> Reason e = resolveReason f jail \<and> ReporterID e = f2b_self f)"
proof -
  let ?seen = "banned_after decode ticks {}"
  let ?es = "new_bans f now cur ?seen"
  have d: "distinct (keys cur)" using assms by (rule parseBanned_distinct)
  have ips: "map IP ?es = filter (\<lambda>k. k \<notin> ?seen) (keys cur)"
    by (induction cur) (auto simp: new_bans_def report_def)
  have "fst (fail2ban_run decode f (ticks @ [(now, Inr data)]) {} None) = fst (fail2ban_run decode f ticks {} None) @ ?es"
    using fail2ban_run_seen [of decode f ticks "{}"]
    by (simp add: fail2ban_run_append fail2ban_poll_all assms case_prod_unfold)
  moreover have "distinct (map IP ?es)" using d by (simp add: ips)
  moreover have "IP ` set ?es = set (keys cur) - ?seen"
    using arg_cong [OF ips, of set] by auto
  moreover have "\<forall>e \<in> set ?es. \<exists>jail. (IP e, jail) \<in> set cur \<and> Reason e = resolveReason f jail \<and> ReporterID e = f2b_self f"
    by (auto simp: new_bans_def report_def)
  ultimately show ?thesis by blast
qed

definition ex_f2b :: Fail2Ban where
  "ex_f2b = NewFail2Ban \<lparr>f2b_Enabled = True, f2b_Mode = '''', f2b_Container = '''', f2b_PollInterval = 0,
     f2b_JailReasons = Map.empty\<rparr> ''self''"

definition ex_decode :: "string \<Rightarrow> error + bans" where
  "ex_decode d = (if d = ''one'' then Inr [[(''sshd'', [''192.0.2.1''])]]
     else Inr [[(''sshd'', [''192.0.2.1'']), (''nginx-botsearch'', [''192.0.2.2''])]])"

theorem fail2ban_edge_triggered_witness:
  "\<exists>es. fst (fail2ban_run ex_decode ex_f2b [(1, Inr ''one''), (2, Inl (Fault ''down'')), (3, Inr ''two'')] {} None)
       = fst (fail2ban_run ex_decode ex_f2b [(1, Inr ''one''), (2, Inl (Fault ''down''))] {} None) @ es
     \<and> IP ` set es = {''192.0.2.2''}"
proof -
  have two: "parseBanned ex_decode ''two'' = Inr [(''192.0.2.1'', ''sshd''), (''192.0.2.2'', ''nginx-botsearch'')]"
    and one: "parseBanned ex_decode ''one'' = Inr [(''192.0.2.1'', ''sshd'')]"
    by (simp_all add: parseBanned_def ex_decode_def)
  have "banned_after ex_decode [(1, Inr ''one''), (2, Inl (Fault ''down''))] {} = {''192.0.2.1''}"
    by (simp add: banned_after_def one)
  then show ?thesis
    using fail2ban_edge_triggered [OF two, of ex_f2b "[(1, Inr ''one''), (2, Inl (Fault ''down''))]" 3] by auto
qed

text \<open>
  No alert falls between two queries: after an answered query and an outage of any length, the
  next query reaches back to the instant the service evaluated the answered one, as long as the
  two delays around them add up to at most nine seconds.
\<close>

lemma alert_windows_overlap:
  assumes "alerts_answered J net asked c" and "polled \<noteq> zero_time"
    and "outage J failures (after_alerts J (net, asked, polled) c)"
    and "polled \<le> asked'" and "asked' - polled < 2 ^ 63"
    and "(polled - served) + (served' - asked') \<le> 9 * second"
  shows "served' - whole_seconds (since_dur (fold (after_alerts J) failures (after_alerts J (net, asked, polled) c)) asked') * second
    < served"
proof -
  have "lastAlert (fold (after_alerts J) failures (after_alerts J (net, asked, polled) c)) = polled"
    using outage_lastAlert [OF assms(3)] assms(1) by (simp add: after_alerts_lastAlert)
  from since_dur_covers [OF this assms(2,4,5)] assms(6) show ?thesis by simp
qed

definition ex_crowdsec :: CrowdSecSource where
  "ex_crowdsec = (NewCrowdSec \<lparr>cs_Enabled = True, cs_LAPIURL = ''http://lapi'', cs_APIKey = '''', cs_MachineID = ''m'',
     cs_MachinePassword = ''p'', cs_PollInterval = 0, cs_EnableDecisions = False, cs_EnableAlerts = True\<rparr> ''self'')
     \<lparr>jwt := ''token'', jwtExpiry := 10000 * second\<rparr>"

definition ex_cs_json :: cs_json where
  "ex_cs_json = \<lparr>dec_auth = (\<lambda>_. Inl (Fault ''no'')), dec_stream = (\<lambda>_. Inr []), dec_alerts = (\<lambda>_. Inr []),
     parse_time = (\<lambda>_. None)\<rparr>"

lemma alert_windows_example:
  "301 * second - whole_seconds (since_dur (fold (after_alerts ex_cs_json) [(\<lambda>_. Inl (Fault ''down''), 200 * second, 200 * second)]
      (after_alerts ex_cs_json (\<lambda>_. Inr (200, ''[]''), 100 * second, 101 * second) ex_crowdsec)) (300 * second)) * second
    < 100 * second"
proof (rule alert_windows_overlap)
  have ask: "getWithMachine ex_cs_json net t ex_crowdsec u = (lapi_do net (Machine u ''token''), ex_crowdsec)"
    if "t \<le> 9000 * second" for net t u
    using that by (simp add: getWithMachine_def ex_crowdsec_def NewCrowdSec_def After_def Add_def second_def minute_def)
  then show "alerts_answered ex_cs_json (\<lambda>_. Inr (200, ''[]'')) (100 * second) ex_crowdsec"
    by (simp add: alerts_answered_def lapi_do_def ex_cs_json_def second_def)
  have after: "after_alerts ex_cs_json (\<lambda>_. Inr (200, ''[]''), 100 * second, 101 * second) ex_crowdsec
      = ex_crowdsec\<lparr>lastAlert := 101 * second\<rparr>"
    using ask by (simp add: after_alerts_def fetchAlerts_def lapi_do_def Let_def second_def)
      (simp add: ex_cs_json_def alert_events_def List.map_filter_def)
  show "outage ex_cs_json [(\<lambda>_. Inl (Fault ''down''), 200 * second, 200 * second)]
     (after_alerts ex_cs_json (\<lambda>_. Inr (200, ''[]''), 100 * second, 101 * second) ex_crowdsec)"
    unfolding after
    by (simp add: alerts_answered_def getWithMachine_def lapi_do_def ex_crowdsec_def NewCrowdSec_def After_def Add_def
        second_def minute_def authenticate_def)
qed (simp_all add: second_def)

end
