(* ===== verification/Client.thy ===== *)
theory Client
  imports Api Tailers
begin

text \<open>
  The client of the local API, \<open>pkg/client/client.go\<close>. The HTTP round trip, URL escaping and JSON
  are parameters; a response is its status and body.
\<close>

section \<open>Point lookups and the blocklist\<close>

definition TrimRight :: "string \<Rightarrow> char \<Rightarrow> string" where
  "TrimRight s c = rev (dropWhile (\<lambda>x. x = c) (rev s))"

record ApiClient =
  baseURL :: string

definition client_New :: "string \<Rightarrow> ApiClient" where
  "client_New url = \<lparr>baseURL = TrimRight url CHR ''/''\<rparr>"

text \<open>A GET of a path with query values, in the order they are set.\<close>

type_synonym http_get = "string \<Rightarrow> (string \<times> string) list \<Rightarrow> error + int \<times> string"

record client_lib =
  PathEscape :: "string \<Rightarrow> string"
  format_g :: "real \<Rightarrow> string"
  dec_score :: "string \<Rightarrow> error + score_view"
  dec_blocks :: "string \<Rightarrow> error + blockEntry list"
  dec_event :: "string \<Rightarrow> error + EventMsg"

definition ScoreIP :: "client_lib \<Rightarrow> http_get \<Rightarrow> ApiClient \<Rightarrow> string \<Rightarrow> error + score_view" where
  "ScoreIP X get c ip =
     (case get (baseURL c @ ''/api/v1/score/'' @ PathEscape X ip) [] of
        Inl e \<Rightarrow> Inl e
      | Inr (status, body) \<Rightarrow>
          if status = 404 then Inl (Fault ''client: not found'')
          else if status \<noteq> 200 then Inl (Fault ''client: score returned'')
          else (case dec_score X body of Inl e \<Rightarrow> Inl (Wrap ''client: decode score'' e) | Inr v \<Rightarrow> Inr v))"

record BlocklistOpts =
  opt_MinScore :: real
  opt_Purpose :: string
  opt_Reasons :: "string list"

definition blocklist_query :: "client_lib \<Rightarrow> BlocklistOpts \<Rightarrow> (string \<times> string) list" where
  "blocklist_query X opts =
     (if opt_MinScore opts > 0 then [(''min_score'', format_g X (opt_MinScore opts))] else [])
     @ (if opt_Purpose opts \<noteq> '''' then [(''purpose'', opt_Purpose opts)] else [])
     @ (if length (opt_Reasons opts) > 0 then [(''reason'', Join (opt_Reasons opts) '','')] else [])"

definition client_Blocklist :: "client_lib \<Rightarrow> http_get \<Rightarrow> ApiClient \<Rightarrow> BlocklistOpts \<Rightarrow> error + blockEntry list" where
  "client_Blocklist X get c opts =
     (case get (baseURL c @ ''/api/v1/blocklist'') (blocklist_query X opts) of
        Inl e \<Rightarrow> Inl e
      | Inr (status, body) \<Rightarrow>
          if status \<noteq> 200 then Inl (Fault ''client: blocklist returned'')
          else (case dec_blocks X body of Inl e \<Rightarrow> Inl (Wrap ''client: decode blocklist'' e) | Inr es \<Rightarrow> Inr es))"

section \<open>The event stream\<close>

text \<open>
  The loop over the lines of the stream, with \<open>bufio.Scanner\<close>'s default cap; \<open>budget\<close> counts the
  sends that still succeed before the context is done.
\<close>

fun event_lines :: "client_lib \<Rightarrow> string list \<Rightarrow> nat option \<Rightarrow> EventMsg list" where
  "event_lines X [] budget = []"
| "event_lines X (line # ls) budget =
     (if \<not> HasPrefix line ''data: '' then event_lines X ls budget
      else let data = TrimPrefix line ''data: ''
           in if data = ''connected'' then event_lines X ls budget
              else case dec_event X data of
                  Inl _ \<Rightarrow> event_lines X ls budget
                | Inr msg \<Rightarrow>
                    (case budget of
                       Some 0 \<Rightarrow> []
                     | _ \<Rightarrow> msg # event_lines X ls (map_option (\<lambda>n. n - 1) budget)))"

definition client_Events :: "client_lib \<Rightarrow> http_get \<Rightarrow> ApiClient \<Rightarrow> nat option \<Rightarrow> error + EventMsg list" where
  "client_Events X get c budget =
     (case get (baseURL c @ ''/api/v1/events'') [] of
        Inl e \<Rightarrow> Inl e
      | Inr (status, body) \<Rightarrow>
          if status \<noteq> 200 then Inl (Fault ''client: events returned'')
          else Inr (event_lines X (fst (scan_lines (2 ^ 16) body)) budget))"

section \<open>What the client makes of the server's stream\<close>

text \<open>The lines of one frame.\<close>

lemma frame_lines: "sse_frame s = (''data: '' @ s) @ NL # NL # []"
  by (simp add: sse_frame_def NL_def)

text \<open>A text of one frame: one line, short enough, and not the greeting.\<close>

definition frame_text :: "string \<Rightarrow> bool" where
  "frame_text b \<longleftrightarrow> b \<noteq> ''connected'' \<and> b \<noteq> '''' \<and> NL \<notin> set b \<and> last b \<noteq> CR \<and> length b + 6 < 2 ^ 16"

lemma scan_frame:
  assumes "NL \<notin> set s" and "s \<noteq> ''''" and "last s \<noteq> CR" and "length s + 6 < cap"
  shows "fst (scan_lines cap (sse_frame s @ rest)) = (''data: '' @ s) # [] # fst (scan_lines cap rest)"
proof -
  have l: "NL \<notin> set (''data: '' @ s)" "length (''data: '' @ s) < cap" "drop_cr (''data: '' @ s) = ''data: '' @ s"
    using assms by (auto simp: NL_def drop_cr_def)
  have e: "NL \<notin> set []" "length [] < cap" "drop_cr [] = []" using assms(4) by (simp_all add: drop_cr_def)
  have "sse_frame s @ rest = (''data: '' @ s) @ NL # ([] @ NL # rest)" by (simp add: sse_frame_def NL_def)
  then show ?thesis
    using scan_line [OF l(1,2), of "[] @ NL # rest"] scan_line [OF e(1,2), of rest] l(3) e(3)
    by (simp add: case_prod_unfold)
qed

lemma data_prefix: "HasPrefix (''data: '' @ s) ''data: ''" "TrimPrefix (''data: '' @ s) ''data: '' = s"
  by (simp_all add: HasPrefix_def TrimPrefix_def)

lemma event_lines_frame:
  "event_lines X ((''data: '' @ ''connected'') # ls) None = event_lines X ls None"
  "b \<noteq> ''connected'' \<Longrightarrow> dec_event X b = Inr m \<Longrightarrow> event_lines X ((''data: '' @ b) # ls) None = m # event_lines X ls None"
  "event_lines X ([] # ls) None = event_lines X ls None"
  unfolding event_lines.simps data_prefix Let_def by (simp_all add: HasPrefix_def)

lemma event_lines_messages:
  assumes "\<forall>m \<in> set ds. \<exists>b. marshal m = Inr b \<and> frame_text b \<and> dec_event X b = Inr m"
  shows "event_lines X (fst (scan_lines (2 ^ 16) (concat (map (\<lambda>m. case marshal m of Inl _ \<Rightarrow> [] | Inr b \<Rightarrow> sse_frame b) ds)))) None = ds"
  using assms
proof (induction ds)
  case (Cons m ds)
  then obtain b where b: "marshal m = Inr b" "frame_text b" "dec_event X b = Inr m" by auto
  then have ne: "b \<noteq> ''connected''" by (simp add: frame_text_def)
  have "event_lines X ((''data: '' @ b) # [] # ls) None = m # event_lines X ls None" for ls
    using event_lines_frame(2) [OF ne b(3), of "[] # ls"] unfolding event_lines_frame(3) .
  with Cons b show ?case by (simp add: scan_frame frame_text_def del: event_lines.simps)
qed simp

text \<open>
  C39. The client reads back what the server wrote: from the text of a connection it returns exactly
  the messages the server delivered, in order, when JSON round trips and no message takes more than
  one line of 64 KiB.
\<close>

theorem client_reads_stream:
  assumes "\<forall>m \<in> set ds. \<exists>b. marshal m = Inr b \<and> frame_text b \<and> dec_event X b = Inr m"
    and "get (baseURL c @ ''/api/v1/events'') [] = Inr (200, transcript marshal ds)"
  shows "client_Events X get c None = Inr ds"
proof -
  have "fst (scan_lines (2 ^ 16) (transcript marshal ds)) = (''data: '' @ ''connected'') # [] #
      fst (scan_lines (2 ^ 16) (concat (map (\<lambda>m. case marshal m of Inl _ \<Rightarrow> [] | Inr b \<Rightarrow> sse_frame b) ds)))"
    unfolding transcript_def by (rule scan_frame) (simp_all add: NL_def CR_def)
  then show ?thesis
    using event_lines_messages [OF assms(1)]
    by (simp only: client_Events_def assms(2) event_lines_frame sum.case prod.case simp_thms if_False)
qed

definition ex_client_lib :: client_lib where
  "ex_client_lib = \<lparr>PathEscape = id, format_g = \<lambda>_. '''', dec_score = \<lambda>_. Inl (Fault ''json''),
     dec_blocks = \<lambda>_. Inl (Fault ''json''),
     dec_event = \<lambda>b. Inr \<lparr>em_IP = b, em_Score = 1, em_Reason = '''', em_Reporter = '''', em_TS = 0\<rparr>\<rparr>"

theorem client_reads_stream_witness:
  "client_Events ex_client_lib (\<lambda>_ _. Inr (200, transcript (\<lambda>m. Inr (em_IP m))
       [\<lparr>em_IP = ''1.2.3.4'', em_Score = 1, em_Reason = '''', em_Reporter = '''', em_TS = 0\<rparr>])) (client_New ''http://localhost/'') None
   = Inr [\<lparr>em_IP = ''1.2.3.4'', em_Score = 1, em_Reason = '''', em_Reporter = '''', em_TS = 0\<rparr>]"
  by (rule client_reads_stream) (simp_all add: ex_client_lib_def frame_text_def NL_def CR_def)

end
