(* ===== verification/Examples.thy ===== *)
theory Examples
  imports Config Files
begin

text \<open>
  The repository check \<open>tools/validate-examples/main.go\<close>: it walks the directories it is given and
  decodes every example configuration and rules file strictly. \<open>filepath.WalkDir\<close> is modelled on a
  directory tree whose reads may fail; the strict YAML decoders are parameters.
\<close>

section \<open>Walking a directory\<close>

text \<open>A directory carries the error of reading it, if any, and its entries in lexical order.\<close>

datatype dir_entry = FileEntry string | DirEntry string "error option" "dir_entry list"

fun entry_name :: "dir_entry \<Rightarrow> string" where
  "entry_name (FileEntry n) = n"
| "entry_name (DirEntry n _ _) = n"

type_synonym 's walk_fn = "string \<Rightarrow> bool \<Rightarrow> error option \<Rightarrow> 's \<Rightarrow> error option \<times> 's"

fun walkDir :: "'s walk_fn \<Rightarrow> string \<Rightarrow> dir_entry \<Rightarrow> 's \<Rightarrow> error option \<times> 's"
  and walkDirs :: "'s walk_fn \<Rightarrow> string \<Rightarrow> dir_entry list \<Rightarrow> 's \<Rightarrow> error option \<times> 's" where
  "walkDir fn path (FileEntry n) s = fn path False None s"
| "walkDir fn path (DirEntry n unreadable ds) s =
     (case fn path True None s of
        (Some e, s) \<Rightarrow> (Some e, s)
      | (None, s) \<Rightarrow>
          (case unreadable of
             None \<Rightarrow> walkDirs fn path ds s
           | Some e \<Rightarrow> (case fn path True (Some e) s of
                 (Some e, s) \<Rightarrow> (Some e, s)
               | (None, s) \<Rightarrow> walkDirs fn path ds s)))"
| "walkDirs fn path [] s = (None, s)"
| "walkDirs fn path (d # ds) s =
     (case walkDir fn (path_Join path (entry_name d)) d s of
        (Some e, s) \<Rightarrow> (Some e, s)
      | (None, s) \<Rightarrow> walkDirs fn path ds s)"

definition WalkDir :: "(string \<Rightarrow> error + dir_entry) \<Rightarrow> string \<Rightarrow> 's walk_fn \<Rightarrow> 's \<Rightarrow> error option \<times> 's" where
  "WalkDir lstat start fn s =
     (case lstat start of Inl e \<Rightarrow> fn start False (Some e) s | Inr d \<Rightarrow> walkDir fn start d s)"

section \<open>The check\<close>

definition path_Base :: "string \<Rightarrow> string" where
  "path_Base p =
     (if p = '''' then ''.''
      else (let q = rev (dropWhile (\<lambda>c. c = CHR ''/'') (rev p))
            in if q = '''' then ''/'' else rev (takeWhile (\<lambda>c. c \<noteq> CHR ''/'') (rev q))))"

definition isCandidate :: "string \<Rightarrow> bool" where
  "isCandidate path =
     (let b = path_Base path
      in if \<not> HasSuffix b ''.yaml'' \<and> \<not> HasSuffix b ''.yml'' then False
         else HasPrefix b ''config'' \<or> HasPrefix b ''rules'')"

text \<open>What the decoder answers: success, the end of an empty file, or an error.\<close>

datatype decoded = Decoded | AtEOF | DecodeFault error

record strict_yaml =
  as_config :: "string \<Rightarrow> decoded"
  as_rules :: "string \<Rightarrow> decoded"

definition strictDecode :: "error + string \<Rightarrow> (string \<Rightarrow> decoded) \<Rightarrow> error option" where
  "strictDecode file dec =
     (case file of
        Inl e \<Rightarrow> Some e
      | Inr data \<Rightarrow> (case dec data of DecodeFault e \<Rightarrow> Some e | _ \<Rightarrow> None))"

definition validateFile :: "strict_yaml \<Rightarrow> (string \<Rightarrow> error + string) \<Rightarrow> string \<Rightarrow> error option" where
  "validateFile Y read path =
     (let b = path_Base path
      in if \<not> isCandidate path then None
         else if HasPrefix b ''config'' then strictDecode (read path) (as_config Y)
         else strictDecode (read path) (as_rules Y))"

text \<open>The callback of the walk, on the numbers of files checked and of failures.\<close>

definition validate_entry :: "strict_yaml \<Rightarrow> (string \<Rightarrow> error + string) \<Rightarrow> (nat \<times> nat) walk_fn" where
  "validate_entry Y read path is_dir walkErr st =
     (case walkErr of
        Some e \<Rightarrow> (Some e, st)
      | None \<Rightarrow>
          if is_dir then (None, st)
          else if \<not> isCandidate path then (None, st)
          else (None, (fst st + 1, snd st + (if validateFile Y read path \<noteq> None then 1 else 0))))"

fun validate_roots ::
  "strict_yaml \<Rightarrow> (string \<Rightarrow> error + string) \<Rightarrow> (string \<Rightarrow> error + dir_entry) \<Rightarrow> string list \<Rightarrow> nat \<times> nat \<Rightarrow> nat \<times> nat" where
  "validate_roots Y read lstat [] st = st"
| "validate_roots Y read lstat (start # starts) st =
     (case WalkDir lstat start (validate_entry Y read) st of
        (Some e, (checked, failures)) \<Rightarrow> validate_roots Y read lstat starts (checked, failures + 1)
      | (None, st) \<Rightarrow> validate_roots Y read lstat starts st)"

text \<open>The exit code, and the number printed on success.\<close>

definition validate_main ::
  "strict_yaml \<Rightarrow> (string \<Rightarrow> error + string) \<Rightarrow> (string \<Rightarrow> error + dir_entry) \<Rightarrow> string list \<Rightarrow> nat \<times> nat option" where
  "validate_main Y read lstat args =
     (if args = [] then (2, None)
      else (case validate_roots Y read lstat args (0, 0) of
              (checked, failures) \<Rightarrow> if failures > 0 then (1, None) else (0, Some checked)))"

section \<open>What it accepts\<close>

text \<open>The files below an entry, or nothing when a directory on the way cannot be read.\<close>

fun files_under :: "string \<Rightarrow> dir_entry \<Rightarrow> string list option"
  and files_below :: "string \<Rightarrow> dir_entry list \<Rightarrow> string list option" where
  "files_under path (FileEntry n) = Some [path]"
| "files_under path (DirEntry n unreadable ds) = (if unreadable = None then files_below path ds else None)"
| "files_below path [] = Some []"
| "files_below path (d # ds) =
     (case (files_under (path_Join path (entry_name d)) d, files_below path ds) of
        (Some a, Some b) \<Rightarrow> Some (a @ b) | _ \<Rightarrow> None)"

definition bad_files :: "strict_yaml \<Rightarrow> (string \<Rightarrow> error + string) \<Rightarrow> string list \<Rightarrow> nat" where
  "bad_files Y read ps = length (filter (\<lambda>p. validateFile Y read p \<noteq> None) (filter isCandidate ps))"

lemma bad_files_append: "bad_files Y read (a @ b) = bad_files Y read a + bad_files Y read b"
  by (simp add: bad_files_def)

lemma walk_files:
  "case files_under path d of
     Some ps \<Rightarrow> walkDir (validate_entry Y read) path d st =
       (None, (fst st + length (filter isCandidate ps), snd st + bad_files Y read ps))
   | None \<Rightarrow> fst (walkDir (validate_entry Y read) path d st) \<noteq> None"
  "case files_below path ds of
     Some ps \<Rightarrow> walkDirs (validate_entry Y read) path ds st =
       (None, (fst st + length (filter isCandidate ps), snd st + bad_files Y read ps))
   | None \<Rightarrow> fst (walkDirs (validate_entry Y read) path ds st) \<noteq> None"
proof (induction path d and path ds arbitrary: st and st rule: files_under_files_below.induct)
  case (4 path d ds)
  obtain r st' where w: "walkDir (validate_entry Y read) (path_Join path (entry_name d)) d st = (r, st')" by (rule prod.exhaust)
  show ?case
    using 4(1) [of st] 4(2) [of st'] w
    by (auto simp: bad_files_append split: option.splits)
qed (auto simp: validate_entry_def bad_files_def split: option.splits)

lemma walk_grows:
  "snd st \<le> snd (snd (walkDir (validate_entry Y read) path d st))"
  "snd st \<le> snd (snd (walkDirs (validate_entry Y read) path ds st))"
proof (induction path d and path ds arbitrary: st and st rule: files_under_files_below.induct)
  case (4 path d ds)
  obtain r st' where w: "walkDir (validate_entry Y read) (path_Join path (entry_name d)) d st = (r, st')"
    by (rule prod.exhaust)
  then have "snd st \<le> snd st'" using 4(1) [of st] by simp
  then show ?case using 4(2) [of st'] w by (auto split: option.split)
qed (auto simp: validate_entry_def split: option.splits)

lemma validate_starts_grow: "snd st \<le> snd (validate_roots Y read lstat starts st)"
proof (induction starts arbitrary: st)
  case (Cons start starts)
  obtain r c f where w: "WalkDir lstat start (validate_entry Y read) st = (r, c, f)" by (metis prod.exhaust)
  have "snd st \<le> f"
    using walk_grows(1) [where st = st and Y = Y and read = read and path = start] w
    by (auto simp: WalkDir_def validate_entry_def split: sum.splits) (metis snd_conv)
  with w Cons.IH [of "(c, f)"] Cons.IH [of "(c, f + 1)"] show ?case by (auto split: option.split)
qed simp

text \<open>Which directories a run accepts: every file is reached, and every candidate decodes.\<close>

definition accepts ::
  "strict_yaml \<Rightarrow> (string \<Rightarrow> error + string) \<Rightarrow> (string \<Rightarrow> error + dir_entry) \<Rightarrow> string \<Rightarrow> bool" where
  "accepts Y read lstat start \<longleftrightarrow>
     (\<exists>d ps. lstat start = Inr d \<and> files_under start d = Some ps \<and>
        (\<forall>p \<in> set ps. isCandidate p \<longrightarrow> validateFile Y read p = None))"

lemma WalkDir_accepts:
  "accepts Y read lstat start \<longleftrightarrow>
     (\<exists>c. WalkDir lstat start (validate_entry Y read) st = (None, c, snd st))"
proof (cases "lstat start")
  case (Inl e)
  then show ?thesis by (simp add: accepts_def WalkDir_def validate_entry_def)
next
  case (Inr d)
  have "bad_files Y read ps = 0 \<longleftrightarrow> (\<forall>p \<in> set ps. isCandidate p \<longrightarrow> validateFile Y read p = None)" for ps
    by (auto simp: bad_files_def filter_empty_conv)
  with Inr walk_files(1) [where path = start and d = d and Y = Y and read = read and st = st] show ?thesis
    by (auto simp: accepts_def WalkDir_def split: option.splits)
qed

lemma validate_roots_accepts:
  "snd (validate_roots Y read lstat starts st) = snd st \<longleftrightarrow> (\<forall>start \<in> set starts. accepts Y read lstat start)"
proof (induction starts arbitrary: st)
  case (Cons start starts)
  obtain r c f where w: "WalkDir lstat start (validate_entry Y read) st = (r, c, f)" by (metis prod.exhaust)
  have le: "snd st \<le> f"
    using walk_grows(1) [where st = st and Y = Y and read = read and path = start] w
    by (auto simp: WalkDir_def validate_entry_def split: sum.splits) (metis snd_conv)
  have acc: "accepts Y read lstat start \<longleftrightarrow> r = None \<and> f = snd st" using WalkDir_accepts [of Y read lstat start st] w by simp
  show ?case
  proof (cases r)
    case None
    have "snd (validate_roots Y read lstat starts (c, f)) = snd st \<Longrightarrow> f = snd st"
      using validate_starts_grow [of "(c, f)" Y read lstat starts] le by simp
    with w acc None Cons.IH [of "(c, f)"] show ?thesis by auto
  next
    case (Some e)
    have "snd st < snd (validate_roots Y read lstat starts (c, f + 1))"
      using validate_starts_grow [of "(c, f + 1)" Y read lstat starts] le by simp
    with w acc Some show ?thesis by simp
  qed
qed simp

text \<open>The check passes exactly when it was given directories and accepts each of them.\<close>

theorem validate_passes_iff:
  "fst (validate_main Y read lstat args) = 0 \<longleftrightarrow>
     args \<noteq> [] \<and> (\<forall>start \<in> set args. accepts Y read lstat start)"
  using validate_roots_accepts [of Y read lstat args "(0, 0)"]
  by (auto simp: validate_main_def split: prod.splits)

end
