(* ===== verification/Spec2Isabelle.thy ===== *)
theory Spec2Isabelle
  imports Network Firewall Races Cmdline Dnsbl Pollers Client Examples
begin

text \<open>
  FederLoom: a federated reputation network for IP addresses.

  A node watches its machine through ingest sources (log files, fail2ban, mailcow, CrowdSec),
  turns what it sees into events, keeps a reputation score per address and blocks addresses at
  the firewall by rules. Nodes exchange signed events over libp2p gossip. How much a remote
  report counts is the receiving operator's decision: only peers certified by a Person identity
  the operator has anchored carry weight, everybody else together stays below a cap. Operators keep the trust
  files with \<open>federloomctl\<close>; local programs read the scores over HTTP, a DNSBL and a Go client.

  This development models that program operation by operation and proves what makes it safe to
  run: addresses of the operator are never blocked, strangers never block, trust comes only from
  verified certificates under the operator's own anchors, messages count once and only when they
  verify, and every interface answers from the same records. Where the code does not do what it
  says, a theorem shows the behaviour it has.

  \<^bold>\<open>Parts and theories.\<close>

  Foundations.
  \<^item> \<open>Go_Prelude\<close>: times, durations, errors, strings, slices and maps of Go's standard library, the
    collections \<open>go_simps\<close>, \<open>range_intros\<close>, \<open>frame_simps\<close>.
  \<^item> \<open>State_Logic\<close>: the state monad of the handlers with rules for triples and for invariants
    (\<open>preserves_rules\<close>).
  \<^item> \<open>Time_Format\<close>, \<open>Base64\<close>, \<open>Netip\<close>, \<open>Files\<close>: RFC 3339 texts, standard base64, \<open>net/netip\<close>
    (parsing, printing, prefixes), and the calls of package \<open>os\<close> with their errors.
  \<^item> \<open>Flags\<close>: command lines as package \<open>flag\<close> reads them, and \<open>time.ParseDuration\<close>.

  Scores (\<open>internal/store\<close>, \<open>internal/reputation\<close>, \<open>internal/rules\<close>, \<open>internal/netutil\<close>).
  \<^item> \<open>Proto\<close>: the messages of \<open>pkg/proto/messages.go\<close>.
  \<^item> \<open>Store\<close>: \<open>store.go\<close>, \<open>bloom.go\<close>; the locale \<open>score_store\<close> is what the engine needs of it.
  \<^item> \<open>Reputation\<close>: \<open>engine.go\<close>, \<open>decay.go\<close>, \<open>corroboration.go\<close>. The record invariant and its
    preservation, caps on what strangers add and take away, the law of decay.
  \<^item> \<open>Rules\<close>: \<open>rule.go\<close>, \<open>burst.go\<close>; the memoising evaluation against a reference.
  \<^item> \<open>Netutil\<close>: \<open>netutil.go\<close>; \<open>Config\<close>: \<open>config/config.go\<close>.

  Enforcement (\<open>internal/enforce\<close>, \<open>internal/store/whitelist.go\<close>).
  \<^item> \<open>Allowlists\<close>: \<open>neverblock.go\<close>, \<open>whitelist.go\<close>; both interpret \<open>address_filter\<close>.
  \<^item> \<open>Enforce\<close>: \<open>ipset.go\<close>, \<open>nftables.go\<close>, \<open>crowdsec.go\<close>; the contract of the \<open>Sink\<close> interface is the
    locale \<open>deny_sink\<close>, and the two command sinks satisfy it whenever the tools behave as documented.

  Identity and trust (\<open>internal/identity\<close>, \<open>internal/trust\<close>, \<open>internal/repquery\<close>).
  \<^item> \<open>Identity\<close>: \<open>person.go\<close>, \<open>cert.go\<close>, \<open>sign.go\<close>, \<open>nodekey.go\<close>; what a signature covers.
  \<^item> \<open>Trust\<close>: \<open>store.go\<close> and its files; the sources of trust, hot reload, atomic saves.
  \<^item> \<open>Repquery\<close>: asking other nodes: aggregates, recomputation, cache, resolver, responder.

  The network (\<open>internal/transport\<close>, \<open>internal/discovery\<close>).
  \<^item> \<open>Transport\<close>: \<open>options.go\<close>, \<open>relay.go\<close>, \<open>gossip.go\<close>, \<open>dht.go\<close>, \<open>reconnect.go\<close>.
  \<^item> \<open>Discovery\<close>: \<open>discovery.go\<close>, \<open>relaylist.go\<close>.

  The node (\<open>internal/node\<close>, \<open>internal/resources\<close>, \<open>internal/observability\<close>).
  \<^item> \<open>Governor\<close>: \<open>governor.go\<close>, refined to a meter that remembers every charge.
  \<^item> \<open>Caches\<close>: \<open>dedup.go\<close>; the locale \<open>evicting_cache\<close> also carries the answer cache of \<open>Repquery\<close>.
  \<^item> \<open>Observability\<close>: \<open>observer.go\<close>, \<open>prometheus.go\<close>, \<open>sqlite.go\<close>.
  \<^item> \<open>Node\<close>: \<open>node.go\<close>, the composition root: each handler of the event loop, \<open>New\<close>, and the runs
    \<open>node_run\<close> of the loop as an inductive relation.
  \<^item> \<open>Daemon\<close>: \<open>cmd/federloomd/main.go\<close>, what \<open>Run\<close> starts around the loop, and \<open>fanIn\<close> as an
    interleaving of its goroutines, the sources and the reader.
  \<^item> \<open>Node_Safety\<close> and \<open>Node_Exchange\<close>: what no run does, and how a node deals with its peers.
  \<^item> \<open>Firewall\<close>: the node over any sink that keeps \<open>deny_sink\<close>: which addresses are denied after a run,
    what a pass of decay does to records and blocks (it deletes none), and how a stranger's report
    lifts a federated block.
  \<^item> \<open>Races\<close>: the critical sections of federated lookups and disputes interleaved: the race between them
    happens, and is bounded.
  \<^item> \<open>Network\<close>: any number of nodes composed into one system with senders who lie; nobody's name gets
    into a record without a report of their own. The swarm's promises, that gossipsub keeps publishers
    apart and that signatures are not forged, are the guard \<open>deliverable\<close> of its steps.

  Input and output (\<open>internal/ingest\<close>, \<open>internal/api\<close>, \<open>internal/dnsbl\<close>, \<open>pkg/client\<close>).
  \<^item> \<open>Tailers\<close>: \<open>tail.go\<close>, \<open>honeypot.go\<close>, \<open>opencanary.go\<close>, \<open>spamtrap.go\<close>.
  \<^item> \<open>Pollers\<close>: \<open>plugin.go\<close>, \<open>exec.go\<close>, \<open>fail2ban.go\<close>, \<open>mailcow_logs.go\<close>, \<open>crowdsec.go\<close>.
  \<^item> \<open>Api\<close>: the handlers, the taxonomy and the event stream; \<open>Dnsbl\<close>: \<open>server.go\<close>; \<open>Client\<close>: \<open>client.go\<close>.

  Administration (\<open>cmd/federloomctl\<close>, \<open>internal/federation\<close>).
  \<^item> \<open>Ctl\<close>: the commands of \<open>trust.go\<close>, \<open>identity.go\<close>, \<open>whitelist.go\<close> on the file system.
  \<^item> \<open>Ctl_Federation\<close>: \<open>invitation.go\<close>, \<open>federation.go\<close>, \<open>setup.go\<close>, \<open>status.go\<close>, and every command as one
    step.
  \<^item> \<open>Cmdline\<close>: \<open>main.go\<close> of both commands, from the words of a line to the exit code; invariants of
    the files hold for any sequence of lines.
  \<^item> \<open>Examples\<close>: the repository check \<open>tools/validate-examples\<close>.

  \<^bold>\<open>How the code is represented.\<close>
  A struct is a record, an interface with several implementations a locale, an error return a
  sum \<open>error + 'a\<close>, a handler of the node a program of the state monad in the order of the source.
  What a handler does to the outside is a list of effects. One clock reading serves one
  handler or poll; the exceptions are said where they matter. The event loop is serial as in the
  code, and a lookup or gauge tick of another goroutine is one step between its events. A
  \<open>float64\<close> is a real number, without rounding; a duration computed from configured ones is an
  unbounded integer.

  Code outside the repository is an argument of the definitions that use it: BadgerDB and the
  bloom filter (\<open>backend\<close>), Ed25519 and SHA-256 (\<open>ed25519\<close>), libp2p's keys (\<open>libp2p\<close>), JSON and YAML
  codecs, the firewall commands, HTTP and DNS, and the outcome of each call on the libp2p host. What
  their documentation promises is the assumption of a locale, and each such locale has an
  interpretation that shows the laws can hold together.

  \<^bold>\<open>Bounds.\<close>
  The definitions are total; no fuel is used. Recursions that are not structural come with
  their measure. Endless loops (the ingest sources, the reconnect loop, the client of the event
  stream) are modelled by one round, or by the list of inputs they consume, and run over
  lists of any length; \<open>fanIn\<close>'s goroutines have a measure, \<open>Daemon.steps_left\<close>. Where a loop can stop because its context ends while it sends, \<open>budget\<close> is the
  number of sends that succeed, \<open>None\<close> when it does not end; the theorems hold for the
  budget they name. Constants (64 slots of a subscriber, 10 buckets, eight
  hops of a trace, scanner caps) are those of the source.

  \<^bold>\<open>Not modelled.\<close>
  Goroutines and locks other than those of \<open>fanIn\<close> and of the two sets \<open>matMu\<close> guards, log lines and texts printed for the operator, JSON and YAML syntax, the metrics
  endpoint and the SQL schema, signals, listening and shutdown of servers,
  the accessors that return a library's object, helpers for tests, and \<open>tools.go\<close>, which only pins a
  build dependency.
\<close>

end
